(* ===== verification/Prelude.thy ===== *)
theory Prelude
  imports Main "HOL-Library.Word" "HOL-Library.AList" "HOL-Library.Multiset"
begin

text \<open>
  What every component of the development shares: the machine integers of the Rust code at
  their width, the saturating, checked and big-endian operations of Rust's standard library,
  results with an error and a panic branch together with the propagation of the \<open>?\<close> operator,
  the storage layer around an extrinsic, bounded vectors, and storage maps.

  Arithmetic written with a plain operator in the source wraps here, as it does in the release
  profile (no overflow checks) the project is built with. A cast \<open>n as u16\<close> of a length is
  \<open>of_nat n :: u16\<close>, which truncates, and \<open>unat\<close> is the widening cast back to \<open>usize\<close>.
\<close>

section \<open>Machine integers\<close>

type_synonym u8 = "8 word"
type_synonym u16 = "16 word"
type_synonym u32 = "32 word"
type_synonym u64 = "64 word"
type_synonym u128 = "128 word"
type_synonym bytes = "u8 list"

type_synonym block_number = u32
type_synonym account_id = bytes
type_synonym dkg_id = bytes
type_synonym resource_id = bytes
type_synonym hash256 = bytes

named_theorems machine_simps "rules that read word arithmetic as arithmetic on naturals"
named_theorems result_simps "rules that push a result through its continuation"
named_theorems storage_simps "rules for reading a storage map after a write"

definition saturating_add :: "'a::len word \<Rightarrow> 'a word \<Rightarrow> 'a word" where
  "saturating_add a b = (if unat a + unat b < 2 ^ LENGTH('a) then a + b else - 1)"

definition saturating_sub :: "'a::len word \<Rightarrow> 'a word \<Rightarrow> 'a word" where
  "saturating_sub a b = (if b \<le> a then a - b else 0)"

definition saturating_mul :: "'a::len word \<Rightarrow> 'a word \<Rightarrow> 'a word" where
  "saturating_mul a b = (if unat a * unat b < 2 ^ LENGTH('a) then a * b else - 1)"

definition saturating_pow :: "'a::len word \<Rightarrow> nat \<Rightarrow> 'a word" where
  "saturating_pow a n = (if unat a ^ n < 2 ^ LENGTH('a) then a ^ n else - 1)"

definition checked_add :: "'a::len word \<Rightarrow> 'a word \<Rightarrow> 'a word option" where
  "checked_add a b = (if unat a + unat b < 2 ^ LENGTH('a) then Some (a + b) else None)"

definition checked_sub :: "'a::len word \<Rightarrow> 'a word \<Rightarrow> 'a word option" where
  "checked_sub a b = (if b \<le> a then Some (a - b) else None)"

lemma unat_bound: "unat (w :: 'a::len word) < 2 ^ LENGTH('a)"
  by simp

lemma unat_max_word: "unat (- 1 :: 'a::len word) = 2 ^ LENGTH('a) - 1"
  by (simp add: unsigned_minus_1_eq_mask mask_eq_exp_minus_1)

lemma unat_add_no_overflow:
  "unat a + unat b < 2 ^ LENGTH('a) \<Longrightarrow> unat (a + b :: 'a::len word) = unat a + unat b"
  by (simp add: unat_word_ariths)

lemma unat_saturating_add [machine_simps]:
  "unat (saturating_add a b :: 'a::len word) = min (unat a + unat b) (2 ^ LENGTH('a) - 1)"
  by (auto simp: saturating_add_def unat_add_no_overflow unat_max_word min_def)

lemma unat_saturating_sub [machine_simps]:
  "unat (saturating_sub a b :: 'a::len word) = unat a - unat b"
  by (auto simp: saturating_sub_def unat_sub word_le_nat_alt)

lemma unat_power_no_overflow:
  "unat a ^ n < 2 ^ LENGTH('a) \<Longrightarrow> unat (a ^ n :: 'a::len word) = unat a ^ n"
proof -
  assume b: "unat a ^ n < 2 ^ LENGTH('a)"
  have "unat (a ^ n) = unat (of_nat (unat a ^ n) :: 'a word)"
    by simp
  also have "\<dots> = unat a ^ n"
    using b by (simp only: unat_of_nat mod_less)
  finally show ?thesis .
qed

lemma unat_saturating_pow [machine_simps]:
  "unat (saturating_pow a n :: 'a::len word) = min (unat a ^ n) (2 ^ LENGTH('a) - 1)"
proof (cases "unat a ^ n < 2 ^ LENGTH('a)")
  case True
  then have "unat a ^ n \<le> 2 ^ LENGTH('a) - 1"
    by linarith
  with True show ?thesis
    by (simp only: saturating_pow_def unat_power_no_overflow if_True min.absorb1)
next
  case False
  then have "2 ^ LENGTH('a) - 1 \<le> unat a ^ n"
    by linarith
  with False show ?thesis
    by (simp only: saturating_pow_def unat_max_word if_False min.absorb2)
qed

lemma checked_add_Some:
  "checked_add a b = Some c \<Longrightarrow> unat (c :: 'a::len word) = unat a + unat b"
  by (auto simp: checked_add_def unat_add_no_overflow split: if_splits)

lemma unat_of_nat_u16 [machine_simps]: "n < 65536 \<Longrightarrow> unat (of_nat n :: u16) = n"
  by (simp add: unat_of_nat)

lemma unat_of_nat_u32 [machine_simps]: "n < 4294967296 \<Longrightarrow> unat (of_nat n :: u32) = n"
  by (simp add: unat_of_nat)

subsection \<open>Big-endian byte strings\<close>

fun nat_to_be :: "nat \<Rightarrow> nat \<Rightarrow> bytes" where
  "nat_to_be 0 n = []"
| "nat_to_be (Suc k) n = nat_to_be k (n div 256) @ [of_nat (n mod 256)]"

definition nat_of_be :: "bytes \<Rightarrow> nat" where
  "nat_of_be bs = foldl (\<lambda>a b. a * 256 + unat b) 0 bs"

definition to_be_bytes :: "'a::len word \<Rightarrow> bytes" where
  "to_be_bytes w = nat_to_be (LENGTH('a) div 8) (unat w)"

definition from_be_bytes :: "bytes \<Rightarrow> 'a::len word" where
  "from_be_bytes bs = of_nat (nat_of_be bs)"

lemma length_nat_to_be [simp]: "length (nat_to_be k n) = k"
  by (induction k arbitrary: n) auto

lemma nat_of_be_snoc: "nat_of_be (bs @ [b]) = nat_of_be bs * 256 + unat b"
  by (simp add: nat_of_be_def)

lemma unat_of_nat_byte: "unat (of_nat (n mod 256) :: u8) = n mod 256"
  by (simp add: unat_of_nat)

lemma nat_of_be_nat_to_be: "nat_of_be (nat_to_be k n) = n mod 256 ^ k"
proof (induction k arbitrary: n)
  case 0
  then show ?case by (simp add: nat_of_be_def)
next
  case (Suc k)
  have "nat_of_be (nat_to_be (Suc k) n) = (n div 256 mod 256 ^ k) * 256 + n mod 256"
    by (simp add: nat_of_be_snoc Suc unat_of_nat_byte)
  also have "\<dots> = n mod 256 ^ Suc k"
    by (simp add: mod_mult2_eq mult.commute)
  finally show ?case .
qed

lemma nat_to_be_nat_of_be: "nat_to_be (length bs) (nat_of_be bs) = bs"
proof (induction bs rule: rev_induct)
  case Nil
  then show ?case by simp
next
  case (snoc b bs)
  have b: "unat b < 256"
    using unat_bound [of b] by simp
  then have "(nat_of_be bs * 256 + unat b) div 256 = nat_of_be bs"
    and "(nat_of_be bs * 256 + unat b) mod 256 = unat b"
    by simp_all
  then show ?case
    by (simp add: nat_of_be_snoc snoc)
qed

lemma nat_of_be_bound: "nat_of_be bs < 256 ^ length bs"
proof -
  have "nat_of_be bs = nat_of_be bs mod 256 ^ length bs"
    using nat_of_be_nat_to_be [of "length bs" "nat_of_be bs"] by (simp add: nat_to_be_nat_of_be)
  then show ?thesis
    by (metis mod_less_divisor zero_less_numeral zero_less_power)
qed

lemma length_to_be_bytes_u32 [simp]: "length (to_be_bytes (w :: u32)) = 4"
  by (simp add: to_be_bytes_def)

lemma length_to_be_bytes_u64 [simp]: "length (to_be_bytes (w :: u64)) = 8"
  by (simp add: to_be_bytes_def)

lemma from_to_be_bytes_u32 [simp]: "from_be_bytes (to_be_bytes (w :: u32)) = w"
  using unat_bound [of w] by (simp add: from_be_bytes_def to_be_bytes_def nat_of_be_nat_to_be)

lemma from_to_be_bytes_u64 [simp]: "from_be_bytes (to_be_bytes (w :: u64)) = w"
  using unat_bound [of w] by (simp add: from_be_bytes_def to_be_bytes_def nat_of_be_nat_to_be)

lemma to_from_be_bytes_u32 [simp]: "length bs = 4 \<Longrightarrow> to_be_bytes (from_be_bytes bs :: u32) = bs"
  using nat_of_be_bound [of bs] nat_to_be_nat_of_be [of bs]
  by (simp add: from_be_bytes_def to_be_bytes_def unat_of_nat)

lemma to_from_be_bytes_u64 [simp]: "length bs = 8 \<Longrightarrow> to_be_bytes (from_be_bytes bs :: u64) = bs"
  using nat_of_be_bound [of bs] nat_to_be_nat_of_be [of bs]
  by (simp add: from_be_bytes_def to_be_bytes_def unat_of_nat)

section \<open>Results\<close>

text \<open>
  A fallible operation of the runtime takes the state and returns its result with the state it
  leaves behind. \<open>Panic\<close> is a failed assertion, \<open>expect\<close> or out-of-range index; nothing is
  claimed of the state next to it.
\<close>

datatype ('e, 'a) result = Ok 'a | Err 'e | Panic

fun and_then :: "('e, 'a) result \<times> 's \<Rightarrow> ('a \<Rightarrow> 's \<Rightarrow> ('e, 'b) result \<times> 's) \<Rightarrow> ('e, 'b) result \<times> 's" where
  "and_then (Ok a, s) k = k a s"
| "and_then (Err e, s) k = (Err e, s)"
| "and_then (Panic, s) k = (Panic, s)"

lemma and_then_Ok [result_simps]:
  "and_then m k = (Ok b, t) \<longleftrightarrow> (\<exists>a s. m = (Ok a, s) \<and> k a s = (Ok b, t))"
  by (cases "(m, k)" rule: and_then.cases) auto

lemma and_then_split:
  "P (and_then m k) \<longleftrightarrow>
     (\<forall>a s. m = (Ok a, s) \<longrightarrow> P (k a s)) \<and> (\<forall>e s. m = (Err e, s) \<longrightarrow> P (Err e, s)) \<and>
     (\<forall>s. m = (Panic, s) \<longrightarrow> P (Panic, s))"
  by (cases "(m, k)" rule: and_then.cases) auto

text \<open>
  An extrinsic runs in a storage layer: what it wrote is kept only if it returns \<open>Ok\<close>.
\<close>

fun extrinsic :: "('s \<Rightarrow> ('e, 'a) result \<times> 's) \<Rightarrow> 's \<Rightarrow> ('e, 'a) result \<times> 's" where
  "extrinsic f s = (case f s of (Ok a, s') \<Rightarrow> (Ok a, s') | (r, s') \<Rightarrow> (r, s))"

lemma extrinsic_Ok [result_simps]: "extrinsic f s = (Ok a, t) \<longleftrightarrow> f s = (Ok a, t)"
  by (auto split: prod.splits result.splits)

lemma extrinsic_Err: "extrinsic f s = (Err e, t) \<Longrightarrow> t = s"
  by (auto split: prod.splits result.splits)

lemma extrinsic_not_Ok: "extrinsic f s = (r, t) \<Longrightarrow> (\<And>a. r \<noteq> Ok a) \<Longrightarrow> t = s"
  by (auto split: prod.splits result.splits)

lemma extrinsic_cases:
  assumes "extrinsic f s = (r, t)"
  obtains (ok) a where "r = Ok a" and "f s = (Ok a, t)" | (unchanged) "t = s"
  using assms by (auto split: prod.splits result.splits)

declare extrinsic.simps [simp del]

definition is_ok :: "('e, 'a) result \<Rightarrow> bool" where
  "is_ok r = (case r of Ok _ \<Rightarrow> True | _ \<Rightarrow> False)"

lemma is_ok_simps [simp]: "is_ok (Ok a)" "\<not> is_ok (Err e)" "\<not> is_ok Panic"
  by (simp_all add: is_ok_def)

section \<open>Origins\<close>

text \<open>The origins of a call: the root, a signed account, or none (an unsigned transaction).\<close>

datatype origin = Root | Signed account_id | NoOrigin

section \<open>Bounded vectors\<close>

definition try_push :: "nat \<Rightarrow> 'a \<Rightarrow> 'a list \<Rightarrow> 'a list option" where
  "try_push bound x xs = (if length xs < bound then Some (xs @ [x]) else None)"

definition try_bounded :: "nat \<Rightarrow> 'a list \<Rightarrow> 'a list option" where
  "try_bounded bound xs = (if length xs \<le> bound then Some xs else None)"

lemma try_push_Some [simp]: "try_push n x xs = Some ys \<longleftrightarrow> length xs < n \<and> ys = xs @ [x]"
  by (auto simp: try_push_def)

lemma try_push_None [simp]: "try_push n x xs = None \<longleftrightarrow> n \<le> length xs"
  by (auto simp: try_push_def)

lemma try_bounded_Some [simp]: "try_bounded n xs = Some ys \<longleftrightarrow> length xs \<le> n \<and> ys = xs"
  by (auto simp: try_bounded_def)

lemma try_bounded_None [simp]: "try_bounded n xs = None \<longleftrightarrow> n < length xs"
  by (auto simp: try_bounded_def)

section \<open>Storage maps that are iterated\<close>

text \<open>
  A storage map the code iterates over is an association list with distinct keys. The order in
  which the iterator of the storage layer visits the entries is the order of the hashed keys; it
  is a parameter of the operations that iterate, a function that permutes the entries.
\<close>

type_synonym ('k, 'v) smap = "('k \<times> 'v) list"

definition storage_order :: "(('k, 'v) smap \<Rightarrow> ('k, 'v) smap) \<Rightarrow> bool" where
  "storage_order ord \<longleftrightarrow> (\<forall>m. mset (ord m) = mset m)"

abbreviation contains_key :: "('k, 'v) smap \<Rightarrow> 'k \<Rightarrow> bool" where
  "contains_key m k \<equiv> map_of m k \<noteq> None"

definition wf_smap :: "('k, 'v) smap \<Rightarrow> bool" where
  "wf_smap m \<longleftrightarrow> distinct (map fst m)"

lemma wf_smap_Nil [simp]: "wf_smap []"
  by (simp add: wf_smap_def)

lemma wf_smap_update [simp]: "wf_smap m \<Longrightarrow> wf_smap (AList.update k v m)"
  by (simp add: wf_smap_def AList.distinct_update)

lemma wf_smap_delete [simp]: "wf_smap m \<Longrightarrow> wf_smap (AList.delete k m)"
  by (simp add: wf_smap_def AList.distinct_delete)

lemma map_of_update [simp, storage_simps]:
  "map_of (AList.update k v m) k' = (if k' = k then Some v else map_of m k')"
  by (simp add: AList.update_conv')

lemma map_of_delete [simp, storage_simps]:
  "map_of (AList.delete k m) k' = (if k' = k then None else map_of m k')"
  by (simp add: AList.delete_conv')

lemma storage_order_set: "storage_order ord \<Longrightarrow> set (ord m) = set m"
proof -
  assume "storage_order ord"
  then have "mset (ord m) = mset m"
    by (simp add: storage_order_def)
  then show "set (ord m) = set m"
    by (rule mset_eq_setD)
qed

lemma storage_order_wf: "storage_order ord \<Longrightarrow> wf_smap m \<Longrightarrow> wf_smap (ord m)"
proof -
  assume "storage_order ord" and wf: "wf_smap m"
  then have "mset (map fst (ord m)) = mset (map fst m)"
    by (simp add: storage_order_def)
  from mset_eq_imp_distinct_iff [OF this] wf show "wf_smap (ord m)"
    by (simp add: wf_smap_def)
qed

lemma storage_order_id: "storage_order (\<lambda>m. m)"
  by (simp add: storage_order_def)

lemma wf_smap_map_of: "wf_smap m \<Longrightarrow> (k, v) \<in> set m \<longleftrightarrow> map_of m k = Some v"
  by (simp add: wf_smap_def)

text \<open>Lists of values of a storage map, as a multiset: what a write and a removal do to it.\<close>

lemma mset_values_update_new:
  "map_of m k = None \<Longrightarrow> mset (map snd (AList.update k v m)) = add_mset v (mset (map snd m))"
  by (induction m) (auto split: if_splits)

lemma delete_not_key: "map_of m k = None \<Longrightarrow> AList.delete k m = m"
  by (induction m) (auto simp: AList.delete_eq split: if_splits)

lemma mset_values_delete:
  "wf_smap m \<Longrightarrow> map_of m k = Some v \<Longrightarrow>
   mset (map snd m) = add_mset v (mset (map snd (AList.delete k m)))"
proof (induction m)
  case Nil
  then show ?case by simp
next
  case (Cons p m)
  obtain k' v' where p: "p = (k', v')" by (cases p)
  show ?case
  proof (cases "k' = k")
    case True
    with Cons.prems p have "map_of m k = None"
      by (auto simp: wf_smap_def map_of_eq_None_iff)
    with True Cons.prems p show ?thesis
      by (simp add: delete_not_key)
  next
    case False
    with Cons p show ?thesis
      by (auto simp: wf_smap_def)
  qed
qed

lemma mset_values_update_old:
  "wf_smap m \<Longrightarrow> map_of m k = Some v \<Longrightarrow>
   add_mset v (mset (map snd (AList.update k v' m))) = add_mset v' (mset (map snd m))"
  by (induction m) (auto simp: wf_smap_def split: if_splits)

end
