(* ===== verification/Primitives.thy ===== *)
theory Primitives
  imports Prelude
begin

text \<open>
  The crate \<open>dkg-runtime-primitives\<close>: the proposal types and their payload keys, the batches of
  unsigned and signed proposals and the bytes that are signed for them, the hand-written codec of
  \<open>RefreshProposal\<close>, the window of block numbers in which a gossip message is delivered, and the
  ECDSA helpers of \<open>utils.rs\<close>.

  Code the crate only calls (\<open>webb_proposals\<close>, \<open>ethereum\<close>, \<open>ethabi\<close>, the host's hashing and
  signature recovery, \<open>libsecp256k1\<close>) is the record \<open>ext\<close>, an argument of every definition that
  uses it.
\<close>

section \<open>Proposals\<close>

datatype typed_chain_id =
    ChainNone | Evm u32 | Substrate u32 | PolkadotParachain u32 | KusamaParachain u32
  | RococoParachain u32 | Cosmos u32 | Solana u32 | Ink u32

datatype proposal_kind =
    Refresh | ProposerSetUpdate | EVM | AnchorCreate | AnchorUpdate | TokenAdd | TokenRemove
  | WrappingFeeUpdate | ResourceIdUpdate | RescueTokens | MaxDepositLimitUpdate
  | MinWithdrawalLimitUpdate | SetVerifier | SetTreasuryHandler | FeeRecipientUpdate

datatype proposal =
    SignedProposal proposal_kind bytes bytes
  | UnsignedProposal proposal_kind bytes

fun kind :: "proposal \<Rightarrow> proposal_kind" where
  "kind (SignedProposal k _ _) = k"
| "kind (UnsignedProposal k _) = k"

fun data :: "proposal \<Rightarrow> bytes" where
  "data (SignedProposal _ d _) = d"
| "data (UnsignedProposal _ d) = d"

fun signature :: "proposal \<Rightarrow> bytes option" where
  "signature (SignedProposal _ _ s) = Some s"
| "signature (UnsignedProposal _ _) = None"

fun is_signed :: "proposal \<Rightarrow> bool" where
  "is_signed (SignedProposal _ _ _) = True"
| "is_signed (UnsignedProposal _ _) = False"

abbreviation is_unsigned :: "proposal \<Rightarrow> bool" where
  "is_unsigned p \<equiv> \<not> is_signed p"

datatype dkg_payload_key =
    EVMProposal u32 | RefreshProposalKey u32 | AnchorCreateProposal u32 | AnchorUpdateProposal u32
  | TokenAddProposal u32 | TokenRemoveProposal u32 | WrappingFeeUpdateProposal u32
  | ResourceIdUpdateProposal u32 | RescueTokensProposal u32 | MaxDepositLimitUpdateProposal u32
  | MinWithdrawalLimitUpdateProposal u32 | SetVerifierProposal u32
  | SetTreasuryHandlerProposal u32 | FeeRecipientUpdateProposal u32

text \<open>The variants of an Ethereum transaction, with the fields the decoder reads.\<close>

datatype transaction_v2 =
    Legacy "256 word"
  | EIP2930 u64 "256 word"
  | EIP1559 u64 "256 word"

section \<open>Code the crate calls\<close>

record ext =
  keccak_256 :: "bytes \<Rightarrow> hash256"
  secp256k1_ecdsa_recover :: "bytes \<Rightarrow> hash256 \<Rightarrow> bytes option"
  secp256k1_decompress :: "bytes \<Rightarrow> bytes option"
  nonce_to_bytes :: "u32 \<Rightarrow> bytes"
  nonce_from_bytes :: "bytes \<Rightarrow> u32"
  header_resource_id :: "bytes \<Rightarrow> resource_id"
  header_nonce :: "bytes \<Rightarrow> u32"
  resource_typed_chain_id :: "resource_id \<Rightarrow> typed_chain_id"
  typed_chain_id_from_bytes :: "bytes \<Rightarrow> typed_chain_id"
  proposal_length :: "proposal_kind \<Rightarrow> nat"
  from_slice :: "proposal_kind \<Rightarrow> bytes \<Rightarrow> string + u32"
  decode_transaction_v2 :: "bytes \<Rightarrow> transaction_v2 option"
  u256_as_u32 :: "256 word \<Rightarrow> u32 option"
  ethabi_encode_array :: "bytes list \<Rightarrow> bytes"

text \<open>
  What the code relies on: a nonce is four bytes and its codec is a bijection, and a recovered
  key is the 64 bytes of an uncompressed point.
\<close>

definition nonce_codec_ok :: "ext \<Rightarrow> bool" where
  "nonce_codec_ok x \<longleftrightarrow>
     (\<forall>n. length (nonce_to_bytes x n) = 4 \<and> nonce_from_bytes x (nonce_to_bytes x n) = n) \<and>
     (\<forall>bs. length bs = 4 \<longrightarrow> nonce_to_bytes x (nonce_from_bytes x bs) = bs)"

section \<open>Constants\<close>

definition SIGN_TIMEOUT :: u32 where
  "SIGN_TIMEOUT = 10"

definition KEYGEN_TIMEOUT :: u32 where
  "KEYGEN_TIMEOUT = 10"

definition ASSOCIATED_BLOCK_ID_MESSAGE_DELIVERY_TOLERANCE :: u64 where
  "ASSOCIATED_BLOCK_ID_MESSAGE_DELIVERY_TOLERANCE = ucast (SIGN_TIMEOUT - 2)"

definition SIGNATURE_LENGTH :: nat where
  "SIGNATURE_LENGTH = 65"

definition ECDSA_KEY_LENGTH :: nat where
  "ECDSA_KEY_LENGTH = 33"

section \<open>Delivery window of a gossip message\<close>

definition associated_block_id_acceptable :: "u64 \<Rightarrow> u64 \<Rightarrow> bool" where
  "associated_block_id_acceptable expected received =
     (let is_acceptable_above = expected \<le> received \<and>
            received \<le> saturating_add expected ASSOCIATED_BLOCK_ID_MESSAGE_DELIVERY_TOLERANCE;
          is_acceptable_below = received < expected \<and>
            saturating_sub expected ASSOCIATED_BLOCK_ID_MESSAGE_DELIVERY_TOLERANCE \<le> received;
          is_equal = (expected = received)
      in is_acceptable_above \<or> is_acceptable_below \<or> is_equal)"

lemma unat_tolerance [simp]: "unat ASSOCIATED_BLOCK_ID_MESSAGE_DELIVERY_TOLERANCE = 8"
  by (simp add: ASSOCIATED_BLOCK_ID_MESSAGE_DELIVERY_TOLERANCE_def SIGN_TIMEOUT_def)

lemma acceptable_distance:
  "associated_block_id_acceptable a b \<longleftrightarrow> unat b \<le> unat a + 8 \<and> unat a \<le> unat b + 8"
proof -
  have "unat b \<le> 2 ^ LENGTH(64) - 1"
    using unat_bound [of b] by simp
  then have up: "b \<le> saturating_add a ASSOCIATED_BLOCK_ID_MESSAGE_DELIVERY_TOLERANCE
      \<longleftrightarrow> unat b \<le> unat a + 8"
    by (simp add: word_le_nat_alt machine_simps)
  have down: "saturating_sub a ASSOCIATED_BLOCK_ID_MESSAGE_DELIVERY_TOLERANCE \<le> b
      \<longleftrightarrow> unat a \<le> unat b + 8"
    by (simp add: word_le_nat_alt machine_simps le_diff_conv)
  show ?thesis
    unfolding associated_block_id_acceptable_def Let_def up down
    by (auto simp: word_le_nat_alt word_less_nat_alt)
qed

section \<open>The refresh proposal and its codec\<close>

record refresh_proposal =
  voter_merkle_root :: hash256
  session_length :: u64
  voter_count :: u32
  nonce :: u32
  pub_key :: bytes

definition REFRESH_LENGTH :: nat where
  "REFRESH_LENGTH = 32 + 8 + 4 + 4 + 64"

definition refresh_default :: refresh_proposal where
  "refresh_default = \<lparr>voter_merkle_root = replicate 32 0, session_length = 0, voter_count = 0,
     nonce = 0, pub_key = []\<rparr>"

text \<open>The root is an array of 32 bytes; the key is a vector, and writing it into the last 64
  bytes of the buffer panics for any other length.\<close>

definition refresh_encode :: "ext \<Rightarrow> refresh_proposal \<Rightarrow> bytes option" where
  "refresh_encode x p =
     (if length (pub_key p) = 64
      then Some (voter_merkle_root p @ to_be_bytes (session_length p) @ to_be_bytes (voter_count p)
        @ nonce_to_bytes x (nonce p) @ pub_key p)
      else None)"

definition refresh_decode :: "ext \<Rightarrow> bytes \<Rightarrow> refresh_proposal option" where
  "refresh_decode x input =
     (if length input < REFRESH_LENGTH then None
      else let d = take REFRESH_LENGTH input in
        Some \<lparr>voter_merkle_root = take 32 d,
              session_length = from_be_bytes (take 8 (drop 32 d)),
              voter_count = from_be_bytes (take 4 (drop 40 d)),
              nonce = nonce_from_bytes x (take 4 (drop 44 d)),
              pub_key = drop 48 d\<rparr>)"

definition wf_refresh :: "refresh_proposal \<Rightarrow> bool" where
  "wf_refresh p \<longleftrightarrow> length (voter_merkle_root p) = 32 \<and> length (pub_key p) = 64"

lemma length_refresh_encode:
  assumes "nonce_codec_ok x" and "wf_refresh p" and "refresh_encode x p = Some bs"
  shows "length bs = REFRESH_LENGTH"
  using assms by (auto simp: refresh_encode_def wf_refresh_def nonce_codec_ok_def REFRESH_LENGTH_def)

lemma refresh_decode_encode:
  assumes "nonce_codec_ok x" and "wf_refresh p"
  shows "\<exists>bs. refresh_encode x p = Some bs \<and> refresh_decode x bs = Some p"
  using assms
  by (auto simp: refresh_encode_def refresh_decode_def wf_refresh_def nonce_codec_ok_def
      REFRESH_LENGTH_def Let_def)

lemma split_at_112:
  assumes "length bs = 112"
  shows "bs = take 32 bs @ take 8 (drop 32 bs) @ take 4 (drop 40 bs) @ take 4 (drop 44 bs) @ drop 48 bs"
proof -
  have "drop 44 bs = take 4 (drop 44 bs) @ drop 48 bs"
    using append_take_drop_id [of 4 "drop 44 bs"] by simp
  moreover have "drop 40 bs = take 4 (drop 40 bs) @ drop 44 bs"
    using append_take_drop_id [of 4 "drop 40 bs"] by simp
  moreover have "drop 32 bs = take 8 (drop 32 bs) @ drop 40 bs"
    using append_take_drop_id [of 8 "drop 32 bs"] by simp
  ultimately show ?thesis
    by (metis append_take_drop_id)
qed

lemma refresh_encode_decode:
  assumes nc: "nonce_codec_ok x" and len: "length bs = REFRESH_LENGTH"
  shows "\<exists>p. refresh_decode x bs = Some p \<and> wf_refresh p \<and> refresh_encode x p = Some bs"
proof -
  from len have l: "length bs = 112" by (simp add: REFRESH_LENGTH_def)
  have "nonce_to_bytes x (nonce_from_bytes x (take 4 (drop 44 bs))) = take 4 (drop 44 bs)"
    using nc l by (simp add: nonce_codec_ok_def)
  with l show ?thesis
    using split_at_112 [OF l]
    by (simp add: refresh_encode_def refresh_decode_def wf_refresh_def REFRESH_LENGTH_def Let_def)
qed

end
