(* ===== verification/Dispatch.thy ===== *)
theory Dispatch
  imports Primitives
begin

text \<open>
  The error enumerations of the four pallets and the \<open>DispatchError\<close> an operation of one pallet
  passes on from another, and what the transaction pool asks of and learns about an unsigned
  transaction.
\<close>

datatype proposals_error =
    InvalidPermissions | ThresholdNotSet | InvalidChainId | InvalidThreshold | ChainNotWhitelisted
  | ChainAlreadyWhitelisted | ResourceDoesNotExist | ProposerAlreadyExists | ProposerInvalid
  | MustBeProposer | ProposerAlreadyVoted | ProposalAlreadyExists | ProposalDoesNotExist
  | ProposalNotComplete | ProposalAlreadyComplete | ProposalExpired | ProposerCountIsZero
  | OutOfBounds | InvalidProposal

datatype handler_error =
    NoneValue | StorageOverflow | ProposalFormatInvalid | ProposalMustBeUnsigned
  | InvalidProposalBytesLength | ProposalSignatureInvalid | ProposalDoesNotExists
  | ProposalAlreadyExists | ChainIdInvalid | ProposalsLengthOverflow | ProposalOutOfBounds
  | CannotOverwriteSignedProposal | UnsignedProposalQueueOverflow | ArithmeticOverflow | EmptyBatch
  | NotSignedByCurrentDKG | InvalidSignedData | ProposalExistsAndIsValid | ProposalBatchNotFound

datatype metadata_error =
    NoMappedAccount | InvalidThreshold | MustBeAQueuedAuthority | MustBeAnActiveAuthority
  | InvalidPublicKeys | AlreadySubmittedPublicKey | AlreadySubmittedSignature | UsedSignature
  | InvalidSignature | InvalidNonce | InvalidMisbehaviourReports | RefreshInProgress
  | NoRefreshProposal | InvalidRefreshProposal | NoNextPublicKey | InvalidControllerAccount
  | OutOfBounds | CannotRetreiveSigner | ProposalNotSigned | OffenderNotAuthority | AlreadyJailed
  | NotEnoughAuthoritiesToJail

datatype bridge_error =
    ParametersNotInitialized | VerifyError | ProposalNotSigned | BridgeIndexError | TooManyFields
  | BridgeNotFound | TooManyResources | OutOfBounds

datatype dispatch_error =
    BadOrigin
  | ProposalsError proposals_error
  | HandlerError handler_error
  | MetadataError metadata_error
  | BridgeError bridge_error

type_synonym 'a dispatch = "(dispatch_error, 'a) result"

text \<open>The proposal handler as another pallet sees it: it takes an unsigned proposal.\<close>

type_synonym 'h unsigned_handler = "proposal \<Rightarrow> 'h \<Rightarrow> unit dispatch \<times> 'h"

datatype transaction_source = InBlock | Local | External

record valid_transaction =
  vt_priority :: u64
  vt_longevity :: u64
  vt_provides :: block_number
  vt_propagate :: bool

datatype transaction_error = InvalidCall | Stale

end
