(* ===== verification/Decode_Proposals.thy ===== *)
theory Decode_Proposals
  imports Primitives
begin

text \<open>
  The decoding of a proposal's identifier (\<open>dkg-runtime-primitives/src/handlers\<close>): the chain it
  targets and the payload key with its nonce. The fixed-length proposals are decoded by
  \<open>webb_proposals\<close>; the checks of length and kind, the refresh proposal, and the identifier of an
  Ethereum transaction are the crate's own.
\<close>

datatype validation_error =
    InvalidDecoding string
  | InvalidParameter string
  | UnimplementedProposalKind
  | InvalidProposalBytesLength

record proposal_identifier =
  pi_key :: dkg_payload_key
  pi_typed_chain_id :: typed_chain_id

definition PROPOSAL_HEADER_LENGTH :: nat where
  "PROPOSAL_HEADER_LENGTH = 40"

text \<open>The header of a proposal: the resource id and the nonce \<open>webb_proposals\<close> reads from the
  first bytes.\<close>

definition decode_proposal_header :: "ext \<Rightarrow> bytes \<Rightarrow> (validation_error, resource_id \<times> u32) result" where
  "decode_proposal_header x d =
     (if length d < PROPOSAL_HEADER_LENGTH then Err InvalidProposalBytesLength
      else let bs = take PROPOSAL_HEADER_LENGTH d
           in Ok (header_resource_id x bs, header_nonce x bs))"

section \<open>Ethereum transactions\<close>

fun validate_ethereum_tx :: "transaction_v2 \<Rightarrow> bool" where
  "validate_ethereum_tx (Legacy _) = True"
| "validate_ethereum_tx (EIP2930 _ _) = True"
| "validate_ethereum_tx (EIP1559 _ _) = True"

text \<open>The chain id must fit into 32 bits; \<open>as_u32\<close> of a 256-bit nonce panics when it does not fit.\<close>

definition u64_try_into_u32 :: "u64 \<Rightarrow> u32 option" where
  "u64_try_into_u32 n = (if n \<le> 4294967295 then Some (ucast n) else None)"

definition nonce_of_u256 :: "ext \<Rightarrow> u32 \<Rightarrow> 256 word \<Rightarrow> (validation_error, u32 \<times> u32) result" where
  "nonce_of_u256 x chain n = (case u256_as_u32 x n of None \<Rightarrow> Panic | Some m \<Rightarrow> Ok (chain, m))"

fun decode_evm_transaction :: "ext \<Rightarrow> transaction_v2 \<Rightarrow> (validation_error, u32 \<times> u32) result" where
  "decode_evm_transaction x (Legacy n) = nonce_of_u256 x 0 n"
| "decode_evm_transaction x (EIP2930 chain n) =
     (case u64_try_into_u32 chain of
        None \<Rightarrow> Err (InvalidParameter ''Invalid chain id (could not fit into u32)'')
      | Some c \<Rightarrow> nonce_of_u256 x c n)"
| "decode_evm_transaction x (EIP1559 chain n) =
     (case u64_try_into_u32 chain of
        None \<Rightarrow> Err (InvalidParameter ''Invalid chain id (could not fit into u32)'')
      | Some c \<Rightarrow> nonce_of_u256 x c n)"

definition evm_tx_create :: "ext \<Rightarrow> bytes \<Rightarrow> (validation_error, u32 \<times> u32) result" where
  "evm_tx_create x d =
     (case decode_transaction_v2 x d of
        None \<Rightarrow> Err (InvalidParameter ''Invalid transaction'')
      | Some tx \<Rightarrow>
          if \<not> validate_ethereum_tx tx
          then Err (InvalidParameter ''Ethereum transaction is invalid'')
          else decode_evm_transaction x tx)"

section \<open>Proposals of a fixed length\<close>

definition refresh_create :: "ext \<Rightarrow> bytes \<Rightarrow> (validation_error, refresh_proposal) result" where
  "refresh_create x d =
     (if length d \<noteq> REFRESH_LENGTH then Err InvalidProposalBytesLength
      else case refresh_decode x d of
        Some p \<Rightarrow> Ok p
      | None \<Rightarrow> Err (InvalidDecoding ''Failed to decode RefreshProposal''))"

text \<open>The body of the \<open>proposal_module\<close> macro, for the proposal type of kind \<open>k\<close>; the value is the
  nonce of the decoded proposal's header.\<close>

definition proposal_module_create :: "ext \<Rightarrow> proposal_kind \<Rightarrow> bytes \<Rightarrow> (validation_error, u32) result" where
  "proposal_module_create x k d =
     (if length d \<noteq> proposal_length x k then Err InvalidProposalBytesLength
      else case from_slice x k d of
        Inr n \<Rightarrow> Ok n
      | Inl e \<Rightarrow> Err (InvalidDecoding e))"

definition matches_kind ::
  "proposal_kind \<Rightarrow> proposal_kind \<Rightarrow> proposal_identifier \<Rightarrow> (validation_error, proposal_identifier) result" where
  "matches_kind prop_kind expected_kind out =
     (if prop_kind = expected_kind then Ok out else Err UnimplementedProposalKind)"

section \<open>The identifier of a proposal\<close>

fun result_or :: "('e, 'a) result \<Rightarrow> ('e, 'a) result \<Rightarrow> ('e, 'a) result" where
  "result_or (Ok a) r = Ok a"
| "result_or (Err e) r = r"
| "result_or Panic r = Panic"

fun map_err :: "('e \<Rightarrow> 'f) \<Rightarrow> ('e, 'a) result \<Rightarrow> ('f, 'a) result" where
  "map_err f (Ok a) = Ok a"
| "map_err f (Err e) = Err (f e)"
| "map_err f Panic = Panic"

text \<open>One of the lazy identifiers of the source: decode, set the key, check the kind.\<close>

definition maybe_ident ::
  "ext \<Rightarrow> typed_chain_id \<Rightarrow> proposal \<Rightarrow> proposal_kind \<Rightarrow> (u32 \<Rightarrow> dkg_payload_key) \<Rightarrow>
   (validation_error, proposal_identifier) result" where
  "maybe_ident x chain p k key =
     (case proposal_module_create x k (data p) of
        Ok n \<Rightarrow> matches_kind (kind p) k \<lparr>pi_key = key n, pi_typed_chain_id = chain\<rparr>
      | Err e \<Rightarrow> Err e
      | Panic \<Rightarrow> Panic)"

definition maybe_refresh_vote ::
  "ext \<Rightarrow> typed_chain_id \<Rightarrow> proposal \<Rightarrow> (validation_error, proposal_identifier) result" where
  "maybe_refresh_vote x chain p =
     (case refresh_create x (data p) of
        Ok r \<Rightarrow> matches_kind (kind p) Refresh
                 \<lparr>pi_key = RefreshProposalKey (nonce r), pi_typed_chain_id = chain\<rparr>
      | Err e \<Rightarrow> Err e
      | Panic \<Rightarrow> Panic)"

definition decode_proposal_identifier ::
  "ext \<Rightarrow> proposal \<Rightarrow> (validation_error, proposal_identifier) result" where
  "decode_proposal_identifier x p =
     (if kind p = EVM then
        (case evm_tx_create x (data p) of
           Ok (chain, n) \<Rightarrow> Ok \<lparr>pi_key = EVMProposal n, pi_typed_chain_id = Evm chain\<rparr>
         | Err e \<Rightarrow> Err e
         | Panic \<Rightarrow> Panic)
      else case decode_proposal_header x (data p) of
        Err e \<Rightarrow> Err e
      | Panic \<Rightarrow> Panic
      | Ok (rid, _) \<Rightarrow>
          let chain = resource_typed_chain_id x rid;
              r = foldl result_or (maybe_refresh_vote x chain p)
                [maybe_ident x chain p AnchorUpdate AnchorUpdateProposal,
                 maybe_ident x chain p TokenAdd TokenAddProposal,
                 maybe_ident x chain p TokenRemove TokenRemoveProposal,
                 maybe_ident x chain p WrappingFeeUpdate WrappingFeeUpdateProposal,
                 maybe_ident x chain p ResourceIdUpdate ResourceIdUpdateProposal,
                 maybe_ident x chain p RescueTokens RescueTokensProposal,
                 maybe_ident x chain p MaxDepositLimitUpdate MaxDepositLimitUpdateProposal,
                 maybe_ident x chain p MinWithdrawalLimitUpdate MinWithdrawalLimitUpdateProposal,
                 maybe_ident x chain p SetTreasuryHandler SetTreasuryHandlerProposal,
                 maybe_ident x chain p SetVerifier SetVerifierProposal,
                 maybe_ident x chain p FeeRecipientUpdate FeeRecipientUpdateProposal]
          in map_err (\<lambda>_. UnimplementedProposalKind) r)"

section \<open>What the decoder accepts\<close>

text \<open>The payload key each kind of header-carrying proposal is stored under; the other kinds are
  not implemented.\<close>

fun kind_key :: "proposal_kind \<Rightarrow> (u32 \<Rightarrow> dkg_payload_key) option" where
  "kind_key AnchorUpdate = Some AnchorUpdateProposal"
| "kind_key TokenAdd = Some TokenAddProposal"
| "kind_key TokenRemove = Some TokenRemoveProposal"
| "kind_key WrappingFeeUpdate = Some WrappingFeeUpdateProposal"
| "kind_key ResourceIdUpdate = Some ResourceIdUpdateProposal"
| "kind_key RescueTokens = Some RescueTokensProposal"
| "kind_key MaxDepositLimitUpdate = Some MaxDepositLimitUpdateProposal"
| "kind_key MinWithdrawalLimitUpdate = Some MinWithdrawalLimitUpdateProposal"
| "kind_key SetTreasuryHandler = Some SetTreasuryHandlerProposal"
| "kind_key SetVerifier = Some SetVerifierProposal"
| "kind_key FeeRecipientUpdate = Some FeeRecipientUpdateProposal"
| "kind_key _ = None"

definition is_err :: "('e, 'a) result \<Rightarrow> bool" where
  "is_err r \<longleftrightarrow> (\<exists>e. r = Err e)"

lemma result_or_err: "is_err r \<Longrightarrow> result_or r s = s"
  by (auto simp: is_err_def)

lemma maybe_ident_other [simp]: "kind p \<noteq> k \<Longrightarrow> is_err (maybe_ident x c p k key)"
  by (auto simp: maybe_ident_def is_err_def matches_kind_def proposal_module_create_def
      split: sum.splits)

lemma maybe_refresh_other [simp]: "kind p \<noteq> Refresh \<Longrightarrow> is_err (maybe_refresh_vote x c p)"
  by (auto simp: maybe_refresh_vote_def is_err_def matches_kind_def refresh_create_def
      split: option.splits)

lemma create_no_panic [simp]:
  "proposal_module_create x k d \<noteq> Panic" "refresh_create x d \<noteq> Panic"
  "decode_proposal_header x d \<noteq> Panic"
  by (auto simp: proposal_module_create_def refresh_create_def decode_proposal_header_def Let_def
      split: sum.splits option.splits)

lemma map_err_ident:
  "kind p = k \<Longrightarrow> map_err (\<lambda>_. e) (maybe_ident x c p k key) =
     (case proposal_module_create x k (data p) of
        Ok n \<Rightarrow> Ok \<lparr>pi_key = key n, pi_typed_chain_id = c\<rparr> | _ \<Rightarrow> Err e)"
  by (auto simp: maybe_ident_def matches_kind_def split: result.splits)

lemma map_err_refresh:
  "map_err (\<lambda>_. e) (maybe_refresh_vote x c p) =
     (if kind p = Refresh
      then (case refresh_create x (data p) of
              Ok r \<Rightarrow> Ok \<lparr>pi_key = RefreshProposalKey (nonce r), pi_typed_chain_id = c\<rparr>
            | _ \<Rightarrow> Err e)
      else Err e)"
  by (auto simp: maybe_refresh_vote_def matches_kind_def split: result.splits)

text \<open>In a chain of alternatives whose kinds differ, only the one of the proposal's kind counts.\<close>

lemma map_err_is_err: "is_err r \<Longrightarrow> map_err (\<lambda>_. e) r = Err e"
  by (auto simp: is_err_def)

lemma chain_of_idents:
  assumes "distinct (map fst ks)" and "is_err r"
  shows "map_err (\<lambda>_. e) (foldl result_or r (map (\<lambda>(k, key). maybe_ident x c p k key) ks)) =
    (case map_of ks (kind p) of
       Some key \<Rightarrow> (case proposal_module_create x (kind p) (data p) of
          Ok n \<Rightarrow> Ok \<lparr>pi_key = key n, pi_typed_chain_id = c\<rparr> | _ \<Rightarrow> Err e)
     | None \<Rightarrow> Err e)"
  using assms
proof (induction ks arbitrary: r)
  case Nil
  then show ?case by (simp add: map_err_is_err)
next
  case (Cons a ks)
  obtain k key where a: "a = (k, key)" by (cases a)
  have keep: "foldl result_or (Ok i) rs = Ok i" for i and rs :: "(validation_error, proposal_identifier) result list"
    by (induction rs) auto
  show ?case
  proof (cases "kind p = k")
    case False
    with Cons.IH [of "maybe_ident x c p k key"] Cons.prems a show ?thesis
      by (simp add: result_or_err)
  next
    case True
    from Cons.prems a have "map_of ks k = None"
      by (simp add: map_of_eq_None_iff)
    with Cons.IH [of "Err UnimplementedProposalKind"] Cons.IH Cons.prems a True show ?thesis
      by (cases "proposal_module_create x k (data p)")
        (auto simp: result_or_err maybe_ident_def matches_kind_def is_err_def keep)
  qed
qed

lemma chain_after_Ok: "foldl result_or (Ok i) rs = Ok i"
  by (induction rs) auto

text \<open>Only the lazy identifier of the proposal's own kind can be the one selected.\<close>

definition identifier_of_kind ::
  "ext \<Rightarrow> typed_chain_id \<Rightarrow> proposal \<Rightarrow> (validation_error, proposal_identifier) result" where
  "identifier_of_kind x c p =
     (case kind_key (kind p) of
        Some key \<Rightarrow> (case proposal_module_create x (kind p) (data p) of
            Ok n \<Rightarrow> Ok \<lparr>pi_key = key n, pi_typed_chain_id = c\<rparr>
          | _ \<Rightarrow> Err UnimplementedProposalKind)
      | None \<Rightarrow> if kind p = Refresh
          then (case refresh_create x (data p) of
              Ok r \<Rightarrow> Ok \<lparr>pi_key = RefreshProposalKey (nonce r), pi_typed_chain_id = c\<rparr>
            | _ \<Rightarrow> Err UnimplementedProposalKind)
          else Err UnimplementedProposalKind)"

lemma decode_identifier_eq:
  assumes "kind p \<noteq> EVM"
  shows "decode_proposal_identifier x p =
    (case decode_proposal_header x (data p) of
       Err e \<Rightarrow> Err e | Panic \<Rightarrow> Panic
     | Ok (rid, _) \<Rightarrow> identifier_of_kind x (resource_typed_chain_id x rid) p)"
proof (cases "decode_proposal_header x (data p)")
  case (Ok h)
  obtain rid n where h: "h = (rid, n)" by (cases h)
  define c where "c = resource_typed_chain_id x rid"
  define ks where "ks =
    [(AnchorUpdate, AnchorUpdateProposal), (TokenAdd, TokenAddProposal),
     (TokenRemove, TokenRemoveProposal), (WrappingFeeUpdate, WrappingFeeUpdateProposal),
     (ResourceIdUpdate, ResourceIdUpdateProposal), (RescueTokens, RescueTokensProposal),
     (MaxDepositLimitUpdate, MaxDepositLimitUpdateProposal),
     (MinWithdrawalLimitUpdate, MinWithdrawalLimitUpdateProposal),
     (SetTreasuryHandler, SetTreasuryHandlerProposal), (SetVerifier, SetVerifierProposal),
     (FeeRecipientUpdate, FeeRecipientUpdateProposal)]"
  have dist: "distinct (map fst ks)"
    by (simp add: ks_def)
  have key: "map_of ks (kind p) = kind_key (kind p)"
    by (cases "kind p") (simp_all add: ks_def)
  have unfold: "decode_proposal_identifier x p = map_err (\<lambda>_. UnimplementedProposalKind)
      (foldl result_or (maybe_refresh_vote x c p) (map (\<lambda>(k, key). maybe_ident x c p k key) ks))"
    using assms by (simp add: decode_proposal_identifier_def Ok h c_def ks_def Let_def)
  have "decode_proposal_identifier x p = identifier_of_kind x c p"
  proof (cases "is_err (maybe_refresh_vote x c p)")
    case True
    then show ?thesis
      unfolding unfold chain_of_idents [OF dist True] key
      using map_err_refresh [of UnimplementedProposalKind x c p] map_err_is_err [OF True, of UnimplementedProposalKind]
      by (auto simp: identifier_of_kind_def split: option.splits if_splits)
  next
    case False
    then obtain i where i: "maybe_refresh_vote x c p = Ok i" and r: "kind p = Refresh"
      using maybe_refresh_other by (auto simp: is_err_def maybe_refresh_vote_def matches_kind_def
          split: result.splits if_splits)
    have "decode_proposal_identifier x p = Ok i"
      unfolding unfold i chain_after_Ok by simp
    with i r show ?thesis
      by (auto simp: identifier_of_kind_def maybe_refresh_vote_def matches_kind_def
          split: result.splits)
  qed
  with h Ok show ?thesis
    by (simp add: c_def)
qed (use assms in \<open>simp_all add: decode_proposal_identifier_def\<close>)

lemma decode_identifier_Ok_iff:
  "decode_proposal_identifier x p = Ok i \<longleftrightarrow>
     (if kind p = EVM
      then \<exists>c n. evm_tx_create x (data p) = Ok (c, n) \<and>
             i = \<lparr>pi_key = EVMProposal n, pi_typed_chain_id = Evm c\<rparr>
      else \<exists>rid m. decode_proposal_header x (data p) = Ok (rid, m) \<and>
             identifier_of_kind x (resource_typed_chain_id x rid) p = Ok i)"
proof (cases "kind p = EVM")
  case True
  then show ?thesis
    by (auto simp: decode_proposal_identifier_def split: result.splits)
next
  case False
  then show ?thesis
    by (auto simp: decode_identifier_eq split: result.splits)
qed

lemma decode_identifier_panics:
  "decode_proposal_identifier x p = Panic \<longleftrightarrow> kind p = EVM \<and> evm_tx_create x (data p) = Panic"
proof (cases "kind p = EVM")
  case True
  then show ?thesis
    by (auto simp: decode_proposal_identifier_def split: result.splits)
next
  case False
  then show ?thesis
    by (auto simp: decode_identifier_eq identifier_of_kind_def split: result.splits option.splits)
qed

end
