(* ===== verification/Dkg_Proposals.thy ===== *)
theory Dkg_Proposals
  imports Dispatch Decode_Proposals
begin

text \<open>
  The pallet \<open>pallet-dkg-proposals\<close>: proposers vote for or against a proposal of a whitelisted chain,
  and a proposal that reaches the threshold is handed to the proposal handler. The handler is the
  pallet's \<open>ProposalHandlerTrait\<close>: an operation \<open>hup\<close> on a state \<open>'h\<close> of its own, an argument of the
  operations that may finalize a proposal.
\<close>

section \<open>Votes on a proposal (types.rs)\<close>

definition DKG_DEFAULT_PROPOSER_THRESHOLD :: u32 where
  "DKG_DEFAULT_PROPOSER_THRESHOLD = 1"

datatype proposal_status = Initiated | Approved | Rejected

record proposal_votes =
  votes_for :: "account_id list"
  votes_against :: "account_id list"
  status :: proposal_status
  expiry :: block_number

definition proposal_votes_default :: proposal_votes where
  "proposal_votes_default = \<lparr>votes_for = [], votes_against = [], status = Initiated, expiry = 0\<rparr>"

definition try_to_complete :: "u32 \<Rightarrow> u32 \<Rightarrow> proposal_votes \<Rightarrow> proposal_status \<times> proposal_votes" where
  "try_to_complete threshold total_count v =
     (if unat threshold \<le> length (votes_for v) then (Approved, v\<lparr>status := Approved\<rparr>)
      else if threshold \<le> total_count \<and> total_count < of_nat (length (votes_against v)) + threshold
      then (Rejected, v\<lparr>status := Rejected\<rparr>)
      else (Initiated, v))"

definition is_complete :: "proposal_votes \<Rightarrow> bool" where
  "is_complete v \<longleftrightarrow> status v \<noteq> Initiated"

definition has_voted :: "proposal_votes \<Rightarrow> account_id \<Rightarrow> bool" where
  "has_voted v who \<longleftrightarrow> who \<in> set (votes_for v) \<or> who \<in> set (votes_against v)"

definition is_expired :: "proposal_votes \<Rightarrow> block_number \<Rightarrow> bool" where
  "is_expired v now \<longleftrightarrow> expiry v \<le> now"

section \<open>Resource identifiers (utils.rs)\<close>

definition u32_to_le_bytes :: "u32 \<Rightarrow> bytes" where
  "u32_to_le_bytes w = rev (to_be_bytes w)"

definition u16_to_le_bytes :: "u16 \<Rightarrow> bytes" where
  "u16_to_le_bytes w = rev (to_be_bytes w)"

text \<open>The \<open>for\<close> loop of the source, over the indices that are left.\<close>

fun copy_id :: "bytes \<Rightarrow> nat \<Rightarrow> nat list \<Rightarrow> bytes \<Rightarrow> bytes" where
  "copy_id ident rng [] r = r"
| "copy_id ident rng (i # is) r = copy_id ident rng is (r[25 - i := ident ! (rng - 1 - i)])"

definition derive_resource_id :: "u32 \<Rightarrow> u16 \<Rightarrow> bytes \<Rightarrow> resource_id" where
  "derive_resource_id chain chain_type ident =
     (let c = u32_to_le_bytes chain; t = u16_to_le_bytes chain_type;
          r = (replicate 32 0)[26 := t ! 0, 27 := t ! 1, 28 := c ! 0, 29 := c ! 1, 30 := c ! 2,
                               31 := c ! 3];
          rng = (if 26 < length ident then 26 else length ident)
      in copy_id ident rng [0..<rng] r)"

section \<open>State and configuration\<close>

datatype proposals_event =
    ProposerThresholdChanged u32
  | ChainWhitelisted typed_chain_id
  | VoteFor proposal_kind typed_chain_id u32 account_id
  | VoteAgainst proposal_kind typed_chain_id u32 account_id
  | ProposalApproved proposal_kind typed_chain_id u32
  | ProposalRejected proposal_kind typed_chain_id u32
  | ProposalSucceeded proposal_kind typed_chain_id u32
  | ProposalFailed proposal_kind typed_chain_id u32
  | ProposersReset "account_id list"

record proposals_config =
  chain_identifier :: typed_chain_id
  proposal_lifetime :: block_number
  max_votes :: nat
  max_resources :: nat
  max_proposers :: nat
  voting_key_size :: nat
  ensure_admin_origin :: "origin \<Rightarrow> bool"
  authority_to_merkle_leaf :: "dkg_id \<Rightarrow> bytes"

type_synonym vote_key = "typed_chain_id \<times> u32 \<times> proposal"

record proposals_state =
  chain_nonces :: "typed_chain_id \<rightharpoonup> u32"
  proposer_threshold :: u32
  proposers :: "account_id list"
  voting_keys :: "(account_id \<times> bytes) list"
  proposer_count :: u32
  votes :: "vote_key \<rightharpoonup> proposal_votes"
  resources :: "resource_id \<rightharpoonup> bytes"
  p_events :: "proposals_event list"

definition empty_proposals_state :: proposals_state where
  "empty_proposals_state = \<lparr>chain_nonces = Map.empty,
     proposer_threshold = DKG_DEFAULT_PROPOSER_THRESHOLD, proposers = [], voting_keys = [],
     proposer_count = 0, votes = Map.empty, resources = Map.empty, p_events = []\<rparr>"

definition p_deposit :: "proposals_event \<Rightarrow> proposals_state \<Rightarrow> proposals_state" where
  "p_deposit e s = s\<lparr>p_events := p_events s @ [e]\<rparr>"

section \<open>Genesis\<close>

record proposals_genesis =
  initial_chain_ids :: "bytes list"
  initial_r_ids :: "(resource_id \<times> bytes) list"
  initial_proposers :: "account_id list"

fun insert_resources ::
  "proposals_config \<Rightarrow> (resource_id \<times> bytes) list \<Rightarrow> proposals_state \<Rightarrow> proposals_state option" where
  "insert_resources cfg [] s = Some s"
| "insert_resources cfg ((r_id, r_data) # rs) s =
     (case try_bounded (max_resources cfg) r_data of
        None \<Rightarrow> None
      | Some b \<Rightarrow> insert_resources cfg rs (s\<lparr>resources := (resources s)(r_id \<mapsto> b)\<rparr>))"

definition proposals_genesis_build ::
  "proposals_config \<Rightarrow> ext \<Rightarrow> proposals_genesis \<Rightarrow> proposals_state option" where
  "proposals_genesis_build cfg x g =
     (let s = fold (\<lambda>bs s. s\<lparr>chain_nonces := (chain_nonces s)(typed_chain_id_from_bytes x bs \<mapsto> 0)\<rparr>)
                (initial_chain_ids g) empty_proposals_state
      in case insert_resources cfg (initial_r_ids g) s of
           None \<Rightarrow> None
         | Some s \<Rightarrow>
             map_option (\<lambda>ps. s\<lparr>proposers := ps\<rparr>) (try_bounded (max_proposers cfg) (initial_proposers g)))"

section \<open>Utility and administration\<close>

definition is_proposer :: "proposals_state \<Rightarrow> account_id \<Rightarrow> bool" where
  "is_proposer s who \<longleftrightarrow> who \<in> set (proposers s)"

definition resource_exists :: "proposals_state \<Rightarrow> resource_id \<Rightarrow> bool" where
  "resource_exists s rid \<longleftrightarrow> resources s rid \<noteq> None"

definition chain_whitelisted :: "proposals_state \<Rightarrow> typed_chain_id \<Rightarrow> bool" where
  "chain_whitelisted s c \<longleftrightarrow> chain_nonces s c \<noteq> None"

definition ensure_admin :: "proposals_config \<Rightarrow> origin \<Rightarrow> 's \<Rightarrow> unit dispatch \<times> 's" where
  "ensure_admin cfg org s = (if ensure_admin_origin cfg org then (Ok (), s) else (Err BadOrigin, s))"

definition set_proposer_threshold :: "u32 \<Rightarrow> proposals_state \<Rightarrow> unit dispatch \<times> proposals_state" where
  "set_proposer_threshold threshold s =
     (if \<not> 0 < threshold then (Err (ProposalsError proposals_error.InvalidThreshold), s)
      else if \<not> threshold \<le> of_nat (length (proposers s))
      then (Err (ProposalsError proposals_error.InvalidThreshold), s)
      else (Ok (), p_deposit (ProposerThresholdChanged threshold) (s\<lparr>proposer_threshold := threshold\<rparr>)))"

definition register_resource ::
  "proposals_config \<Rightarrow> resource_id \<Rightarrow> bytes \<Rightarrow> proposals_state \<Rightarrow> unit dispatch \<times> proposals_state" where
  "register_resource cfg rid meth s =
     (case try_bounded (max_resources cfg) meth of
        None \<Rightarrow> (Err (ProposalsError proposals_error.OutOfBounds), s)
      | Some m \<Rightarrow> (Ok (), s\<lparr>resources := (resources s)(rid \<mapsto> m)\<rparr>))"

definition unregister_resource :: "resource_id \<Rightarrow> proposals_state \<Rightarrow> unit dispatch \<times> proposals_state" where
  "unregister_resource rid s = (Ok (), s\<lparr>resources := (resources s)(rid := None)\<rparr>)"

definition whitelist ::
  "proposals_config \<Rightarrow> typed_chain_id \<Rightarrow> proposals_state \<Rightarrow> unit dispatch \<times> proposals_state" where
  "whitelist cfg c s =
     (if c = chain_identifier cfg then (Err (ProposalsError InvalidChainId), s)
      else if chain_whitelisted s c then (Err (ProposalsError ChainAlreadyWhitelisted), s)
      else (Ok (), p_deposit (ChainWhitelisted c) (s\<lparr>chain_nonces := (chain_nonces s)(c \<mapsto> 0)\<rparr>)))"

section \<open>Voting and execution\<close>

definition commit_vote ::
  "proposals_config \<Rightarrow> block_number \<Rightarrow> account_id \<Rightarrow> u32 \<Rightarrow> typed_chain_id \<Rightarrow> proposal \<Rightarrow> bool \<Rightarrow>
   proposals_state \<Rightarrow> unit dispatch \<times> proposals_state" where
  "commit_vote cfg now who n src_chain_id prop in_favour s =
     (let v = (case votes s (src_chain_id, n, prop) of
                 Some v \<Rightarrow> v
               | None \<Rightarrow> proposal_votes_default\<lparr>expiry := now + proposal_lifetime cfg\<rparr>)
      in if is_complete v then (Err (ProposalsError ProposalAlreadyComplete), s)
         else if is_expired v now then (Err (ProposalsError ProposalExpired), s)
         else if has_voted v who then (Err (ProposalsError ProposerAlreadyVoted), s)
         else if in_favour then
           (case try_push (max_votes cfg) who (votes_for v) of
              None \<Rightarrow> (Err (ProposalsError proposals_error.OutOfBounds), s)
            | Some vf \<Rightarrow>
                (Ok (), (p_deposit (VoteFor (kind prop) src_chain_id n who) s)
                   \<lparr>votes := (votes s)((src_chain_id, n, prop) \<mapsto> v\<lparr>votes_for := vf\<rparr>)\<rparr>))
         else
           (case try_push (max_votes cfg) who (votes_against v) of
              None \<Rightarrow> (Err (ProposalsError proposals_error.OutOfBounds), s)
            | Some va \<Rightarrow>
                (Ok (), (p_deposit (VoteAgainst (kind prop) src_chain_id n who) s)
                   \<lparr>votes := (votes s)((src_chain_id, n, prop) \<mapsto> v\<lparr>votes_against := va\<rparr>)\<rparr>)))"

fun finalize_execution ::
  "'h unsigned_handler \<Rightarrow> typed_chain_id \<Rightarrow> u32 \<Rightarrow> proposal \<Rightarrow> proposals_state \<times> 'h \<Rightarrow>
   unit dispatch \<times> (proposals_state \<times> 'h)" where
  "finalize_execution hup src_chain_id n prop (s, h) =
     (let s1 = p_deposit (ProposalApproved (kind prop) src_chain_id n) s
      in case hup prop h of
           (Ok _, h') \<Rightarrow> (Ok (), (p_deposit (ProposalSucceeded (kind prop) src_chain_id n) s1, h'))
         | (Err e, h') \<Rightarrow> (Err e, (s1, h'))
         | (Panic, h') \<Rightarrow> (Panic, (s1, h')))"

definition cancel_execution ::
  "typed_chain_id \<Rightarrow> u32 \<Rightarrow> proposal \<Rightarrow> proposals_state \<times> 'h \<Rightarrow> unit dispatch \<times> (proposals_state \<times> 'h)" where
  "cancel_execution src_chain_id n prop st =
     (Ok (), (p_deposit (ProposalRejected (kind prop) src_chain_id n) (fst st), snd st))"

fun try_resolve_proposal ::
  "'h unsigned_handler \<Rightarrow> block_number \<Rightarrow> u32 \<Rightarrow> typed_chain_id \<Rightarrow> proposal \<Rightarrow> proposals_state \<times> 'h \<Rightarrow>
   unit dispatch \<times> (proposals_state \<times> 'h)" where
  "try_resolve_proposal hup now n src_chain_id prop (s, h) =
     (case votes s (src_chain_id, n, prop) of
        None \<Rightarrow> (Err (ProposalsError ProposalDoesNotExist), (s, h))
      | Some v \<Rightarrow>
          if is_complete v then (Err (ProposalsError ProposalAlreadyComplete), (s, h))
          else if is_expired v now then (Err (ProposalsError ProposalExpired), (s, h))
          else
            (let (st, v') = try_to_complete (proposer_threshold s) (proposer_count s) v;
                 s' = s\<lparr>votes := (votes s)((src_chain_id, n, prop) \<mapsto> v')\<rparr>
             in case st of
                  Approved \<Rightarrow> finalize_execution hup src_chain_id n prop (s', h)
                | Rejected \<Rightarrow> cancel_execution src_chain_id n prop (s', h)
                | Initiated \<Rightarrow> (Ok (), (s', h))))"

fun lift_fst :: "('s \<Rightarrow> 'a dispatch \<times> 's) \<Rightarrow> 's \<times> 'h \<Rightarrow> 'a dispatch \<times> ('s \<times> 'h)" where
  "lift_fst f (s, h) = (case f s of (r, s') \<Rightarrow> (r, (s', h)))"

definition vote_for ::
  "proposals_config \<Rightarrow> 'h unsigned_handler \<Rightarrow> block_number \<Rightarrow> account_id \<Rightarrow> u32 \<Rightarrow> typed_chain_id \<Rightarrow>
   proposal \<Rightarrow> proposals_state \<times> 'h \<Rightarrow> unit dispatch \<times> (proposals_state \<times> 'h)" where
  "vote_for cfg hup now who n src_chain_id prop st =
     and_then (lift_fst (commit_vote cfg now who n src_chain_id prop True) st)
       (\<lambda>_. try_resolve_proposal hup now n src_chain_id prop)"

definition vote_against ::
  "proposals_config \<Rightarrow> 'h unsigned_handler \<Rightarrow> block_number \<Rightarrow> account_id \<Rightarrow> u32 \<Rightarrow> typed_chain_id \<Rightarrow>
   proposal \<Rightarrow> proposals_state \<times> 'h \<Rightarrow> unit dispatch \<times> (proposals_state \<times> 'h)" where
  "vote_against cfg hup now who n src_chain_id prop st =
     and_then (lift_fst (commit_vote cfg now who n src_chain_id prop False) st)
       (\<lambda>_. try_resolve_proposal hup now n src_chain_id prop)"

section \<open>Extrinsics\<close>

definition set_threshold ::
  "proposals_config \<Rightarrow> origin \<Rightarrow> u32 \<Rightarrow> proposals_state \<Rightarrow> unit dispatch \<times> proposals_state" where
  "set_threshold cfg org threshold s =
     and_then (ensure_admin cfg org s) (\<lambda>_. set_proposer_threshold threshold)"

definition set_resource ::
  "proposals_config \<Rightarrow> origin \<Rightarrow> resource_id \<Rightarrow> bytes \<Rightarrow> proposals_state \<Rightarrow> unit dispatch \<times> proposals_state" where
  "set_resource cfg org rid meth s =
     and_then (ensure_admin cfg org s) (\<lambda>_. register_resource cfg rid meth)"

definition remove_resource ::
  "proposals_config \<Rightarrow> origin \<Rightarrow> resource_id \<Rightarrow> proposals_state \<Rightarrow> unit dispatch \<times> proposals_state" where
  "remove_resource cfg org rid s =
     and_then (ensure_admin cfg org s) (\<lambda>_. unregister_resource rid)"

definition whitelist_chain ::
  "proposals_config \<Rightarrow> origin \<Rightarrow> typed_chain_id \<Rightarrow> proposals_state \<Rightarrow> unit dispatch \<times> proposals_state" where
  "whitelist_chain cfg org c s = and_then (ensure_admin cfg org s) (\<lambda>_. whitelist cfg c)"

text \<open>
  The checks \<open>acknowledge_proposal\<close> and \<open>reject_proposal\<close> make, in their order: the origin is
  signed, the proposal decodes, the caller is a proposer, the chain is whitelisted and the
  resource is registered. The value is the caller with the chain and nonce voted on.
\<close>

fun check_vote ::
  "ext \<Rightarrow> origin \<Rightarrow> proposal \<Rightarrow> proposals_state \<Rightarrow> (account_id \<times> u32 \<times> typed_chain_id) dispatch" where
  "check_vote x (Signed who) prop s =
     (case decode_proposal_identifier x prop of
        Panic \<Rightarrow> Panic
      | Err _ \<Rightarrow> Err (ProposalsError InvalidProposal)
      | Ok proposal_ident \<Rightarrow>
          (case decode_proposal_header x (data prop) of
             Panic \<Rightarrow> Panic
           | Err _ \<Rightarrow> Err (ProposalsError InvalidProposal)
           | Ok (rid, n) \<Rightarrow>
               if \<not> is_proposer s who then Err (ProposalsError MustBeProposer)
               else if \<not> chain_whitelisted s (pi_typed_chain_id proposal_ident)
               then Err (ProposalsError ChainNotWhitelisted)
               else if \<not> resource_exists s rid then Err (ProposalsError ResourceDoesNotExist)
               else Ok (who, n, pi_typed_chain_id proposal_ident)))"
| "check_vote x _ prop s = Err BadOrigin"

fun acknowledge_proposal ::
  "proposals_config \<Rightarrow> ext \<Rightarrow> 'h unsigned_handler \<Rightarrow> block_number \<Rightarrow> origin \<Rightarrow> proposal \<Rightarrow>
   proposals_state \<times> 'h \<Rightarrow> unit dispatch \<times> (proposals_state \<times> 'h)" where
  "acknowledge_proposal cfg x hup now org prop (s, h) =
     and_then (check_vote x org prop s, (s, h))
       (\<lambda>(who, n, c). vote_for cfg hup now who n c prop)"

fun reject_proposal ::
  "proposals_config \<Rightarrow> ext \<Rightarrow> 'h unsigned_handler \<Rightarrow> block_number \<Rightarrow> origin \<Rightarrow> proposal \<Rightarrow>
   proposals_state \<times> 'h \<Rightarrow> unit dispatch \<times> (proposals_state \<times> 'h)" where
  "reject_proposal cfg x hup now org prop (s, h) =
     and_then (check_vote x org prop s, (s, h))
       (\<lambda>(who, n, c). vote_against cfg hup now who n c prop)"

fun eval_vote_state ::
  "'h unsigned_handler \<Rightarrow> block_number \<Rightarrow> origin \<Rightarrow> u32 \<Rightarrow> typed_chain_id \<Rightarrow> proposal \<Rightarrow>
   proposals_state \<times> 'h \<Rightarrow> unit dispatch \<times> (proposals_state \<times> 'h)" where
  "eval_vote_state hup now (Signed who) n src_chain_id prop st =
     try_resolve_proposal hup now n src_chain_id prop st"
| "eval_vote_state hup now _ n src_chain_id prop st = (Err BadOrigin, st)"

section \<open>Change of the authority set\<close>

fun bound_keys :: "nat \<Rightarrow> bytes list \<Rightarrow> bytes list option" where
  "bound_keys n [] = Some []"
| "bound_keys n (k # ks) =
     (case try_bounded n k of
        None \<Rightarrow> None
      | Some b \<Rightarrow> map_option ((#) b) (bound_keys n ks))"

definition on_authority_set_changed ::
  "proposals_config \<Rightarrow> account_id list \<Rightarrow> dkg_id list \<Rightarrow> proposals_state \<Rightarrow> proposals_state option" where
  "on_authority_set_changed cfg authorities authority_ids s =
     (case bound_keys (voting_key_size cfg) (map (authority_to_merkle_leaf cfg) authority_ids) of
        None \<Rightarrow> None
      | Some new_external_accounts \<Rightarrow>
          (let s1 = s\<lparr>proposer_count := of_nat (length authorities)\<rparr>
           in case try_bounded (max_proposers cfg) authorities of
                None \<Rightarrow> None
              | Some ps \<Rightarrow>
                  (let s2 = s1\<lparr>proposers := ps\<rparr>
                   in case try_bounded (max_proposers cfg) (zip authorities new_external_accounts) of
                        None \<Rightarrow> None
                      | Some vs \<Rightarrow>
                          Some (p_deposit (ProposersReset authorities) (s2\<lparr>voting_keys := vs\<rparr>)))))"

end
