(* ===== verification/Voting.thy ===== *)
theory Voting
  imports Dkg_Proposals
begin

text \<open>
  Correctness of voting: what a committed vote and a resolution do on every branch, the pallet as
  a step relation with the invariant of its vote records, the finality of a decided proposal, and
  the interface through which an approved proposal reaches the proposal handler.
\<close>

section \<open>One vote\<close>

abbreviation fresh_votes :: "proposals_config \<Rightarrow> block_number \<Rightarrow> proposal_votes" where
  "fresh_votes cfg now \<equiv> proposal_votes_default\<lparr>expiry := now + proposal_lifetime cfg\<rparr>"

definition current_votes ::
  "proposals_config \<Rightarrow> block_number \<Rightarrow> proposals_state \<Rightarrow> vote_key \<Rightarrow> proposal_votes" where
  "current_votes cfg now s key = (case votes s key of Some v \<Rightarrow> v | None \<Rightarrow> fresh_votes cfg now)"

definition add_vote :: "account_id \<Rightarrow> bool \<Rightarrow> proposal_votes \<Rightarrow> proposal_votes" where
  "add_vote who in_favour v =
     (if in_favour then v\<lparr>votes_for := votes_for v @ [who]\<rparr>
      else v\<lparr>votes_against := votes_against v @ [who]\<rparr>)"

lemma add_vote_simps [simp]:
  "votes_for (add_vote who True v) = votes_for v @ [who]"
  "votes_for (add_vote who False v) = votes_for v"
  "votes_against (add_vote who False v) = votes_against v @ [who]"
  "votes_against (add_vote who True v) = votes_against v"
  "status (add_vote who b v) = status v"
  "expiry (add_vote who b v) = expiry v"
  by (simp_all add: add_vote_def)

definition may_vote :: "proposals_config \<Rightarrow> block_number \<Rightarrow> account_id \<Rightarrow> bool \<Rightarrow> proposal_votes \<Rightarrow> bool" where
  "may_vote cfg now who in_favour v \<longleftrightarrow>
     \<not> is_complete v \<and> \<not> is_expired v now \<and> \<not> has_voted v who \<and>
     length (if in_favour then votes_for v else votes_against v) < max_votes cfg"

lemma p_deposit_simps [simp]:
  "votes (p_deposit e s) = votes s" "proposers (p_deposit e s) = proposers s"
  "proposer_threshold (p_deposit e s) = proposer_threshold s"
  "proposer_count (p_deposit e s) = proposer_count s"
  "chain_nonces (p_deposit e s) = chain_nonces s" "resources (p_deposit e s) = resources s"
  "voting_keys (p_deposit e s) = voting_keys s" "p_events (p_deposit e s) = p_events s @ [e]"
  by (simp_all add: p_deposit_def)

lemma commit_vote_Ok:
  "commit_vote cfg now who n c p b s = (Ok u, s') \<longleftrightarrow>
     may_vote cfg now who b (current_votes cfg now s (c, n, p)) \<and>
     s' = (p_deposit (if b then VoteFor (kind p) c n who else VoteAgainst (kind p) c n who) s)
            \<lparr>votes := (votes s)((c, n, p) \<mapsto> add_vote who b (current_votes cfg now s (c, n, p)))\<rparr>"
  unfolding commit_vote_def Let_def current_votes_def [symmetric]
  by (auto simp: may_vote_def add_vote_def split: option.splits)

lemma commit_vote_not_Ok:
  "commit_vote cfg now who n c p b s = (r, s') \<Longrightarrow> r \<noteq> Ok () \<Longrightarrow> s' = s \<and> r \<noteq> Panic"
  unfolding commit_vote_def Let_def
  by (auto split: option.splits if_splits)

section \<open>Resolution\<close>

lemma try_to_complete_votes [simp]:
  "votes_for (snd (try_to_complete t n v)) = votes_for v"
  "votes_against (snd (try_to_complete t n v)) = votes_against v"
  "expiry (snd (try_to_complete t n v)) = expiry v"
  by (auto simp: try_to_complete_def)

lemma try_to_complete_status:
  "\<not> is_complete v \<Longrightarrow> status (snd (try_to_complete t n v)) = fst (try_to_complete t n v)"
  by (auto simp: try_to_complete_def is_complete_def)

lemma try_to_complete_Approved [simp]:
  "fst (try_to_complete t n v) = Approved \<longleftrightarrow> unat t \<le> length (votes_for v)"
  by (auto simp: try_to_complete_def)

lemma try_to_complete_Rejected [simp]:
  "fst (try_to_complete t n v) = Rejected \<longleftrightarrow>
     length (votes_for v) < unat t \<and> t \<le> n \<and> n < of_nat (length (votes_against v)) + t"
  by (auto simp: try_to_complete_def)

definition resolve_events :: "proposal_status \<Rightarrow> proposal_kind \<Rightarrow> typed_chain_id \<Rightarrow> u32 \<Rightarrow> proposals_event list" where
  "resolve_events st k c n =
     (case st of Approved \<Rightarrow> [ProposalApproved k c n, ProposalSucceeded k c n]
      | Rejected \<Rightarrow> [ProposalRejected k c n] | Initiated \<Rightarrow> [])"

definition resolved :: "u32 \<Rightarrow> u32 \<Rightarrow> proposal_votes \<Rightarrow> proposal_votes" where
  "resolved t n v = snd (try_to_complete t n v)"

lemma try_resolve_Ok:
  assumes "try_resolve_proposal hup now n c p (s, h) = (Ok u, (s', h'))"
  obtains v st where "votes s (c, n, p) = Some v" and "\<not> is_complete v" and "\<not> is_expired v now"
    and "st = fst (try_to_complete (proposer_threshold s) (proposer_count s) v)"
    and "s' = s\<lparr>votes := (votes s)((c, n, p) \<mapsto> resolved (proposer_threshold s) (proposer_count s) v),
               p_events := p_events s @ resolve_events st (kind p) c n\<rparr>"
    and "if st = Approved then hup p h = (Ok (), h') else h' = h"
proof -
  from assms obtain v where v: "votes s (c, n, p) = Some v" "\<not> is_complete v" "\<not> is_expired v now"
    by (auto split: option.splits if_splits)
  let ?tc = "try_to_complete (proposer_threshold s) (proposer_count s) v"
  have "s' = s\<lparr>votes := (votes s)((c, n, p) \<mapsto> snd ?tc),
               p_events := p_events s @ resolve_events (fst ?tc) (kind p) c n\<rparr> \<and>
        (if fst ?tc = Approved then hup p h = (Ok (), h') else h' = h)"
  proof -
    obtain st v' where tc: "?tc = (st, v')" by (cases ?tc)
    obtain r h2 where hp: "hup p h = (r, h2)" by (cases "hup p h")
    show ?thesis
      using assms
      by (cases st; cases r)
        (auto simp: v tc hp resolve_events_def cancel_execution_def p_deposit_def)
  qed
  with v show ?thesis
    by (intro that [of v "fst ?tc"]) (auto simp: resolved_def)
qed

lemma try_resolve_ok_intro:
  assumes "votes s (c, n, p) = Some v" and "\<not> is_complete v" and "\<not> is_expired v now"
    and "unat (proposer_threshold s) \<le> length (votes_for v) \<Longrightarrow> \<exists>h'. hup p h = (Ok (), h')"
  shows "\<exists>s' h'. try_resolve_proposal hup now n c p (s, h) = (Ok (), (s', h'))"
proof -
  let ?tc = "try_to_complete (proposer_threshold s) (proposer_count s) v"
  have "fst ?tc = Approved \<Longrightarrow> \<exists>h'. hup p h = (Ok (), h')"
    using assms(4) by simp
  then show ?thesis
    using assms(1-3) by (cases ?tc; cases "fst ?tc") (auto simp: cancel_execution_def)
qed

section \<open>Accepted votes\<close>

text \<open>Both extrinsics accept a vote under the same conditions and differ in the list it goes to.\<close>

definition vote ::
  "proposals_config \<Rightarrow> ext \<Rightarrow> 'h unsigned_handler \<Rightarrow> block_number \<Rightarrow> bool \<Rightarrow> origin \<Rightarrow> proposal \<Rightarrow>
   proposals_state \<times> 'h \<Rightarrow> unit dispatch \<times> (proposals_state \<times> 'h)" where
  "vote cfg x hup now b = (if b then acknowledge_proposal cfg x hup now else reject_proposal cfg x hup now)"

lemma vote_unfold:
  "vote cfg x hup now b org p (s, h) =
     and_then (check_vote x org p s, (s, h)) (\<lambda>(who, n, c) st.
       and_then (lift_fst (commit_vote cfg now who n c p b) st)
         (\<lambda>_. try_resolve_proposal hup now n c p))"
  by (cases b) (auto simp: vote_def vote_for_def vote_against_def fun_eq_iff
      intro!: arg_cong2 [where f = and_then])

lemma check_vote_Ok:
  "check_vote x org p s = Ok (who, n, c) \<longleftrightarrow>
     org = Signed who \<and> is_proposer s who \<and> chain_whitelisted s c \<and>
     (\<exists>i rid. decode_proposal_identifier x p = Ok i \<and> pi_typed_chain_id i = c \<and>
        decode_proposal_header x (data p) = Ok (rid, n) \<and> resource_exists s rid)"
  by (cases org) (auto split: result.splits)

lemma vote_Ok:
  assumes "vote cfg x hup now b org p (s, h) = (Ok u, (s', h'))"
  obtains who n c v where "check_vote x org p s = Ok (who, n, c)"
    and "v = current_votes cfg now s (c, n, p)" and "may_vote cfg now who b v"
    and "votes s' = (votes s)((c, n, p) \<mapsto>
           resolved (proposer_threshold s) (proposer_count s) (add_vote who b v))"
    and "s' = s\<lparr>votes := votes s', p_events := p_events s'\<rparr>"
    and "if unat (proposer_threshold s) \<le> length (votes_for (add_vote who b v))
         then hup p h = (Ok (), h') else h' = h"
proof -
  from assms obtain who n c where cv: "check_vote x org p s = Ok (who, n, c)"
    by (cases "check_vote x org p s") (auto simp: vote_unfold)
  let ?v = "current_votes cfg now s (c, n, p)"
  obtain s1 where cm: "commit_vote cfg now who n c p b s = (Ok (), s1)"
    and rs: "try_resolve_proposal hup now n c p (s1, h) = (Ok u, (s', h'))"
    using assms cv
    by (cases "commit_vote cfg now who n c p b s"; cases "fst (commit_vote cfg now who n c p b s)")
      (auto simp: vote_unfold)
  from cm have mv: "may_vote cfg now who b ?v"
    and s1: "votes s1 = (votes s)((c, n, p) \<mapsto> add_vote who b ?v)"
    and f1: "s1 = s\<lparr>votes := votes s1, p_events := p_events s1\<rparr>"
    by (auto simp: commit_vote_Ok p_deposit_def)
  have eqs: "proposer_threshold s1 = proposer_threshold s" "proposer_count s1 = proposer_count s"
    by (subst f1; simp)+
  from rs obtain st where
    st: "st = fst (try_to_complete (proposer_threshold s) (proposer_count s) (add_vote who b ?v))"
    and s': "s' = s1\<lparr>votes := (votes s1)((c, n, p) \<mapsto>
          resolved (proposer_threshold s) (proposer_count s) (add_vote who b ?v)),
          p_events := p_events s1 @ resolve_events st (kind p) c n\<rparr>"
    and hh: "if st = Approved then hup p h = (Ok (), h') else h' = h"
    by (rule try_resolve_Ok) (auto simp: s1 eqs)
  show ?thesis
  proof (rule that [OF cv refl mv])
    show "votes s' = (votes s)((c, n, p) \<mapsto>
           resolved (proposer_threshold s) (proposer_count s) (add_vote who b ?v))"
      by (simp add: s' s1)
    show "s' = s\<lparr>votes := votes s', p_events := p_events s'\<rparr>"
      unfolding s' by (subst f1) simp
    show "if unat (proposer_threshold s) \<le> length (votes_for (add_vote who b ?v))
         then hup p h = (Ok (), h') else h' = h"
      using hh st by simp
  qed
qed

section \<open>The pallet as a transition system\<close>

text \<open>
  One step is a call, successful or not, or a change of the authority set. The handler moves only
  with a vote, or on its own (\<open>handler_moves\<close>), which the closed system below leaves out.
\<close>

inductive p_step ::
  "proposals_config \<Rightarrow> ext \<Rightarrow> (block_number \<Rightarrow> 'h unsigned_handler) \<Rightarrow> bool \<Rightarrow> proposals_state \<times> 'h \<Rightarrow>
   proposals_state \<times> 'h \<Rightarrow> bool" for cfg x hup env where
  admin_threshold: "extrinsic (set_threshold cfg org t) s = (r, s') \<Longrightarrow> p_step cfg x hup env (s, h) (s', h)"
| admin_resource: "extrinsic (set_resource cfg org rid m) s = (r, s') \<Longrightarrow> p_step cfg x hup env (s, h) (s', h)"
| admin_remove: "extrinsic (remove_resource cfg org rid) s = (r, s') \<Longrightarrow> p_step cfg x hup env (s, h) (s', h)"
| admin_whitelist: "extrinsic (whitelist_chain cfg org c) s = (r, s') \<Longrightarrow> p_step cfg x hup env (s, h) (s', h)"
| acknowledged: "extrinsic (acknowledge_proposal cfg x (hup now) now org p) st = (r, st') \<Longrightarrow>
    p_step cfg x hup env st st'"
| rejected: "extrinsic (reject_proposal cfg x (hup now) now org p) st = (r, st') \<Longrightarrow>
    p_step cfg x hup env st st'"
| evaluated: "extrinsic (eval_vote_state (hup now) now org n c p) st = (r, st') \<Longrightarrow>
    p_step cfg x hup env st st'"
| authorities: "on_authority_set_changed cfg as ids s = Some s' \<Longrightarrow> p_step cfg x hup env (s, h) (s', h)"
| handler_moves: "env \<Longrightarrow> p_step cfg x hup env (s, h) (s, h')"

abbreviation p_steps where
  "p_steps cfg x hup env \<equiv> (p_step cfg x hup env)\<^sup>*\<^sup>*"

text \<open>A step that is not a vote or an evaluation leaves the vote records alone.\<close>

lemma admin_frame:
  "set_threshold cfg org t s = (Ok u, s') \<Longrightarrow> votes s' = votes s \<and> proposers s' = proposers s \<and>
     proposer_count s' = proposer_count s \<and> proposer_threshold s' = t \<and> 0 < t"
  "set_resource cfg org rid m s = (Ok u, s') \<Longrightarrow> votes s' = votes s \<and> proposers s' = proposers s \<and>
     proposer_count s' = proposer_count s \<and> proposer_threshold s' = proposer_threshold s"
  "remove_resource cfg org rid s = (Ok u, s') \<Longrightarrow> votes s' = votes s \<and> proposers s' = proposers s \<and>
     proposer_count s' = proposer_count s \<and> proposer_threshold s' = proposer_threshold s"
  "whitelist_chain cfg org c s = (Ok u, s') \<Longrightarrow> votes s' = votes s \<and> proposers s' = proposers s \<and>
     proposer_count s' = proposer_count s \<and> proposer_threshold s' = proposer_threshold s"
  by (auto simp: set_threshold_def set_resource_def remove_resource_def whitelist_chain_def
      ensure_admin_def set_proposer_threshold_def register_resource_def unregister_resource_def
      whitelist_def split: if_splits option.splits)

lemma authority_frame:
  "on_authority_set_changed cfg as ids s = Some s' \<Longrightarrow>
     votes s' = votes s \<and> proposers s' = as \<and> length as \<le> max_proposers cfg \<and>
     proposer_count s' = of_nat (length as) \<and> proposer_threshold s' = proposer_threshold s"
  by (auto simp: on_authority_set_changed_def Let_def split: option.splits)

text \<open>
  The three ways a vote record can change: a new vote is added and the record resolved, or an open
  record is resolved with the threshold of the moment. In both the handler takes the proposal
  exactly if the record has become approved.
\<close>

definition decides ::
  "(block_number \<Rightarrow> 'h unsigned_handler) \<Rightarrow> proposals_state \<times> 'h \<Rightarrow> proposals_state \<times> 'h \<Rightarrow> vote_key \<Rightarrow>
   proposal_votes \<Rightarrow> bool" where
  "decides hup st st' key w \<longleftrightarrow>
     votes (fst st') = (votes (fst st))(key \<mapsto> resolved (proposer_threshold (fst st)) (proposer_count (fst st)) w) \<and>
     status w = Initiated \<and> proposers (fst st') = proposers (fst st) \<and>
     proposer_threshold (fst st') = proposer_threshold (fst st) \<and>
     proposer_count (fst st') = proposer_count (fst st) \<and>
     (if unat (proposer_threshold (fst st)) \<le> length (votes_for w)
      then \<exists>now. hup now (snd (snd key)) (snd st) = (Ok (), snd st') else snd st' = snd st)"

definition key_of :: "ext \<Rightarrow> proposal \<Rightarrow> vote_key \<Rightarrow> bool" where
  "key_of x p key \<longleftrightarrow>
     (\<exists>i rid n. decode_proposal_identifier x p = Ok i \<and> decode_proposal_header x (data p) = Ok (rid, n) \<and>
        key = (pi_typed_chain_id i, n, p))"

lemma vote_decides:
  assumes "vote cfg x (hup now) now b org p (s, h) = (Ok u, (s', h'))"
  shows "\<exists>who key. key_of x p key \<and> who \<in> set (proposers s) \<and>
     may_vote cfg now who b (current_votes cfg now s key) \<and>
     decides hup (s, h) (s', h') key (add_vote who b (current_votes cfg now s key))"
  using assms
proof (rule vote_Ok)
  fix who n c v
  assume cv: "check_vote x org p s = Ok (who, n, c)" and v: "v = current_votes cfg now s (c, n, p)"
    and mv: "may_vote cfg now who b v"
    and vs: "votes s' = (votes s)((c, n, p) \<mapsto>
           resolved (proposer_threshold s) (proposer_count s) (add_vote who b v))"
    and s': "s' = s\<lparr>votes := votes s', p_events := p_events s'\<rparr>"
    and hh: "if unat (proposer_threshold s) \<le> length (votes_for (add_vote who b v))
         then hup now p h = (Ok (), h') else h' = h"
  have "proposers s' = proposers s" "proposer_threshold s' = proposer_threshold s"
    "proposer_count s' = proposer_count s"
    by (subst s'; simp)+
  with vs hh mv have "decides hup (s, h) (s', h') (c, n, p) (add_vote who b v)"
    by (auto simp: decides_def may_vote_def is_complete_def)
  moreover from cv have "key_of x p (c, n, p)" and "who \<in> set (proposers s)"
    by (auto simp: check_vote_Ok key_of_def is_proposer_def)
  ultimately show ?thesis
    using mv v by blast
qed

lemma eval_decides:
  assumes "eval_vote_state (hup now) now org n c p (s, h) = (Ok u, (s', h'))"
  shows "\<exists>v. votes s (c, n, p) = Some v \<and> decides hup (s, h) (s', h') (c, n, p) v"
proof -
  from assms have "try_resolve_proposal (hup now) now n c p (s, h) = (Ok u, (s', h'))"
    by (cases org) auto
  then show ?thesis
    by (rule try_resolve_Ok) (auto simp: decides_def is_complete_def split: if_splits)
qed

text \<open>Every step either leaves the records alone or decides one open record.\<close>

lemma p_step_cases:
  assumes "p_step cfg x hup env (s, h) (s', h')"
  obtains (frame) "votes s' = votes s" and "\<not> env \<Longrightarrow> h' = h"
      and "0 < proposer_threshold s \<Longrightarrow> 0 < proposer_threshold s'"
      and "proposers s' = proposers s \<and> proposer_count s' = proposer_count s \<or>
           length (proposers s') \<le> max_proposers cfg \<and> proposer_count s' = of_nat (length (proposers s'))"
  | (voted) now who b p key where "key_of x p key" and "who \<in> set (proposers s)"
      and "may_vote cfg now who b (current_votes cfg now s key)"
      and "decides hup (s, h) (s', h') key (add_vote who b (current_votes cfg now s key))"
  | (reviewed) key v where "votes s key = Some v" and "decides hup (s, h) (s', h') key v"
  using assms
proof cases
  case (admin_threshold org t r)
  then show ?thesis
    using frame by (auto elim!: extrinsic_cases dest!: admin_frame)
next
  case (admin_resource org rid m r)
  then show ?thesis
    using frame by (auto elim!: extrinsic_cases dest!: admin_frame)
next
  case (admin_remove org rid r)
  then show ?thesis
    using frame by (auto elim!: extrinsic_cases dest!: admin_frame)
next
  case (admin_whitelist org c r)
  then show ?thesis
    using frame by (auto elim!: extrinsic_cases dest!: admin_frame)
next
  case (acknowledged now org p r)
  then have "(\<exists>u. vote cfg x (hup now) now True org p (s, h) = (Ok u, (s', h'))) \<or> (s', h') = (s, h)"
    by (auto elim!: extrinsic_cases simp: vote_def)
  then show ?thesis
    using frame voted vote_decides [of cfg x hup now True] by blast
next
  case (rejected now org p r)
  then have "(\<exists>u. vote cfg x (hup now) now False org p (s, h) = (Ok u, (s', h'))) \<or> (s', h') = (s, h)"
    by (auto elim!: extrinsic_cases simp: vote_def)
  then show ?thesis
    using frame voted vote_decides [of cfg x hup now False] by blast
next
  case (evaluated now org n c p r)
  then have "(\<exists>u. eval_vote_state (hup now) now org n c p (s, h) = (Ok u, (s', h'))) \<or> (s', h') = (s, h)"
    by (auto elim!: extrinsic_cases)
  then show ?thesis
    using frame reviewed eval_decides [of hup now org n c p s h] by blast
next
  case (authorities as ids)
  then show ?thesis
    using frame by (auto dest!: authority_frame)
next
  case handler_moves
  then show ?thesis
    using frame by auto
qed

section \<open>The invariant of the vote records\<close>

text \<open>
  No account votes twice on a proposal, in either direction; the vectors keep their bound; a
  record has at least one vote; and the threshold is never zero.
\<close>

definition wf_votes :: "proposals_config \<Rightarrow> proposal_votes \<Rightarrow> bool" where
  "wf_votes cfg v \<longleftrightarrow>
     distinct (votes_for v @ votes_against v) \<and> length (votes_for v) \<le> max_votes cfg \<and>
     length (votes_against v) \<le> max_votes cfg \<and> votes_for v @ votes_against v \<noteq> []"

definition proposals_inv :: "proposals_config \<Rightarrow> proposals_state \<Rightarrow> bool" where
  "proposals_inv cfg s \<longleftrightarrow>
     (\<forall>key v. votes s key = Some v \<longrightarrow> wf_votes cfg v) \<and> 0 < proposer_threshold s \<and>
     length (proposers s) \<le> max_proposers cfg \<and>
     unat (proposer_count s) \<le> max_proposers cfg"

lemma proposals_inv_votes: "proposals_inv cfg s \<Longrightarrow> votes s key = Some v \<Longrightarrow> wf_votes cfg v"
  unfolding proposals_inv_def by blast

lemma unat_of_nat_le: "unat (of_nat n :: 'a::len word) \<le> n"
  by (simp add: unat_of_nat)

lemma wf_votes_resolved [simp]: "wf_votes cfg (resolved t n v) = wf_votes cfg v"
  by (simp add: wf_votes_def resolved_def)

lemma wf_votes_add:
  assumes "v = proposal_votes_default\<lparr>expiry := e\<rparr> \<or> wf_votes cfg v" and "may_vote cfg now who b v"
  shows "wf_votes cfg (add_vote who b v)"
  using assms
  by (cases b) (auto simp: wf_votes_def may_vote_def has_voted_def proposal_votes_default_def)

lemma insert_resources_frame:
  "insert_resources cfg rs s = Some s' \<Longrightarrow> votes s' = votes s \<and> proposers s' = proposers s \<and>
     proposer_count s' = proposer_count s \<and> proposer_threshold s' = proposer_threshold s"
  by (induction rs arbitrary: s) (auto split: option.splits)

lemma insert_chains_frame:
  fixes f :: "bytes \<Rightarrow> proposals_state \<Rightarrow> proposals_state"
  assumes "f = (\<lambda>bs s. s\<lparr>chain_nonces := (chain_nonces s)(typed_chain_id_from_bytes x bs \<mapsto> 0)\<rparr>)"
  shows "votes (fold f cs s) = votes s \<and> proposers (fold f cs s) = proposers s \<and>
     proposer_count (fold f cs s) = proposer_count s \<and>
     proposer_threshold (fold f cs s) = proposer_threshold s"
  unfolding assms by (induction cs arbitrary: s) simp_all

lemma proposals_inv_genesis:
  assumes "proposals_genesis_build cfg x g = Some s"
  shows "proposals_inv cfg s \<and> proposer_count s = 0 \<and> votes s = Map.empty"
proof -
  define f :: "bytes \<Rightarrow> proposals_state \<Rightarrow> proposals_state"
    where "f = (\<lambda>bs s. s\<lparr>chain_nonces := (chain_nonces s)(typed_chain_id_from_bytes x bs \<mapsto> 0)\<rparr>)"
  from assms obtain s1 where
    s1: "insert_resources cfg (initial_r_ids g) (fold f (initial_chain_ids g) empty_proposals_state) = Some s1"
    and s: "s = s1\<lparr>proposers := initial_proposers g\<rparr>" "length (initial_proposers g) \<le> max_proposers cfg"
    unfolding proposals_genesis_build_def Let_def f_def by (auto split: option.splits)
  then show ?thesis
    using insert_resources_frame [OF s1] insert_chains_frame [OF f_def, of "initial_chain_ids g" empty_proposals_state]
    by (simp add: proposals_inv_def empty_proposals_state_def DKG_DEFAULT_PROPOSER_THRESHOLD_def)
qed

lemma proposals_inv_decides:
  assumes inv: "proposals_inv cfg s" and d: "decides hup (s, h) (s', h') key w" and w: "wf_votes cfg w"
  shows "proposals_inv cfg s'"
  using assms by (auto simp: proposals_inv_def decides_def)

lemma proposals_inv_step:
  assumes "p_step cfg x hup env (s, h) (s', h')" and inv: "proposals_inv cfg s"
  shows "proposals_inv cfg s'"
  using assms(1)
proof (cases rule: p_step_cases)
  case frame
  with inv show ?thesis
    using unat_of_nat_le [of "length (proposers s')", where 'a = 32]
    by (auto simp: proposals_inv_def)
next
  case (voted now who b p key)
  have "wf_votes cfg (add_vote who b (current_votes cfg now s key))"
    using proposals_inv_votes [OF inv] voted(3)
    by (intro wf_votes_add) (auto simp: current_votes_def split: option.splits)
  with inv voted(4) show ?thesis
    by (rule proposals_inv_decides)
next
  case (reviewed key v)
  with inv show ?thesis
    by (blast intro: proposals_inv_decides proposals_inv_votes)
qed

lemma proposals_inv_steps:
  assumes "p_steps cfg x hup env st st'" and "proposals_inv cfg (fst st)"
  shows "proposals_inv cfg (fst st')"
  using assms
  by (induction rule: rtranclp_induct) (auto intro: proposals_inv_step)

section \<open>Finality\<close>

definition approved :: "proposals_state \<Rightarrow> proposal \<Rightarrow> bool" where
  "approved s p \<longleftrightarrow> (\<exists>c n v. votes s (c, n, p) = Some v \<and> status v = Approved)"

lemma status_resolved:
  "status w = Initiated \<Longrightarrow> status (resolved t n w) = fst (try_to_complete t n w)"
  by (simp add: resolved_def try_to_complete_status is_complete_def)

lemma current_votes_open: "may_vote cfg now who b (current_votes cfg now s key) \<Longrightarrow>
   votes s key = Some v \<Longrightarrow> status v = Initiated"
  by (auto simp: may_vote_def is_complete_def current_votes_def)

lemma decided_step:
  assumes "p_step cfg x hup env (s, h) (s', h')" and "votes s key = Some v" and "is_complete v"
  shows "votes s' key = Some v"
  using assms(1)
proof (cases rule: p_step_cases)
  case frame
  with assms(2) show ?thesis by simp
next
  case (voted now who b p key')
  with assms have "key' \<noteq> key"
    using current_votes_open [OF voted(3), of v] by (auto simp: is_complete_def)
  with voted assms(2) show ?thesis
    by (simp add: decides_def)
next
  case (reviewed key' v')
  with assms have "key' \<noteq> key"
    by (auto simp: decides_def is_complete_def)
  with reviewed assms(2) show ?thesis
    by (simp add: decides_def)
qed

lemma decided_steps:
  assumes "p_steps cfg x hup env st st'" and "votes (fst st) key = Some v" and "is_complete v"
  shows "votes (fst st') key = Some v"
  using assms(1,2)
  by (induction rule: rtranclp_induct)
    (auto intro: decided_step [OF _ _ assms(3)])

lemma approved_steps:
  assumes "p_steps cfg x hup env st st'" and "approved (fst st) p"
  shows "approved (fst st') p"
proof -
  from assms(2) obtain c n v where "votes (fst st) (c, n, p) = Some v" and v: "status v = Approved"
    by (auto simp: approved_def)
  with assms(1) have "votes (fst st') (c, n, p) = Some v"
    by (auto intro: decided_steps simp: is_complete_def)
  with v show ?thesis
    by (auto simp: approved_def)
qed

lemma key_of_unique: "key_of x p key \<Longrightarrow> key_of x p key' \<Longrightarrow> key' = key"
  by (auto simp: key_of_def)

lemma key_of_proposal: "key_of x p key \<Longrightarrow> snd (snd key) = p"
  by (auto simp: key_of_def)

text \<open>A proposal is voted on under the one key its bytes decode to.\<close>

definition keys_ok :: "ext \<Rightarrow> proposals_state \<Rightarrow> bool" where
  "keys_ok x s \<longleftrightarrow> (\<forall>key. votes s key \<noteq> None \<longrightarrow> key_of x (snd (snd key)) key)"

lemma keys_okD: "keys_ok x s \<Longrightarrow> votes s key = Some v \<Longrightarrow> key_of x (snd (snd key)) key"
  unfolding keys_ok_def by blast

lemma keys_okI: "(\<And>key v. votes s key = Some v \<Longrightarrow> key_of x (snd (snd key)) key) \<Longrightarrow> keys_ok x s"
  unfolding keys_ok_def by blast

lemma decides_votes:
  "decides hup (s, h) (s', h') key w \<Longrightarrow>
   votes s' = (votes s)(key \<mapsto> resolved (proposer_threshold s) (proposer_count s) w)"
  by (simp add: decides_def)

lemma keys_ok_decides:
  assumes "keys_ok x s" and "key_of x (snd (snd key)) key" and "decides hup (s, h) (s', h') key w"
  shows "keys_ok x s'"
proof (rule keys_okI)
  fix key' v
  assume "votes s' key' = Some v"
  with assms show "key_of x (snd (snd key')) key'"
    using keys_okD [OF assms(1), of key'] by (cases "key' = key") (auto dest: decides_votes)
qed

lemma step_decides:
  assumes "p_step cfg x hup env (s, h) (s', h')" and "keys_ok x s"
  obtains (frame) "votes s' = votes s" and "\<not> env \<Longrightarrow> h' = h"
  | (decides) key w where "decides hup (s, h) (s', h') key w" and "key_of x (snd (snd key)) key"
      and "\<And>v. votes s key = Some v \<Longrightarrow> status v = Initiated"
  using assms(1)
proof (cases rule: p_step_cases)
  case frame
  then show ?thesis using that(1) by blast
next
  case (voted now who b p key)
  with that(2) [OF voted(4)] show ?thesis
    using current_votes_open [OF voted(3)] key_of_proposal [OF voted(1)] by blast
next
  case (reviewed key v)
  then have "status v = Initiated"
    by (simp add: decides_def)
  with keys_okD [OF assms(2) reviewed(1)] that(2) [OF reviewed(2)] reviewed(1) show ?thesis
    by auto
qed

lemma keys_ok_step: "p_step cfg x hup env (s, h) (s', h') \<Longrightarrow> keys_ok x s \<Longrightarrow> keys_ok x s'"
  by (erule step_decides, assumption) (simp add: keys_ok_def, blast intro: keys_ok_decides)

lemma keys_ok_steps: "p_steps cfg x hup env st st' \<Longrightarrow> keys_ok x (fst st) \<Longrightarrow> keys_ok x (fst st')"
  by (induction rule: rtranclp_induct) (auto intro: keys_ok_step)

lemma approved_key: "keys_ok x s \<Longrightarrow> key_of x p key \<Longrightarrow>
    approved s p \<longleftrightarrow> (\<exists>v. votes s key = Some v \<and> status v = Approved)"
proof -
  assume ok: "keys_ok x s" and key: "key_of x p key"
  have "(c, n, p) = key" if "votes s (c, n, p) \<noteq> None" for c n
    using that keys_okD [OF ok, of "(c, n, p)"] key_of_unique [OF key] by auto
  moreover obtain c n where "key = (c, n, p)"
    using key_of_proposal [OF key] by (cases key) auto
  ultimately show ?thesis
    unfolding approved_def by blast
qed

lemma decides_approved:
  assumes ok: "keys_ok x s" and d: "decides hup (s, h) (s', h') key w"
    and key: "key_of x (snd (snd key)) key"
    and new: "\<And>v. votes s key = Some v \<Longrightarrow> status v = Initiated"
  shows "\<not> approved s (snd (snd key))"
    and "approved s' (snd (snd key)) \<longleftrightarrow>
           status (resolved (proposer_threshold s) (proposer_count s) w) = Approved"
    and "p \<noteq> snd (snd key) \<Longrightarrow> approved s' p \<longleftrightarrow> approved s p"
proof -
  show "\<not> approved s (snd (snd key))"
    using approved_key [OF ok key] new by auto
  show "approved s' (snd (snd key)) \<longleftrightarrow>
      status (resolved (proposer_threshold s) (proposer_count s) w) = Approved"
    using approved_key [OF keys_ok_decides [OF ok key d] key] d by (auto simp: decides_def)
  show "approved s' p \<longleftrightarrow> approved s p" if "p \<noteq> snd (snd key)"
  proof -
    have "votes s' (c, n, p) = votes s (c, n, p)" for c n
      using decides_votes [OF d] that by auto
    then show ?thesis
      by (simp add: approved_def)
  qed
qed

section \<open>The interface to the proposal handler\<close>

text \<open>
  What the pallet relies on: a handler that accepts a proposal holds one more copy of it and
  nothing else has changed. \<open>stored\<close> is the multiset of proposals the handler holds.
\<close>

locale unsigned_proposal_sink =
  fixes hup :: "block_number \<Rightarrow> 'h unsigned_handler"
    and stored :: "'h \<Rightarrow> proposal multiset"
    and handler_ok :: "'h \<Rightarrow> bool"
  assumes stores: "hup now p h = (Ok (), h') \<Longrightarrow> handler_ok h \<Longrightarrow> stored h' = add_mset p (stored h)"
    and keeps_ok: "hup now p h = (Ok (), h') \<Longrightarrow> handler_ok h \<Longrightarrow> handler_ok h'"
begin

lemma decides_stored:
  assumes d: "decides hup (s, h) (s', h') key w" and ok: "handler_ok h"
  shows "handler_ok h' \<and> stored h' = (if status (resolved (proposer_threshold s) (proposer_count s) w) = Approved
    then add_mset (snd (snd key)) (stored h) else stored h)"
proof -
  have w: "status w = Initiated" using d by (simp add: decides_def)
  show ?thesis
  proof (cases "unat (proposer_threshold s) \<le> length (votes_for w)")
    case True
    with d obtain now where "hup now (snd (snd key)) h = (Ok (), h')"
      by (auto simp: decides_def)
    with True w ok show ?thesis
      using stores keeps_ok by (simp add: status_resolved)
  next
    case False
    with d w ok show ?thesis
      by (simp add: decides_def status_resolved)
  qed
qed

lemma handover_step:
  assumes step: "p_step cfg x hup False (s, h) (s', h')" and ok: "keys_ok x s" "handler_ok h"
  shows "handler_ok h' \<and> count (stored h') p =
     count (stored h) p + (if approved s' p \<and> \<not> approved s p then 1 else 0)"
  using step ok(1)
proof (cases rule: step_decides)
  case frame
  then have "approved s' p = approved s p"
    unfolding approved_def by simp
  with frame ok show ?thesis by simp
next
  case (decides key w)
  note st = decides_stored [OF decides(1) ok(2)]
  note ap = decides_approved [OF ok(1) decides]
  show ?thesis
    using st ap by (cases "p = snd (snd key)") auto
qed

lemma handover_steps:
  assumes "p_steps cfg x hup False st st'" and ok: "keys_ok x (fst st)" "handler_ok (snd st)"
  shows "handler_ok (snd st') \<and> count (stored (snd st')) p =
     count (stored (snd st)) p + (if approved (fst st') p \<and> \<not> approved (fst st) p then 1 else 0)"
  using assms(1)
proof (induction rule: rtranclp_induct)
  case base
  with ok show ?case by simp
next
  case (step st1 st2)
  obtain s1 h1 s2 h2 where st: "st1 = (s1, h1)" "st2 = (s2, h2)"
    by (cases st1; cases st2) auto
  have k: "keys_ok x s1"
    using keys_ok_steps [OF step(1) ok(1)] st by simp
  have mono: "approved (fst st) p \<Longrightarrow> approved s1 p" "approved s1 p \<Longrightarrow> approved s2 p"
    using approved_steps [OF step(1)] approved_steps [OF r_into_rtranclp, OF step(2)] st by simp_all
  from step.IH st have h1: "handler_ok h1" and
    c1: "count (stored h1) p = count (stored (snd st)) p + (if approved s1 p \<and> \<not> approved (fst st) p then 1 else 0)"
    by simp_all
  show ?case
    using handover_step [OF step(2) [unfolded st] k h1, of p] c1 mono
    by (cases "approved (fst st) p"; cases "approved s1 p") (simp_all add: st)
qed

end

end
