(* ===== verification/Sample_Ext.thy ===== *)
theory Sample_Ext
  imports Primitives
begin

text \<open>
  A concrete instance of the code outside the repository, used by the concrete runs of the
  development: header fields read big-endian at their documented offsets, a nonce of four
  big-endian bytes, and a signature scheme in which a signature of 65 bytes carries the x
  coordinate of its signer in its first 32 bytes.
\<close>

definition sample_ext :: ext where
  "sample_ext = \<lparr>keccak_256 = (\<lambda>bs. take 32 (bs @ replicate 32 0)),
     secp256k1_ecdsa_recover = (\<lambda>sig _. if hd sig = 0 then None else Some (take 64 sig)),
     secp256k1_decompress = (\<lambda>bs. if length bs = 33 then Some (4 # replicate 31 0 @ bs) else None),
     nonce_to_bytes = to_be_bytes, nonce_from_bytes = from_be_bytes,
     header_resource_id = take 32, header_nonce = (\<lambda>bs. from_be_bytes (drop 36 bs)),
     resource_typed_chain_id = (\<lambda>rid. Evm (from_be_bytes (drop 28 rid))),
     typed_chain_id_from_bytes = (\<lambda>bs. Evm (from_be_bytes (drop 2 bs))),
     proposal_length = (\<lambda>k. if k = TokenAdd then 60 else 40),
     from_slice = (\<lambda>k bs. Inr (from_be_bytes (take 4 (drop 36 bs)))),
     decode_transaction_v2 = (\<lambda>bs. if bs = [] then None else Some (Legacy (of_nat (length bs)))),
     u256_as_u32 = (\<lambda>w. if unat w < 2 ^ 32 then Some (ucast w) else None),
     ethabi_encode_array = concat\<rparr>"

lemma sample_nonce_codec: "nonce_codec_ok sample_ext"
  by (simp add: nonce_codec_ok_def sample_ext_def)

end
