(* ===== verification/Sample_Data.thy ===== *)
theory Sample_Data
  imports Voting Sample_Ext
begin

text \<open>The configuration, the genesis and a proposal used by the concrete runs of the proposals pallet.\<close>

definition sample_account :: "u8 \<Rightarrow> account_id" where
  "sample_account b = [b]"

text \<open>A proposal of kind \<open>TokenAdd\<close> for the chain \<open>Evm 5\<close> with nonce 7.\<close>

definition sample_rid :: resource_id where
  "sample_rid = replicate 31 0 @ [5]"

definition sample_proposal :: proposal where
  "sample_proposal = UnsignedProposal TokenAdd (sample_rid @ [0, 0, 0, 0] @ [0, 0, 0, 7] @ replicate 20 1)"

definition sample_cfg :: proposals_config where
  "sample_cfg = \<lparr>chain_identifier = Substrate 1, proposal_lifetime = 50, max_votes = 10,
     max_resources = 32, max_proposers = 10, voting_key_size = 64,
     ensure_admin_origin = (\<lambda>org. org = Root), authority_to_merkle_leaf = (\<lambda>i. i)\<rparr>"

definition sample_genesis :: proposals_genesis where
  "sample_genesis = \<lparr>initial_chain_ids = [[1, 0, 0, 0, 0, 5]], initial_r_ids = [(sample_rid, [])],
     initial_proposers = [[1], [2], [3]]\<rparr>"

text \<open>The state the genesis builds, and the same state after a change of the authority set to the
  same three accounts and a threshold of two.\<close>

definition sample_s0 :: proposals_state where
  "sample_s0 = empty_proposals_state\<lparr>chain_nonces := [Evm 5 \<mapsto> 0], resources := [sample_rid \<mapsto> []],
     proposers := [[1], [2], [3]]\<rparr>"

definition sample_s2 :: proposals_state where
  "sample_s2 = sample_s0\<lparr>proposer_count := 3, proposer_threshold := 2\<rparr>"

definition sample_hup :: "block_number \<Rightarrow> proposal list unsigned_handler" where
  "sample_hup now p h = (Ok (), h @ [p])"

lemma sample_genesis_build: "proposals_genesis_build sample_cfg sample_ext sample_genesis = Some sample_s0"
  by (simp add: proposals_genesis_build_def sample_cfg_def sample_ext_def sample_genesis_def
      sample_s0_def empty_proposals_state_def from_be_bytes_def nat_of_be_def try_bounded_def
      sample_rid_def)

lemma sample_ext_simps:
  "proposal_length sample_ext k = (if k = TokenAdd then 60 else 40)"
  "from_slice sample_ext k bs = Inr (from_be_bytes (take 4 (drop 36 bs)))"
  "resource_typed_chain_id sample_ext rid = Evm (from_be_bytes (drop 28 rid))"
  "header_resource_id sample_ext bs = take 32 bs" "header_nonce sample_ext bs = from_be_bytes (drop 36 bs)"
  by (simp_all add: sample_ext_def)

lemma from_be_sample: "from_be_bytes (replicate 3 0 @ [5]) = (5 :: u32)" "from_be_bytes [0, 0, 0, 7] = (7 :: u32)"
  by code_simp+

lemma sample_decode:
  "decode_proposal_identifier sample_ext sample_proposal =
     Ok \<lparr>pi_key = TokenAddProposal 7, pi_typed_chain_id = Evm 5\<rparr>"
  "decode_proposal_header sample_ext (data sample_proposal) = Ok (sample_rid, 7)"
proof -
  show h: "decode_proposal_header sample_ext (data sample_proposal) = Ok (sample_rid, 7)"
    by (simp add: decode_proposal_header_def sample_ext_simps sample_proposal_def sample_rid_def
        PROPOSAL_HEADER_LENGTH_def from_be_sample Let_def)
  have "kind sample_proposal = TokenAdd"
    by (simp add: sample_proposal_def)
  then show "decode_proposal_identifier sample_ext sample_proposal =
     Ok \<lparr>pi_key = TokenAddProposal 7, pi_typed_chain_id = Evm 5\<rparr>"
    using h by (simp add: decode_identifier_eq identifier_of_kind_def proposal_module_create_def
        sample_ext_simps, simp add: sample_proposal_def sample_rid_def from_be_sample)
qed

lemma sample_check_vote:
  assumes "chain_nonces s = chain_nonces sample_s0" and "resources s = resources sample_s0"
    and "who \<in> set (proposers s)"
  shows "check_vote sample_ext (Signed who) sample_proposal s = Ok (who, 7, Evm 5)"
  using assms
  by (simp add: check_vote_Ok sample_decode is_proposer_def chain_whitelisted_def resource_exists_def
      sample_s0_def del: check_vote.simps)

end
