(* ===== verification/Signatures.thy ===== *)
theory Signatures
  imports Primitives
begin

text \<open>
  The ECDSA helpers of \<open>dkg-runtime-primitives/src/utils.rs\<close> and the bytes that are signed for a
  batch of proposals (\<open>proposal.rs\<close>). Recovery of a public key is the host function of \<open>ext\<close>; its
  result is the 64 bytes of the uncompressed point, of which the code compares the first 32 (the
  x coordinate) with the compressed key without its parity byte.
\<close>

section \<open>Recovering the signer\<close>

definition validate_ecdsa_signature :: "ext \<Rightarrow> bytes \<Rightarrow> bytes \<Rightarrow> bool" where
  "validate_ecdsa_signature x msg sig =
     (if length sig = SIGNATURE_LENGTH
      then secp256k1_ecdsa_recover x sig (keccak_256 x msg) \<noteq> None
      else False)"

definition recover_ecdsa_pub_key :: "ext \<Rightarrow> bytes \<Rightarrow> bytes \<Rightarrow> bytes option" where
  "recover_ecdsa_pub_key x msg sig =
     (if length sig = SIGNATURE_LENGTH
      then secp256k1_ecdsa_recover x sig (keccak_256 x msg)
      else None)"

text \<open>The closure given to \<open>any\<close> runs once per candidate and stops at the first match.\<close>

fun verify_signer_from_set_ecdsa :: "ext \<Rightarrow> bytes list \<Rightarrow> bytes \<Rightarrow> bytes \<Rightarrow> bytes option \<times> bool" where
  "verify_signer_from_set_ecdsa x [] msg sig = (None, False)"
| "verify_signer_from_set_ecdsa x (c # cs) msg sig =
     (case recover_ecdsa_pub_key x msg sig of
        Some d \<Rightarrow>
          if tl c = take 32 d then (Some c, True) else verify_signer_from_set_ecdsa x cs msg sig
      | None \<Rightarrow> verify_signer_from_set_ecdsa x cs msg sig)"

definition to_slice_33 :: "bytes \<Rightarrow> bytes option" where
  "to_slice_33 v = (if length v = ECDSA_KEY_LENGTH then Some v else None)"

definition signed_by :: "ext \<Rightarrow> bytes \<Rightarrow> bytes \<Rightarrow> bytes \<Rightarrow> bool" where
  "signed_by x c msg sig = (\<exists>d. recover_ecdsa_pub_key x msg sig = Some d \<and> tl c = take 32 d)"

lemma verify_signer_Some:
  "verify_signer_from_set_ecdsa x cs msg sig = (Some c, ok) \<Longrightarrow>
   ok \<and> c \<in> set cs \<and> signed_by x c msg sig"
  by (induction cs) (auto simp: signed_by_def split: option.splits if_splits)

lemma verify_signer_None:
  "verify_signer_from_set_ecdsa x cs msg sig = (None, ok) \<Longrightarrow>
   \<not> ok \<and> (\<forall>c \<in> set cs. \<not> signed_by x c msg sig)"
  by (induction cs) (auto simp: signed_by_def split: option.splits if_splits)

lemma verify_signer_flag:
  "snd (verify_signer_from_set_ecdsa x cs msg sig) \<longleftrightarrow> (\<exists>c \<in> set cs. signed_by x c msg sig)"
proof (cases "verify_signer_from_set_ecdsa x cs msg sig")
  case (Pair a ok)
  then show ?thesis
    by (cases a) (auto dest: verify_signer_Some verify_signer_None)
qed

section \<open>Signatures of the active DKG key\<close>

datatype signature_error =
    InvalidDKGKey
  | InvalidRecovery bytes bytes
  | InvalidECDSASignature

fun expected_public_key :: "signature_error \<Rightarrow> bytes option" where
  "expected_public_key (InvalidRecovery expected _) = Some expected"
| "expected_public_key _ = None"

fun actual_public_key :: "signature_error \<Rightarrow> bytes option" where
  "actual_public_key (InvalidRecovery _ actual) = Some actual"
| "actual_public_key _ = None"

definition ensure_signed_by_dkg :: "ext \<Rightarrow> bytes \<Rightarrow> bytes \<Rightarrow> bytes \<Rightarrow> signature_error + unit" where
  "ensure_signed_by_dkg x dkg_key sig msg =
     (case recover_ecdsa_pub_key x msg sig of
        None \<Rightarrow> Inl InvalidECDSASignature
      | Some recovered_key \<Rightarrow>
          if dkg_key = [] \<or> length dkg_key \<noteq> 33 then Inl InvalidDKGKey
          else let current_dkg = drop 1 dkg_key; signer = take 32 recovered_key in
            if signer = current_dkg then Inr ()
            else Inl (InvalidRecovery dkg_key recovered_key))"

lemma ensure_signed_by_dkg_Ok:
  "ensure_signed_by_dkg x k sig msg = Inr () \<longleftrightarrow> length k = 33 \<and> signed_by x k msg sig"
  by (auto simp: ensure_signed_by_dkg_def signed_by_def drop_Suc Let_def split: option.splits)

lemma signed_by_validates: "signed_by x k msg sig \<Longrightarrow> validate_ecdsa_signature x msg sig"
  by (auto simp: signed_by_def validate_ecdsa_signature_def recover_ecdsa_pub_key_def
      split: if_splits)

section \<open>Batches of proposals and the bytes signed for them\<close>

record unsigned_proposal =
  up_typed_chain_id :: typed_chain_id
  up_key :: dkg_payload_key
  up_proposal :: proposal

record stored_unsigned_proposal_batch =
  ub_batch_id :: u32
  ub_proposals :: "unsigned_proposal list"
  ub_timestamp :: block_number

record signed_proposal_batch =
  sb_batch_id :: u32
  sb_proposals :: "proposal list"
  sb_signature :: bytes

text \<open>A batch of one proposal is signed as the proposal's data, so that a single proposal can be
  verified quickly; any other batch is the ABI encoding of the array of its proposals' data.\<close>

definition unsigned_batch_data :: "ext \<Rightarrow> stored_unsigned_proposal_batch \<Rightarrow> bytes" where
  "unsigned_batch_data x b =
     (case ub_proposals b of
        [p] \<Rightarrow> data (up_proposal p)
      | ps \<Rightarrow> ethabi_encode_array x (map (\<lambda>p. data (up_proposal p)) ps))"

definition unsigned_batch_hash :: "ext \<Rightarrow> stored_unsigned_proposal_batch \<Rightarrow> hash256 option" where
  "unsigned_batch_hash x b = Some (keccak_256 x (unsigned_batch_data x b))"

definition signed_batch_data :: "ext \<Rightarrow> signed_proposal_batch \<Rightarrow> bytes" where
  "signed_batch_data x b =
     (case sb_proposals b of
        [p] \<Rightarrow> data p
      | ps \<Rightarrow> ethabi_encode_array x (map data ps))"

definition signed_batch_of_payload :: "u32 \<Rightarrow> proposal list \<Rightarrow> bytes \<Rightarrow> signed_proposal_batch" where
  "signed_batch_of_payload batch payload sig =
     \<lparr>sb_batch_id = batch, sb_proposals = payload, sb_signature = sig\<rparr>"

lemma signed_data_of_unsigned:
  assumes "map data (sb_proposals s) = map (\<lambda>p. data (up_proposal p)) (ub_proposals u)"
  shows "signed_batch_data x s = unsigned_batch_data x u"
proof -
  have len: "length (sb_proposals s) = length (ub_proposals u)"
    using arg_cong [OF assms, of length] by simp
  show ?thesis
  proof (cases "sb_proposals s")
    case Nil
    with len show ?thesis by (simp add: signed_batch_data_def unsigned_batch_data_def)
  next
    case (Cons p ps)
    with len obtain q qs where q: "ub_proposals u = q # qs"
      by (cases "ub_proposals u") auto
    with assms Cons len show ?thesis
      by (cases ps; cases qs) (auto simp: signed_batch_data_def unsigned_batch_data_def)
  qed
qed

end
