(* ===== verification/Primitives_Correct.thy ===== *)
theory Primitives_Correct
  imports Sample_Data Signatures
begin

text \<open>
  The properties of the shared primitives: the delivery window of gossip messages, the codec of the
  refresh proposal, the signer found by signature recovery, and the identifiers proposals decode to.
\<close>

text \<open>
  A gossip message is delivered exactly if its block is at most eight blocks away from the
  expected one in either direction; the saturating bounds of the code never widen or narrow the
  window at the ends of the 64-bit range.
\<close>

theorem delivery_window_is_symmetric:
  "associated_block_id_acceptable expected received \<longleftrightarrow>
     unat received \<le> unat expected + 8 \<and> unat expected \<le> unat received + 8"
  by (rule acceptable_distance)

text \<open>
  C12. The codec of the refresh proposal is a bijection between well-formed proposals (a root of 32
  and a key of 64 bytes) and strings of exactly 112 bytes, given that the nonce codec is one on four
  bytes: decoding an encoding gives the proposal back, and every string of that length is the
  encoding of what it decodes to.
\<close>

theorem refresh_codec_round_trip:
  assumes "nonce_codec_ok x"
  shows "(\<forall>p. wf_refresh p \<longrightarrow> (\<exists>bs. refresh_encode x p = Some bs \<and> length bs = REFRESH_LENGTH \<and>
        refresh_decode x bs = Some p)) \<and>
     (\<forall>bs. length bs = REFRESH_LENGTH \<longrightarrow>
        (\<exists>p. refresh_decode x bs = Some p \<and> wf_refresh p \<and> refresh_encode x p = Some bs))"
  using refresh_decode_encode [OF assms] refresh_encode_decode [OF assms] length_refresh_encode [OF assms]
  by blast

theorem refresh_codec_round_trip_witness:
  "\<exists>p. refresh_decode sample_ext (replicate 112 3) = Some p \<and> refresh_encode sample_ext p = Some (replicate 112 3)"
proof -
  have "length (replicate 112 (3 :: u8)) = REFRESH_LENGTH"
    by (simp add: REFRESH_LENGTH_def)
  with refresh_codec_round_trip [OF sample_nonce_codec] show ?thesis by blast
qed

text \<open>
  \<open>verify_signer_from_set_ecdsa\<close> finds the first authority of the set whose compressed key has
  the x coordinate of the recovered key, and reports failure exactly if there is none.
\<close>

theorem verify_signer_finds_the_first:
  "verify_signer_from_set_ecdsa x cs msg sig =
     (case List.find (\<lambda>c. case recover_ecdsa_pub_key x msg sig of Some d \<Rightarrow> tl c = take 32 d | None \<Rightarrow> False) cs of
        Some c \<Rightarrow> (Some c, True) | None \<Rightarrow> (None, False))"
  by (induction cs) (auto split: option.splits)

text \<open>
  What a proposal decodes to: an EVM proposal to the chain and nonce of its transaction; any
  other kind to the chain of the resource in its header, with the payload key of its own kind, where
  anchor creation and proposer-set updates decode to nothing. Decoding panics exactly on an EVM
  transaction whose nonce does not fit 32 bits.
\<close>

theorem decode_identifier_exact:
  "(decode_proposal_identifier x p = Ok i \<longleftrightarrow>
     (if kind p = EVM
      then \<exists>c n. evm_tx_create x (data p) = Ok (c, n) \<and>
             i = \<lparr>pi_key = EVMProposal n, pi_typed_chain_id = Evm c\<rparr>
      else \<exists>rid m. decode_proposal_header x (data p) = Ok (rid, m) \<and>
             identifier_of_kind x (resource_typed_chain_id x rid) p = Ok i)) \<and>
   (decode_proposal_identifier x p = Panic \<longleftrightarrow> kind p = EVM \<and> evm_tx_create x (data p) = Panic) \<and>
   (kind p \<in> {AnchorCreate, ProposerSetUpdate} \<longrightarrow> decode_proposal_identifier x p \<noteq> Ok i)"
  using decode_identifier_Ok_iff [of x p i] decode_identifier_panics [of x p]
  by (auto simp: identifier_of_kind_def)

theorem decode_identifier_exact_witness:
  "decode_proposal_identifier sample_ext (UnsignedProposal AnchorCreate []) \<noteq>
     Ok \<lparr>pi_key = EVMProposal 1, pi_typed_chain_id = Evm 1\<rparr>"
  using decode_identifier_exact [of sample_ext "UnsignedProposal AnchorCreate []"
      "\<lparr>pi_key = EVMProposal 1, pi_typed_chain_id = Evm 1\<rparr>",
      THEN conjunct2, THEN conjunct2]
  by simp

end
