(* ===== verification/Proposals_Correct.thy ===== *)
theory Proposals_Correct
  imports Sample_Data
begin

text \<open>
  The properties of the proposals pallet: the exact effect of an accepted vote, the invariant of
  reachable vote records, the finality of a decision, the soundness of a rejection and what former proposers do to it, the progress
  of an approval, and the layout of derived resource identifiers.
\<close>

section \<open>The exact effect of a vote\<close>

lemma try_resolve_Ok_iff:
  "try_resolve_proposal hup now n c p (s, h) = (Ok u, st') \<longleftrightarrow>
     (\<exists>v. votes s (c, n, p) = Some v \<and> \<not> is_complete v \<and> \<not> is_expired v now \<and>
        (let t = proposer_threshold s; k = proposer_count s; st = fst (try_to_complete t k v);
             s1 = s\<lparr>votes := (votes s)((c, n, p) \<mapsto> resolved t k v),
                    p_events := p_events s @ resolve_events st (kind p) c n\<rparr>
         in if st = Approved then hup p h = (Ok (), snd st') \<and> fst st' = s1 else st' = (s1, h)))"
  (is "?L \<longleftrightarrow> ?R")
proof
  obtain s' h' where st': "st' = (s', h')" by (cases st')
  assume ?L
  then show ?R
    unfolding st' by (rule try_resolve_Ok) (auto simp: Let_def)
next
  assume ?R
  then obtain v where v: "votes s (c, n, p) = Some v" "\<not> is_complete v" "\<not> is_expired v now"
    and r: "let t = proposer_threshold s; k = proposer_count s; st = fst (try_to_complete t k v);
             s1 = s\<lparr>votes := (votes s)((c, n, p) \<mapsto> resolved t k v),
                    p_events := p_events s @ resolve_events st (kind p) c n\<rparr>
         in if st = Approved then hup p h = (Ok (), snd st') \<and> fst st' = s1 else st' = (s1, h)"
    by blast
  obtain st v' where tc: "try_to_complete (proposer_threshold s) (proposer_count s) v = (st, v')"
    by (cases "try_to_complete (proposer_threshold s) (proposer_count s) v")
  show ?L
    using r [unfolded Let_def resolved_def tc fst_conv snd_conv] by (cases st; cases st')
      (auto simp: v tc resolved_def resolve_events_def cancel_execution_def p_deposit_def Let_def)
qed

definition vote_event :: "bool \<Rightarrow> proposal \<Rightarrow> typed_chain_id \<Rightarrow> u32 \<Rightarrow> account_id \<Rightarrow> proposals_event" where
  "vote_event b p c n who = (if b then VoteFor (kind p) c n who else VoteAgainst (kind p) c n who)"

definition voted_state ::
  "proposals_config \<Rightarrow> block_number \<Rightarrow> account_id \<Rightarrow> bool \<Rightarrow> vote_key \<Rightarrow> proposals_state \<Rightarrow> proposals_state" where
  "voted_state cfg now who b key s =
     (let w = add_vote who b (current_votes cfg now s key); t = proposer_threshold s; k = proposer_count s
      in s\<lparr>votes := (votes s)(key \<mapsto> resolved t k w),
           p_events := p_events s @ [vote_event b (snd (snd key)) (fst key) (fst (snd key)) who] @
             resolve_events (fst (try_to_complete t k w)) (kind (snd (snd key))) (fst key) (fst (snd key))\<rparr>)"

lemma vote_Ok_iff:
  "vote cfg x hup now b org p (s, h) = (Ok u, st') \<longleftrightarrow>
     (\<exists>who n c. check_vote x org p s = Ok (who, n, c) \<and>
        may_vote cfg now who b (current_votes cfg now s (c, n, p)) \<and>
        fst st' = voted_state cfg now who b (c, n, p) s \<and>
        (if unat (proposer_threshold s) \<le>
              length (votes_for (add_vote who b (current_votes cfg now s (c, n, p))))
         then hup p h = (Ok (), snd st') else snd st' = h))"
  (is "?L \<longleftrightarrow> ?R")
proof -
  have commit: "(\<exists>s1. commit_vote cfg now who n c p b s = (Ok (), s1) \<and>
      try_resolve_proposal hup now n c p (s1, h) = (Ok u, st')) \<longleftrightarrow>
      and_then (lift_fst (commit_vote cfg now who n c p b) (s, h))
         (\<lambda>_. try_resolve_proposal hup now n c p) = (Ok u, st')" for who n c
    by (cases "commit_vote cfg now who n c p b s"; cases "fst (commit_vote cfg now who n c p b s)")
      (auto simp del: try_resolve_proposal.simps)
  have "?L \<longleftrightarrow> (\<exists>who n c. check_vote x org p s = Ok (who, n, c) \<and>
      (\<exists>s1. commit_vote cfg now who n c p b s = (Ok (), s1) \<and>
         try_resolve_proposal hup now n c p (s1, h) = (Ok u, st')))"
    unfolding vote_unfold commit
    by (cases "check_vote x org p s") (auto simp del: try_resolve_proposal.simps lift_fst.simps)
  also have "\<dots> \<longleftrightarrow> ?R"
    unfolding commit_vote_Ok try_resolve_Ok_iff
    by (intro ex_cong1) (cases st', auto simp: voted_state_def vote_event_def Let_def may_vote_def is_complete_def
        is_expired_def p_deposit_def)
  finally show ?thesis .
qed

text \<open>
  The outcome of a vote, read off the vote lists alone, and the specification of an accepted vote: it
  names no operation of the pallet.
\<close>

definition vote_outcome :: "u32 \<Rightarrow> u32 \<Rightarrow> account_id list \<Rightarrow> account_id list \<Rightarrow> proposal_status" where
  "vote_outcome t k vf va =
     (if unat t \<le> length vf then Approved
      else if t \<le> k \<and> k < of_nat (length va) + t then Rejected else Initiated)"

definition vote_effect ::
  "'h unsigned_handler \<Rightarrow> bool \<Rightarrow> account_id \<Rightarrow> vote_key \<Rightarrow> proposal_votes \<Rightarrow>
   proposals_state \<times> 'h \<Rightarrow> proposals_state \<times> 'h \<Rightarrow> bool" where
  "vote_effect hup b who = (\<lambda>(c, n, p) v (s, h) (s', h').
     let vf = if b then votes_for v @ [who] else votes_for v;
         va = if b then votes_against v else votes_against v @ [who];
         out = vote_outcome (proposer_threshold s) (proposer_count s) vf va
     in s' = s\<lparr>votes := (votes s)((c, n, p) \<mapsto>
                  \<lparr>votes_for = vf, votes_against = va, status = out, expiry = expiry v\<rparr>),
                p_events := p_events s @
                  (if b then VoteFor (kind p) c n who else VoteAgainst (kind p) c n who) #
                  (if out = Approved then [ProposalApproved (kind p) c n, ProposalSucceeded (kind p) c n]
                   else if out = Rejected then [ProposalRejected (kind p) c n] else [])\<rparr> \<and>
        (if out = Approved then hup p h = (Ok (), h') else h' = h))"

definition accepted_vote ::
  "proposals_config \<Rightarrow> ext \<Rightarrow> 'h unsigned_handler \<Rightarrow> block_number \<Rightarrow> bool \<Rightarrow> origin \<Rightarrow> proposal \<Rightarrow>
   proposals_state \<times> 'h \<Rightarrow> proposals_state \<times> 'h \<Rightarrow> bool" where
  "accepted_vote cfg x hup now b org p st st' \<longleftrightarrow>
     (\<exists>who i rid n v.
        org = Signed who \<and> who \<in> set (proposers (fst st)) \<and>
        decode_proposal_identifier x p = Ok i \<and> decode_proposal_header x (data p) = Ok (rid, n) \<and>
        pi_typed_chain_id i \<in> dom (chain_nonces (fst st)) \<and> rid \<in> dom (resources (fst st)) \<and>
        v = (case votes (fst st) (pi_typed_chain_id i, n, p) of Some v \<Rightarrow> v
             | None \<Rightarrow> \<lparr>votes_for = [], votes_against = [], status = Initiated,
                         expiry = now + proposal_lifetime cfg\<rparr>) \<and>
        status v = Initiated \<and> now < expiry v \<and>
        who \<notin> set (votes_for v) \<and> who \<notin> set (votes_against v) \<and>
        (if b then length (votes_for v) < max_votes cfg else length (votes_against v) < max_votes cfg) \<and>
        vote_effect hup b who (pi_typed_chain_id i, n, p) v st st')"

lemma resolved_add_vote:
  assumes "status v = Initiated"
  shows "resolved t k (add_vote who b v) =
     (let vf = if b then votes_for v @ [who] else votes_for v; va = if b then votes_against v else votes_against v @ [who]
      in \<lparr>votes_for = vf, votes_against = va, status = vote_outcome t k vf va, expiry = expiry v\<rparr>)"
  using assms by (cases v; cases b) (auto simp: resolved_def add_vote_def try_to_complete_def vote_outcome_def Let_def)

lemma outcome_add_vote:
  "fst (try_to_complete t k (add_vote who b v)) =
     vote_outcome t k (if b then votes_for v @ [who] else votes_for v)
       (if b then votes_against v else votes_against v @ [who])"
  by (cases b) (auto simp: add_vote_def try_to_complete_def vote_outcome_def)

lemma vote_outcome_Approved [simp]: "vote_outcome t k vf va = Approved \<longleftrightarrow> unat t \<le> length vf"
  by (simp add: vote_outcome_def)

lemma may_vote_alt:
  "may_vote cfg now who b v \<longleftrightarrow> status v = Initiated \<and> now < expiry v \<and>
     who \<notin> set (votes_for v) \<and> who \<notin> set (votes_against v) \<and>
     (if b then length (votes_for v) < max_votes cfg else length (votes_against v) < max_votes cfg)"
  by (auto simp: may_vote_def is_complete_def is_expired_def has_voted_def not_le)

lemma current_votes_alt:
  "current_votes cfg now s key = (case votes s key of Some v \<Rightarrow> v
     | None \<Rightarrow> \<lparr>votes_for = [], votes_against = [], status = Initiated, expiry = now + proposal_lifetime cfg\<rparr>)"
  by (simp add: current_votes_def proposal_votes_default_def split: option.split)

lemma vote_effect_alt:
  assumes "status v = Initiated" and v: "v = current_votes cfg now s (c, n, p)"
  shows "vote_effect hup b who (c, n, p) v (s, h) (s', h') \<longleftrightarrow>
     s' = voted_state cfg now who b (c, n, p) s \<and>
     (if unat (proposer_threshold s) \<le> length (votes_for (add_vote who b v)) then hup p h = (Ok (), h') else h' = h)"
proof -
  let ?t = "proposer_threshold s" and ?k = "proposer_count s"
  let ?vf = "if b then votes_for v @ [who] else votes_for v"
  let ?va = "if b then votes_against v else votes_against v @ [who]"
  have ev: "resolve_events out (kind p) c n =
      (if out = Approved then [ProposalApproved (kind p) c n, ProposalSucceeded (kind p) c n]
       else if out = Rejected then [ProposalRejected (kind p) c n] else [])" for out
    by (cases out) (simp_all add: resolve_events_def)
  have vf: "votes_for (add_vote who b v) = ?vf"
    by (simp add: add_vote_def)
  show ?thesis
    unfolding vote_effect_def voted_state_def Let_def v [symmetric] resolved_add_vote [OF assms(1)]
      outcome_add_vote vf
    by (simp add: vote_event_def ev)
qed

lemma check_vote_dom:
  "check_vote x org p s = Ok (who, n, c) \<longleftrightarrow>
     (\<exists>i rid. org = Signed who \<and> who \<in> set (proposers s) \<and> decode_proposal_identifier x p = Ok i \<and>
        decode_proposal_header x (data p) = Ok (rid, n) \<and> pi_typed_chain_id i \<in> dom (chain_nonces s) \<and>
        rid \<in> dom (resources s) \<and> c = pi_typed_chain_id i)"
  unfolding check_vote_Ok by (auto simp: is_proposer_def chain_whitelisted_def resource_exists_def)

lemma accepted_vote_alt:
  "accepted_vote cfg x hup now b org p (s, h) (s', h') \<longleftrightarrow> vote cfg x hup now b org p (s, h) = (Ok (), (s', h'))"
proof -
  have eq: "(\<exists>v. v = current_votes cfg now s (c, n, p) \<and> status v = Initiated \<and> now < expiry v \<and>
        who \<notin> set (votes_for v) \<and> who \<notin> set (votes_against v) \<and>
        (if b then length (votes_for v) < max_votes cfg else length (votes_against v) < max_votes cfg) \<and>
        vote_effect hup b who (c, n, p) v (s, h) (s', h')) \<longleftrightarrow>
      may_vote cfg now who b (current_votes cfg now s (c, n, p)) \<and>
        s' = voted_state cfg now who b (c, n, p) s \<and>
        (if unat (proposer_threshold s) \<le> length (votes_for (add_vote who b (current_votes cfg now s (c, n, p))))
         then hup p h = (Ok (), h') else h' = h)" for who c n
  proof (cases "status (current_votes cfg now s (c, n, p)) = Initiated")
    case True
    show ?thesis
      unfolding may_vote_alt simp_thms vote_effect_alt [OF True refl] by blast
  next
    case False
    then show ?thesis
      unfolding may_vote_alt by blast
  qed
  show ?thesis
    unfolding accepted_vote_def vote_Ok_iff check_vote_dom current_votes_alt [symmetric] fst_conv snd_conv
      eq [symmetric] by blast
qed

text \<open>
  C2. A call of \<open>acknowledge_proposal\<close> (\<open>reject_proposal\<close>) succeeds exactly if the caller is a
  proposer, the proposal decodes to a whitelisted chain and a registered resource, its record (a
  fresh one if it has none) is open and not expired, the caller is in neither vote list, the list has
  room, and, when the vote makes the number of votes in favour reach the threshold, the handler
  accepts the proposal. The new record has the caller appended to the list of the vote's direction and
  the status these lists, the threshold and the proposer count give; the handler is called exactly
  when that status is approved, nothing else of the state changes, and the events say so.
\<close>

theorem vote_exact_effect:
  "(acknowledge_proposal cfg x hup now org p st = (Ok (), st') \<longleftrightarrow> accepted_vote cfg x hup now True org p st st') \<and>
   (reject_proposal cfg x hup now org p st = (Ok (), st') \<longleftrightarrow> accepted_vote cfg x hup now False org p st st')"
  using accepted_vote_alt [of cfg x hup now True org p "fst st" "snd st" "fst st'" "snd st'"]
    accepted_vote_alt [of cfg x hup now False org p "fst st" "snd st" "fst st'" "snd st'"]
  by (simp add: vote_def)

section \<open>Reachable records\<close>

text \<open>
  C3. From any genesis, after any sequence of calls, changes of the authority set and moves of the
  handler, no account has voted twice on a proposal (in one direction or in both), the vote vectors
  are within their bound, every record has a vote, and the threshold is not zero.
\<close>

theorem reachable_votes_well_formed:
  assumes "proposals_genesis_build cfg x g = Some s0"
    and "p_steps cfg x hup True (s0, h0) (s, h)"
    and "votes s key = Some v"
  shows "distinct (votes_for v @ votes_against v) \<and> length (votes_for v) \<le> max_votes cfg \<and>
    length (votes_against v) \<le> max_votes cfg \<and> votes_for v @ votes_against v \<noteq> [] \<and>
    0 < proposer_threshold s"
proof -
  have inv: "proposals_inv cfg s"
    using proposals_inv_steps [OF assms(2)] proposals_inv_genesis [OF assms(1)] by simp
  then have "0 < proposer_threshold s"
    by (simp add: proposals_inv_def)
  with proposals_inv_votes [OF inv assms(3)] show ?thesis
    by (simp add: wf_votes_def)
qed

text \<open>One vote in favour of the sample proposal, from the genesis: with the default threshold of one
  it is approved at once.\<close>

definition sample_v1 :: proposal_votes where
  "sample_v1 = \<lparr>votes_for = [[1]], votes_against = [], status = Approved, expiry = 60\<rparr>"

lemma sample_max_votes: "max_votes sample_cfg = 10"
  by (simp add: sample_cfg_def)

lemma sample_proposers: "proposers sample_s0 = [[1], [2], [3]]"
  by (simp add: sample_s0_def)

lemma sample_first_vote:
  assumes "hup 10 sample_proposal h = (Ok (), h')"
  shows "\<exists>s1. p_step sample_cfg sample_ext hup env (sample_s0, h) (s1, h') \<and>
     votes s1 (Evm 5, 7, sample_proposal) = Some sample_v1"
proof -
  let ?s1 = "voted_state sample_cfg 10 [1] True (Evm 5, 7, sample_proposal) sample_s0"
  have cur: "current_votes sample_cfg 10 sample_s0 (Evm 5, 7, sample_proposal) =
      \<lparr>votes_for = [], votes_against = [], status = Initiated, expiry = 60\<rparr>"
    by (simp add: current_votes_def sample_s0_def empty_proposals_state_def sample_cfg_def
        proposal_votes_default_def)
  have thr: "proposer_threshold sample_s0 = 1"
    by (simp add: sample_s0_def empty_proposals_state_def DKG_DEFAULT_PROPOSER_THRESHOLD_def)
  have "vote sample_cfg sample_ext (hup 10) 10 True (Signed [1]) sample_proposal (sample_s0, h)
      = (Ok (), (?s1, h'))"
    unfolding vote_Ok_iff
    using sample_check_vote [of sample_s0 "[1]"] assms
    by (intro exI [of _ "[1]"] exI [of _ 7] exI [of _ "Evm 5"])
      (simp add: cur thr may_vote_def is_complete_def is_expired_def has_voted_def
        sample_max_votes sample_proposers del: check_vote.simps)
  then have "p_step sample_cfg sample_ext hup env (sample_s0, h) (?s1, h')"
    by (intro p_step.acknowledged [of _ _ hup 10 "Signed [1]" sample_proposal _ "Ok ()"])
      (simp add: vote_def extrinsic_Ok)
  moreover have "votes ?s1 (Evm 5, 7, sample_proposal) = Some sample_v1"
    by (simp add: voted_state_def Let_def cur thr resolved_def try_to_complete_def sample_v1_def add_vote_def)
  ultimately show ?thesis
    by blast
qed

lemma sample_hup_accepts: "sample_hup now p [] = (Ok (), [p])"
  by (simp add: sample_hup_def)

theorem reachable_votes_well_formed_witness:
  "\<exists>s1. p_steps sample_cfg sample_ext sample_hup True (sample_s0, []) (s1, [sample_proposal]) \<and>
     votes s1 (Evm 5, 7, sample_proposal) = Some sample_v1 \<and>
     distinct (votes_for sample_v1 @ votes_against sample_v1) \<and> 0 < proposer_threshold s1"
proof -
  obtain s1 where s1: "p_step sample_cfg sample_ext sample_hup True (sample_s0, []) (s1, [sample_proposal])"
    and v: "votes s1 (Evm 5, 7, sample_proposal) = Some sample_v1"
    using sample_first_vote [where hup = sample_hup, OF sample_hup_accepts] by blast
  from s1 have "p_steps sample_cfg sample_ext sample_hup True (sample_s0, []) (s1, [sample_proposal])"
    by (rule r_into_rtranclp)
  with v show ?thesis
    using reachable_votes_well_formed [OF sample_genesis_build _ v, of sample_hup "[]" "[sample_proposal]"]
    by blast
qed

text \<open>
  C4. A decision is final: once a proposal's record is approved or rejected, no sequence of calls,
  authority changes or handler moves changes the record in any way.
\<close>

theorem decision_is_final:
  assumes "p_steps cfg x hup True st st'" and "votes (fst st) key = Some v" and "is_complete v"
  shows "votes (fst st') key = Some v"
  using assms by (rule decided_steps)

theorem decision_is_final_witness:
  "\<exists>s1 s2. p_step sample_cfg sample_ext sample_hup True (sample_s0, []) (s1, [sample_proposal]) \<and>
     p_step sample_cfg sample_ext sample_hup True (s1, [sample_proposal]) (s2, []) \<and>
     votes s2 (Evm 5, 7, sample_proposal) = Some sample_v1"
proof -
  obtain s1 where s1: "p_step sample_cfg sample_ext sample_hup True (sample_s0, []) (s1, [sample_proposal])"
    and v: "votes s1 (Evm 5, 7, sample_proposal) = Some sample_v1"
    using sample_first_vote [where hup = sample_hup, OF sample_hup_accepts] by blast
  have s2: "p_step sample_cfg sample_ext sample_hup True (s1, [sample_proposal]) (s1, [])"
    by (rule p_step.handler_moves) simp
  have "votes (fst (s1, [] :: proposal list)) (Evm 5, 7, sample_proposal) = Some sample_v1"
    using v by (intro decision_is_final [OF r_into_rtranclp, OF s2]) (simp_all add: is_complete_def sample_v1_def)
  with s1 s2 show ?thesis
    by auto
qed

section \<open>Soundness of a rejection\<close>

lemma rejected_counts:
  assumes inv: "proposals_inv cfg s" and w: "wf_votes cfg w"
    and small: "max_votes cfg + max_proposers cfg < 2 ^ 32"
    and rej: "status (resolved (proposer_threshold s) (proposer_count s) w) = Rejected" "status w = Initiated"
  shows "length (votes_for w) < unat (proposer_threshold s) \<and>
     unat (proposer_threshold s) \<le> unat (proposer_count s) \<and>
     unat (proposer_count s) < length (votes_against w) + unat (proposer_threshold s)"
proof -
  let ?t = "proposer_threshold s" and ?k = "proposer_count s" and ?a = "length (votes_against w)"
  from rej have lt: "length (votes_for w) < unat ?t" and tk: "?t \<le> ?k" and k: "?k < of_nat ?a + ?t"
    by (simp_all add: status_resolved)
  have tn: "unat ?t \<le> unat ?k"
    using tk by (simp add: word_le_nat_alt)
  have kn: "unat ?k \<le> max_proposers cfg"
    using inv by (simp add: proposals_inv_def)
  have an: "?a \<le> max_votes cfg"
    using w by (simp add: wf_votes_def)
  have sum: "?a + unat ?t < 2 ^ 32"
    using tn kn an small by linarith
  have "unat (of_nat ?a :: u32) = ?a"
    using sum by (simp add: unat_of_nat_u32)
  then have "unat (of_nat ?a + ?t) = ?a + unat ?t"
    using sum by (subst unat_add_no_overflow) simp_all
  with k have "unat ?k < ?a + unat ?t"
    by (simp add: word_less_nat_alt)
  with lt tn show ?thesis by simp
qed

text \<open>The counter of proposers is unset, or it counts the current proposers.\<close>

definition counted :: "proposals_state \<Rightarrow> bool" where
  "counted s \<longleftrightarrow> proposer_count s = 0 \<or> proposer_count s = of_nat (length (proposers s))"

lemma counted_steps:
  assumes "p_steps cfg x hup env st st'" and "counted (fst st)"
  shows "counted (fst st')"
  using assms
proof (induction rule: rtranclp_induct)
  case (step st1 st2)
  obtain s1 h1 s2 h2 where "st1 = (s1, h1)" "st2 = (s2, h2)" by (cases st1; cases st2)
  with step show ?case
    by (auto simp: counted_def decides_def elim!: p_step_cases)
qed

lemma new_record:
  assumes inv: "proposals_inv cfg s" and step: "p_step cfg x hup env (s, h) (s', h')"
    and v: "votes s' key = Some v" "votes s key \<noteq> Some v"
  obtains w where "wf_votes cfg w" and "status w = Initiated"
    and "v = resolved (proposer_threshold s) (proposer_count s) w"
proof -
  from step obtain w where d: "decides hup (s, h) (s', h') key w" and w: "wf_votes cfg w"
  proof (cases rule: p_step_cases)
    case frame
    with v show ?thesis by simp
  next
    case (voted now who b p key')
    have "wf_votes cfg (add_vote who b (current_votes cfg now s key'))"
      using proposals_inv_votes [OF inv] voted(3)
      by (intro wf_votes_add) (auto simp: current_votes_def split: option.splits)
    moreover have "key' = key"
      using decides_votes [OF voted(4)] v by (auto split: if_splits)
    ultimately show ?thesis
      using that voted(4) by blast
  next
    case (reviewed key' v')
    moreover have "key' = key"
      using decides_votes [OF reviewed(2)] v by (auto split: if_splits)
    ultimately show ?thesis
      using that proposals_inv_votes [OF inv] by blast
  qed
  show ?thesis
    using that [OF w] d decides_votes [OF d] v(1) by (simp add: decides_def)
qed

text \<open>
  C5. A rejection is final for good reason as long as no voter has been rotated out: if a reachable
  step rejects a proposal all of whose voters are current proposers, then whichever of the current
  proposers that have not voted against it were still to vote in favour, the accounts in favour would
  be fewer than the threshold. (The bounds of the vectors keep the 32-bit sum of the code from
  wrapping.)
\<close>

theorem rejection_is_sound:
  assumes "proposals_genesis_build cfg x g = Some s0"
    and "p_steps cfg x hup True (s0, h0) (s, h)"
    and "p_step cfg x hup True (s, h) (s', h')"
    and "votes s' key = Some v" and "status v = Rejected" and "votes s key \<noteq> Some v"
    and voters: "set (votes_for v) \<union> set (votes_against v) \<subseteq> set (proposers s)"
    and small: "max_votes cfg + max_proposers cfg < 2 ^ 32"
    and more: "W \<subseteq> set (proposers s)" "W \<inter> set (votes_against v) = {}"
  shows "card (set (votes_for v) \<union> W) < unat (proposer_threshold s)"
proof -
  have inv: "proposals_inv cfg s"
    using proposals_inv_steps [OF assms(2)] proposals_inv_genesis [OF assms(1)] by simp
  have cnt: "counted s"
    using counted_steps [OF assms(2)] proposals_inv_genesis [OF assms(1)] by (simp add: counted_def)
  obtain w where w: "wf_votes cfg w" "status w = Initiated"
    and v: "v = resolved (proposer_threshold s) (proposer_count s) w"
    using new_record [OF inv assms(3,4,6)] by blast
  have n: "unat (proposer_threshold s) \<le> unat (proposer_count s)"
    "unat (proposer_count s) < length (votes_against v) + unat (proposer_threshold s)"
    using rejected_counts [OF inv w(1) small] assms(5) w(2) v by (auto simp: resolved_def)
  have d: "distinct (votes_for v @ votes_against v)"
    using w(1) v by (simp add: wf_votes_def resolved_def)
  have "unat (proposer_count s) = length (proposers s)"
  proof -
    have "0 < unat (proposer_count s)"
      using inv n(1) by (simp add: proposals_inv_def word_less_nat_alt)
    then have "proposer_count s = of_nat (length (proposers s))"
      using cnt by (auto simp: counted_def)
    moreover have "length (proposers s) < 2 ^ 32"
      using inv small by (simp add: proposals_inv_def)
    ultimately show ?thesis by (simp add: unat_of_nat_u32)
  qed
  moreover have "card (set (votes_for v) \<union> W) \<le> card (set (proposers s) - set (votes_against v))"
    using voters more d by (intro card_mono) auto
  moreover have "card (set (proposers s) - set (votes_against v)) = card (set (proposers s)) - length (votes_against v)"
    using voters d by (simp add: card_Diff_subset distinct_card)
  moreover have "card (set (proposers s)) \<le> length (proposers s)"
    by (rule card_length)
  moreover have "length (votes_against v) \<le> card (set (proposers s))"
    using voters d card_mono [of "set (proposers s)" "set (votes_against v)"] by (simp add: distinct_card)
  ultimately show ?thesis
    using n by linarith
qed

text \<open>
  Three proposers with a threshold of two. The first votes against the sample proposal; then either
  the second does too, or the first is first replaced by a fourth proposer.
\<close>

abbreviation sample_vote_key :: vote_key where
  "sample_vote_key \<equiv> (Evm 5, 7, sample_proposal)"

definition sample_rotate :: "account_id list \<Rightarrow> proposals_state \<Rightarrow> proposals_state" where
  "sample_rotate as s = s\<lparr>proposer_count := 3, proposers := as, voting_keys := [(hd as, [9])],
     p_events := p_events s @ [ProposersReset as]\<rparr>"

definition sample_r1 :: proposals_state where
  "sample_r1 = (sample_rotate [[1], [2], [3]] sample_s0)\<lparr>proposer_threshold := 2,
     p_events := [ProposersReset [[1], [2], [3]], ProposerThresholdChanged 2]\<rparr>"

definition sample_r2 :: proposals_state where
  "sample_r2 = voted_state sample_cfg 10 [1] False sample_vote_key sample_r1"

definition sample_r3 :: proposals_state where
  "sample_r3 = sample_rotate [[2], [3], [4]] sample_r2"

definition sample_v2 :: proposal_votes where
  "sample_v2 = \<lparr>votes_for = [], votes_against = [[1], [2]], status = Rejected, expiry = 60\<rparr>"

lemma sample_rotate_step:
  assumes "length as = 3"
  shows "p_step sample_cfg sample_ext sample_hup env (s, h) (sample_rotate as s, h)"
  using assms
  by (intro p_step.authorities [of _ as "[[9]]"])
    (cases as, auto simp: on_authority_set_changed_def sample_cfg_def try_bounded_def Let_def p_deposit_def sample_rotate_def)

lemma sample_threshold_step:
  "p_step sample_cfg sample_ext sample_hup env (sample_rotate [[1], [2], [3]] sample_s0, h) (sample_r1, h)"
  by (rule p_step.admin_threshold [of _ Root 2 _ "Ok ()"])
    (simp add: extrinsic_Ok set_threshold_def ensure_admin_def set_proposer_threshold_def sample_cfg_def
      p_deposit_def sample_r1_def sample_rotate_def sample_s0_def empty_proposals_state_def)

lemma sample_vote_against:
  assumes "chain_nonces s = chain_nonces sample_s0" and "resources s = resources sample_s0"
    and "who \<in> set (proposers s)" and "may_vote sample_cfg 10 who False (current_votes sample_cfg 10 s sample_vote_key)"
    and "length (votes_for (current_votes sample_cfg 10 s sample_vote_key)) < unat (proposer_threshold s)"
  shows "p_step sample_cfg sample_ext sample_hup env (s, h) (voted_state sample_cfg 10 who False sample_vote_key s, h)"
proof -
  have "vote sample_cfg sample_ext (sample_hup 10) 10 False (Signed who) sample_proposal (s, h)
      = (Ok (), (voted_state sample_cfg 10 who False sample_vote_key s, h))"
    unfolding vote_Ok_iff using sample_check_vote [OF assms(1-3)] assms(4,5) by auto
  then show ?thesis
    by (intro p_step.rejected [of _ _ sample_hup 10 "Signed who" sample_proposal _ "Ok ()"])
      (simp add: vote_def extrinsic_Ok)
qed

lemma sample_current:
  "current_votes sample_cfg 10 sample_r1 sample_vote_key =
     \<lparr>votes_for = [], votes_against = [], status = Initiated, expiry = 60\<rparr>"
  by (simp add: current_votes_def sample_r1_def sample_rotate_def sample_s0_def empty_proposals_state_def
      sample_cfg_def proposal_votes_default_def)

lemma sample_current2:
  "current_votes sample_cfg 10 sample_r2 sample_vote_key =
     \<lparr>votes_for = [], votes_against = [[1]], status = Initiated, expiry = 60\<rparr>"
proof -
  have t: "proposer_threshold sample_r1 = 2" "proposer_count sample_r1 = 3"
    by (simp_all add: sample_r1_def sample_rotate_def)
  have "votes sample_r2 sample_vote_key =
      Some \<lparr>votes_for = [], votes_against = [[1]], status = Initiated, expiry = 60\<rparr>"
    unfolding sample_r2_def voted_state_def Let_def sample_current t
    by (simp add: resolved_def add_vote_def try_to_complete_def)
  then show ?thesis
    by (simp add: current_votes_def)
qed

lemma sample_current3:
  "current_votes sample_cfg 10 sample_r3 sample_vote_key = current_votes sample_cfg 10 sample_r2 sample_vote_key"
  by (simp add: current_votes_def sample_r3_def sample_rotate_def)

lemma sample_r2_fields:
  "proposers sample_r2 = [[1], [2], [3]]" "proposer_threshold sample_r2 = 2" "proposer_count sample_r2 = 3"
  "chain_nonces sample_r2 = chain_nonces sample_s0" "resources sample_r2 = resources sample_s0"
  "proposers sample_r3 = [[2], [3], [4]]" "proposer_threshold sample_r3 = 2" "proposer_count sample_r3 = 3"
  "chain_nonces sample_r3 = chain_nonces sample_s0" "resources sample_r3 = resources sample_s0"
  by (simp_all add: sample_r3_def sample_r2_def sample_r1_def voted_state_def Let_def sample_rotate_def)

lemma sample_r2_reached: "p_steps sample_cfg sample_ext sample_hup env (sample_s0, h) (sample_r2, h)"
proof -
  have "p_step sample_cfg sample_ext sample_hup env (sample_s0, h) (sample_rotate [[1], [2], [3]] sample_s0, h)"
    by (rule sample_rotate_step) simp
  moreover have "p_step sample_cfg sample_ext sample_hup env (sample_r1, h) (sample_r2, h)"
    unfolding sample_r2_def
    by (rule sample_vote_against)
      (simp_all add: sample_current may_vote_def is_complete_def is_expired_def has_voted_def sample_max_votes,
        simp_all add: sample_r1_def sample_rotate_def)
  ultimately show ?thesis
    using sample_threshold_step by (meson rtranclp.rtrancl_refl rtranclp.rtrancl_into_rtrancl)
qed

lemma sample_second_vote:
  assumes "s = sample_r2 \<or> s = sample_r3"
  shows "p_step sample_cfg sample_ext sample_hup env (s, h) (voted_state sample_cfg 10 [2] False sample_vote_key s, h)"
    and "votes (voted_state sample_cfg 10 [2] False sample_vote_key s) sample_vote_key = Some sample_v2"
    and "votes s sample_vote_key \<noteq> Some sample_v2"
proof -
  have cur: "current_votes sample_cfg 10 s sample_vote_key =
      \<lparr>votes_for = [], votes_against = [[1]], status = Initiated, expiry = 60\<rparr>"
    using assms sample_current2 sample_current3 by auto
  have f: "[2] \<in> set (proposers s)" "proposer_threshold s = 2" "proposer_count s = 3"
    "chain_nonces s = chain_nonces sample_s0" "resources s = resources sample_s0"
    using assms sample_r2_fields by auto
  show "p_step sample_cfg sample_ext sample_hup env (s, h) (voted_state sample_cfg 10 [2] False sample_vote_key s, h)"
    by (rule sample_vote_against)
      (simp_all add: cur f may_vote_def is_complete_def is_expired_def has_voted_def sample_max_votes)
  show "votes (voted_state sample_cfg 10 [2] False sample_vote_key s) sample_vote_key = Some sample_v2"
    by (simp add: voted_state_def Let_def cur f resolved_def try_to_complete_def sample_v2_def add_vote_def)
  show "votes s sample_vote_key \<noteq> Some sample_v2"
    using cur by (auto simp: current_votes_def sample_v2_def)
qed

theorem rejection_is_sound_witness:
  "\<exists>s3. p_step sample_cfg sample_ext sample_hup True (sample_r2, []) (s3, []) \<and>
     votes s3 sample_vote_key = Some sample_v2 \<and> status sample_v2 = Rejected \<and>
     card (set (votes_for sample_v2) \<union> {[3]}) < unat (proposer_threshold sample_r2)"
proof -
  note vote = sample_second_vote [OF disjI1, OF refl]
  have "card (set (votes_for sample_v2) \<union> {[3]}) < unat (proposer_threshold sample_r2)"
    by (rule rejection_is_sound [OF sample_genesis_build sample_r2_reached vote(1,2) _ vote(3)])
      (simp_all add: sample_cfg_def sample_v2_def sample_r2_fields)
  moreover have "status sample_v2 = Rejected"
    by (simp add: sample_v2_def)
  ultimately show ?thesis
    using vote(1,2) by blast
qed

text \<open>
  Votes of proposers that have been rotated out still count: there is a run from a genesis in
  which a proposal is rejected by the vote of one of three current proposers, with a threshold of two,
  while the two others, who have not voted, could still approve it.
\<close>

theorem stale_votes_reject:
  "\<exists>s s' v. proposals_genesis_build sample_cfg sample_ext sample_genesis = Some sample_s0 \<and>
     p_steps sample_cfg sample_ext sample_hup False (sample_s0, []) (s, []) \<and>
     p_step sample_cfg sample_ext sample_hup False (s, []) (s', []) \<and>
     votes s' sample_vote_key = Some v \<and> status v = Rejected \<and> votes s sample_vote_key \<noteq> Some v \<and>
     set (votes_against v) \<inter> set (proposers s) = {[2]} \<and>
     unat (proposer_threshold s) \<le> card (set (proposers s) - set (votes_against v))"
proof -
  note vote = sample_second_vote [OF disjI2, OF refl]
  have "p_step sample_cfg sample_ext sample_hup False (sample_r2, []) (sample_r3, [])"
    unfolding sample_r3_def by (rule sample_rotate_step) simp
  with sample_r2_reached have "p_steps sample_cfg sample_ext sample_hup False (sample_s0, []) (sample_r3, [])"
    by (rule rtranclp.rtrancl_into_rtrancl)
  moreover have "set (votes_against sample_v2) \<inter> set (proposers sample_r3) = {[2]}"
    "unat (proposer_threshold sample_r3) \<le> card (set (proposers sample_r3) - set (votes_against sample_v2))"
    "status sample_v2 = Rejected"
    by (simp_all add: sample_v2_def sample_r2_fields insert_Diff_if)
  ultimately show ?thesis
    using vote sample_genesis_build by blast
qed

section \<open>Progress of an approval\<close>

text \<open>The proposers of a list acknowledge a proposal one after the other, in one block.\<close>

definition ack_all ::
  "proposals_config \<Rightarrow> ext \<Rightarrow> 'h unsigned_handler \<Rightarrow> block_number \<Rightarrow> proposal \<Rightarrow> account_id list \<Rightarrow>
   proposals_state \<times> 'h \<Rightarrow> proposals_state \<times> 'h" where
  "ack_all cfg x hup now p whos st =
     fold (\<lambda>who st. snd (extrinsic (acknowledge_proposal cfg x hup now (Signed who) p) st)) whos st"

lemma ack_all_steps: "p_steps cfg x (\<lambda>_. hup) True st (ack_all cfg x hup now p whos st)"
proof (induction whos arbitrary: st)
  case Nil
  then show ?case by (simp add: ack_all_def)
next
  case (Cons who whos)
  let ?st1 = "snd (extrinsic (acknowledge_proposal cfg x hup now (Signed who) p) st)"
  have "p_step cfg x (\<lambda>_. hup) True st ?st1"
    by (rule p_step.acknowledged [of _ _ _ now "Signed who" p])
      (rule surjective_pairing)
  with Cons [of ?st1] show ?case
    by (simp add: ack_all_def)
qed

lemma voted_state_reads [simp]:
  "is_proposer (voted_state cfg now who b key s) = is_proposer s"
  "chain_whitelisted (voted_state cfg now who b key s) = chain_whitelisted s"
  "resource_exists (voted_state cfg now who b key s) = resource_exists s"
  by (simp_all add: fun_eq_iff voted_state_def Let_def is_proposer_def chain_whitelisted_def resource_exists_def)

lemma check_vote_voted_state [simp]:
  "check_vote x org q (voted_state cfg now who b key s) = check_vote x org q s"
  by (cases org; cases "decode_proposal_identifier x q"; cases "decode_proposal_header x (data q)")
    (simp_all split: prod.split)

lemma voted_state_simps [simp]:
  "proposer_threshold (voted_state cfg now who b key s) = proposer_threshold s"
  "proposer_count (voted_state cfg now who b key s) = proposer_count s"
  "votes (voted_state cfg now who b key s) = (votes s)(key \<mapsto>
     resolved (proposer_threshold s) (proposer_count s) (add_vote who b (current_votes cfg now s key)))"
  by (simp_all add: voted_state_def Let_def)

definition open_record :: "proposals_config \<Rightarrow> block_number \<Rightarrow> proposals_state \<Rightarrow> vote_key \<Rightarrow> account_id list \<Rightarrow> bool" where
  "open_record cfg now s key whos \<longleftrightarrow>
     (let v = current_votes cfg now s key in
      status v = Initiated \<and> now < expiry v \<and> votes_for v = whos \<and> votes_against v = [])"

lemma acknowledge_one:
  assumes cv: "check_vote x (Signed who) p s = Ok (who, n, c)"
    and rec: "open_record cfg now s (c, n, p) ws" and new: "who \<notin> set ws" "length ws < max_votes cfg"
    and hup: "\<exists>h'. hup p h = (Ok (), h')"
  shows "\<exists>h'. extrinsic (acknowledge_proposal cfg x hup now (Signed who) p) (s, h) =
     (Ok (), (voted_state cfg now who True (c, n, p) s, h'))"
proof -
  let ?v = "current_votes cfg now s (c, n, p)"
  from hup obtain h1 where h1: "hup p h = (Ok (), h1)" by blast
  have "may_vote cfg now who True ?v"
    using rec new by (auto simp: open_record_def Let_def may_vote_def is_complete_def is_expired_def has_voted_def)
  then have "vote cfg x hup now True (Signed who) p (s, h) =
      (Ok (), (voted_state cfg now who True (c, n, p) s,
        if unat (proposer_threshold s) \<le> length (votes_for (add_vote who True ?v)) then h1 else h))"
    unfolding vote_Ok_iff
    by (intro exI [of _ who] exI [of _ n] exI [of _ c]) (simp add: cv h1 del: check_vote.simps)
  then show ?thesis
    by (simp add: vote_def extrinsic_Ok)
qed

lemma open_record_voted:
  assumes rec: "open_record cfg now s key ws" and few: "Suc (length ws) < unat (proposer_threshold s)"
  shows "open_record cfg now (voted_state cfg now who True key s) key (ws @ [who])"
proof -
  let ?w = "add_vote who True (current_votes cfg now s key)"
  let ?t = "proposer_threshold s" and ?k = "proposer_count s"
  have a: "votes_against ?w = []" "length (votes_for ?w) < unat ?t"
    using rec few by (auto simp: open_record_def Let_def)
  then have "resolved ?t ?k ?w = ?w"
    by (auto simp: resolved_def try_to_complete_def)
  then have "current_votes cfg now (voted_state cfg now who True key s) key = ?w"
    by (simp add: current_votes_def)
  with rec show ?thesis
    by (simp add: open_record_def Let_def)
qed

lemma ack_all_approves:
  assumes "\<And>who. who \<in> set whos \<Longrightarrow> check_vote x (Signed who) p s = Ok (who, n, c)"
    and "open_record cfg now s (c, n, p) ws"
    and "distinct (ws @ whos)" and "length ws < unat (proposer_threshold s)"
    and "unat (proposer_threshold s) \<le> length (ws @ whos)"
    and room: "unat (proposer_threshold s) \<le> max_votes cfg"
    and hup: "\<And>h. \<exists>h'. hup p h = (Ok (), h')"
  shows "\<exists>v. votes (fst (ack_all cfg x hup now p whos (s, h))) (c, n, p) = Some v \<and> status v = Approved \<and>
     votes_for v = take (unat (proposer_threshold s)) (ws @ whos)"
  using assms(1-6)
proof (induction whos arbitrary: ws s h)
  case Nil
  then show ?case by simp
next
  case (Cons who whos)
  let ?key = "(c, n, p)" and ?t = "unat (proposer_threshold s)"
  let ?s1 = "voted_state cfg now who True ?key s"
  obtain h1 where ack: "extrinsic (acknowledge_proposal cfg x hup now (Signed who) p) (s, h) = (Ok (), (?s1, h1))"
    using acknowledge_one [OF Cons.prems(1) [of who] Cons.prems(2), of hup h] hup [of h] Cons.prems(3,4,6)
    by auto
  have all: "ack_all cfg x hup now p (who # whos) (s, h) = ack_all cfg x hup now p whos (?s1, h1)"
    by (simp add: ack_all_def ack)
  show ?case
  proof (cases "Suc (length ws) < ?t")
    case True
    have "\<exists>v. votes (fst (ack_all cfg x hup now p whos (?s1, h1))) ?key = Some v \<and> status v = Approved \<and>
        votes_for v = take (unat (proposer_threshold ?s1)) ((ws @ [who]) @ whos)"
      using Cons.prems True open_record_voted [OF Cons.prems(2) True]
      by (intro Cons.IH) (simp_all del: check_vote.simps)
    then show ?thesis
      unfolding all by simp
  next
    case False
    let ?w = "add_vote who True (current_votes cfg now s ?key)"
    let ?r = "resolved (proposer_threshold s) (proposer_count s) ?w"
    have w: "votes_for ?w = ws @ [who]" "?t = Suc (length ws)" "status ?w = Initiated"
      using Cons.prems(2,4) False by (auto simp: open_record_def Let_def)
    then have r: "status ?r = Approved" "votes_for ?r = ws @ [who]"
      by (simp_all add: status_resolved, simp add: resolved_def)
    have "votes (fst (ack_all cfg x hup now p whos (?s1, h1))) ?key = Some ?r"
      by (rule decided_steps [OF ack_all_steps]) (simp_all add: r is_complete_def)
    with r w show ?thesis
      unfolding all by simp
  qed
qed

text \<open>
  C6. Progress: for a proposal nobody has voted on yet, the acknowledgements of any list of distinct
  proposers that is at least as long as the threshold approve it, with exactly the first
  \<open>threshold\<close> of them recorded, whatever order they come in, provided the handler accepts the
  proposal, the vote vector has room for the threshold, and the lifetime does not wrap around.
\<close>

theorem enough_acknowledgements_approve:
  assumes "\<forall>who \<in> set whos. check_vote x (Signed who) p s = Ok (who, n, c)"
    and "votes s (c, n, p) = None" and "now < now + proposal_lifetime cfg"
    and "distinct whos" and "0 < proposer_threshold s"
    and "unat (proposer_threshold s) \<le> length whos" and "unat (proposer_threshold s) \<le> max_votes cfg"
    and "\<forall>h. \<exists>h'. hup p h = (Ok (), h')"
  shows "\<exists>v. votes (fst (ack_all cfg x hup now p whos (s, h))) (c, n, p) = Some v \<and> status v = Approved \<and>
     votes_for v = take (unat (proposer_threshold s)) whos"
proof -
  have "open_record cfg now s (c, n, p) []"
    using assms(2,3) by (simp add: open_record_def Let_def current_votes_def proposal_votes_default_def)
  then show ?thesis
    using assms ack_all_approves [of whos x p s n c cfg now "[]" hup h]
    by (simp add: word_less_nat_alt del: check_vote.simps)
qed

theorem enough_acknowledgements_approve_witness:
  "\<exists>v. votes (fst (ack_all sample_cfg sample_ext (sample_hup 10) 10 sample_proposal [[3], [1]] (sample_s2, [])))
       (Evm 5, 7, sample_proposal) = Some v \<and> status v = Approved \<and> votes_for v = [[3], [1]]"
proof -
  have s2: "chain_nonces sample_s2 = chain_nonces sample_s0" "resources sample_s2 = resources sample_s0"
    "proposers sample_s2 = [[1], [2], [3]]" "votes sample_s2 = Map.empty" "proposer_threshold sample_s2 = 2"
    by (simp_all add: sample_s2_def sample_s0_def empty_proposals_state_def)
  have cv: "\<forall>who \<in> set [[3], [1]]. check_vote sample_ext (Signed who) sample_proposal sample_s2 = Ok (who, 7, Evm 5)"
    by (simp add: sample_check_vote s2 del: check_vote.simps)
  show ?thesis
    using enough_acknowledgements_approve [OF cv, of 10 sample_cfg "sample_hup 10" "[]"]
    by (simp add: s2 sample_cfg_def sample_hup_def del: check_vote.simps)
qed

section \<open>Derived resource identifiers\<close>

lemma length_copy_id [simp]: "length (copy_id ident rng js r) = length r"
  by (induction js arbitrary: r) simp_all

lemma nth_copy_id:
  assumes "\<forall>i \<in> set js. i < 26" and "length r = 32" and "j < 32"
  shows "copy_id ident rng js r ! j =
    (if j \<le> 25 \<and> 25 - j \<in> set js then ident ! (rng - 1 - (25 - j)) else r ! j)"
  using assms
proof (induction js arbitrary: r)
  case Nil
  then show ?case by simp
next
  case (Cons i js)
  then show ?case
    by (cases "j = 25 - i") auto
qed

lemma copy_id_all:
  assumes "rng \<le> 26" and "rng \<le> length ident" and "length r = 32"
  shows "copy_id ident rng [0..<rng] r = take (26 - rng) r @ take rng ident @ drop 26 r"
  (is "?L = ?R")
proof (rule nth_equalityI)
  show "length ?L = length ?R"
    using assms by simp
next
  fix j
  assume "j < length ?L"
  then have j: "j < 32" using assms by simp
  have small: "\<forall>i \<in> set [0..<rng]. i < 26" using assms by simp
  consider "j < 26 - rng" | "26 - rng \<le> j" "j < 26" | "26 \<le> j" by linarith
  then show "?L ! j = ?R ! j"
  proof cases
    case 1
    then have "\<not> 25 - j < rng" using assms by arith
    with 1 show ?thesis
      using assms by (simp add: nth_copy_id [OF small _ j] nth_append)
  next
    case 2
    then have "rng - 1 - (25 - j) = j - (26 - rng)" "25 - j < rng" "j - (26 - rng) < rng"
      using assms by arith+
    with 2 show ?thesis
      using assms by (simp add: nth_copy_id [OF small _ j] nth_append)
  next
    case 3
    then have "\<not> j < 26 - rng" "\<not> j - (26 - rng) < rng" "j - (26 - rng) - rng = j - 26"
      using assms by arith+
    with 3 j show ?thesis
      using assms by (simp add: nth_copy_id [OF small _ j] nth_append)
  qed
qed

lemma length_le_bytes: "length (u32_to_le_bytes w) = 4" "length (u16_to_le_bytes v) = 2"
  by (simp_all add: u32_to_le_bytes_def u16_to_le_bytes_def to_be_bytes_def)

text \<open>
  A derived resource identifier is 32 bytes long: the first 26 bytes of the identifier, padded
  with zeros on the left, then the little-endian chain type, then the little-endian chain id. The
  byte-by-byte loop of the source computes exactly this layout.
\<close>

theorem derive_resource_id_layout:
  "derive_resource_id chain chain_type ident =
     replicate (26 - length ident) 0 @ take 26 ident @ u16_to_le_bytes chain_type @ u32_to_le_bytes chain"
proof -
  obtain c0 c1 c2 c3 where c: "u32_to_le_bytes chain = [c0, c1, c2, c3]"
    using length_le_bytes(1) [of chain] by (auto simp: length_Suc_conv eval_nat_numeral)
  obtain t0 t1 where t: "u16_to_le_bytes chain_type = [t0, t1]"
    using length_le_bytes(2) [of chain_type] by (auto simp: length_Suc_conv eval_nat_numeral)
  define r :: bytes where "r = (replicate 32 0)[26 := t0, 27 := t1, 28 := c0, 29 := c1, 30 := c2, 31 := c3]"
  have r: "r = replicate 26 0 @ [t0, t1, c0, c1, c2, c3]"
    by (simp add: r_def eval_nat_numeral)
  define rng where "rng = (if 26 < length ident then 26 else length ident)"
  have "derive_resource_id chain chain_type ident = copy_id ident rng [0..<rng] r"
    by (simp add: derive_resource_id_def Let_def c t r_def rng_def eval_nat_numeral)
  also have "\<dots> = take (26 - rng) r @ take rng ident @ drop 26 r"
    by (rule copy_id_all) (auto simp: rng_def r_def)
  also have "\<dots> = replicate (26 - length ident) 0 @ take 26 ident @ [t0, t1] @ [c0, c1, c2, c3]"
    by (auto simp: r rng_def min_def)
  finally show ?thesis
    by (simp add: c t)
qed

end
