(* ===== verification/Proposal_Handler.thy ===== *)
theory Proposal_Handler
  imports Dispatch Decode_Proposals Signatures
begin

text \<open>
  The pallet \<open>pallet-dkg-proposal-handler\<close>: unsigned proposals are staged per chain, put into batches
  with fresh identifiers, signed batches replace unsigned ones, expired batches are dropped when a
  block has weight left, and a signature over a batch the chain never queued is an offence.

  The pallets behind \<open>SignedProposalHandler\<close> and the key of \<open>pallet-dkg-metadata\<close> are an operation
  \<open>osp\<close> and a function \<open>dkg_key\<close> on a state \<open>'e\<close> of their own. The staking pallets an offence is
  reported to are the record \<open>staking\<close>.
\<close>

section \<open>State, events and configuration\<close>

datatype offence_type = SignedProposalNotInQueue | SignedMalformedProposal

datatype handler_event =
    InvalidProposalBatchSignature signed_proposal_batch bytes bytes "bytes option" "bytes option"
  | ProposalAdded dkg_payload_key typed_chain_id bytes
  | ProposalBatchRemoved typed_chain_id u32
  | ProposalBatchExpired typed_chain_id u32
  | ProposalBatchSigned typed_chain_id u32 "(proposal_kind \<times> bytes) list" bytes
  | SigningOffenceReported offence_type signed_proposal_batch

text \<open>A weight is its reference time and its proof size; both parts are subtracted with saturation
  and a weight is zero when both parts are. The database weights charge reference time only.\<close>

record weight =
  ref_time :: u64
  proof_size :: u64

definition weight_saturating_sub :: "weight \<Rightarrow> weight \<Rightarrow> weight" where
  "weight_saturating_sub a b =
     \<lparr>ref_time = saturating_sub (ref_time a) (ref_time b), proof_size = saturating_sub (proof_size a) (proof_size b)\<rparr>"

definition weight_is_zero :: "weight \<Rightarrow> bool" where
  "weight_is_zero w \<longleftrightarrow> ref_time w = 0 \<and> proof_size w = 0"

record handler_config =
  max_proposals_per_batch :: nat
  unsigned_proposal_expiry :: block_number
  force_origin :: "origin \<Rightarrow> bool"
  db_reads :: "nat \<Rightarrow> weight"
  db_writes :: "nat \<Rightarrow> weight"
  db_reads_writes :: "nat \<Rightarrow> nat \<Rightarrow> weight"
  queue_order :: "(typed_chain_id \<times> u32, stored_unsigned_proposal_batch) smap \<Rightarrow>
                  (typed_chain_id \<times> u32, stored_unsigned_proposal_batch) smap"
  staged_order :: "(typed_chain_id, unsigned_proposal list) smap \<Rightarrow> (typed_chain_id, unsigned_proposal list) smap"

record handler_state =
  unsigned_proposal_queue :: "(typed_chain_id \<times> u32, stored_unsigned_proposal_batch) smap"
  next_batch_id :: u32
  unsigned_proposals :: "(typed_chain_id, unsigned_proposal list) smap"
  signed_proposals :: "(typed_chain_id \<times> u32, signed_proposal_batch) smap"
  h_events :: "handler_event list"

definition empty_handler_state :: handler_state where
  "empty_handler_state = \<lparr>unsigned_proposal_queue = [], next_batch_id = 0, unsigned_proposals = [],
     signed_proposals = [], h_events = []\<rparr>"

definition h_deposit :: "handler_event \<Rightarrow> handler_state \<Rightarrow> handler_state" where
  "h_deposit e s = s\<lparr>h_events := h_events s @ [e]\<rparr>"

section \<open>Storing unsigned proposals (functions.rs)\<close>

definition get_unsigned_proposal_batches :: "handler_config \<Rightarrow> handler_state \<Rightarrow> stored_unsigned_proposal_batch list" where
  "get_unsigned_proposal_batches cfg s = map snd (queue_order cfg (unsigned_proposal_queue s))"

fun handle_validation_error :: "validation_error \<Rightarrow> handler_error" where
  "handle_validation_error (InvalidParameter _) = ProposalFormatInvalid"
| "handle_validation_error UnimplementedProposalKind = ProposalFormatInvalid"
| "handle_validation_error validation_error.InvalidProposalBytesLength = handler_error.InvalidProposalBytesLength"
| "handle_validation_error (InvalidDecoding _) = ProposalFormatInvalid"

definition generate_next_batch_id :: "handler_state \<Rightarrow> u32 dispatch \<times> handler_state" where
  "generate_next_batch_id s =
     (let batch_id = next_batch_id s
      in case checked_add batch_id 1 of
           None \<Rightarrow> (Err (HandlerError ArithmeticOverflow), s)
         | Some n \<Rightarrow> (Ok batch_id, s\<lparr>next_batch_id := n\<rparr>))"

definition create_batch_and_add_to_storage ::
  "block_number \<Rightarrow> unsigned_proposal list \<Rightarrow> proposal_identifier \<Rightarrow> handler_state \<Rightarrow>
   unit dispatch \<times> handler_state" where
  "create_batch_and_add_to_storage now ps ident s =
     and_then (generate_next_batch_id s) (\<lambda>batch_id s.
       (Ok (), s\<lparr>unsigned_proposal_queue := AList.update (pi_typed_chain_id ident, batch_id)
          \<lparr>ub_batch_id = batch_id, ub_proposals = ps, ub_timestamp = now\<rparr> (unsigned_proposal_queue s)\<rparr>))"

definition store_unsigned_proposal ::
  "handler_config \<Rightarrow> block_number \<Rightarrow> proposal \<Rightarrow> proposal_identifier \<Rightarrow> handler_state \<Rightarrow>
   unit dispatch \<times> handler_state" where
  "store_unsigned_proposal cfg now prop ident s =
     (let new_unsigned_proposal = \<lparr>up_typed_chain_id = pi_typed_chain_id ident, up_key = pi_key ident,
            up_proposal = prop\<rparr>;
          chain = pi_typed_chain_id ident;
          ps = (case map_of (unsigned_proposals s) chain of Some ps \<Rightarrow> ps | None \<Rightarrow> [])
      in if length ps = max_proposals_per_batch cfg then
           and_then (create_batch_and_add_to_storage now ps ident s) (\<lambda>_ s.
             case try_push (max_proposals_per_batch cfg) new_unsigned_proposal [] of
               None \<Rightarrow> (Err (HandlerError UnsignedProposalQueueOverflow), s)
             | Some new_proposals \<Rightarrow>
                 (Ok (), s\<lparr>unsigned_proposals := AList.update chain new_proposals (unsigned_proposals s)\<rparr>))
         else
           (case try_push (max_proposals_per_batch cfg) new_unsigned_proposal ps of
              None \<Rightarrow> (Err (HandlerError UnsignedProposalQueueOverflow), s)
            | Some ps' \<Rightarrow> (Ok (), s\<lparr>unsigned_proposals := AList.update chain ps' (unsigned_proposals s)\<rparr>)))"

section \<open>The handler of proposals (impls.rs)\<close>

definition handle_unsigned_proposal ::
  "handler_config \<Rightarrow> ext \<Rightarrow> block_number \<Rightarrow> proposal \<Rightarrow> handler_state \<Rightarrow> unit dispatch \<times> handler_state" where
  "handle_unsigned_proposal cfg x now prop s =
     (case decode_proposal_identifier x prop of
        Ok v \<Rightarrow> store_unsigned_proposal cfg now prop v
                  (h_deposit (ProposalAdded (pi_key v) (pi_typed_chain_id v) (data prop)) s)
      | Err e \<Rightarrow> (Err (HandlerError (handle_validation_error e)), s)
      | Panic \<Rightarrow> (Panic, s))"

text \<open>The identifiers of the queued batches that hold a refresh proposal, once per such proposal.\<close>

definition refresh_batch_ids :: "handler_config \<Rightarrow> handler_state \<Rightarrow> u32 list" where
  "refresh_batch_ids cfg s =
     concat (map (\<lambda>((_, batch_id), b).
       map (\<lambda>_. batch_id) (filter (\<lambda>p. kind (up_proposal p) = Refresh) (ub_proposals b)))
       (queue_order cfg (unsigned_proposal_queue s)))"

fun remove_refresh_batches ::
  "handler_config \<Rightarrow> typed_chain_id \<Rightarrow> proposal list \<Rightarrow> handler_state \<Rightarrow> handler_state" where
  "remove_refresh_batches cfg chain [] s = s"
| "remove_refresh_batches cfg chain (p # ps) s =
     remove_refresh_batches cfg chain ps
       (if kind p = Refresh then
          s\<lparr>unsigned_proposal_queue := fold (\<lambda>batch_id q. AList.delete (chain, batch_id) q)
              (refresh_batch_ids cfg s) (unsigned_proposal_queue s)\<rparr>
        else s)"

type_synonym 'e signed_handler = "proposal \<Rightarrow> 'e \<Rightarrow> unit dispatch \<times> 'e"

text \<open>The handlers behind the pallet are called once per proposal; an error of theirs is dropped.\<close>

fun call_signed_handlers :: "'e signed_handler \<Rightarrow> proposal list \<Rightarrow> 'e \<Rightarrow> unit dispatch \<times> 'e" where
  "call_signed_handlers osp [] e = (Ok (), e)"
| "call_signed_handlers osp (p # ps) e =
     (case osp p e of
        (Panic, e') \<Rightarrow> (Panic, e')
      | (_, e') \<Rightarrow> call_signed_handlers osp ps e')"

fun handle_signed_proposal_batch ::
  "handler_config \<Rightarrow> ext \<Rightarrow> 'e signed_handler \<Rightarrow> signed_proposal_batch \<Rightarrow> handler_state \<times> 'e \<Rightarrow>
   unit dispatch \<times> (handler_state \<times> 'e)" where
  "handle_signed_proposal_batch cfg x osp prop (s, e) =
     (case sb_proposals prop of
        [] \<Rightarrow> (Err (HandlerError EmptyBatch), (s, e))
      | p # _ \<Rightarrow>
          (case decode_proposal_identifier x p of
             Panic \<Rightarrow> (Panic, (s, e))
           | Err err \<Rightarrow> (Err (HandlerError (handle_validation_error err)), (s, e))
           | Ok ident \<Rightarrow>
               let key = (pi_typed_chain_id ident, sb_batch_id prop)
               in if \<not> contains_key (unsigned_proposal_queue s) key
                  then (Err (HandlerError ProposalDoesNotExists), (s, e))
                  else if \<not> validate_ecdsa_signature x (signed_batch_data x prop) (sb_signature prop)
                  then (Err (HandlerError ProposalSignatureInvalid), (s, e))
                  else if contains_key (signed_proposals s) key
                  then (Err (HandlerError CannotOverwriteSignedProposal), (s, e))
                  else
                    let s1 = s\<lparr>signed_proposals := AList.update key prop (signed_proposals s)\<rparr>;
                        s2 = s1\<lparr>unsigned_proposal_queue := AList.delete key (unsigned_proposal_queue s1)\<rparr>;
                        s3 = remove_refresh_batches cfg (pi_typed_chain_id ident) (sb_proposals prop) s2;
                        s4 = h_deposit (ProposalBatchSigned (pi_typed_chain_id ident) (sb_batch_id prop)
                               (map (\<lambda>p. (kind p, data p)) (sb_proposals prop)) (sb_signature prop)) s3
                    in (case call_signed_handlers osp (sb_proposals prop) e of (r, e') \<Rightarrow> (r, (s4, e')))))"

section \<open>Offences\<close>

text \<open>What the staking side offers: the session, its validators, and a sink for offences, whose
  result the pallet drops.\<close>

record misbehaviour_offence =
  o_session_index :: u32
  o_validator_set_count :: u32
  o_offence :: offence_type
  o_offenders :: "(account_id \<times> bytes) list"

record 'e staking =
  session_index_of :: "'e \<Rightarrow> u32"
  validators_of :: "'e \<Rightarrow> account_id list"
  identification_of :: "'e \<Rightarrow> account_id \<Rightarrow> bytes option"
  submit_offence :: "misbehaviour_offence \<Rightarrow> 'e \<Rightarrow> 'e"

definition report_offence :: "'e staking \<Rightarrow> offence_type \<Rightarrow> 'e \<Rightarrow> 'e" where
  "report_offence stk ty e =
     (let offenders = List.map_filter
            (\<lambda>i. map_option (\<lambda>full_id. (i, full_id)) (identification_of stk e i)) (validators_of stk e)
      in submit_offence stk \<lparr>o_session_index = session_index_of stk e,
           o_validator_set_count = of_nat (length offenders), o_offence = ty, o_offenders = offenders\<rparr> e)"

text \<open>The slash fraction; the fixed-point type is the parameter \<open>from_rational\<close>, \<open>mul\<close>, \<open>percent\<close> and
  its zero.\<close>

definition slash_fraction ::
  "(u32 \<Rightarrow> u32 \<Rightarrow> 'f) \<Rightarrow> ('f \<Rightarrow> 'f \<Rightarrow> 'f) \<Rightarrow> (u32 \<Rightarrow> 'f) \<Rightarrow> 'f \<Rightarrow> misbehaviour_offence \<Rightarrow> u32 \<Rightarrow> 'f" where
  "slash_fraction from_rational mul percent zero off offenders =
     (case checked_sub offenders (o_validator_set_count off div 10 + 1) of
        Some threshold \<Rightarrow> mul (from_rational (3 * threshold) (o_validator_set_count off)) (percent 7)
      | None \<Rightarrow> zero)"

section \<open>Extrinsics (lib.rs)\<close>

fun submit_batches ::
  "handler_config \<Rightarrow> ext \<Rightarrow> ('e \<Rightarrow> bytes) \<Rightarrow> 'e signed_handler \<Rightarrow> signed_proposal_batch list \<Rightarrow>
   handler_state \<times> 'e \<Rightarrow> unit dispatch \<times> (handler_state \<times> 'e)" where
  "submit_batches cfg x dkg_key osp [] (s, e) = (Ok (), (s, e))"
| "submit_batches cfg x dkg_key osp (b # bs) (s, e) =
     (let d = signed_batch_data x b
      in case ensure_signed_by_dkg x (dkg_key e) (sb_signature b) d of
           Inl err \<Rightarrow>
             submit_batches cfg x dkg_key osp bs
               (h_deposit (InvalidProposalBatchSignature b d (sb_signature b)
                  (expected_public_key err) (actual_public_key err)) s, e)
         | Inr _ \<Rightarrow>
             and_then (handle_signed_proposal_batch cfg x osp b (s, e))
               (\<lambda>_. submit_batches cfg x dkg_key osp bs))"

definition submit_signed_proposals ::
  "handler_config \<Rightarrow> ext \<Rightarrow> ('e \<Rightarrow> bytes) \<Rightarrow> 'e signed_handler \<Rightarrow> origin \<Rightarrow> signed_proposal_batch list \<Rightarrow>
   handler_state \<times> 'e \<Rightarrow> unit dispatch \<times> (handler_state \<times> 'e)" where
  "submit_signed_proposals cfg x dkg_key osp org props st =
     (if \<not> length props \<le> max_proposals_per_batch cfg
      then (Err (HandlerError ProposalsLengthOverflow), st)
      else submit_batches cfg x dkg_key osp props st)"

definition force_submit_unsigned_proposal ::
  "handler_config \<Rightarrow> ext \<Rightarrow> block_number \<Rightarrow> origin \<Rightarrow> proposal \<Rightarrow> handler_state \<Rightarrow>
   unit dispatch \<times> handler_state" where
  "force_submit_unsigned_proposal cfg x now org prop s =
     (if \<not> force_origin cfg org then (Err BadOrigin, s)
      else if is_unsigned prop then
        (case decode_proposal_identifier x prop of
           Ok v \<Rightarrow> store_unsigned_proposal cfg now prop v
                     (h_deposit (ProposalAdded (pi_key v) (pi_typed_chain_id v) (data prop)) s)
         | Err e \<Rightarrow> (Err (HandlerError (handle_validation_error e)), s)
         | Panic \<Rightarrow> (Panic, s))
      else (Err (HandlerError ProposalMustBeUnsigned), s))"

text \<open>The loop over a reported batch: whether a proposal has an identifier other than the first.\<close>

fun mixed_identifiers :: "ext \<Rightarrow> proposal_identifier \<Rightarrow> proposal list \<Rightarrow> (validation_error, bool) result" where
  "mixed_identifiers x common [] = Ok False"
| "mixed_identifiers x common (p # ps) =
     (case decode_proposal_identifier x p of
        Ok v \<Rightarrow> if v \<noteq> common then Ok True else mixed_identifiers x common ps
      | Err e \<Rightarrow> Err e
      | Panic \<Rightarrow> Panic)"

fun submit_dkg_signing_offence ::
  "handler_config \<Rightarrow> ext \<Rightarrow> ('e \<Rightarrow> bytes) \<Rightarrow> 'e staking \<Rightarrow> origin \<Rightarrow> signed_proposal_batch \<Rightarrow>
   handler_state \<times> 'e \<Rightarrow> unit dispatch \<times> (handler_state \<times> 'e)" where
  "submit_dkg_signing_offence cfg x dkg_key stk (Signed caller) signed_data (s, e) =
     (case sb_proposals signed_data of
        [] \<Rightarrow> (Err (HandlerError InvalidSignedData), (s, e))
      | p # _ \<Rightarrow>
          if ensure_signed_by_dkg x (dkg_key e) (sb_signature signed_data) (signed_batch_data x signed_data) \<noteq> Inr ()
          then (Err (HandlerError NotSignedByCurrentDKG), (s, e))
          else (case decode_proposal_identifier x p of
             Panic \<Rightarrow> (Panic, (s, e))
           | Err err \<Rightarrow> (Err (HandlerError (handle_validation_error err)), (s, e))
           | Ok common \<Rightarrow>
               (case mixed_identifiers x common (sb_proposals signed_data) of
                  Panic \<Rightarrow> (Panic, (s, e))
                | Err err \<Rightarrow> (Err (HandlerError (handle_validation_error err)), (s, e))
                | Ok True \<Rightarrow>
                    (Ok (), (h_deposit (SigningOffenceReported SignedMalformedProposal signed_data) s,
                             report_offence stk SignedMalformedProposal e))
                | Ok False \<Rightarrow>
                    (case map_of (signed_proposals s) (pi_typed_chain_id common, sb_batch_id signed_data) of
                       Some _ \<Rightarrow> (Err (HandlerError ProposalExistsAndIsValid), (s, e))
                     | None \<Rightarrow>
                         if list_ex (\<lambda>((c, _), b). c = pi_typed_chain_id common \<and>
                              signed_batch_data x b = signed_batch_data x signed_data) (signed_proposals s)
                         then (Err (HandlerError ProposalExistsAndIsValid), (s, e))
                         else if list_ex (\<lambda>((c, _), b). c = pi_typed_chain_id common \<and>
                              unsigned_batch_data x b = signed_batch_data x signed_data) (unsigned_proposal_queue s)
                         then (Err (HandlerError ProposalExistsAndIsValid), (s, e))
                         else (Ok (), (h_deposit (SigningOffenceReported SignedProposalNotInQueue signed_data) s,
                                       report_offence stk SignedProposalNotInQueue e))))))"
| "submit_dkg_signing_offence cfg x dkg_key stk _ signed_data st = (Err BadOrigin, st)"

definition force_remove_unsigned_proposal_batch ::
  "handler_config \<Rightarrow> origin \<Rightarrow> typed_chain_id \<Rightarrow> u32 \<Rightarrow> handler_state \<Rightarrow> unit dispatch \<times> handler_state" where
  "force_remove_unsigned_proposal_batch cfg org chain batch_id s =
     (if \<not> force_origin cfg org then (Err BadOrigin, s)
      else if \<not> contains_key (unsigned_proposal_queue s) (chain, batch_id)
      then (Err (HandlerError ProposalBatchNotFound), s)
      else (Ok (), h_deposit (ProposalBatchRemoved chain batch_id)
              (s\<lparr>unsigned_proposal_queue := AList.delete (chain, batch_id) (unsigned_proposal_queue s)\<rparr>)))"

section \<open>Hooks\<close>

fun create_batches ::
  "handler_config \<Rightarrow> block_number \<Rightarrow> (typed_chain_id, unsigned_proposal list) smap \<Rightarrow> weight \<Rightarrow>
   handler_state \<Rightarrow> weight \<times> handler_state" where
  "create_batches cfg now [] w s = (w, s)"
| "create_batches cfg now ((chain, ps) # rest) w s =
     (let w' = weight_saturating_sub w (db_reads_writes cfg 1 3)
      in if weight_is_zero w' then (w', s)
         else case generate_next_batch_id s of
           (Ok batch_id, s1) \<Rightarrow>
             create_batches cfg now rest w'
               (s1\<lparr>unsigned_proposal_queue := AList.update (chain, batch_id)
                     \<lparr>ub_batch_id = batch_id, ub_proposals = ps, ub_timestamp = now\<rparr>
                     (unsigned_proposal_queue s1),
                   unsigned_proposals := AList.delete chain (unsigned_proposals s1)\<rparr>)
         | (_, s1) \<Rightarrow> (w', s1))"

definition on_idle_create_proposal_batches ::
  "handler_config \<Rightarrow> block_number \<Rightarrow> weight \<Rightarrow> handler_state \<Rightarrow> weight \<times> handler_state" where
  "on_idle_create_proposal_batches cfg now w s =
     (let staged = staged_order cfg (unsigned_proposals s);
          w' = weight_saturating_sub w (db_reads cfg (length staged))
      in create_batches cfg now staged w' s)"

fun is_refresh_key :: "dkg_payload_key \<Rightarrow> bool" where
  "is_refresh_key (RefreshProposalKey _) = True"
| "is_refresh_key _ = False"

definition past_expiry :: "handler_config \<Rightarrow> block_number \<Rightarrow> block_number \<Rightarrow> bool" where
  "past_expiry cfg now timestamp =
     (let time_passed = (case checked_sub now timestamp of Some t \<Rightarrow> t | None \<Rightarrow> 0)
      in unsigned_proposal_expiry cfg < time_passed)"

text \<open>The filter of the source is lazy: a batch is looked at only when the loop gets to it. \<open>None\<close> is
  the panic of \<open>expect\<close> on an empty batch.\<close>

fun remove_expired ::
  "handler_config \<Rightarrow> block_number \<Rightarrow> (typed_chain_id \<times> u32, stored_unsigned_proposal_batch) smap \<Rightarrow>
   weight \<Rightarrow> handler_state \<Rightarrow> (weight \<times> handler_state) option" where
  "remove_expired cfg now [] w s = Some (w, s)"
| "remove_expired cfg now (((chain, batch_id), b) # rest) w s =
     (case ub_proposals b of
        [] \<Rightarrow> None
      | p # _ \<Rightarrow>
          if is_refresh_key (up_key p) \<or> \<not> past_expiry cfg now (ub_timestamp b)
          then remove_expired cfg now rest w s
          else let w' = weight_saturating_sub w (db_writes cfg 1)
               in if weight_is_zero w' then Some (w', s)
                  else remove_expired cfg now rest w'
                    ((h_deposit (ProposalBatchExpired chain batch_id) s)
                       \<lparr>unsigned_proposal_queue := AList.delete (chain, batch_id) (unsigned_proposal_queue s)\<rparr>))"

definition on_idle_remove_expired_batches ::
  "handler_config \<Rightarrow> block_number \<Rightarrow> weight \<Rightarrow> handler_state \<Rightarrow> (weight \<times> handler_state) option" where
  "on_idle_remove_expired_batches cfg now w s =
     (if weight_is_zero w then Some (w, s)
      else let entries = queue_order cfg (unsigned_proposal_queue s);
               w' = weight_saturating_sub w (db_reads cfg (length entries))
           in remove_expired cfg now entries w' s)"

definition on_idle ::
  "handler_config \<Rightarrow> block_number \<Rightarrow> weight \<Rightarrow> handler_state \<Rightarrow> (weight \<times> handler_state) option" where
  "on_idle cfg now w s =
     (if now mod 2 \<noteq> 0 then Some (w, s)
      else case on_idle_create_proposal_batches cfg now w s of
        (w', s') \<Rightarrow> on_idle_remove_expired_batches cfg now w' s')"

section \<open>Unsigned transactions and the offchain worker\<close>

datatype handler_call =
    CallSubmitSignedProposals "signed_proposal_batch list"
  | CallForceSubmitUnsignedProposal proposal
  | CallSubmitDkgSigningOffence signed_proposal_batch
  | CallForceRemoveUnsignedProposalBatch typed_chain_id u32

text \<open>\<open>None\<close> is \<open>InvalidTransaction::Call\<close>.\<close>

fun handler_validate_unsigned ::
  "u64 \<Rightarrow> block_number \<Rightarrow> transaction_source \<Rightarrow> handler_call \<Rightarrow> valid_transaction option" where
  "handler_validate_unsigned priority now External call = None"
| "handler_validate_unsigned priority now src (CallSubmitSignedProposals _) =
     Some \<lparr>vt_priority = priority, vt_longevity = 5, vt_provides = now, vt_propagate = True\<rparr>"
| "handler_validate_unsigned priority now src _ = None"

definition get_expected_signer :: "account_id list \<Rightarrow> block_number \<Rightarrow> account_id option" where
  "get_expected_signer current_authorities block_number =
     (if current_authorities = [] \<or> block_number = 0 then None
      else let i = unat (block_number mod of_nat (length current_authorities))
           in if i < length current_authorities then Some (current_authorities ! i) else None)"

text \<open>\<open>None\<close> is the panic of \<open>expect\<close> on a batch without proposals.\<close>

definition is_not_existing_proposal_batch :: "ext \<Rightarrow> handler_state \<Rightarrow> signed_proposal_batch \<Rightarrow> bool option" where
  "is_not_existing_proposal_batch x s prop =
     (case sb_proposals prop of
        [] \<Rightarrow> None
      | p # _ \<Rightarrow> (case decode_proposal_identifier x p of
          Ok v \<Rightarrow> Some (\<not> contains_key (signed_proposals s) (pi_typed_chain_id v, sb_batch_id prop))
        | Err _ \<Rightarrow> Some False
        | Panic \<Rightarrow> None))"

fun filter_not_existing :: "ext \<Rightarrow> handler_state \<Rightarrow> signed_proposal_batch list \<Rightarrow> signed_proposal_batch list option" where
  "filter_not_existing x s [] = Some []"
| "filter_not_existing x s (b # bs) =
     (case is_not_existing_proposal_batch x s b of
        None \<Rightarrow> None
      | Some keep \<Rightarrow> map_option (\<lambda>r. if keep then b # r else r) (filter_not_existing x s bs))"

function chunks :: "nat \<Rightarrow> 'a list \<Rightarrow> 'a list list" where
  "chunks n xs = (if xs = [] \<or> n = 0 then [] else take n xs # chunks n (drop n xs))"
  by auto

termination chunks
  by (relation "measure (\<lambda>(n, xs). length xs)") auto

declare chunks.simps [simp del]

text \<open>
  The offchain worker: \<open>local\<close> is the account of the local key, if there is one, and \<open>stored\<close> what the
  offchain storage holds (\<open>None\<close> when it has no or no readable entry). The value is the list of the
  \<open>submit_signed_proposals\<close> calls that are sent, or an error; the outer \<open>None\<close> is a panic.
\<close>

definition submit_signed_proposal_onchain ::
  "handler_config \<Rightarrow> ext \<Rightarrow> account_id list \<Rightarrow> account_id option \<Rightarrow> signed_proposal_batch list option \<Rightarrow>
   block_number \<Rightarrow> handler_state \<Rightarrow> (string + signed_proposal_batch list list) option" where
  "submit_signed_proposal_onchain cfg x authorities local_account stored block_number s =
     (case local_account of
        None \<Rightarrow> Some (Inl ''No local accounts available. Consider adding one via `author_insertKey` RPC.'')
      | Some account \<Rightarrow>
          if (case get_expected_signer authorities block_number of
                Some expected \<Rightarrow> account \<noteq> expected | None \<Rightarrow> False)
          then Some (Inr [])
          else (case stored of
             None \<Rightarrow> Some (Inr [])
           | Some next_proposals \<Rightarrow>
               if next_proposals = [] then Some (Inr [])
               else (case filter_not_existing x s next_proposals of
                  None \<Rightarrow> None
                | Some filtered \<Rightarrow>
                    if max_proposals_per_batch cfg = 0 then None
                    else Some (Inr (chunks (max_proposals_per_batch cfg) filtered)))))"

end
