(* ===== verification/Handler_Correct.thy ===== *)
theory Handler_Correct
  imports Proposal_Handler Sample_Data
begin

text \<open>
  Correctness of the proposal handler: the invariant of its three storage maps, the conservation of
  the proposals it holds, the fate of a batch under expiry and signing, and the interface laws the
  proposals pallet relies on.
\<close>

section \<open>The proposals a handler holds\<close>

definition batch_proposals :: "stored_unsigned_proposal_batch \<Rightarrow> proposal multiset" where
  "batch_proposals b = mset (map up_proposal (ub_proposals b))"

definition stored :: "handler_state \<Rightarrow> proposal multiset" where
  "stored s = \<Sum>\<^sub># (image_mset batch_proposals (mset (map snd (unsigned_proposal_queue s)))) +
     \<Sum>\<^sub># (image_mset (\<lambda>ps. mset (map up_proposal ps)) (mset (map snd (unsigned_proposals s))))"

section \<open>The invariant of the storage\<close>

text \<open>
  Staged and queued vectors are not empty, within their bound, and of one chain; every identifier in
  use is below the next one and names one batch only, queued or signed.
\<close>

definition wf_proposals :: "handler_config \<Rightarrow> typed_chain_id \<Rightarrow> unsigned_proposal list \<Rightarrow> bool" where
  "wf_proposals cfg c ps \<longleftrightarrow> ps \<noteq> [] \<and> length ps \<le> max_proposals_per_batch cfg \<and>
     list_all (\<lambda>p. up_typed_chain_id p = c) ps"

definition queue_inv :: "handler_config \<Rightarrow> handler_state \<Rightarrow> bool" where
  "queue_inv cfg s \<longleftrightarrow> wf_smap (unsigned_proposal_queue s) \<and>
     (\<forall>c i b. map_of (unsigned_proposal_queue s) (c, i) = Some b \<longrightarrow>
        i < next_batch_id s \<and> ub_batch_id b = i \<and> wf_proposals cfg c (ub_proposals b))"

definition staged_inv :: "handler_config \<Rightarrow> handler_state \<Rightarrow> bool" where
  "staged_inv cfg s \<longleftrightarrow> wf_smap (unsigned_proposals s) \<and>
     (\<forall>c ps. map_of (unsigned_proposals s) c = Some ps \<longrightarrow> wf_proposals cfg c ps)"

definition signed_inv :: "handler_state \<Rightarrow> bool" where
  "signed_inv s \<longleftrightarrow>
     (\<forall>c i b. map_of (signed_proposals s) (c, i) = Some b \<longrightarrow>
        i < next_batch_id s \<and> sb_batch_id b = i \<and> sb_proposals b \<noteq> [])"

definition ids_inv :: "handler_state \<Rightarrow> bool" where
  "ids_inv s \<longleftrightarrow>
     (\<forall>c c' i b b'. map_of (unsigned_proposal_queue s) (c, i) = Some b \<longrightarrow>
        map_of (unsigned_proposal_queue s) (c', i) = Some b' \<longrightarrow> c = c') \<and>
     (\<forall>c c' i b. map_of (unsigned_proposal_queue s) (c, i) = Some b \<longrightarrow>
        map_of (signed_proposals s) (c', i) = None)"

definition handler_inv :: "handler_config \<Rightarrow> handler_state \<Rightarrow> bool" where
  "handler_inv cfg s \<longleftrightarrow> queue_inv cfg s \<and> staged_inv cfg s \<and> signed_inv s \<and> ids_inv s"

lemmas handler_inv_defs = handler_inv_def queue_inv_def staged_inv_def signed_inv_def ids_inv_def

lemma h_deposit_simps [simp]:
  "unsigned_proposal_queue (h_deposit e s) = unsigned_proposal_queue s"
  "next_batch_id (h_deposit e s) = next_batch_id s"
  "unsigned_proposals (h_deposit e s) = unsigned_proposals s"
  "signed_proposals (h_deposit e s) = signed_proposals s"
  "h_events (h_deposit e s) = h_events s @ [e]"
  by (simp_all add: h_deposit_def)

lemma handler_inv_deposit [simp]: "handler_inv cfg (h_deposit e s) = handler_inv cfg s"
  by (simp add: handler_inv_defs)

lemma stored_deposit [simp]: "stored (h_deposit e s) = stored s"
  by (simp add: stored_def)

lemma handler_inv_empty: "handler_inv cfg empty_handler_state"
  by (simp add: handler_inv_defs empty_handler_state_def)

subsection \<open>A new batch under a fresh identifier\<close>

definition queue_batch :: "block_number \<Rightarrow> typed_chain_id \<Rightarrow> unsigned_proposal list \<Rightarrow> handler_state \<Rightarrow> handler_state" where
  "queue_batch now c ps s = s\<lparr>next_batch_id := next_batch_id s + 1,
     unsigned_proposal_queue := AList.update (c, next_batch_id s)
       \<lparr>ub_batch_id = next_batch_id s, ub_proposals = ps, ub_timestamp = now\<rparr> (unsigned_proposal_queue s)\<rparr>"

lemma generate_next_batch_id_cases:
  obtains (ok) "generate_next_batch_id s = (Ok (next_batch_id s), s\<lparr>next_batch_id := next_batch_id s + 1\<rparr>)"
      and "next_batch_id s < next_batch_id s + 1"
  | (overflow) "generate_next_batch_id s = (Err (HandlerError ArithmeticOverflow), s)"
proof (cases "checked_add (next_batch_id s) 1")
  case None
  then show ?thesis
    using overflow by (simp add: generate_next_batch_id_def)
next
  case (Some n)
  then have n: "n = next_batch_id s + 1"
    by (auto simp: checked_add_def split: if_splits)
  have "unat n = unat (next_batch_id s) + 1"
    using checked_add_Some [OF Some] by simp
  then have "next_batch_id s < next_batch_id s + 1"
    unfolding n by (simp add: word_less_nat_alt)
  with Some n show ?thesis
    using ok by (simp add: generate_next_batch_id_def Let_def)
qed

lemma fresh_id: "handler_inv cfg s \<Longrightarrow> map_of (unsigned_proposal_queue s) (c, next_batch_id s) = None"
  by (auto simp: handler_inv_def queue_inv_def intro: ccontr)

lemma fresh_id_signed: "handler_inv cfg s \<Longrightarrow> map_of (signed_proposals s) (c, next_batch_id s) = None"
  by (auto simp: handler_inv_def signed_inv_def intro: ccontr)

lemma queue_batch_inv:
  assumes inv: "handler_inv cfg s" and ps: "wf_proposals cfg c ps"
    and more: "next_batch_id s < next_batch_id s + 1"
  shows "handler_inv cfg (queue_batch now c ps s)"
proof -
  have lt: "i < next_batch_id s \<Longrightarrow> i < next_batch_id s + 1" for i
    by (rule less_trans [OF _ more])
  have "queue_inv cfg (queue_batch now c ps s)"
    using inv ps more lt by (auto simp: handler_inv_def queue_inv_def queue_batch_def)
  moreover have "staged_inv cfg (queue_batch now c ps s)"
    using inv by (simp add: handler_inv_def staged_inv_def queue_batch_def)
  moreover have "signed_inv (queue_batch now c ps s)"
    using inv lt by (auto simp: handler_inv_def signed_inv_def queue_batch_def)
  moreover have "ids_inv (queue_batch now c ps s)"
    using inv fresh_id [OF inv] fresh_id_signed [OF inv]
    unfolding handler_inv_def ids_inv_def queue_batch_def by (auto split: if_splits)
  ultimately show ?thesis
    by (simp add: handler_inv_def)
qed

lemma stored_queue_batch:
  assumes "handler_inv cfg s"
  shows "stored (queue_batch now c ps s) = mset (map up_proposal ps) + stored s"
proof -
  let ?q = "unsigned_proposal_queue s"
  let ?b = "\<lparr>ub_batch_id = next_batch_id s, ub_proposals = ps, ub_timestamp = now\<rparr>"
  have "mset (map snd (AList.update (c, next_batch_id s) ?b ?q)) = add_mset ?b (mset (map snd ?q))"
    by (rule mset_values_update_new) (rule fresh_id [OF assms])
  then show ?thesis
    by (simp add: stored_def queue_batch_def batch_proposals_def)
qed

subsection \<open>Storing a proposal\<close>

definition stage :: "typed_chain_id \<Rightarrow> unsigned_proposal list \<Rightarrow> handler_state \<Rightarrow> handler_state" where
  "stage c ps s = s\<lparr>unsigned_proposals := AList.update c ps (unsigned_proposals s)\<rparr>"

definition staged :: "handler_state \<Rightarrow> typed_chain_id \<Rightarrow> unsigned_proposal list" where
  "staged s c = (case map_of (unsigned_proposals s) c of Some ps \<Rightarrow> ps | None \<Rightarrow> [])"

lemma staged_simps [simp]: "staged (h_deposit e s) = staged s" "staged (queue_batch now c ps s) = staged s"
  by (simp_all add: fun_eq_iff staged_def queue_batch_def)

lemma stage_inv: "handler_inv cfg s \<Longrightarrow> wf_proposals cfg c ps \<Longrightarrow> handler_inv cfg (stage c ps s)"
  by (simp add: handler_inv_defs stage_def)

lemma stored_stage:
  assumes "handler_inv cfg s"
  shows "stored (stage c ps s) + mset (map up_proposal (staged s c)) = stored s + mset (map up_proposal ps)"
proof (cases "map_of (unsigned_proposals s) c")
  case None
  then show ?thesis
    using mset_values_update_new [OF None, of ps] by (simp add: stored_def stage_def staged_def)
next
  case (Some old)
  have "wf_smap (unsigned_proposals s)"
    using assms by (simp add: handler_inv_def staged_inv_def)
  from arg_cong [OF mset_values_update_old [OF this Some, of ps],
      of "\<lambda>M. \<Sum>\<^sub># (image_mset (\<lambda>ps. mset (map up_proposal ps)) M)"]
  show ?thesis
    using Some by (simp add: stored_def stage_def staged_def ac_simps)
qed

definition unsigned_of :: "proposal \<Rightarrow> proposal_identifier \<Rightarrow> unsigned_proposal" where
  "unsigned_of prop i = \<lparr>up_typed_chain_id = pi_typed_chain_id i, up_key = pi_key i, up_proposal = prop\<rparr>"

lemma unsigned_of_simps [simp]:
  "up_proposal (unsigned_of prop i) = prop" "up_typed_chain_id (unsigned_of prop i) = pi_typed_chain_id i"
  "up_key (unsigned_of prop i) = pi_key i"
  by (simp_all add: unsigned_of_def)

text \<open>
  Storing a proposal has three outcomes: it is appended to the staged vector of its chain; or the
  vector is full, becomes a batch, and the proposal starts a new one; or the identifiers are used up
  and nothing changes.
\<close>

lemma store_unsigned_cases:
  assumes inv: "handler_inv cfg s" and max: "0 < max_proposals_per_batch cfg"
  obtains (append) "length (staged s (pi_typed_chain_id i)) < max_proposals_per_batch cfg"
      and "store_unsigned_proposal cfg now pr i s =
        (Ok (), stage (pi_typed_chain_id i) (staged s (pi_typed_chain_id i) @ [unsigned_of pr i]) s)"
  | (full) "length (staged s (pi_typed_chain_id i)) = max_proposals_per_batch cfg"
      and "next_batch_id s < next_batch_id s + 1"
      and "store_unsigned_proposal cfg now pr i s =
        (Ok (), stage (pi_typed_chain_id i) [unsigned_of pr i]
          (queue_batch now (pi_typed_chain_id i) (staged s (pi_typed_chain_id i)) s))"
  | (overflow) "store_unsigned_proposal cfg now pr i s = (Err (HandlerError ArithmeticOverflow), s)"
proof -
  let ?c = "pi_typed_chain_id i"
  have le: "length (staged s ?c) \<le> max_proposals_per_batch cfg"
    using inv by (auto simp: handler_inv_def staged_inv_def staged_def wf_proposals_def split: option.splits)
  show ?thesis
  proof (cases "length (staged s ?c) = max_proposals_per_batch cfg")
    case False
    with le have "length (staged s ?c) < max_proposals_per_batch cfg"
      by simp
    then show ?thesis
      using False append
      by (simp add: store_unsigned_proposal_def Let_def staged_def [symmetric] unsigned_of_def [symmetric]
          stage_def [symmetric] try_push_def)
  next
    case True
    show ?thesis
      by (rule generate_next_batch_id_cases [of s])
        (use True full overflow max in \<open>simp_all add: store_unsigned_proposal_def Let_def
          staged_def [symmetric] unsigned_of_def [symmetric] create_batch_and_add_to_storage_def
          stage_def queue_batch_def try_push_def\<close>)
  qed
qed

lemma staged_wf: "handler_inv cfg s \<Longrightarrow> staged s c \<noteq> [] \<Longrightarrow> wf_proposals cfg c (staged s c)"
  by (auto simp: handler_inv_def staged_inv_def staged_def split: option.splits)

lemma store_unsigned_spec:
  assumes inv: "handler_inv cfg s" and max: "0 < max_proposals_per_batch cfg"
    and st: "store_unsigned_proposal cfg now prop i s = (r, s')"
  shows "handler_inv cfg s' \<and> r \<noteq> Panic \<and>
     stored s' = (if r = Ok () then add_mset prop (stored s) else stored s)"
  using inv max
proof (cases rule: store_unsigned_cases [where i = i and now = now and pr = "prop"])
  case append
  let ?c = "pi_typed_chain_id i"
  have wf: "wf_proposals cfg ?c (staged s ?c @ [unsigned_of prop i])"
    using append(1) staged_wf [OF inv, of ?c] by (cases "staged s ?c = []") (auto simp: wf_proposals_def)
  from st append(2) have r: "r = Ok ()" "s' = stage ?c (staged s ?c @ [unsigned_of prop i]) s"
    by simp_all
  have "stored s' + mset (map up_proposal (staged s ?c)) =
      add_mset prop (stored s) + mset (map up_proposal (staged s ?c))"
    unfolding r using stored_stage [OF inv, of ?c "staged s ?c @ [unsigned_of prop i]"] by simp
  with r stage_inv [OF inv wf] show ?thesis by simp
next
  case full
  let ?c = "pi_typed_chain_id i"
  let ?s1 = "queue_batch now ?c (staged s ?c) s"
  have "wf_proposals cfg ?c (staged s ?c)"
    using full(1) max staged_wf [OF inv, of ?c] by fastforce
  then have inv1: "handler_inv cfg ?s1"
    by (rule queue_batch_inv [OF inv]) (rule full(2))
  have wf: "wf_proposals cfg ?c [unsigned_of prop i]"
    using max by (simp add: wf_proposals_def)
  from st full(3) have r: "r = Ok ()" "s' = stage ?c [unsigned_of prop i] ?s1"
    by simp_all
  have "stored s' + mset (map up_proposal (staged s ?c)) =
      add_mset prop (stored s) + mset (map up_proposal (staged s ?c))"
    unfolding r using stored_stage [OF inv1, of ?c "[unsigned_of prop i]"] stored_queue_batch [OF inv]
    by simp
  with r stage_inv [OF inv1 wf] show ?thesis by simp
next
  case overflow
  with st inv show ?thesis by auto
qed

lemma handle_unsigned_spec:
  assumes "handler_inv cfg s" and "0 < max_proposals_per_batch cfg"
    and "handle_unsigned_proposal cfg x now prop s = (r, s')"
  shows "handler_inv cfg s' \<and> stored s' = (if r = Ok () then add_mset prop (stored s) else stored s)"
proof (cases "decode_proposal_identifier x prop")
  case (Ok v)
  with assms(3) have "store_unsigned_proposal cfg now prop v
      (h_deposit (ProposalAdded (pi_key v) (pi_typed_chain_id v) (data prop)) s) = (r, s')"
    by (simp add: handle_unsigned_proposal_def)
  from store_unsigned_spec [OF _ assms(2) this] assms(1) show ?thesis
    by simp
qed (use assms in \<open>auto simp: handle_unsigned_proposal_def\<close>)

text \<open>The handler is a sink for the proposals pallet: what an approval hands over is held once more.\<close>

definition handler_ok :: "handler_config \<Rightarrow> handler_state \<Rightarrow> bool" where
  "handler_ok cfg s \<longleftrightarrow> handler_inv cfg s \<and> 0 < max_proposals_per_batch cfg"

lemma handle_unsigned_stores:
  assumes "handle_unsigned_proposal cfg x now p h = (Ok (), h')" and "handler_ok cfg h"
  shows "stored h' = add_mset p (stored h)" and "handler_ok cfg h'"
  using handle_unsigned_spec [OF _ _ assms(1)] assms(2) by (simp_all add: handler_ok_def)

interpretation hs: unsigned_proposal_sink
  "\<lambda>now. handle_unsigned_proposal cfg x now" stored "handler_ok cfg" for cfg x
  by unfold_locales (rule handle_unsigned_stores, assumption+)+

section \<open>Batching of staged proposals\<close>

definition unstage :: "typed_chain_id \<Rightarrow> handler_state \<Rightarrow> handler_state" where
  "unstage c s = s\<lparr>unsigned_proposals := AList.delete c (unsigned_proposals s)\<rparr>"

lemma unstage_simps [simp]:
  "unsigned_proposals (unstage c s) = AList.delete c (unsigned_proposals s)"
  "unsigned_proposal_queue (unstage c s) = unsigned_proposal_queue s"
  "next_batch_id (unstage c s) = next_batch_id s" "signed_proposals (unstage c s) = signed_proposals s"
  by (simp_all add: unstage_def)

lemma queue_batch_simps [simp]:
  "unsigned_proposals (queue_batch now c ps s) = unsigned_proposals s"
  "next_batch_id (queue_batch now c ps s) = next_batch_id s + 1"
  "signed_proposals (queue_batch now c ps s) = signed_proposals s"
  "unsigned_proposal_queue (queue_batch now c ps s) = AList.update (c, next_batch_id s)
     \<lparr>ub_batch_id = next_batch_id s, ub_proposals = ps, ub_timestamp = now\<rparr> (unsigned_proposal_queue s)"
  by (simp_all add: queue_batch_def)

lemma unstage_inv: "handler_inv cfg s \<Longrightarrow> handler_inv cfg (unstage c s)"
  by (auto simp: handler_inv_defs)

lemma stored_unstage:
  assumes "handler_inv cfg s" and "map_of (unsigned_proposals s) c = Some ps"
  shows "stored s = mset (map up_proposal ps) + stored (unstage c s)"
proof -
  have "wf_smap (unsigned_proposals s)"
    using assms(1) by (simp add: handler_inv_def staged_inv_def)
  from arg_cong [OF mset_values_delete [OF this assms(2)],
      of "\<lambda>M. \<Sum>\<^sub># (image_mset (\<lambda>ps. mset (map up_proposal ps)) M)"]
  show ?thesis
    by (simp add: stored_def)
qed

lemma batch_staged:
  assumes inv: "handler_inv cfg s" and ps: "map_of (unsigned_proposals s) c = Some ps"
    and more: "next_batch_id s < next_batch_id s + 1"
  shows "handler_inv cfg (unstage c (queue_batch now c ps s)) \<and>
     stored (unstage c (queue_batch now c ps s)) = stored s"
proof -
  have "wf_proposals cfg c ps"
    using inv ps by (simp add: handler_inv_def staged_inv_def)
  then have inv1: "handler_inv cfg (queue_batch now c ps s)"
    using inv more by (intro queue_batch_inv)
  have "mset (map up_proposal ps) + stored s = mset (map up_proposal ps) + stored (unstage c (queue_batch now c ps s))"
    using stored_unstage [OF inv1, of c ps] stored_queue_batch [OF inv, of now c ps] ps by simp
  then show ?thesis
    using unstage_inv [OF inv1] by simp
qed

text \<open>The entries a loop has still to visit are staged under distinct chains.\<close>

definition entries_ok :: "('k, 'v) smap \<Rightarrow> ('k, 'v) smap \<Rightarrow> bool" where
  "entries_ok es m \<longleftrightarrow> wf_smap es \<and> (\<forall>k v. (k, v) \<in> set es \<longrightarrow> map_of m k = Some v)"

lemma entries_ok_Cons:
  "entries_ok ((k, v) # es) m \<longleftrightarrow>
     map_of m k = Some v \<and> k \<notin> fst ` set es \<and> entries_ok es m"
  by (auto simp: entries_ok_def wf_smap_def)

lemma entries_ok_delete: "entries_ok es m \<Longrightarrow> k \<notin> fst ` set es \<Longrightarrow> entries_ok es (AList.delete k m)"
  by (force simp: entries_ok_def)

lemma entries_ok_order: "wf_smap m \<Longrightarrow> storage_order ord \<Longrightarrow> entries_ok (ord m) m"
  using storage_order_set [of ord m] storage_order_wf [of ord m]
  by (auto simp: entries_ok_def wf_smap_map_of)

lemma create_batches_step:
  "create_batches cfg now ((c, ps) # es) w s =
     (let w' = weight_saturating_sub w (db_reads_writes cfg 1 3)
      in if weight_is_zero w' \<or> generate_next_batch_id s = (Err (HandlerError ArithmeticOverflow), s)
         then (w', s)
         else create_batches cfg now es w' (unstage c (queue_batch now c ps s)))"
  by (rule generate_next_batch_id_cases [of s])
    (simp_all add: Let_def unstage_def queue_batch_def)

lemma queue_batch_keeps:
  assumes "handler_inv cfg s" and "map_of (unsigned_proposal_queue s) k = Some b"
  shows "map_of (unsigned_proposal_queue (queue_batch now c ps s)) k = Some b"
  using assms fresh_id [OF assms(1), of c] by (cases "k = (c, next_batch_id s)") auto

lemma create_batches_conserves:
  assumes "handler_inv cfg s" and "entries_ok es (unsigned_proposals s)"
    and "create_batches cfg now es w s = (w', s')"
  shows "handler_inv cfg s' \<and> stored s' = stored s \<and> signed_proposals s' = signed_proposals s \<and>
     (\<forall>k b. map_of (unsigned_proposal_queue s) k = Some b \<longrightarrow> map_of (unsigned_proposal_queue s') k = Some b)"
  using assms
proof (induction es arbitrary: w s)
  case Nil
  then show ?case by simp
next
  case (Cons a es)
  obtain c ps where a: "a = (c, ps)" by (cases a)
  from Cons.prems(2) a have ps: "map_of (unsigned_proposals s) c = Some ps"
    and rest: "entries_ok es (AList.delete c (unsigned_proposals s))"
    by (auto simp: entries_ok_Cons intro: entries_ok_delete)
  let ?s1 = "unstage c (queue_batch now c ps s)" and ?w1 = "weight_saturating_sub w (db_reads_writes cfg 1 3)"
  consider (stop) "(w', s') = (?w1, s)"
    | (go) "next_batch_id s < next_batch_id s + 1" "create_batches cfg now es ?w1 ?s1 = (w', s')"
  proof (cases rule: generate_next_batch_id_cases [of s])
    case ok
    then show ?thesis
      using stop go Cons.prems(3) [unfolded a create_batches_step Let_def]
      by (cases "weight_is_zero ?w1") simp_all
  next
    case overflow
    then show ?thesis
      using stop Cons.prems(3) [unfolded a create_batches_step Let_def] by simp
  qed
  then show ?case
  proof cases
    case stop
    with Cons.prems show ?thesis by simp
  next
    case go
    note b = batch_staged [OF Cons.prems(1) ps go(1), of now]
    have es1: "entries_ok es (unsigned_proposals ?s1)" using rest by simp
    show ?thesis
      using Cons.IH [OF _ es1 go(2)] b queue_batch_keeps [OF Cons.prems(1), of _ _ now c ps] by auto
  qed
qed

text \<open>With weight left and identifiers left, every staged vector becomes a batch of its own.\<close>

definition proof_size_free :: "handler_config \<Rightarrow> bool" where
  "proof_size_free cfg \<longleftrightarrow>
     (\<forall>n m. proof_size (db_reads cfg n) = 0 \<and> proof_size (db_writes cfg n) = 0 \<and>
        proof_size (db_reads_writes cfg n m) = 0)"

lemma weight_stays:
  assumes "proof_size d = 0" and "proof_size w \<noteq> 0"
  shows "proof_size (weight_saturating_sub w d) \<noteq> 0" "\<not> weight_is_zero (weight_saturating_sub w d)"
  using assms by (auto simp: weight_saturating_sub_def weight_is_zero_def saturating_sub_def)

lemma create_batches_all:
  assumes "handler_inv cfg s" and "entries_ok es (unsigned_proposals s)"
    and "proof_size_free cfg" and "proof_size w \<noteq> 0"
    and "unat (next_batch_id s) + length es < 2 ^ 32"
    and "create_batches cfg now es w s = (w', s')"
  shows "(\<forall>c \<in> fst ` set es. map_of (unsigned_proposals s') c = None) \<and>
     (\<forall>c. c \<notin> fst ` set es \<longrightarrow> map_of (unsigned_proposals s') c = map_of (unsigned_proposals s) c) \<and>
     (\<forall>(c, ps) \<in> set es. \<exists>i b. map_of (unsigned_proposal_queue s') (c, i) = Some b \<and>
        ub_proposals b = ps \<and> ub_timestamp b = now \<and> next_batch_id s \<le> i) \<and>
     (\<forall>k b. map_of (unsigned_proposal_queue s) k = Some b \<longrightarrow> map_of (unsigned_proposal_queue s') k = Some b) \<and>
     proof_size w' \<noteq> 0"
  using assms(1,2,4-)
proof (induction es arbitrary: w s)
  case Nil
  then show ?case by simp
next
  case (Cons a es)
  obtain c ps where a: "a = (c, ps)" by (cases a)
  let ?s1 = "unstage c (queue_batch now c ps s)"
  let ?w1 = "weight_saturating_sub w (db_reads_writes cfg 1 3)"
  from Cons.prems(2) a have ps: "map_of (unsigned_proposals s) c = Some ps" and c: "c \<notin> fst ` set es"
    and rest: "entries_ok es (AList.delete c (unsigned_proposals s))"
    by (auto simp: entries_ok_Cons intro: entries_ok_delete)
  have unat1: "unat (next_batch_id s + 1) = unat (next_batch_id s) + 1"
    using Cons.prems(4) by (subst unat_add_no_overflow) simp_all
  then have more: "next_batch_id s < next_batch_id s + 1"
    by (simp add: word_less_nat_alt)
  have gen: "generate_next_batch_id s \<noteq> (Err (HandlerError ArithmeticOverflow), s)"
    using Cons.prems(4) by (simp add: generate_next_batch_id_def checked_add_def Let_def)
  have w1: "proof_size ?w1 \<noteq> 0" "\<not> weight_is_zero ?w1"
    using weight_stays [of "db_reads_writes cfg 1 3" w] assms(3) Cons.prems(3) by (simp_all add: proof_size_free_def)
  have run: "create_batches cfg now es ?w1 ?s1 = (w', s')"
    using Cons.prems(5) gen w1 unfolding a create_batches_step by (simp add: Let_def)
  have inv1: "handler_inv cfg ?s1"
    using batch_staged [OF Cons.prems(1) ps more] by blast
  have e1: "entries_ok es (unsigned_proposals ?s1)"
    using rest by simp
  have b1: "unat (next_batch_id ?s1) + length es < 2 ^ 32"
    using Cons.prems(4) unat1 by simp
  note IH = Cons.IH [OF inv1 e1 w1(1) b1 run]
  have IHq: "map_of (unsigned_proposal_queue s') k = Some b"
    if "map_of (unsigned_proposal_queue ?s1) k = Some b" for k b
    using IH that by blast
  have IHe: "\<exists>i b. map_of (unsigned_proposal_queue s') (d, i) = Some b \<and> ub_proposals b = qs \<and>
      ub_timestamp b = now \<and> next_batch_id s + 1 \<le> i" if "(d, qs) \<in> set es" for d qs
    using IH that by auto
  have new: "map_of (unsigned_proposal_queue ?s1) (c, next_batch_id s) =
      Some \<lparr>ub_batch_id = next_batch_id s, ub_proposals = ps, ub_timestamp = now\<rparr>"
    by simp
  have old: "map_of (unsigned_proposal_queue s) k = Some b \<Longrightarrow>
      map_of (unsigned_proposal_queue ?s1) k = Some b" for k b
    using queue_batch_keeps [OF Cons.prems(1), of k b now c ps] by simp
  have le: "next_batch_id s + 1 \<le> i \<Longrightarrow> next_batch_id s \<le> i" for i
    using more by (meson less_imp_le order_trans)
  show ?case
  proof (intro conjI ballI allI impI)
    fix d assume "d \<in> fst ` set (a # es)"
    then show "map_of (unsigned_proposals s') d = None"
      using IH c a by (cases "d = c") auto
  next
    fix d assume "d \<notin> fst ` set (a # es)"
    then show "map_of (unsigned_proposals s') d = map_of (unsigned_proposals s) d"
      using IH a by auto
  next
    fix e assume e: "e \<in> set (a # es)"
    show "case e of (c, ps) \<Rightarrow> \<exists>i b. map_of (unsigned_proposal_queue s') (c, i) = Some b \<and>
        ub_proposals b = ps \<and> ub_timestamp b = now \<and> next_batch_id s \<le> i"
    proof (cases "e = (c, ps)")
      case True
      with IHq [OF new] show ?thesis
        by (auto intro!: exI [of _ "next_batch_id s"])
    next
      case False
      obtain d qs where d: "e = (d, qs)" by (cases e)
      with False e a have "(d, qs) \<in> set es" by auto
      from IHe [OF this] le d show ?thesis by auto
    qed
  next
    fix k b assume "map_of (unsigned_proposal_queue s) k = Some b"
    then show "map_of (unsigned_proposal_queue s') k = Some b"
      using old IHq by blast
  next
    show "proof_size w' \<noteq> 0" using IH by blast
  qed
qed

section \<open>Removal of batches\<close>

lemma submap_inv:
  assumes "handler_inv cfg s" and "wf_smap q"
    and "\<And>k b. map_of q k = Some b \<Longrightarrow> map_of (unsigned_proposal_queue s) k = Some b"
  shows "handler_inv cfg (s\<lparr>unsigned_proposal_queue := q\<rparr>)"
proof -
  have "queue_inv cfg (s\<lparr>unsigned_proposal_queue := q\<rparr>)"
    using assms(1,2) assms(3) unfolding handler_inv_def queue_inv_def by (simp, blast)
  moreover have "ids_inv (s\<lparr>unsigned_proposal_queue := q\<rparr>)"
    using assms(1) assms(3) unfolding handler_inv_def ids_inv_def by (simp, blast)
  ultimately show ?thesis
    using assms(1) by (simp add: handler_inv_def staged_inv_def signed_inv_def)
qed

lemma delete_batch_inv:
  "handler_inv cfg s \<Longrightarrow> handler_inv cfg (s\<lparr>unsigned_proposal_queue := AList.delete k (unsigned_proposal_queue s)\<rparr>)"
  by (rule submap_inv) (auto simp: handler_inv_def queue_inv_def split: if_splits)

text \<open>
  A queued batch is expired when its first proposal is not a refresh and its age, counted in blocks
  without wrap-around, exceeds the configured expiry.
\<close>

definition batch_expired :: "handler_config \<Rightarrow> block_number \<Rightarrow> stored_unsigned_proposal_batch \<Rightarrow> bool" where
  "batch_expired cfg now b \<longleftrightarrow>
     (case ub_proposals b of [] \<Rightarrow> False | p # _ \<Rightarrow> \<not> is_refresh_key (up_key p) \<and>
        unat (ub_timestamp b) + unat (unsigned_proposal_expiry cfg) < unat now)"

lemma past_expiry_unat:
  "past_expiry cfg now t \<longleftrightarrow> unat t + unat (unsigned_proposal_expiry cfg) < unat now"
  by (auto simp: past_expiry_def checked_sub_def Let_def word_less_nat_alt word_le_nat_alt unat_sub)

lemma remove_expired_step:
  assumes "ub_proposals b \<noteq> []"
  shows "remove_expired cfg now (((c, i), b) # es) w s =
    (if \<not> batch_expired cfg now b then remove_expired cfg now es w s
     else let w' = weight_saturating_sub w (db_writes cfg 1)
          in if weight_is_zero w' then Some (w', s)
             else remove_expired cfg now es w' ((h_deposit (ProposalBatchExpired c i) s)
               \<lparr>unsigned_proposal_queue := AList.delete (c, i) (unsigned_proposal_queue s)\<rparr>))"
  using assms by (auto simp: batch_expired_def past_expiry_unat neq_Nil_conv)

lemma remove_expired_spec:
  assumes "handler_inv cfg s" and "entries_ok es (unsigned_proposal_queue s)"
  shows "\<exists>w' s'. remove_expired cfg now es w s = Some (w', s') \<and> handler_inv cfg s' \<and>
     unsigned_proposals s' = unsigned_proposals s \<and> signed_proposals s' = signed_proposals s \<and>
     next_batch_id s' = next_batch_id s \<and>
     (\<forall>k. map_of (unsigned_proposal_queue s') k = map_of (unsigned_proposal_queue s) k \<or>
        map_of (unsigned_proposal_queue s') k = None \<and>
        (\<exists>b. map_of (unsigned_proposal_queue s) k = Some b \<and> batch_expired cfg now b)) \<and>
     (proof_size_free cfg \<longrightarrow> proof_size w \<noteq> 0 \<longrightarrow>
        (\<forall>k b. (k, b) \<in> set es \<longrightarrow> batch_expired cfg now b \<longrightarrow>
           map_of (unsigned_proposal_queue s') k = None))"
  using assms
proof (induction es arbitrary: w s)
  case Nil
  then show ?case by simp
next
  case (Cons a es)
  obtain c i b where a: "a = ((c, i), b)" by (metis prod.exhaust)
  from Cons.prems(2) a have b: "map_of (unsigned_proposal_queue s) (c, i) = Some b"
    and nin: "(c, i) \<notin> fst ` set es" and es: "entries_ok es (unsigned_proposal_queue s)"
    by (simp_all add: entries_ok_Cons)
  have ne: "ub_proposals b \<noteq> []"
    using Cons.prems(1) b by (auto simp: handler_inv_def queue_inv_def wf_proposals_def)
  let ?w1 = "weight_saturating_sub w (db_writes cfg 1)"
  let ?s1 = "(h_deposit (ProposalBatchExpired c i) s)
      \<lparr>unsigned_proposal_queue := AList.delete (c, i) (unsigned_proposal_queue s)\<rparr>"
  consider (keep) "\<not> batch_expired cfg now b" | (stop) "batch_expired cfg now b" "weight_is_zero ?w1"
    | (drop) "batch_expired cfg now b" "\<not> weight_is_zero ?w1"
    by blast
  then show ?case
  proof cases
    case keep
    with Cons.IH [OF Cons.prems(1) es, of w] show ?thesis
      unfolding a remove_expired_step [OF ne] by auto
  next
    case stop
    have "\<not> (proof_size_free cfg \<and> proof_size w \<noteq> 0)"
      using stop(2) weight_stays [of "db_writes cfg 1" w] by (auto simp: proof_size_free_def)
    with stop Cons.prems(1) show ?thesis
      unfolding a remove_expired_step [OF ne] by (auto simp: Let_def)
  next
    case drop
    have inv1: "handler_inv cfg ?s1"
      using delete_batch_inv [of cfg "h_deposit (ProposalBatchExpired c i) s" "(c, i)"] Cons.prems(1) by simp
    have es1: "entries_ok es (unsigned_proposal_queue ?s1)"
      using entries_ok_delete [OF es nin] by simp
    have w1: "proof_size_free cfg \<Longrightarrow> proof_size w \<noteq> 0 \<Longrightarrow> proof_size ?w1 \<noteq> 0"
      using weight_stays [of "db_writes cfg 1" w] by (simp add: proof_size_free_def)
    from Cons.IH [OF inv1 es1, of ?w1] obtain w' s' where
      run: "remove_expired cfg now es ?w1 ?s1 = Some (w', s')" and inv': "handler_inv cfg s'"
      and fr: "unsigned_proposals s' = unsigned_proposals s" "signed_proposals s' = signed_proposals s"
        "next_batch_id s' = next_batch_id s"
      and q: "\<And>k. map_of (unsigned_proposal_queue s') k = map_of (unsigned_proposal_queue ?s1) k \<or>
        map_of (unsigned_proposal_queue s') k = None \<and>
        (\<exists>b. map_of (unsigned_proposal_queue ?s1) k = Some b \<and> batch_expired cfg now b)"
      and all: "\<And>k b. proof_size_free cfg \<Longrightarrow> proof_size ?w1 \<noteq> 0 \<Longrightarrow> (k, b) \<in> set es \<Longrightarrow>
        batch_expired cfg now b \<Longrightarrow> map_of (unsigned_proposal_queue s') k = None"
      by auto
    have q': "map_of (unsigned_proposal_queue s') k = map_of (unsigned_proposal_queue s) k \<or>
        map_of (unsigned_proposal_queue s') k = None \<and>
        (\<exists>b. map_of (unsigned_proposal_queue s) k = Some b \<and> batch_expired cfg now b)" for k
      using q [of k] b drop(1) by (cases "k = (c, i)") auto
    have all': "map_of (unsigned_proposal_queue s') k = None"
      if "proof_size_free cfg" "proof_size w \<noteq> 0" "(k, b') \<in> set (a # es)" "batch_expired cfg now b'" for k b'
      using that q [of "(c, i)"] all [of k b'] w1 a by auto
    have "remove_expired cfg now (a # es) w s = Some (w', s')"
      unfolding a remove_expired_step [OF ne] using drop run by (simp add: Let_def)
    with inv' fr q' all' show ?thesis
      by blast
  qed
qed

end
