(* ===== verification/Handler_Signing.thy ===== *)
theory Handler_Signing
  imports Handler_Correct
begin

text \<open>
  Signed batches: what accepting one does to the queue, that the invariant of the handler's storage
  holds in every reachable state, and the properties of the handler that follow.
\<close>

text \<open>Storage keys are tuples; a quantifier over keys is kept whole.\<close>

declare split_paired_All [simp del] split_paired_Ex [simp del]

section \<open>Accepting a signed batch\<close>

definition has_refresh :: "stored_unsigned_proposal_batch \<Rightarrow> bool" where
  "has_refresh b \<longleftrightarrow> (\<exists>p \<in> set (ub_proposals b). kind (up_proposal p) = Refresh)"

definition orders_ok :: "handler_config \<Rightarrow> bool" where
  "orders_ok cfg \<longleftrightarrow> storage_order (queue_order cfg) \<and> storage_order (staged_order cfg)"

lemma set_refresh_batch_ids:
  assumes "orders_ok cfg"
  shows "i \<in> set (refresh_batch_ids cfg s) \<longleftrightarrow>
     (\<exists>c b. ((c, i), b) \<in> set (unsigned_proposal_queue s) \<and> has_refresh b)"
proof -
  have "set (queue_order cfg (unsigned_proposal_queue s)) = set (unsigned_proposal_queue s)"
    using assms by (auto simp: orders_ok_def intro!: storage_order_set)
  then show ?thesis
    by (force simp: refresh_batch_ids_def has_refresh_def)
qed

lemma map_of_fold_delete:
  "map_of (fold (\<lambda>i q. AList.delete (c, i) q) ids q) k =
     (if fst k = c \<and> snd k \<in> set ids then None else map_of q k)"
  by (induction ids arbitrary: q) auto

lemma wf_fold_delete: "wf_smap q \<Longrightarrow> wf_smap (fold (\<lambda>i q. AList.delete (c, i) q) ids q)"
  by (induction ids arbitrary: q) auto

lemma queue_wf: "handler_inv cfg s \<Longrightarrow> wf_smap (unsigned_proposal_queue s)"
  by (simp add: handler_inv_def queue_inv_def)

lemma remove_refresh_once:
  fixes c :: typed_chain_id
  assumes inv: "handler_inv cfg s" and ord: "orders_ok cfg"
  defines "s1 \<equiv> s\<lparr>unsigned_proposal_queue := fold (\<lambda>i q. AList.delete (c, i) q) (refresh_batch_ids cfg s)
      (unsigned_proposal_queue s)\<rparr>"
  shows "handler_inv cfg s1"
    and "map_of (unsigned_proposal_queue s1) k =
      (if fst k = c \<and> (\<exists>b. map_of (unsigned_proposal_queue s) k = Some b \<and> has_refresh b)
       then None else map_of (unsigned_proposal_queue s) k)"
proof -
  let ?q = "unsigned_proposal_queue s"
  show "handler_inv cfg s1"
    unfolding s1_def
    by (rule submap_inv [OF inv wf_fold_delete [OF queue_wf [OF inv]]])
      (simp add: map_of_fold_delete split: if_splits)
  obtain d i where k: "k = (d, i)" by (cases k)
  have mem: "i \<in> set (refresh_batch_ids cfg s) \<longleftrightarrow> (\<exists>c b. map_of ?q (c, i) = Some b \<and> has_refresh b)"
    unfolding set_refresh_batch_ids [OF ord] using wf_smap_map_of [OF queue_wf [OF inv]] by metis
  have uniq: "c' = d" if "map_of ?q (c', i) = Some b" "map_of ?q (d, i) = Some b'" for c' b b'
    using inv that unfolding handler_inv_def ids_inv_def by blast
  show "map_of (unsigned_proposal_queue s1) k =
      (if fst k = c \<and> (\<exists>b. map_of ?q k = Some b \<and> has_refresh b) then None else map_of ?q k)"
  proof (cases "map_of ?q (d, i)")
    case None
    then show ?thesis
      by (simp add: s1_def map_of_fold_delete k)
  next
    case (Some b)
    then have "i \<in> set (refresh_batch_ids cfg s) \<longleftrightarrow> has_refresh b"
      unfolding mem using uniq by (metis option.inject)
    with Some show ?thesis
      by (simp add: s1_def map_of_fold_delete k)
  qed
qed

lemma remove_refresh_spec:
  fixes c :: typed_chain_id and ps :: "proposal list"
  assumes inv: "handler_inv cfg s" and ord: "orders_ok cfg"
  defines "s1 \<equiv> remove_refresh_batches cfg c ps s"
  shows "handler_inv cfg s1 \<and> next_batch_id s1 = next_batch_id s \<and>
     unsigned_proposals s1 = unsigned_proposals s \<and> signed_proposals s1 = signed_proposals s \<and>
     (\<forall>k. map_of (unsigned_proposal_queue s1) k =
      (if fst k = c \<and> Refresh \<in> kind ` set ps \<and> (\<exists>b. map_of (unsigned_proposal_queue s) k = Some b \<and> has_refresh b)
       then None else map_of (unsigned_proposal_queue s) k))"
  unfolding s1_def using inv
proof (induction ps arbitrary: s)
  case Nil
  then show ?case by simp
next
  case (Cons p ps)
  show ?case
  proof (cases "kind p = Refresh")
    case False
    with Cons.IH [OF Cons.prems] show ?thesis by simp
  next
    case True
    let ?s1 = "s\<lparr>unsigned_proposal_queue := fold (\<lambda>i q. AList.delete (c, i) q) (refresh_batch_ids cfg s)
      (unsigned_proposal_queue s)\<rparr>"
    note once = remove_refresh_once [OF Cons.prems ord, where c = c]
    have eq: "remove_refresh_batches cfg c (p # ps) s = remove_refresh_batches cfg c ps ?s1"
      using True by simp
    show ?thesis
      unfolding eq using Cons.IH [OF once(1)] once(2) True by auto
  qed
qed

lemma call_signed_handlers_result: "fst (call_signed_handlers osp ps e) \<in> {Ok (), Panic}"
proof (induction ps arbitrary: e)
  case (Cons p ps)
  obtain r e' where "osp p e = (r, e')" by (cases "osp p e")
  with Cons [of e'] show ?case by (cases r) auto
qed simp

text \<open>What accepting a batch of chain \<open>c\<close> does to the queue.\<close>

definition after_signing ::
  "typed_chain_id \<Rightarrow> signed_proposal_batch \<Rightarrow> handler_state \<Rightarrow> typed_chain_id \<times> u32 \<Rightarrow>
   stored_unsigned_proposal_batch option" where
  "after_signing c prop s k =
     (if k = (c, sb_batch_id prop) \<or>
         fst k = c \<and> Refresh \<in> kind ` set (sb_proposals prop) \<and>
         (\<exists>b. map_of (unsigned_proposal_queue s) k = Some b \<and> has_refresh b)
      then None else map_of (unsigned_proposal_queue s) k)"

lemma handle_signed_cases:
  assumes inv: "handler_inv cfg s" and ord: "orders_ok cfg"
    and run: "handle_signed_proposal_batch cfg x osp sp (s, e) = (r, (s', e'))"
  obtains (refused) err where "r = Err err" "s' = s" "e' = e"
      "err \<noteq> HandlerError CannotOverwriteSignedProposal"
  | (panic) "r = Panic"
  | (signed) p ps i where "r = Ok ()" "sb_proposals sp = p # ps" "decode_proposal_identifier x p = Ok i"
      "contains_key (unsigned_proposal_queue s) (pi_typed_chain_id i, sb_batch_id sp)"
      "map_of (signed_proposals s) (pi_typed_chain_id i, sb_batch_id sp) = None"
      "validate_ecdsa_signature x (signed_batch_data x sp) (sb_signature sp)"
      "call_signed_handlers osp (sb_proposals sp) e = (Ok (), e')"
      "signed_proposals s' = AList.update (pi_typed_chain_id i, sb_batch_id sp) sp (signed_proposals s)"
      "unsigned_proposals s' = unsigned_proposals s" "next_batch_id s' = next_batch_id s"
      "map_of (unsigned_proposal_queue s') = after_signing (pi_typed_chain_id i) sp s"
      "handler_inv cfg s'"
proof (cases "sb_proposals sp")
  case Nil
  with run refused show ?thesis by auto
next
  case (Cons p ps)
  show ?thesis
  proof (cases "decode_proposal_identifier x p")
    case (Err v)
    have "handle_validation_error v \<noteq> CannotOverwriteSignedProposal" by (cases v) auto
    with Err Cons run refused show ?thesis by auto
  next
    case Panic
    with Cons run panic show ?thesis by auto
  next
    case (Ok i)
    let ?c = "pi_typed_chain_id i" and ?key = "(pi_typed_chain_id i, sb_batch_id sp)"
    let ?s1 = "s\<lparr>signed_proposals := AList.update ?key sp (signed_proposals s),
        unsigned_proposal_queue := AList.delete ?key (unsigned_proposal_queue s)\<rparr>"
    let ?s3 = "remove_refresh_batches cfg ?c (sb_proposals sp) ?s1"
    show ?thesis
    proof (cases "contains_key (unsigned_proposal_queue s) ?key \<and>
        validate_ecdsa_signature x (signed_batch_data x sp) (sb_signature sp)")
      case False
      with Cons Ok run refused show ?thesis by (auto simp: Let_def split: if_splits)
    next
      case True
      then obtain b where b: "map_of (unsigned_proposal_queue s) ?key = Some b" by auto
      have free: "map_of (signed_proposals s) (c', sb_batch_id sp) = None" for c'
        using inv b unfolding handler_inv_def ids_inv_def by blast
      have inv1: "handler_inv cfg ?s1"
      proof -
        let ?s0 = "s\<lparr>unsigned_proposal_queue := AList.delete ?key (unsigned_proposal_queue s)\<rparr>"
        have i0: "handler_inv cfg ?s0" by (rule delete_batch_inv [OF inv])
        have other: "c' = ?c" if "map_of (unsigned_proposal_queue s) (c', sb_batch_id sp) = Some b'" for c' b'
          using inv b that unfolding handler_inv_def ids_inv_def by blast
        have "queue_inv cfg ?s1" "staged_inv cfg ?s1"
          using i0 by (simp_all add: handler_inv_def queue_inv_def staged_inv_def)
        moreover have "signed_inv ?s1"
        proof -
          have "sb_batch_id sp < next_batch_id s"
            using inv b unfolding handler_inv_def queue_inv_def by blast
          then show ?thesis
            using inv Cons unfolding handler_inv_def signed_inv_def by simp
        qed
        moreover have "ids_inv ?s1"
          unfolding ids_inv_def
        proof (intro conjI allI impI)
          fix d d' j b1 b2
          assume "map_of (unsigned_proposal_queue ?s1) (d, j) = Some b1"
            and "map_of (unsigned_proposal_queue ?s1) (d', j) = Some b2"
          then show "d = d'"
            using inv unfolding handler_inv_def ids_inv_def by (auto split: if_splits)
        next
          fix d d' j b1
          assume "map_of (unsigned_proposal_queue ?s1) (d, j) = Some b1"
          then have q: "map_of (unsigned_proposal_queue s) (d, j) = Some b1" "(d, j) \<noteq> ?key"
            by (auto split: if_splits)
          then have "j \<noteq> sb_batch_id sp"
            using other by auto
          moreover have "map_of (signed_proposals s) (d', j) = None"
            using inv q(1) unfolding handler_inv_def ids_inv_def by blast
          ultimately show "map_of (signed_proposals ?s1) (d', j) = None"
            by simp
        qed
        ultimately show ?thesis by (simp add: handler_inv_def)
      qed
      note rr = remove_refresh_spec [OF inv1 ord, of ?c "sb_proposals sp"]
      have rrq: "map_of (unsigned_proposal_queue ?s3) k =
          (if fst k = ?c \<and> Refresh \<in> kind ` set (sb_proposals sp) \<and>
             (\<exists>b. map_of (unsigned_proposal_queue ?s1) k = Some b \<and> has_refresh b)
           then None else map_of (unsigned_proposal_queue ?s1) k)" for k
        using rr by blast
      have rrf: "handler_inv cfg ?s3" "next_batch_id ?s3 = next_batch_id s"
        "unsigned_proposals ?s3 = unsigned_proposals s"
        "signed_proposals ?s3 = AList.update ?key sp (signed_proposals s)"
        using rr by simp_all
      obtain r' e2 where ch: "call_signed_handlers osp (sb_proposals sp) e = (r', e2)"
        by (cases "call_signed_handlers osp (sb_proposals sp) e")
      have r': "r' = Ok () \<or> r' = Panic"
        using call_signed_handlers_result [of osp "sb_proposals sp" e] ch by auto
      have res: "r = r'" "e' = e2" "s' = h_deposit (ProposalBatchSigned ?c (sb_batch_id sp)
          (map (\<lambda>p. (kind p, data p)) (sb_proposals sp)) (sb_signature sp)) ?s3"
        using run Ok True free [of ?c] ch unfolding Cons
        by (simp_all add: Let_def Cons del: remove_refresh_batches.simps call_signed_handlers.simps)
      show ?thesis
      proof (cases "r' = Ok ()")
        case False
        with r' res show ?thesis using panic by simp
      next
        case rok: True
        have "map_of (unsigned_proposal_queue s') k = after_signing ?c sp s k" for k
          unfolding res after_signing_def h_deposit_simps rrq by (cases "k = ?key") auto
        then have q: "map_of (unsigned_proposal_queue s') = after_signing ?c sp s" by blast
        have f: "handler_inv cfg s'" "next_batch_id s' = next_batch_id s"
          "unsigned_proposals s' = unsigned_proposals s"
          "signed_proposals s' = AList.update ?key sp (signed_proposals s)"
          unfolding res using rrf by simp_all
        show ?thesis
          using signed [OF _ Cons Ok _ free _ _ f(4,3,2) q f(1)] rok res True ch by simp
      qed
    qed
  qed
qed

section \<open>Submitting signed batches\<close>

text \<open>
  A batch that holds a refresh proposal is superseded: a batch of its chain that holds one too has
  been signed.
\<close>

definition refreshed ::
  "handler_state \<Rightarrow> handler_state \<Rightarrow> typed_chain_id \<times> u32 \<Rightarrow> stored_unsigned_proposal_batch \<Rightarrow> bool" where
  "refreshed s s' k b \<longleftrightarrow> has_refresh b \<and>
     (\<exists>j b'. map_of (signed_proposals s) (fst k, j) = None \<and> map_of (signed_proposals s') (fst k, j) = Some b' \<and>
        Refresh \<in> kind ` set (sb_proposals b'))"

text \<open>
  \<open>grows P\<close> relates the state before and after: signed batches stay as they are, every new one carries
  a signature of the x coordinate of a key with \<open>P\<close>, and a queued batch is still queued unless its
  identifier has been signed or it is superseded by a signed refresh.
\<close>

definition grows :: "ext \<Rightarrow> (bytes \<Rightarrow> bool) \<Rightarrow> handler_state \<Rightarrow> handler_state \<Rightarrow> bool" where
  "grows x P s s' \<longleftrightarrow>
     unsigned_proposals s' = unsigned_proposals s \<and> next_batch_id s' = next_batch_id s \<and>
     (\<forall>k b. map_of (signed_proposals s) k = Some b \<longrightarrow> map_of (signed_proposals s') k = Some b) \<and>
     (\<forall>k b. map_of (signed_proposals s') k = Some b \<longrightarrow> map_of (signed_proposals s) k = Some b \<or>
        (\<exists>key. P key \<and> length key = 33 \<and> signed_by x key (signed_batch_data x b) (sb_signature b))) \<and>
     (\<forall>k b. map_of (unsigned_proposal_queue s') k = Some b \<longrightarrow> map_of (unsigned_proposal_queue s) k = Some b) \<and>
     (\<forall>k b. map_of (unsigned_proposal_queue s) k = Some b \<longrightarrow> map_of (unsigned_proposal_queue s') k = Some b \<or>
        map_of (signed_proposals s') k \<noteq> None \<or> refreshed s s' k b)"

lemma growsD:
  assumes "grows x P s s'"
  shows "unsigned_proposals s' = unsigned_proposals s" and "next_batch_id s' = next_batch_id s"
    and "map_of (signed_proposals s) k = Some b \<Longrightarrow> map_of (signed_proposals s') k = Some b"
    and "map_of (signed_proposals s') k = Some b \<Longrightarrow> map_of (signed_proposals s) k = Some b \<or>
        (\<exists>key. P key \<and> length key = 33 \<and> signed_by x key (signed_batch_data x b) (sb_signature b))"
    and "map_of (unsigned_proposal_queue s') k = Some u \<Longrightarrow> map_of (unsigned_proposal_queue s) k = Some u"
    and "map_of (unsigned_proposal_queue s) k = Some u \<Longrightarrow> map_of (unsigned_proposal_queue s') k = Some u \<or>
        map_of (signed_proposals s') k \<noteq> None \<or> refreshed s s' k u"
  using assms unfolding grows_def by simp_all

lemma grows_refl: "grows x P s s"
  by (simp add: grows_def)

lemma grows_trans:
  assumes "grows x P s1 s2" and "grows x P s2 s3"
  shows "grows x P s1 s3"
proof -
  note g1 = growsD [OF assms(1)] and g2 = growsD [OF assms(2)]
  have r1: "refreshed s1 s3 k u" if "refreshed s1 s2 k u" for k u
    using that g2(3) unfolding refreshed_def by blast
  have r2: "refreshed s1 s3 k u" if "refreshed s2 s3 k u" for k u
    using that g1(3) unfolding refreshed_def by (metis option.exhaust option.distinct(1))
  have "map_of (unsigned_proposal_queue s3) k = Some u \<or> map_of (signed_proposals s3) k \<noteq> None \<or> refreshed s1 s3 k u"
    if "map_of (unsigned_proposal_queue s1) k = Some u" for k u
    using g1(6) [OF that] g2(3) g2(6) [of k u] r1 [of k u] r2 [of k u] by fastforce
  moreover have "map_of (signed_proposals s1) k = Some b \<or>
        (\<exists>key. P key \<and> length key = 33 \<and> signed_by x key (signed_batch_data x b) (sb_signature b))"
    if "map_of (signed_proposals s3) k = Some b" for k b
    using g1(4) [of k b] g2(4) [OF that] by blast
  ultimately show ?thesis
    unfolding grows_def using g1(1,2) g2(1,2) g1(3,5) g2(3,5) by simp
qed

lemma grows_deposit [simp]:
  "grows x P (h_deposit ev s) s' = grows x P s s'" "grows x P s (h_deposit ev s') = grows x P s s'"
  by (simp_all add: grows_def refreshed_def)

lemma handle_signed_grows:
  assumes inv: "handler_inv cfg s" and ord: "orders_ok cfg"
    and run: "handle_signed_proposal_batch cfg x osp sp (s, e) = (Ok (), (s', e'))"
    and key: "P key" "length key = 33" "signed_by x key (signed_batch_data x sp) (sb_signature sp)"
  shows "handler_inv cfg s' \<and> grows x P s s' \<and> call_signed_handlers osp (sb_proposals sp) e = (Ok (), e')"
  using inv ord run
proof (cases rule: handle_signed_cases)
  case (signed p ps i)
  have new: "map_of (signed_proposals s') (pi_typed_chain_id i, sb_batch_id sp) = Some sp"
    using signed(8) by simp
  have "map_of (unsigned_proposal_queue s') k = Some b \<or> map_of (signed_proposals s') k \<noteq> None \<or> refreshed s s' k b"
    if "map_of (unsigned_proposal_queue s) k = Some b" for k b
  proof (cases "k = (pi_typed_chain_id i, sb_batch_id sp)")
    case False
    then have "map_of (unsigned_proposal_queue s') k = Some b \<or>
        fst k = pi_typed_chain_id i \<and> Refresh \<in> kind ` set (sb_proposals sp) \<and> has_refresh b"
      using signed(11) that by (auto simp: after_signing_def)
    then show ?thesis
      using new signed(5) unfolding refreshed_def by metis
  qed (use new in simp)
  then have "grows x P s s'"
    using signed(5,8-11) key unfolding grows_def
    by (auto simp: after_signing_def split: if_splits)
  with signed show ?thesis by blast
qed simp_all

lemma call_signed_handlers_preserves:
  assumes "\<And>p e r e'. osp p e = (r, e') \<Longrightarrow> Q e \<Longrightarrow> Q e'"
    and "call_signed_handlers osp ps e = (r, e')" and "Q e"
  shows "Q e'"
  using assms(2,3)
proof (induction ps arbitrary: e)
  case Nil
  then show ?case by simp
next
  case (Cons p ps)
  obtain r1 e1 where o: "osp p e = (r1, e1)" by (cases "osp p e")
  with Cons.prems assms(1) have "Q e1" by blast
  with Cons o show ?case by (cases r1) auto
qed

lemma submit_batches_spec:
  assumes "handler_inv cfg s" and "P (dkg_key e)"
    and "submit_batches cfg x dkg_key osp bs (s, e) = (Ok (), (s', e'))"
    and ord: "orders_ok cfg"
    and osp: "\<And>p e r e'. osp p e = (r, e') \<Longrightarrow> P (dkg_key e) \<Longrightarrow> P (dkg_key e')"
  shows "handler_inv cfg s' \<and> grows x P s s'"
  using assms(1-3)
proof (induction bs arbitrary: s e)
  case Nil
  then show ?case by (simp add: grows_refl)
next
  case (Cons b bs)
  let ?d = "signed_batch_data x b"
  show ?case
  proof (cases "ensure_signed_by_dkg x (dkg_key e) (sb_signature b) ?d")
    case (Inl err)
    let ?s1 = "h_deposit (InvalidProposalBatchSignature b ?d (sb_signature b)
        (expected_public_key err) (actual_public_key err)) s"
    have "submit_batches cfg x dkg_key osp bs (?s1, e) = (Ok (), (s', e'))"
      using Cons.prems(3) Inl by (simp add: Let_def)
    from Cons.IH [OF _ Cons.prems(2) this] Cons.prems(1) show ?thesis
      by simp
  next
    case (Inr u)
    then have sig: "length (dkg_key e) = 33" "signed_by x (dkg_key e) ?d (sb_signature b)"
      by (simp_all add: ensure_signed_by_dkg_Ok)
    from Cons.prems(3) Inr obtain s1 e1 where
      run: "handle_signed_proposal_batch cfg x osp b (s, e) = (Ok (), (s1, e1))"
      and rest: "submit_batches cfg x dkg_key osp bs (s1, e1) = (Ok (), (s', e'))"
      by (auto simp: Let_def and_then_Ok simp del: handle_signed_proposal_batch.simps)
    note h = handle_signed_grows [OF Cons.prems(1) ord run, of P, OF Cons.prems(2) sig]
    have "P (dkg_key e1)"
      by (rule call_signed_handlers_preserves [of osp "\<lambda>e. P (dkg_key e)" "sb_proposals b" e "Ok ()"])
        (use osp h Cons.prems(2) in blast)+
    with Cons.IH [OF _ _ rest] h show ?thesis
      using grows_trans by blast
  qed
qed

section \<open>The handler as a transition system\<close>

datatype handler_label =
    ByPallet | ByForceSubmit | BySigned | ByOffence |
    ByForceRemove origin typed_chain_id u32 | ByIdle block_number | ByOthers

inductive h_step ::
  "handler_config \<Rightarrow> ext \<Rightarrow> ('e \<Rightarrow> bytes) \<Rightarrow> 'e signed_handler \<Rightarrow> 'e staking \<Rightarrow> handler_label \<Rightarrow>
   handler_state \<times> 'e \<Rightarrow> handler_state \<times> 'e \<Rightarrow> bool" for cfg x dkg_key osp stk where
  pallet: "handle_unsigned_proposal cfg x now p s = (r, s') \<Longrightarrow> h_step cfg x dkg_key osp stk ByPallet (s, e) (s', e)"
| force_submit: "extrinsic (force_submit_unsigned_proposal cfg x now org p) s = (r, s') \<Longrightarrow>
    h_step cfg x dkg_key osp stk ByForceSubmit (s, e) (s', e)"
| submit: "extrinsic (submit_signed_proposals cfg x dkg_key osp org bs) st = (r, st') \<Longrightarrow>
    h_step cfg x dkg_key osp stk BySigned st st'"
| offence: "extrinsic (submit_dkg_signing_offence cfg x dkg_key stk org b) st = (r, st') \<Longrightarrow>
    h_step cfg x dkg_key osp stk ByOffence st st'"
| force_remove: "extrinsic (force_remove_unsigned_proposal_batch cfg org c i) s = (r, s') \<Longrightarrow>
    h_step cfg x dkg_key osp stk (ByForceRemove org c i) (s, e) (s', e)"
| idle: "on_idle cfg now w s = Some (w', s') \<Longrightarrow> h_step cfg x dkg_key osp stk (ByIdle now) (s, e) (s', e)"
| others: "h_step cfg x dkg_key osp stk ByOthers (s, e) (s, e')"

definition h_next where
  "h_next cfg x dkg_key osp stk st st' \<longleftrightarrow> (\<exists>l. h_step cfg x dkg_key osp stk l st st')"

abbreviation h_steps where
  "h_steps cfg x dkg_key osp stk \<equiv> (h_next cfg x dkg_key osp stk)\<^sup>*\<^sup>*"

text \<open>What a step keeps: the signed batches, and each queued batch up to its fate.\<close>

definition keeps :: "handler_config \<Rightarrow> handler_label \<Rightarrow> handler_state \<Rightarrow> handler_state \<Rightarrow> bool" where
  "keeps cfg l s s' \<longleftrightarrow>
     (\<forall>k b. map_of (signed_proposals s) k = Some b \<longrightarrow> map_of (signed_proposals s') k = Some b) \<and>
     (\<forall>k b. map_of (unsigned_proposal_queue s) k = Some b \<longrightarrow>
        map_of (unsigned_proposal_queue s') k = Some b \<or>
        l = BySigned \<and> (map_of (signed_proposals s') k \<noteq> None \<or> refreshed s s' k b) \<or>
        (\<exists>now. l = ByIdle now \<and> batch_expired cfg now b) \<or>
        (\<exists>org. l = ByForceRemove org (fst k) (snd k) \<and> force_origin cfg org))"

lemma keeps_refl [simp]: "keeps cfg l s s"
  by (simp add: keeps_def)

lemma refreshed_deposit [simp]:
  "refreshed (h_deposit ev s) s' k b = refreshed s s' k b" "refreshed s (h_deposit ev s') k b = refreshed s s' k b"
  by (simp_all add: refreshed_def)

lemma submit_dkg_signing_offence_frame:
  assumes "submit_dkg_signing_offence cfg x dkg_key stk org b (s, e) = (Ok u, (s', e'))"
  shows "s' = s\<lparr>h_events := h_events s'\<rparr>"
proof (cases org)
  case (Signed who)
  with assms show ?thesis
    by (auto simp: h_deposit_def split: list.splits result.splits bool.splits option.splits if_splits)
qed (use assms in simp_all)

lemma store_unsigned_keeps:
  assumes inv: "handler_inv cfg s" and max: "0 < max_proposals_per_batch cfg"
    and st: "store_unsigned_proposal cfg now p i s = (r, s')"
  shows "keeps cfg l s s'"
  using inv max
proof (cases rule: store_unsigned_cases [where i = i and now = now and pr = p])
  case append
  with st show ?thesis by (auto simp: keeps_def stage_def)
next
  case full
  let ?q = "queue_batch now (pi_typed_chain_id i) (staged s (pi_typed_chain_id i)) s"
  from st full(3) have "s' = stage (pi_typed_chain_id i) [unsigned_of p i] ?q" by simp
  then have "signed_proposals s' = signed_proposals s" "unsigned_proposal_queue s' = unsigned_proposal_queue ?q"
    by (simp_all add: stage_def)
  then show ?thesis
    using queue_batch_keeps [OF inv] unfolding keeps_def by metis
next
  case overflow
  with st show ?thesis by simp
qed

lemma handle_unsigned_keeps:
  assumes "handler_inv cfg s" and "0 < max_proposals_per_batch cfg"
    and "handle_unsigned_proposal cfg x now p s = (r, s')"
  shows "keeps cfg l s s'"
proof (cases "decode_proposal_identifier x p")
  case (Ok v)
  let ?s1 = "h_deposit (ProposalAdded (pi_key v) (pi_typed_chain_id v) (data p)) s"
  have "keeps cfg l ?s1 s'"
    using assms Ok by (intro store_unsigned_keeps [of cfg ?s1 now p v r])
      (simp_all add: handle_unsigned_proposal_def)
  then show ?thesis by (simp add: keeps_def)
qed (use assms in \<open>auto simp: handle_unsigned_proposal_def\<close>)

lemma force_submit_as_unsigned:
  "force_submit_unsigned_proposal cfg x now org p s = (Ok u, s') \<Longrightarrow>
     handle_unsigned_proposal cfg x now p s = (Ok u, s') \<and> is_unsigned p \<and> force_origin cfg org"
  by (auto simp: force_submit_unsigned_proposal_def handle_unsigned_proposal_def
      split: if_splits)

lemma on_idle_spec:
  assumes inv: "handler_inv cfg s" and ord: "orders_ok cfg"
  shows "\<exists>w' s'. on_idle cfg now w s = Some (w', s') \<and> handler_inv cfg s' \<and> keeps cfg (ByIdle now) s s'"
proof (cases "now mod 2 = 0")
  case False
  with inv show ?thesis by (simp add: on_idle_def)
next
  case True
  let ?es = "staged_order cfg (unsigned_proposals s)"
  obtain w1 s1 where c: "on_idle_create_proposal_batches cfg now w s = (w1, s1)"
    by (cases "on_idle_create_proposal_batches cfg now w s")
  have es: "entries_ok ?es (unsigned_proposals s)"
    using inv ord by (auto simp: orders_ok_def handler_inv_def staged_inv_def intro: entries_ok_order)
  from c have run: "create_batches cfg now ?es (weight_saturating_sub w (db_reads cfg (length ?es))) s = (w1, s1)"
    by (simp add: on_idle_create_proposal_batches_def Let_def)
  note cb = create_batches_conserves [OF inv es run]
  let ?qs = "queue_order cfg (unsigned_proposal_queue s1)"
  have qs: "entries_ok ?qs (unsigned_proposal_queue s1)"
    using cb ord by (auto simp: orders_ok_def handler_inv_def queue_inv_def intro: entries_ok_order)
  show ?thesis
  proof (cases "weight_is_zero w1")
    case zero: True
    have "on_idle cfg now w s = Some (w1, s1)"
      using True c zero by (simp add: on_idle_def on_idle_remove_expired_batches_def)
    with cb show ?thesis by (simp add: keeps_def)
  next
    case False
    from remove_expired_spec [OF _ qs, of cfg now "weight_saturating_sub w1 (db_reads cfg (length ?qs))"] cb
    obtain w' s' where
      r: "remove_expired cfg now ?qs (weight_saturating_sub w1 (db_reads cfg (length ?qs))) s1 = Some (w', s')"
      and inv': "handler_inv cfg s'" and sg: "signed_proposals s' = signed_proposals s1"
      and q: "\<And>k. map_of (unsigned_proposal_queue s') k = map_of (unsigned_proposal_queue s1) k \<or>
        map_of (unsigned_proposal_queue s') k = None \<and>
        (\<exists>b. map_of (unsigned_proposal_queue s1) k = Some b \<and> batch_expired cfg now b)"
      by blast
    have "on_idle cfg now w s = Some (w', s')"
      using True c False r by (simp add: on_idle_def on_idle_remove_expired_batches_def Let_def)
    moreover have "map_of (unsigned_proposal_queue s') k = Some b \<or> batch_expired cfg now b"
      if "map_of (unsigned_proposal_queue s) k = Some b" for k b
      using q [of k] cb that by auto
    ultimately show ?thesis
      using inv' sg cb by (auto simp: keeps_def)
  qed
qed

lemma h_step_spec:
  assumes step: "h_step cfg x dkg_key osp stk l (s, e) (s', e')"
    and inv: "handler_inv cfg s" and ord: "orders_ok cfg" and max: "0 < max_proposals_per_batch cfg"
  shows "handler_inv cfg s' \<and> keeps cfg l s s'"
  using step
proof cases
  case (pallet now p r)
  then show ?thesis
    using handle_unsigned_spec [OF inv max] handle_unsigned_keeps [OF inv max] by blast
next
  case (force_submit now org p r)
  from force_submit(3) show ?thesis
  proof (cases rule: extrinsic_cases)
    case (ok a)
    then show ?thesis
      using force_submit_as_unsigned handle_unsigned_spec [OF inv max] handle_unsigned_keeps [OF inv max]
      by blast
  next
    case unchanged
    with inv show ?thesis by simp
  qed
next
  case (submit org bs r)
  from submit(2) show ?thesis
  proof (cases rule: extrinsic_cases)
    case (ok a)
    then have "submit_batches cfg x dkg_key osp bs (s, e) = (Ok (), (s', e'))"
      by (simp add: submit_signed_proposals_def split: if_splits)
    from submit_batches_spec [OF inv, of "\<lambda>_. True", OF _ this ord]
    have g: "handler_inv cfg s' \<and> grows x (\<lambda>_. True) s s'" by simp
    then have "keeps cfg l s s'"
      using submit(1) growsD(3,6) [of x "\<lambda>_. True" s s'] by (auto simp: keeps_def)
    with g show ?thesis by blast
  next
    case unchanged
    with inv show ?thesis by simp
  qed
next
  case (offence org b r)
  from offence(2) show ?thesis
  proof (cases rule: extrinsic_cases)
    case (ok a)
    from ok(2) have "s' = s\<lparr>h_events := h_events s'\<rparr>"
      by (rule submit_dkg_signing_offence_frame)
    then obtain ev where s': "s' = s\<lparr>h_events := ev\<rparr>" by blast
    from inv show ?thesis
      unfolding s' by (simp add: handler_inv_defs keeps_def)
  next
    case unchanged
    with inv show ?thesis by simp
  qed
next
  case (force_remove org c i r)
  from force_remove(3) show ?thesis
  proof (cases rule: extrinsic_cases)
    case (ok a)
    then have s': "s' = h_deposit (ProposalBatchRemoved c i)
        (s\<lparr>unsigned_proposal_queue := AList.delete (c, i) (unsigned_proposal_queue s)\<rparr>)" and org: "force_origin cfg org"
      by (auto simp: force_remove_unsigned_proposal_batch_def split: if_splits)
    show ?thesis
      unfolding s' using delete_batch_inv [OF inv, of "(c, i)"] force_remove(1) org by (auto simp: keeps_def)
  next
    case unchanged
    with inv show ?thesis by simp
  qed
next
  case (idle now w w')
  then show ?thesis
    using on_idle_spec [OF inv ord, of now w] by auto
next
  case others
  with inv show ?thesis by simp
qed

lemma h_steps_inv:
  assumes "h_steps cfg x dkg_key osp stk st st'" and "handler_inv cfg (fst st)"
    and "orders_ok cfg" and "0 < max_proposals_per_batch cfg"
  shows "handler_inv cfg (fst st')"
  using assms(1,2)
proof (induction rule: rtranclp_induct)
  case base
  then show ?case .
next
  case (step st1 st2)
  then show ?case
    using h_step_spec [OF _ _ assms(3,4)] unfolding h_next_def by (metis prod.collapse)
qed

end
