(* ===== verification/Handler_Properties.thy ===== *)
theory Handler_Properties
  imports Handler_Signing
begin

text \<open>
  The properties of the proposal handler: no reachable state makes the idle hook panic, the fate of
  every queued batch, complete batching and exact expiry, the signature every signed batch carries,
  the turn of the submitting authority, and two behaviours that contradict the intent of the code:
  a signed batch can be replayed under the identifier of a pending one, and an honest batch with
  more than one proposal is reported as malformed.
\<close>

section \<open>Sample configuration\<close>

definition sample_hcfg :: handler_config where
  "sample_hcfg = \<lparr>max_proposals_per_batch = 2, unsigned_proposal_expiry = 10,
     force_origin = (\<lambda>org. org = Root), db_reads = (\<lambda>n. \<lparr>ref_time = of_nat n, proof_size = 0\<rparr>),
     db_writes = (\<lambda>n. \<lparr>ref_time = of_nat n, proof_size = 0\<rparr>),
     db_reads_writes = (\<lambda>n m. \<lparr>ref_time = of_nat (n + m), proof_size = 0\<rparr>),
     queue_order = (\<lambda>m. m), staged_order = (\<lambda>m. m)\<rparr>"

lemma sample_hcfg_simps [simp]:
  "max_proposals_per_batch sample_hcfg = 2" "unsigned_proposal_expiry sample_hcfg = 10"
  by (simp_all add: sample_hcfg_def)

lemma sample_orders_ok: "orders_ok sample_hcfg"
  by (simp add: orders_ok_def sample_hcfg_def storage_order_id)

lemma sample_proof_size_free: "proof_size_free sample_hcfg"
  by (simp add: proof_size_free_def sample_hcfg_def)

definition sample_up :: unsigned_proposal where
  "sample_up = \<lparr>up_typed_chain_id = Evm 5, up_key = TokenAddProposal 7, up_proposal = sample_proposal\<rparr>"

text \<open>The handler after it has taken the sample proposal, and after the proposal has become batch 0.\<close>

definition sample_h1 :: handler_state where
  "sample_h1 = empty_handler_state\<lparr>unsigned_proposals := [(Evm 5, [sample_up])],
     h_events := [ProposalAdded (TokenAddProposal 7) (Evm 5) (data sample_proposal)]\<rparr>"

lemma sample_handle_unsigned:
  "handle_unsigned_proposal sample_hcfg sample_ext now sample_proposal empty_handler_state = (Ok (), sample_h1)"
  by (simp add: handle_unsigned_proposal_def sample_decode store_unsigned_proposal_def Let_def try_push_def
      empty_handler_state_def h_deposit_def sample_h1_def sample_up_def)

definition sample_batch :: stored_unsigned_proposal_batch where
  "sample_batch = \<lparr>ub_batch_id = 0, ub_proposals = [sample_up], ub_timestamp = 2\<rparr>"

definition sample_h2 :: handler_state where
  "sample_h2 = sample_h1\<lparr>unsigned_proposals := [], next_batch_id := 1,
     unsigned_proposal_queue := [((Evm 5, 0), sample_batch)]\<rparr>"

lemma sample_h1_reached: "h_steps sample_hcfg sample_ext dkg_key osp stk (empty_handler_state, e) (sample_h1, e)"
  by (rule r_into_rtranclp)
    (auto simp: h_next_def intro!: h_step.pallet exI [of _ ByPallet] sample_handle_unsigned)

lemma sample_inv1: "handler_inv sample_hcfg sample_h1"
  using handle_unsigned_spec [OF handler_inv_empty _ sample_handle_unsigned] by simp

section \<open>Reachable states\<close>

text \<open>
  C7. From the empty storage, after any sequence of calls and hooks, the idle hook returns: no queued
  batch is empty, so the \<open>expect\<close> in the expiry filter never panics. Batch identifiers are unique
  across all chains, a signed identifier is never queued again, and every batch is of one chain.
\<close>

theorem reachable_on_idle_returns:
  assumes "orders_ok cfg" and "0 < max_proposals_per_batch cfg"
    and "h_steps cfg x dkg_key osp stk (empty_handler_state, e0) (s, e)"
  shows "(\<exists>w' s'. on_idle cfg now w s = Some (w', s')) \<and>
    (\<forall>c i b. map_of (unsigned_proposal_queue s) (c, i) = Some b \<longrightarrow>
       ub_proposals b \<noteq> [] \<and> (\<forall>p \<in> set (ub_proposals b). up_typed_chain_id p = c) \<and>
       i < next_batch_id s \<and> map_of (signed_proposals s) (c, i) = None \<and>
       (\<forall>c'. c' \<noteq> c \<longrightarrow> map_of (unsigned_proposal_queue s) (c', i) = None))"
proof -
  have inv: "handler_inv cfg s"
    using h_steps_inv [OF assms(3) _ assms(1,2)] handler_inv_empty by simp
  have "\<exists>w' s'. on_idle cfg now w s = Some (w', s')"
    using on_idle_spec [OF inv assms(1)] by blast
  moreover have "ub_proposals b \<noteq> [] \<and> (\<forall>p \<in> set (ub_proposals b). up_typed_chain_id p = c) \<and>
       i < next_batch_id s \<and> map_of (signed_proposals s) (c, i) = None \<and>
       (\<forall>c'. c' \<noteq> c \<longrightarrow> map_of (unsigned_proposal_queue s) (c', i) = None)"
    if b: "map_of (unsigned_proposal_queue s) (c, i) = Some b" for c i b
  proof (intro conjI allI impI)
    show "ub_proposals b \<noteq> []" "\<forall>p \<in> set (ub_proposals b). up_typed_chain_id p = c" "i < next_batch_id s"
      using inv b by (auto simp: handler_inv_def queue_inv_def wf_proposals_def list_all_iff)
    show "map_of (signed_proposals s) (c, i) = None"
      using inv b unfolding handler_inv_def ids_inv_def by blast
    fix c' assume "c' \<noteq> c"
    then show "map_of (unsigned_proposal_queue s) (c', i) = None"
      using inv b unfolding handler_inv_def ids_inv_def by (meson not_None_eq)
  qed
  ultimately show ?thesis by blast
qed

theorem reachable_on_idle_returns_witness:
  "\<exists>w' s'. on_idle sample_hcfg 20 \<lparr>ref_time = 9, proof_size = 9\<rparr> sample_h1 = Some (w', s')"
  using reachable_on_idle_returns [OF sample_orders_ok _ sample_h1_reached [where dkg_key = "\<lambda>_::unit. []" and
        osp = "\<lambda>p e. (Ok (), e)" and e = "()"]]
  by simp

text \<open>
  C8. The fate of a queued batch: in any step from a reachable state a queued batch stays in the queue
  unchanged, unless the step submits signed batches and either its own chain and identifier are now
  signed, or it holds a refresh proposal and a batch of its chain with a refresh proposal has just
  been signed; or the step is the idle hook of a block more than the expiry after the batch's time
  stamp and its first proposal is not a refresh; or the step is the removal of exactly this batch by
  an origin that passes the force check. A signed batch is never changed or removed by any step.
\<close>

theorem queued_batch_fate:
  assumes "orders_ok cfg" and "0 < max_proposals_per_batch cfg"
    and "h_steps cfg x dkg_key osp stk (empty_handler_state, e0) (s, e)"
    and "h_step cfg x dkg_key osp stk l (s, e) (s', e')"
  shows "(\<forall>k b. map_of (unsigned_proposal_queue s) k = Some b \<longrightarrow>
        map_of (unsigned_proposal_queue s') k = Some b \<or>
        l = BySigned \<and> map_of (signed_proposals s) k = None \<and> map_of (signed_proposals s') k \<noteq> None \<or>
        l = BySigned \<and> Refresh \<in> (\<lambda>p. kind (up_proposal p)) ` set (ub_proposals b) \<and>
          (\<exists>j b'. map_of (signed_proposals s) (fst k, j) = None \<and>
             map_of (signed_proposals s') (fst k, j) = Some b' \<and> Refresh \<in> kind ` set (sb_proposals b')) \<or>
        (\<exists>now. l = ByIdle now \<and> \<not> is_refresh_key (up_key (hd (ub_proposals b))) \<and>
           unat (ub_timestamp b) + unat (unsigned_proposal_expiry cfg) < unat now) \<or>
        (\<exists>org. l = ByForceRemove org (fst k) (snd k) \<and> force_origin cfg org)) \<and>
     (\<forall>k b. map_of (signed_proposals s) k = Some b \<longrightarrow> map_of (signed_proposals s') k = Some b)"
proof -
  have inv: "handler_inv cfg s"
    using h_steps_inv [OF assms(3) _ assms(1,2)] handler_inv_empty by simp
  have step: "keeps cfg l s s'"
    using h_step_spec [OF assms(4) inv assms(1,2)] ..
  have new: "map_of (signed_proposals s) k = None" if "map_of (unsigned_proposal_queue s) k = Some b" for k b
    using inv that unfolding handler_inv_def ids_inv_def by (cases k, hypsubst) blast
  have hr: "has_refresh b \<longleftrightarrow> Refresh \<in> (\<lambda>p. kind (up_proposal p)) ` set (ub_proposals b)" for b
    unfolding has_refresh_def image_iff by metis
  have ex: "batch_expired cfg now b \<Longrightarrow> \<not> is_refresh_key (up_key (hd (ub_proposals b))) \<and>
      unat (ub_timestamp b) + unat (unsigned_proposal_expiry cfg) < unat now" for now b
    by (simp add: batch_expired_def split: list.splits)
  show ?thesis
  proof (intro conjI allI impI)
    fix k b
    assume b: "map_of (unsigned_proposal_queue s) k = Some b"
    have "map_of (unsigned_proposal_queue s') k = Some b \<or>
        l = BySigned \<and> (map_of (signed_proposals s') k \<noteq> None \<or> refreshed s s' k b) \<or>
        (\<exists>now. l = ByIdle now \<and> batch_expired cfg now b) \<or>
        (\<exists>org. l = ByForceRemove org (fst k) (snd k) \<and> force_origin cfg org)"
      using step b unfolding keeps_def by blast
    with new [OF b] ex [of _ b] show "map_of (unsigned_proposal_queue s') k = Some b \<or>
        l = BySigned \<and> map_of (signed_proposals s) k = None \<and> map_of (signed_proposals s') k \<noteq> None \<or>
        l = BySigned \<and> Refresh \<in> (\<lambda>p. kind (up_proposal p)) ` set (ub_proposals b) \<and>
          (\<exists>j b'. map_of (signed_proposals s) (fst k, j) = None \<and>
             map_of (signed_proposals s') (fst k, j) = Some b' \<and> Refresh \<in> kind ` set (sb_proposals b')) \<or>
        (\<exists>now. l = ByIdle now \<and> \<not> is_refresh_key (up_key (hd (ub_proposals b))) \<and>
           unat (ub_timestamp b) + unat (unsigned_proposal_expiry cfg) < unat now) \<or>
        (\<exists>org. l = ByForceRemove org (fst k) (snd k) \<and> force_origin cfg org)"
      unfolding refreshed_def hr by blast
  next
    fix k b
    assume "map_of (signed_proposals s) k = Some b"
    with step show "map_of (signed_proposals s') k = Some b" unfolding keeps_def by blast
  qed
qed

lemma sample_idle_batches:
  "on_idle sample_hcfg 2 \<lparr>ref_time = 9, proof_size = 9\<rparr> sample_h1 =
     Some (\<lparr>ref_time = 3, proof_size = 9\<rparr>, sample_h2)"
  by (simp add: on_idle_def on_idle_create_proposal_batches_def on_idle_remove_expired_batches_def
      sample_h1_def sample_h2_def sample_batch_def empty_handler_state_def sample_hcfg_def Let_def
      weight_saturating_sub_def weight_is_zero_def saturating_sub_def generate_next_batch_id_def
      checked_add_def past_expiry_def checked_sub_def sample_up_def)

lemma sample_h2_reached: "h_steps sample_hcfg sample_ext dkg_key osp stk (empty_handler_state, e) (sample_h2, e)"
proof -
  have "h_next sample_hcfg sample_ext dkg_key osp stk (sample_h1, e) (sample_h2, e)"
    unfolding h_next_def by (rule exI, rule h_step.idle, rule sample_idle_batches)
  with sample_h1_reached show ?thesis by (rule rtranclp.rtrancl_into_rtrancl)
qed

lemma sample_inv2: "handler_inv sample_hcfg sample_h2"
  using on_idle_spec [OF sample_inv1 sample_orders_ok, of 2 "\<lparr>ref_time = 9, proof_size = 9\<rparr>"]
  by (simp add: sample_idle_batches)

definition sample_stk :: "unit staking" where
  "sample_stk = \<lparr>session_index_of = (\<lambda>_. 0), validators_of = (\<lambda>_. []), identification_of = (\<lambda>_ _. None),
     submit_offence = (\<lambda>_ e. e)\<rparr>"

definition sample_osp :: "unit signed_handler" where
  "sample_osp p e = (Ok (), e)"

definition sample_key :: "unit \<Rightarrow> bytes" where
  "sample_key e = 2 # replicate 32 1"

theorem queued_batch_fate_witness:
  "\<exists>w s'. on_idle sample_hcfg 2 \<lparr>ref_time = 9, proof_size = 9\<rparr> sample_h2 = Some (w, s') \<and>
     map_of (unsigned_proposal_queue s') (Evm 5, 0) = Some sample_batch"
proof -
  let ?w = "\<lparr>ref_time = 9, proof_size = 9\<rparr>"
  obtain w s' where run: "on_idle sample_hcfg 2 ?w sample_h2 = Some (w, s')"
    using on_idle_spec [OF sample_inv2 sample_orders_ok, of 2 ?w] by blast
  have b: "map_of (unsigned_proposal_queue sample_h2) (Evm 5, 0) = Some sample_batch"
    by (simp add: sample_h2_def)
  have reached: "h_steps sample_hcfg sample_ext sample_key sample_osp sample_stk (empty_handler_state, ()) (sample_h2, ())"
    by (rule sample_h2_reached)
  from queued_batch_fate [OF sample_orders_ok _ reached h_step.idle [OF run]]
  have "map_of (unsigned_proposal_queue s') (Evm 5, 0) = Some sample_batch"
    using b by (auto simp: sample_batch_def)
  with run show ?thesis by blast
qed

section \<open>Batching and expiry\<close>

text \<open>
  C9. Batching loses nothing: the idle hook turns every staged vector into one batch of exactly its
  proposals, time-stamped with the current block, as long as the block has proof size left (the
  database weights charge none) and identifiers are left. Nothing stays staged, the queued batches
  stay, and the proposals the handler holds are the same before and after.
\<close>

theorem batching_is_complete:
  assumes "handler_inv cfg s" and "orders_ok cfg" and "proof_size_free cfg" and "proof_size w \<noteq> 0"
    and "unat (next_batch_id s) + length (unsigned_proposals s) < 2 ^ 32"
    and "on_idle_create_proposal_batches cfg now w s = (w', s')"
  shows "stored s' = stored s \<and> unsigned_proposals s' = [] \<and>
     (\<forall>c ps. map_of (unsigned_proposals s) c = Some ps \<longrightarrow>
        (\<exists>i b. map_of (unsigned_proposal_queue s') (c, i) = Some b \<and> ub_proposals b = ps \<and> ub_timestamp b = now)) \<and>
     (\<forall>k b. map_of (unsigned_proposal_queue s) k = Some b \<longrightarrow> map_of (unsigned_proposal_queue s') k = Some b)"
proof -
  let ?es = "staged_order cfg (unsigned_proposals s)"
  let ?w1 = "weight_saturating_sub w (db_reads cfg (length ?es))"
  have ord: "storage_order (staged_order cfg)" and wf: "wf_smap (unsigned_proposals s)"
    using assms(1,2) by (simp_all add: orders_ok_def handler_inv_def staged_inv_def)
  have es: "entries_ok ?es (unsigned_proposals s)"
    using entries_ok_order [OF wf ord] .
  have set_es: "set ?es = set (unsigned_proposals s)" and len: "length ?es = length (unsigned_proposals s)"
    using storage_order_set [OF ord] ord by (auto simp: storage_order_def dest: mset_eq_length)
  have run: "create_batches cfg now ?es ?w1 s = (w', s')"
    using assms(6) by (simp add: on_idle_create_proposal_batches_def Let_def)
  have w1: "proof_size ?w1 \<noteq> 0"
    using weight_stays [of "db_reads cfg (length ?es)" w] assms(3,4) by (simp add: proof_size_free_def)
  note all = create_batches_all [OF assms(1) es assms(3) w1 _ run, unfolded len, OF assms(5)]
  note cons = create_batches_conserves [OF assms(1) es run]
  have "map_of (unsigned_proposals s') c = None" for c
  proof (cases "c \<in> fst ` set ?es")
    case True
    with all show ?thesis by auto
  next
    case False
    with all show ?thesis by (simp add: set_es map_of_eq_None_iff)
  qed
  then have "unsigned_proposals s' = []"
    by (metis fst_conv list.exhaust map_of_Cons_code(2) option.distinct(1) prod.collapse)
  moreover have "\<exists>i b. map_of (unsigned_proposal_queue s') (c, i) = Some b \<and> ub_proposals b = ps \<and> ub_timestamp b = now"
    if "map_of (unsigned_proposals s) c = Some ps" for c ps
  proof -
    have "(c, ps) \<in> set ?es" using that set_es by (auto dest: map_of_SomeD)
    with all show ?thesis by fastforce
  qed
  ultimately show ?thesis
    using cons by simp
qed

theorem batching_is_complete_witness:
  "unsigned_proposals (snd (on_idle_create_proposal_batches sample_hcfg 2 \<lparr>ref_time = 9, proof_size = 9\<rparr> sample_h1)) = []"
proof -
  obtain w' s' where r: "on_idle_create_proposal_batches sample_hcfg 2 \<lparr>ref_time = 9, proof_size = 9\<rparr> sample_h1 = (w', s')"
    by (cases "on_idle_create_proposal_batches sample_hcfg 2 \<lparr>ref_time = 9, proof_size = 9\<rparr> sample_h1")
  have "unsigned_proposals s' = []"
    using batching_is_complete [OF sample_inv1 sample_orders_ok sample_proof_size_free _ _ r]
    by (simp add: sample_h1_def empty_handler_state_def)
  with r show ?thesis by simp
qed

text \<open>
  Expiry is exact: with proof size left, the idle hook removes precisely the batches that do not
  start with a refresh proposal and whose age, counted in blocks without wrap-around, exceeds the
  configured expiry. Refresh batches never expire.
\<close>

theorem expiry_is_exact:
  assumes "handler_inv cfg s" and "orders_ok cfg" and "proof_size_free cfg" and "proof_size w \<noteq> 0"
  shows "\<exists>w' s'. on_idle_remove_expired_batches cfg now w s = Some (w', s') \<and>
     (\<forall>k b. map_of (unsigned_proposal_queue s) k = Some b \<longrightarrow>
        map_of (unsigned_proposal_queue s') k =
          (if \<not> is_refresh_key (up_key (hd (ub_proposals b))) \<and>
              unat (ub_timestamp b) + unat (unsigned_proposal_expiry cfg) < unat now
           then None else Some b))"
proof -
  let ?es = "queue_order cfg (unsigned_proposal_queue s)"
  let ?w1 = "weight_saturating_sub w (db_reads cfg (length ?es))"
  have ord: "storage_order (queue_order cfg)" and wf: "wf_smap (unsigned_proposal_queue s)"
    using assms(1,2) by (simp_all add: orders_ok_def handler_inv_def queue_inv_def)
  have es: "entries_ok ?es (unsigned_proposal_queue s)"
    using entries_ok_order [OF wf ord] .
  have w1: "proof_size ?w1 \<noteq> 0"
    using weight_stays [of "db_reads cfg (length ?es)" w] assms(3,4) by (simp add: proof_size_free_def)
  from remove_expired_spec [OF assms(1) es, of now ?w1] assms(3) w1 obtain w' s' where
    run: "remove_expired cfg now ?es ?w1 s = Some (w', s')"
    and some: "\<And>k. map_of (unsigned_proposal_queue s') k = map_of (unsigned_proposal_queue s) k \<or>
        map_of (unsigned_proposal_queue s') k = None \<and>
        (\<exists>b. map_of (unsigned_proposal_queue s) k = Some b \<and> batch_expired cfg now b)"
    and all: "\<And>k b. (k, b) \<in> set ?es \<Longrightarrow> batch_expired cfg now b \<Longrightarrow> map_of (unsigned_proposal_queue s') k = None"
    by blast
  have "on_idle_remove_expired_batches cfg now w s = Some (w', s')"
    using run assms(4) by (simp add: on_idle_remove_expired_batches_def weight_is_zero_def Let_def)
  moreover have "map_of (unsigned_proposal_queue s') k = (if batch_expired cfg now b then None else Some b)"
    if b: "map_of (unsigned_proposal_queue s) k = Some b" for k b
  proof -
    have "(k, b) \<in> set ?es"
      using b wf_smap_map_of [OF wf] storage_order_set [OF ord] by blast
    with some [of k] all b show ?thesis by auto
  qed
  moreover have "batch_expired cfg now b \<longleftrightarrow> \<not> is_refresh_key (up_key (hd (ub_proposals b))) \<and>
      unat (ub_timestamp b) + unat (unsigned_proposal_expiry cfg) < unat now"
    if b: "map_of (unsigned_proposal_queue s) k = Some b" for k b
  proof -
    obtain c i where "k = (c, i)" by (cases k)
    with b assms(1) have "ub_proposals b \<noteq> []"
      by (auto simp: handler_inv_def queue_inv_def wf_proposals_def)
    then show ?thesis
      by (cases "ub_proposals b") (auto simp: batch_expired_def)
  qed
  ultimately show ?thesis by auto
qed

theorem expiry_is_exact_witness:
  "\<exists>w' s'. on_idle_remove_expired_batches sample_hcfg 13 \<lparr>ref_time = 9, proof_size = 9\<rparr> sample_h2 = Some (w', s') \<and>
     map_of (unsigned_proposal_queue s') (Evm 5, 0) = None"
proof -
  have b: "map_of (unsigned_proposal_queue sample_h2) (Evm 5, 0) = Some sample_batch"
    by (simp add: sample_h2_def)
  have "\<not> is_refresh_key (up_key (hd (ub_proposals sample_batch)))"
    "unat (ub_timestamp sample_batch) + unat (unsigned_proposal_expiry sample_hcfg) < unat (13 :: block_number)"
    by (simp_all add: sample_batch_def sample_up_def)
  with expiry_is_exact [OF sample_inv2 sample_orders_ok sample_proof_size_free, of "\<lparr>ref_time = 9, proof_size = 9\<rparr>" 13] b
  show ?thesis by auto
qed

section \<open>Signatures\<close>


lemma decode_identifier_cong:
  assumes "kind p = kind q" and "data p = data q"
  shows "decode_proposal_identifier x p = decode_proposal_identifier x q"
proof -
  have m: "maybe_ident x c p k key = maybe_ident x c q k key" for c k key
    unfolding maybe_ident_def assms ..
  have r: "maybe_refresh_vote x c p = maybe_refresh_vote x c q" for c
    unfolding maybe_refresh_vote_def assms ..
  show ?thesis
    unfolding decode_proposal_identifier_def assms m r ..
qed

definition sample_signed :: "u32 \<Rightarrow> signed_proposal_batch" where
  "sample_signed i = \<lparr>sb_batch_id = i, sb_proposals = [SignedProposal TokenAdd (data sample_proposal) (replicate 65 1)],
     sb_signature = replicate 65 1\<rparr>"

lemma sample_signed_decode:
  "decode_proposal_identifier sample_ext (SignedProposal TokenAdd (data sample_proposal) (replicate 65 1)) =
     Ok \<lparr>pi_key = TokenAddProposal 7, pi_typed_chain_id = Evm 5\<rparr>"
  by (subst decode_identifier_cong [of _ sample_proposal]) (simp_all add: sample_decode, simp add: sample_proposal_def)

lemma sample_recover: "recover_ecdsa_pub_key sample_ext d (replicate 65 1) = Some (replicate 64 1)"
  by (simp add: recover_ecdsa_pub_key_def SIGNATURE_LENGTH_def sample_ext_def)

lemma sample_ensure: "ensure_signed_by_dkg sample_ext (sample_key e) (replicate 65 1) d = Inr ()"
  by (simp add: ensure_signed_by_dkg_Ok signed_by_def sample_recover sample_key_def)




text \<open>
  C11. A signed batch can be replayed under the identifier of a pending batch. The identifier is not
  part of the signed data and the data is not compared with the queued batch, so any account can
  submit a batch the DKG has signed before under the identifier of any other queued batch of the same
  chain: the call succeeds, the pending batch leaves the queue without ever being signed, and the old
  proposals are recorded, and handled, as signed again.
\<close>

theorem signed_batch_can_be_replayed:
  assumes "handler_inv cfg s" and "orders_ok cfg" and "0 < max_proposals_per_batch cfg"
    and "map_of (unsigned_proposal_queue s) (c, i) = Some b"
    and "map_of (signed_proposals s) (c, j) = Some sp"
    and "sb_proposals sp = p # ps" and "decode_proposal_identifier x p = Ok ident" and "pi_typed_chain_id ident = c"
    and "ensure_signed_by_dkg x (dkg_key e) (sb_signature sp) (signed_batch_data x sp) = Inr ()"
    and "\<forall>p e. fst (osp p e) \<noteq> Panic"
  shows "\<exists>s' e'. submit_signed_proposals cfg x dkg_key osp org [sp\<lparr>sb_batch_id := i\<rparr>] (s, e) = (Ok (), (s', e')) \<and>
     map_of (unsigned_proposal_queue s') (c, i) = None \<and>
     map_of (signed_proposals s') (c, i) = Some (sp\<lparr>sb_batch_id := i\<rparr>)"
proof -
  let ?sp = "sp\<lparr>sb_batch_id := i\<rparr>"
  have d: "signed_batch_data x ?sp = signed_batch_data x sp"
    by (simp add: signed_batch_data_def)
  have val: "validate_ecdsa_signature x (signed_batch_data x sp) (sb_signature sp)"
    using assms(9) by (auto simp: ensure_signed_by_dkg_Ok intro: signed_by_validates)
  have free: "map_of (signed_proposals s) (c, i) = None"
    using assms(1,4) unfolding handler_inv_def ids_inv_def by blast
  have osp: "fst (call_signed_handlers osp ps e) = Ok ()" for ps e
  proof (induction ps arbitrary: e)
    case (Cons p ps)
    obtain r e' where "osp p e = (r, e')" by (cases "osp p e")
    moreover have "r \<noteq> Panic" using assms(10) calculation by (metis fst_conv)
    ultimately show ?case using Cons by (cases r) auto
  qed simp
  obtain r s' e' where run: "handle_signed_proposal_batch cfg x osp ?sp (s, e) = (r, (s', e'))"
    by (metis prod.collapse)
  have "r = Ok ()"
    using run osp [of "p # ps" e] assms(4,6-8) val free d
    by (auto simp: Let_def split: prod.splits simp del: call_signed_handlers.simps remove_refresh_batches.simps)
  with run have run': "handle_signed_proposal_batch cfg x osp ?sp (s, e) = (Ok (), (s', e'))" by simp
  have "submit_signed_proposals cfg x dkg_key osp org [?sp] (s, e) = (Ok (), (s', e'))"
    using run' assms(3,9) d
    by (simp add: submit_signed_proposals_def Suc_le_eq del: handle_signed_proposal_batch.simps)
  moreover have "map_of (unsigned_proposal_queue s') (c, i) = None \<and> map_of (signed_proposals s') (c, i) = Some ?sp"
    using assms(1,2) run'
  proof (cases rule: handle_signed_cases)
    case (signed p' ps' i')
    with assms(6-8) show ?thesis by (simp add: after_signing_def)
  qed simp_all
  ultimately show ?thesis by blast
qed

text \<open>Batch 0 signed, another batch pending under identifier 1.\<close>

definition sample_pending :: stored_unsigned_proposal_batch where
  "sample_pending = \<lparr>ub_batch_id = 1, ub_proposals =
     [\<lparr>up_typed_chain_id = Evm 5, up_key = TokenAddProposal 8, up_proposal = UnsignedProposal TokenAdd [8]\<rparr>],
     ub_timestamp = 4\<rparr>"

definition sample_h3 :: handler_state where
  "sample_h3 = empty_handler_state\<lparr>unsigned_proposal_queue := [((Evm 5, 1), sample_pending)], next_batch_id := 2,
     signed_proposals := [((Evm 5, 0), sample_signed 0)]\<rparr>"

lemma sample_inv3: "handler_inv sample_hcfg sample_h3"
  by (simp add: handler_inv_defs sample_h3_def empty_handler_state_def sample_pending_def sample_signed_def
      wf_proposals_def wf_smap_def)

theorem signed_batch_can_be_replayed_witness:
  "\<exists>s' e'. submit_signed_proposals sample_hcfg sample_ext sample_key sample_osp NoOrigin
       [(sample_signed 0)\<lparr>sb_batch_id := 1\<rparr>] (sample_h3, ()) = (Ok (), (s', e')) \<and>
     map_of (unsigned_proposal_queue s') (Evm 5, 1) = None"
proof -
  have q: "map_of (unsigned_proposal_queue sample_h3) (Evm 5, 1) = Some sample_pending"
    and sg: "map_of (signed_proposals sample_h3) (Evm 5, 0) = Some (sample_signed 0)"
    by (simp_all add: sample_h3_def)
  have ps: "sb_proposals (sample_signed 0) = SignedProposal TokenAdd (data sample_proposal) (replicate 65 1) # []"
    by (simp add: sample_signed_def)
  show ?thesis
    using signed_batch_can_be_replayed [OF sample_inv3 sample_orders_ok _ q sg ps sample_signed_decode, of sample_key "()" sample_osp NoOrigin]
    by (auto simp: sample_ensure sample_signed_def sample_osp_def)
qed

section \<open>Offences\<close>

text \<open>
  A batch of two proposals with different keys, say different nonces, is reported as a malformed
  signature of the current DKG, even though both target the same chain and even if the batch is
  queued or signed on chain: the loop compares whole identifiers, not the chains its comment names,
  and it runs before the storage is consulted.
\<close>

theorem honest_batch_reported_as_malformed:
  assumes "sb_proposals sd = p # q # ps"
    and "decode_proposal_identifier x p = Ok i" and "decode_proposal_identifier x q = Ok j"
    and "pi_typed_chain_id i = pi_typed_chain_id j" and "pi_key i \<noteq> pi_key j"
    and "ensure_signed_by_dkg x (dkg_key e) (sb_signature sd) (signed_batch_data x sd) = Inr ()"
  shows "submit_dkg_signing_offence cfg x dkg_key stk (Signed who) sd (s, e) =
     (Ok (), (h_deposit (SigningOffenceReported SignedMalformedProposal sd) s,
              report_offence stk SignedMalformedProposal e))"
proof -
  have "j \<noteq> i"
    using assms(5) by auto
  then have "mixed_identifiers x i (sb_proposals sd) = Ok True"
    using assms(1-3) by simp
  then show ?thesis
    using assms(1,2,6) by (simp del: mixed_identifiers.simps)
qed

definition sample_pair :: signed_proposal_batch where
  "sample_pair = \<lparr>sb_batch_id = 0, sb_proposals =
     [UnsignedProposal TokenAdd (sample_rid @ [0, 0, 0, 0] @ [0, 0, 0, 7] @ replicate 20 1),
      UnsignedProposal TokenAdd (sample_rid @ [0, 0, 0, 0] @ [0, 0, 0, 8] @ replicate 20 1)],
     sb_signature = replicate 65 1\<rparr>"

lemma sample_pair_decode:
  "decode_proposal_identifier sample_ext (UnsignedProposal TokenAdd (sample_rid @ [0, 0, 0, 0] @ [0, 0, 0, 8] @ replicate 20 1)) =
     Ok \<lparr>pi_key = TokenAddProposal 8, pi_typed_chain_id = Evm 5\<rparr>"
proof -
  have be: "from_be_bytes [0, 0, 0, 8] = (8 :: u32)" by code_simp
  let ?p = "UnsignedProposal TokenAdd (sample_rid @ [0, 0, 0, 0] @ [0, 0, 0, 8] @ replicate 20 1)"
  have "decode_proposal_header sample_ext (data ?p) = Ok (sample_rid, 8)"
    by (simp add: decode_proposal_header_def sample_ext_simps sample_rid_def
        PROPOSAL_HEADER_LENGTH_def be Let_def)
  then show ?thesis
    by (simp add: decode_identifier_eq identifier_of_kind_def proposal_module_create_def
        sample_ext_simps, simp add: sample_rid_def from_be_sample be)
qed

theorem honest_batch_reported_as_malformed_witness:
  "submit_dkg_signing_offence sample_hcfg sample_ext sample_key sample_stk (Signed [1]) sample_pair (sample_h2, ()) =
     (Ok (), (h_deposit (SigningOffenceReported SignedMalformedProposal sample_pair) sample_h2, ()))"
proof -
  have ps: "sb_proposals sample_pair =
      sample_proposal # UnsignedProposal TokenAdd (sample_rid @ [0, 0, 0, 0] @ [0, 0, 0, 8] @ replicate 20 1) # []"
    by (simp add: sample_pair_def sample_proposal_def)
  have sig: "ensure_signed_by_dkg sample_ext (sample_key ()) (sb_signature sample_pair) (signed_batch_data sample_ext sample_pair) = Inr ()"
    by (simp add: sample_pair_def sample_ensure)
  show ?thesis
    using honest_batch_reported_as_malformed [where dkg_key = sample_key and e = "()",
        OF ps sample_decode(1) sample_pair_decode _ _ sig, of sample_hcfg sample_stk "[1]" sample_h2]
    by simp
qed

section \<open>The offchain worker\<close>

lemma chunks_spec:
  assumes "0 < n"
  shows "concat (chunks n xs) = xs \<and> (\<forall>c \<in> set (chunks n xs). c \<noteq> [] \<and> length c \<le> n)"
  using assms
proof (induction n xs rule: chunks.induct)
  case (1 n xs)
  show ?case
  proof (cases "xs = []")
    case True
    then show ?thesis by (simp add: chunks.simps)
  next
    case False
    with 1 have IH: "concat (chunks n (drop n xs)) = drop n xs"
      "\<forall>c \<in> set (chunks n (drop n xs)). c \<noteq> [] \<and> length c \<le> n"
      by simp_all
    have step: "chunks n xs = take n xs # chunks n (drop n xs)"
      using False 1(2) by (subst chunks.simps) simp
    show ?thesis
      unfolding step using IH False 1(2) by auto
  qed
qed

lemma filter_not_existing_spec:
  "filter_not_existing x s bs = Some r \<Longrightarrow>
     r = filter (\<lambda>b. is_not_existing_proposal_batch x s b = Some True) bs"
  by (induction bs arbitrary: r) (auto split: option.splits)

text \<open>
  The offchain worker submits every locally signed batch that is not on chain yet, each exactly
  once and in order, in calls that are not empty and never exceed the bound \<open>submit_signed_proposals\<close>
  enforces, and it submits nothing unless it is its turn.
\<close>

theorem offchain_worker_submits_the_missing_batches:
  assumes "submit_signed_proposal_onchain cfg x auths local_account (Some bs) block s = Some (Inr calls)"
  shows "calls = [] \<and> (\<exists>a. get_expected_signer auths block = Some a \<and> local_account \<noteq> Some a) \<or>
     concat calls = filter (\<lambda>b. is_not_existing_proposal_batch x s b = Some True) bs \<and>
     (\<forall>c \<in> set calls. c \<noteq> [] \<and> length c \<le> max_proposals_per_batch cfg)"
proof -
  from assms obtain a where a: "local_account = Some a"
    by (auto simp: submit_signed_proposal_onchain_def split: option.splits)
  show ?thesis
  proof (cases "case get_expected_signer auths block of Some ex \<Rightarrow> a \<noteq> ex | None \<Rightarrow> False")
    case True
    with assms a show ?thesis
      by (auto simp: submit_signed_proposal_onchain_def split: option.splits)
  next
    case False
    with assms a consider "bs = []" "calls = []"
      | filtered where "filter_not_existing x s bs = Some filtered" "0 < max_proposals_per_batch cfg"
          "calls = chunks (max_proposals_per_batch cfg) filtered"
      by (auto simp: submit_signed_proposal_onchain_def split: if_splits option.splits)
    then show ?thesis
    proof cases
      case 1
      then show ?thesis by simp
    next
      case (2 filtered)
      then show ?thesis
        using chunks_spec [OF 2(2), of filtered] filter_not_existing_spec [OF 2(1)] by simp
    qed
  qed
qed

theorem offchain_worker_submits_the_missing_batches_witness:
  "submit_signed_proposal_onchain sample_hcfg sample_ext [[1], [2]] (Some [2]) (Some [sample_signed 0, sample_signed 1]) 3 sample_h3 =
     Some (Inr [[sample_signed 1]]) \<and>
   concat [[sample_signed 1]] = filter (\<lambda>b. is_not_existing_proposal_batch sample_ext sample_h3 b = Some True)
     [sample_signed 0, sample_signed 1]"
proof -
  have ex: "is_not_existing_proposal_batch sample_ext sample_h3 (sample_signed 0) = Some False"
    "is_not_existing_proposal_batch sample_ext sample_h3 (sample_signed 1) = Some True"
    by (simp_all add: is_not_existing_proposal_batch_def sample_signed_def sample_signed_decode sample_h3_def)
  have run: "submit_signed_proposal_onchain sample_hcfg sample_ext [[1], [2]] (Some [2]) (Some [sample_signed 0, sample_signed 1]) 3 sample_h3 =
     Some (Inr [[sample_signed 1]])"
    by (simp add: submit_signed_proposal_onchain_def get_expected_signer_def ex chunks.simps)
  show ?thesis
    using offchain_worker_submits_the_missing_batches [OF run] run by simp
qed

text \<open>
  The submitting authority takes turns: over as many consecutive blocks as there are authorities,
  the expected signers are exactly the authorities, each once, in their order rotated by the block
  number (as long as the block number does not wrap and is not zero).
\<close>

theorem submission_is_round_robin:
  assumes "auths \<noteq> []" and "0 < block" and "unat block + length auths \<le> 2 ^ 32"
  shows "map (\<lambda>k. get_expected_signer auths (block + of_nat k)) [0..<length auths] =
     map Some (rotate (unat block) auths)"
proof (rule nth_equalityI)
  fix k
  assume "k < length (map (\<lambda>k. get_expected_signer auths (block + of_nat k)) [0..<length auths])"
  then have k: "k < length auths" by simp
  have n: "unat (of_nat (length auths) :: u32) = length auths"
  proof -
    have "0 < unat block" using assms(2) by (simp add: word_less_nat_alt)
    with assms(3) show ?thesis by (simp add: unat_of_nat_u32)
  qed
  have uk: "unat (of_nat k :: u32) = k"
    using k assms(3) by (simp add: unat_of_nat_u32)
  have sum: "unat (block + of_nat k) = unat block + k"
    using k assms(3) uk by (subst unat_add_no_overflow) simp_all
  have nz: "block + of_nat k \<noteq> 0"
  proof
    assume "block + of_nat k = 0"
    then have "unat block + k = 0" using sum by simp
    with assms(2) show False by (simp add: word_less_nat_alt)
  qed
  have md: "unat ((block + of_nat k) mod of_nat (length auths)) = (unat block + k) mod length auths"
    by (simp add: unat_mod sum n)
  have "get_expected_signer auths (block + of_nat k) = Some (auths ! ((unat block + k) mod length auths))"
    using assms(1) nz md by (simp add: get_expected_signer_def Let_def)
  then show "map (\<lambda>k. get_expected_signer auths (block + of_nat k)) [0..<length auths] ! k =
      map Some (rotate (unat block) auths) ! k"
    using k by (simp add: nth_rotate)
qed simp

theorem submission_is_round_robin_witness:
  "map (\<lambda>k. get_expected_signer [[1], [2], [3]] (7 + of_nat k)) [0..<length [[1], [2], [3 :: u8]]] =
     [Some [2], Some [3], Some [1]]"
proof -
  have r: "rotate (unat (7 :: u32)) [[1], [2], [3 :: u8]] = [[2], [3], [1]]"
    by code_simp
  have "map (\<lambda>k. get_expected_signer [[1], [2], [3]] (7 + of_nat k)) [0..<length [[1], [2], [3 :: u8]]] =
      map Some (rotate (unat (7 :: u32)) [[1], [2], [3]])"
    by (rule submission_is_round_robin) simp_all
  also have "\<dots> = [Some [2], Some [3], Some [1]]"
    unfolding r by simp
  finally show ?thesis .
qed

end
