(* ===== verification/Bridge_Registry.thy ===== *)
theory Bridge_Registry
  imports Dispatch
begin

text \<open>
  The pallet \<open>pallet-bridge-registry\<close>: bridges are built incrementally from signed anchor updates, each
  of which connects two resources to one bridge. The decoding of an anchor update is code of
  \<open>webb_proposals\<close>: the field \<open>decode_anchor_update\<close> gives the source and the target resource.
\<close>

section \<open>State and configuration\<close>

text \<open>\<open>SerdeData\<close> wraps the \<open>Data\<close> of \<open>pallet_identity\<close>: no data, raw bytes, or a hash of the data.\<close>

datatype serde_data =
    DataNone | DataRaw bytes | BlakeTwo256 hash256 | Sha256 hash256 | Keccak256 hash256 | ShaThree256 hash256

record bridge_info =
  additional :: "(serde_data \<times> serde_data) list"
  display :: serde_data

record bridge_metadata =
  info :: bridge_info
  resource_ids :: "resource_id list"

definition bridge_info_default :: bridge_info where
  "bridge_info_default = \<lparr>additional = [], display = DataNone\<rparr>"

record bridge_config =
  b_force_origin :: "origin \<Rightarrow> bool"
  max_additional_fields :: u32
  b_max_resources :: nat
  anchor_update_length :: nat
  decode_anchor_update :: "bytes \<Rightarrow> (resource_id \<times> resource_id) option"

record bridge_state =
  next_bridge_index :: u32
  bridges :: "u32 \<rightharpoonup> bridge_metadata"
  resource_to_bridge_index :: "resource_id \<rightharpoonup> u32"

section \<open>Genesis\<close>

definition genesis_add_bridge :: "bridge_metadata \<Rightarrow> bridge_state \<Rightarrow> bridge_state" where
  "genesis_add_bridge b s =
     (let idx = next_bridge_index s;
          s1 = s\<lparr>bridges := (bridges s)(idx \<mapsto> b), next_bridge_index := idx + 1\<rparr>
      in fold (\<lambda>rid s. s\<lparr>resource_to_bridge_index := (resource_to_bridge_index s)(rid \<mapsto> idx)\<rparr>) (resource_ids b) s1)"

definition bridge_genesis_build :: "bridge_metadata list \<Rightarrow> bridge_state" where
  "bridge_genesis_build bs =
     fold genesis_add_bridge bs
       \<lparr>next_bridge_index = 1, bridges = Map.empty, resource_to_bridge_index = Map.empty\<rparr>"

section \<open>Extrinsics\<close>

definition set_metadata ::
  "bridge_config \<Rightarrow> origin \<Rightarrow> u32 \<Rightarrow> bridge_info \<Rightarrow> bridge_state \<Rightarrow> unit dispatch \<times> bridge_state" where
  "set_metadata cfg org bridge_index new_info s =
     (if \<not> b_force_origin cfg org then (Err BadOrigin, s)
      else let extra_fields = of_nat (length (additional new_info)) :: u32 in
        if \<not> extra_fields \<le> max_additional_fields cfg then (Err (BridgeError TooManyFields), s)
        else let metadata = (case bridges s bridge_index of
                 Some m \<Rightarrow> m\<lparr>info := new_info\<rparr>
               | None \<Rightarrow> \<lparr>info = new_info, resource_ids = []\<rparr>)
             in (Ok (), s\<lparr>bridges := (bridges s)(bridge_index \<mapsto> metadata)\<rparr>))"

definition force_reset_indices ::
  "bridge_config \<Rightarrow> origin \<Rightarrow> resource_id list \<Rightarrow> u32 \<Rightarrow> bridge_state \<Rightarrow> unit dispatch \<times> bridge_state" where
  "force_reset_indices cfg org rids bridge_index s =
     (if \<not> b_force_origin cfg org then (Err BadOrigin, s)
      else if b_max_resources cfg < length rids then (Err (BridgeError TooManyResources), s)
      else (Ok (), fold (\<lambda>rid s. s\<lparr>resource_to_bridge_index := (resource_to_bridge_index s)(rid \<mapsto> bridge_index)\<rparr>)
              rids s))"

section \<open>Signed proposals\<close>

definition index_of :: "bridge_state \<Rightarrow> resource_id \<Rightarrow> u32" where
  "index_of s rid = (case resource_to_bridge_index s rid of Some i \<Rightarrow> i | None \<Rightarrow> 0)"

text \<open>Two resources that belong to no bridge yet get a new one.\<close>

definition create_bridge ::
  "bridge_config \<Rightarrow> resource_id \<Rightarrow> resource_id \<Rightarrow> bridge_state \<Rightarrow> unit dispatch \<times> bridge_state" where
  "create_bridge cfg src dest s =
     (let idx = next_bridge_index s;
          s1 = s\<lparr>resource_to_bridge_index := (resource_to_bridge_index s)(src \<mapsto> idx, dest \<mapsto> idx)\<rparr>
      in case try_push (b_max_resources cfg) src [] of
           None \<Rightarrow> (Err (BridgeError bridge_error.OutOfBounds), s1)
         | Some r1 \<Rightarrow>
             (case try_push (b_max_resources cfg) dest r1 of
                None \<Rightarrow> (Err (BridgeError bridge_error.OutOfBounds), s1)
              | Some r2 \<Rightarrow>
                  (Ok (), s1\<lparr>bridges := (bridges s1)(idx \<mapsto> \<lparr>info = bridge_info_default, resource_ids = r2\<rparr>),
                             next_bridge_index := next_bridge_index s1 + 1\<rparr>)))"

definition join_bridge ::
  "bridge_config \<Rightarrow> resource_id \<Rightarrow> u32 \<Rightarrow> bridge_state \<Rightarrow> unit dispatch \<times> bridge_state" where
  "join_bridge cfg rid bridge_index s =
     (let s1 = s\<lparr>resource_to_bridge_index := (resource_to_bridge_index s)(rid \<mapsto> bridge_index)\<rparr>
      in case bridges s1 bridge_index of
           None \<Rightarrow> (Err (BridgeError BridgeNotFound), s1)
         | Some metadata \<Rightarrow>
             (case try_push (b_max_resources cfg) rid (resource_ids metadata) of
                None \<Rightarrow> (Err (BridgeError TooManyResources), s1)
              | Some rids \<Rightarrow>
                  (Ok (), s1\<lparr>bridges := (bridges s1)(bridge_index \<mapsto> metadata\<lparr>resource_ids := rids\<rparr>)\<rparr>)))"

definition link_resources ::
  "bridge_config \<Rightarrow> resource_id \<Rightarrow> resource_id \<Rightarrow> bridge_state \<Rightarrow> unit dispatch \<times> bridge_state" where
  "link_resources cfg src dest s =
     (let src_bridge_index = index_of s src; dest_bridge_index = index_of s dest
      in if src_bridge_index = 0 \<or> dest_bridge_index = 0 then
           if src_bridge_index = 0 \<and> dest_bridge_index = 0 then create_bridge cfg src dest s
           else if src_bridge_index = 0 then join_bridge cfg src dest_bridge_index s
           else join_bridge cfg dest src_bridge_index s
         else if src_bridge_index = dest_bridge_index then (Ok (), s)
         else (Err (BridgeError BridgeIndexError), s))"

text \<open>Copying the data into the buffer of an anchor update panics unless the lengths agree.\<close>

definition bridge_on_signed_proposal ::
  "bridge_config \<Rightarrow> proposal \<Rightarrow> bridge_state \<Rightarrow> unit dispatch \<times> bridge_state" where
  "bridge_on_signed_proposal cfg p s =
     (if \<not> is_signed p then (Err (BridgeError bridge_error.ProposalNotSigned), s)
      else if kind p = AnchorUpdate then
        if length (data p) \<noteq> anchor_update_length cfg then (Panic, s)
        else (case decode_anchor_update cfg (data p) of
                None \<Rightarrow> (Err (BridgeError VerifyError), s)
              | Some (src, dest) \<Rightarrow> link_resources cfg src dest s)
      else (Ok (), s))"

section \<open>The invariant of the registry\<close>

text \<open>
  Every resource listed in a bridge is indexed under it, so no two bridges share a resource, and
  every index in use is that of an existing bridge below the next index.
\<close>

definition bridge_inv :: "bridge_state \<Rightarrow> bool" where
  "bridge_inv s \<longleftrightarrow>
     0 < next_bridge_index s \<and>
     (\<forall>i m r. bridges s i = Some m \<longrightarrow> r \<in> set (resource_ids m) \<longrightarrow> resource_to_bridge_index s r = Some i) \<and>
     (\<forall>i m. bridges s i = Some m \<longrightarrow> i < next_bridge_index s) \<and>
     (\<forall>r i. resource_to_bridge_index s r = Some i \<longrightarrow> 0 < i \<and> bridges s i \<noteq> None)"

lemma bridge_invD:
  assumes "bridge_inv s"
  shows "0 < next_bridge_index s"
    and "bridges s i = Some m \<Longrightarrow> r \<in> set (resource_ids m) \<Longrightarrow> resource_to_bridge_index s r = Some i"
    and "bridges s i = Some m \<Longrightarrow> i < next_bridge_index s"
    and "resource_to_bridge_index s r = Some i \<Longrightarrow> 0 < i"
    and "resource_to_bridge_index s r = Some i \<Longrightarrow> bridges s i \<noteq> None"
  using assms unfolding bridge_inv_def by blast+

lemma index_of_zero: "bridge_inv s \<Longrightarrow> index_of s r = 0 \<longleftrightarrow> resource_to_bridge_index s r = None"
  by (auto simp: index_of_def dest: bridge_invD split: option.splits)

lemma create_bridge_Ok:
  assumes "2 \<le> b_max_resources cfg"
  shows "create_bridge cfg src dest s = (Ok (), s\<lparr>
     resource_to_bridge_index := (resource_to_bridge_index s)(src \<mapsto> next_bridge_index s, dest \<mapsto> next_bridge_index s),
     bridges := (bridges s)(next_bridge_index s \<mapsto> \<lparr>info = bridge_info_default, resource_ids = [src, dest]\<rparr>),
     next_bridge_index := next_bridge_index s + 1\<rparr>)"
  using assms by (simp add: create_bridge_def try_push_def Let_def)

lemma create_bridge_inv:
  assumes inv: "bridge_inv s" and big: "2 \<le> b_max_resources cfg"
    and new: "resource_to_bridge_index s src = None" "resource_to_bridge_index s dest = None"
    and more: "next_bridge_index s < next_bridge_index s + 1"
    and run: "create_bridge cfg src dest s = (r, s')"
  shows "bridge_inv s'"
proof -
  note D = bridge_invD [OF inv]
  have lt: "i < next_bridge_index s \<Longrightarrow> i < next_bridge_index s + 1" for i
    using more by (meson less_trans)
  have listed: "resource_to_bridge_index s' q = Some i"
    if "bridges s' i = Some m" "q \<in> set (resource_ids m)" for i m q
    using that run D(2) [of i m q] D(3) [of "next_bridge_index s"] new
    by (cases "i = next_bridge_index s") (auto simp: create_bridge_Ok [OF big])
  have used: "0 < i \<and> bridges s' i \<noteq> None" if "resource_to_bridge_index s' q = Some i" for q i
    using that run D(1) D(4,5) [of q i] by (auto simp: create_bridge_Ok [OF big] split: if_splits)
  have below: "i < next_bridge_index s'" if "bridges s' i = Some m" for i m
    using that run D(3) [of i] lt more by (auto simp: create_bridge_Ok [OF big] split: if_splits)
  have "0 < next_bridge_index s'"
    using run D(1) more by (auto simp: create_bridge_Ok [OF big] intro: less_trans)
  with listed used below show ?thesis
    unfolding bridge_inv_def by blast
qed

lemma join_bridge_inv:
  assumes inv: "bridge_inv s" and new: "resource_to_bridge_index s rid = None"
    and other: "resource_to_bridge_index s q = Some i"
    and run: "join_bridge cfg rid i s = (r, s')"
  shows "bridge_inv s'"
proof -
  note D = bridge_invD [OF inv]
  obtain m where m: "bridges s i = Some m" and i: "0 < i"
    using D(4,5) [OF other] by auto
  define s1 where "s1 = s\<lparr>resource_to_bridge_index := (resource_to_bridge_index s)(rid \<mapsto> i)\<rparr>"
  have "bridge_inv s1"
    using inv new m i unfolding bridge_inv_def s1_def by auto
  moreover have "bridge_inv (s1\<lparr>bridges := (bridges s1)(i \<mapsto> m\<lparr>resource_ids := resource_ids m @ [rid]\<rparr>)\<rparr>)"
    using D m i new unfolding bridge_inv_def s1_def by (auto split: if_splits)
  moreover have "s' = s1 \<or> s' = s1\<lparr>bridges := (bridges s1)(i \<mapsto> m\<lparr>resource_ids := resource_ids m @ [rid]\<rparr>)\<rparr>"
    using run m by (auto simp: join_bridge_def Let_def s1_def split: option.splits)
  ultimately show ?thesis by auto
qed

lemma link_resources_inv:
  assumes inv: "bridge_inv s" and big: "2 \<le> b_max_resources cfg"
    and more: "next_bridge_index s < next_bridge_index s + 1"
    and run: "link_resources cfg src dest s = (r, s')"
  shows "bridge_inv s'"
proof -
  note z = index_of_zero [OF inv]
  consider (both) "index_of s src = 0" "index_of s dest = 0" | (src) "index_of s src = 0" "index_of s dest \<noteq> 0"
    | (dest) "index_of s src \<noteq> 0" "index_of s dest = 0" | (none) "index_of s src \<noteq> 0" "index_of s dest \<noteq> 0"
    by blast
  then show ?thesis
  proof cases
    case both
    with run z show ?thesis
      using create_bridge_inv [OF inv big _ _ more, of src dest r s'] by (simp add: link_resources_def)
  next
    case src
    then have "resource_to_bridge_index s dest = Some (index_of s dest)" "resource_to_bridge_index s src = None"
      using z by (auto simp: index_of_def split: option.splits)
    with src run show ?thesis
      using join_bridge_inv [OF inv, of src dest "index_of s dest" cfg r s'] by (simp add: link_resources_def)
  next
    case dest
    then have "resource_to_bridge_index s src = Some (index_of s src)" "resource_to_bridge_index s dest = None"
      using z by (auto simp: index_of_def split: option.splits)
    with dest run show ?thesis
      using join_bridge_inv [OF inv, of dest src "index_of s src" cfg r s'] by (simp add: link_resources_def)
  next
    case none
    with run inv show ?thesis
      by (auto simp: link_resources_def Let_def split: if_splits)
  qed
qed

lemma on_signed_inv:
  assumes inv: "bridge_inv s" and big: "2 \<le> b_max_resources cfg"
    and more: "next_bridge_index s < next_bridge_index s + 1"
    and run: "bridge_on_signed_proposal cfg p s = (r, s')"
  shows "bridge_inv s'"
  using run inv link_resources_inv [OF inv big more]
  by (auto simp: bridge_on_signed_proposal_def split: if_splits option.splits)

end
