(* ===== verification/Bridge_Properties.thy ===== *)
theory Bridge_Properties
  imports Bridge_Registry
begin

text \<open>
  The properties of the bridge registry: an accepted anchor update leaves both resources in one
  bridge, bridges never share a resource, and a refused update leaves a trace behind.
\<close>

section \<open>Genesis\<close>

lemma fold_index:
  "fold (\<lambda>rid s. s\<lparr>resource_to_bridge_index := (resource_to_bridge_index s)(rid \<mapsto> i)\<rparr>) rids s =
     s\<lparr>resource_to_bridge_index := (\<lambda>r. if r \<in> set rids then Some i else resource_to_bridge_index s r)\<rparr>"
  by (induction rids arbitrary: s) (auto simp: fun_eq_iff)

lemma genesis_add_bridge_eq:
  "genesis_add_bridge b s = s\<lparr>bridges := (bridges s)(next_bridge_index s \<mapsto> b),
     next_bridge_index := next_bridge_index s + 1,
     resource_to_bridge_index := (\<lambda>r. if r \<in> set (resource_ids b) then Some (next_bridge_index s)
        else resource_to_bridge_index s r)\<rparr>"
  by (simp add: genesis_add_bridge_def fold_index Let_def cong: if_cong)

lemma genesis_add_bridge_inv:
  assumes inv: "bridge_inv s" and more: "next_bridge_index s < next_bridge_index s + 1"
    and new: "\<And>r. r \<in> set (resource_ids b) \<Longrightarrow> resource_to_bridge_index s r = None"
  shows "bridge_inv (genesis_add_bridge b s)"
proof -
  note D = bridge_invD [OF inv]
  let ?n = "next_bridge_index s" and ?s = "genesis_add_bridge b s"
  have lt: "i < ?n \<Longrightarrow> i < ?n + 1" for i
    using more by (meson less_trans)
  have "resource_to_bridge_index ?s q = Some i" if "bridges ?s i = Some m" "q \<in> set (resource_ids m)" for i m q
    using that D(2) [of i m q] D(3) [of ?n] new [of q]
    by (cases "i = ?n") (auto simp: genesis_add_bridge_eq)
  moreover have "i < next_bridge_index ?s" if "bridges ?s i = Some m" for i m
    using that D(3) [of i] lt more by (auto simp: genesis_add_bridge_eq split: if_splits)
  moreover have "0 < i \<and> bridges ?s i \<noteq> None" if "resource_to_bridge_index ?s q = Some i" for q i
    using that D(1) D(4,5) [of q i] by (auto simp: genesis_add_bridge_eq split: if_splits)
  moreover have "0 < next_bridge_index ?s"
    using D(1) more by (auto simp: genesis_add_bridge_eq intro: less_trans)
  ultimately show ?thesis
    unfolding bridge_inv_def by blast
qed

lemma unat_succ: "unat (n :: u32) + 1 < 2 ^ 32 \<Longrightarrow> unat (n + 1) = unat n + 1"
  by (subst unat_add_no_overflow) simp_all

lemma succ_greater: "unat (n :: u32) + 1 < 2 ^ 32 \<Longrightarrow> n < n + 1"
  using unat_succ [of n] by (simp add: word_less_nat_alt)

lemma genesis_fold_inv:
  assumes "bridge_inv s" and "unat (next_bridge_index s) + length bs < 2 ^ 32"
    and "distinct (concat (map resource_ids bs))"
    and "\<And>r. r \<in> set (concat (map resource_ids bs)) \<Longrightarrow> resource_to_bridge_index s r = None"
  shows "bridge_inv (fold genesis_add_bridge bs s) \<and>
     unat (next_bridge_index (fold genesis_add_bridge bs s)) = unat (next_bridge_index s) + length bs"
  using assms
proof (induction bs arbitrary: s)
  case Nil
  then show ?case by simp
next
  case (Cons b bs)
  let ?s1 = "genesis_add_bridge b s"
  have lim: "unat (next_bridge_index s) + 1 < 2 ^ 32"
    using Cons.prems(2) by simp
  have n1: "unat (next_bridge_index ?s1) = unat (next_bridge_index s) + 1"
    using unat_succ [OF lim] by (simp add: genesis_add_bridge_eq)
  have inv1: "bridge_inv ?s1"
    using Cons.prems(1,4) succ_greater [OF lim] by (intro genesis_add_bridge_inv) auto
  have new1: "resource_to_bridge_index ?s1 r = None" if "r \<in> set (concat (map resource_ids bs))" for r
    using that Cons.prems(3,4) by (auto simp: genesis_add_bridge_eq)
  from Cons.IH [OF inv1 _ _ new1] Cons.prems(2,3) n1 show ?case
    by simp
qed

lemma bridge_inv_genesis:
  assumes "distinct (concat (map resource_ids bs))" and "1 + length bs < 2 ^ 32"
  shows "bridge_inv (bridge_genesis_build bs) \<and> unat (next_bridge_index (bridge_genesis_build bs)) = 1 + length bs"
  unfolding bridge_genesis_build_def
  using genesis_fold_inv [of "\<lparr>next_bridge_index = 1, bridges = Map.empty, resource_to_bridge_index = Map.empty\<rparr>" bs] assms
  by (simp add: bridge_inv_def)

section \<open>Runs of signed proposals\<close>

text \<open>The signed proposals the handler passes on, in order. Errors are dropped and what was written
  before an error stays.\<close>

definition run_signed :: "bridge_config \<Rightarrow> proposal list \<Rightarrow> bridge_state \<Rightarrow> bridge_state" where
  "run_signed cfg ps s = fold (\<lambda>p s. snd (bridge_on_signed_proposal cfg p s)) ps s"

lemma create_bridge_index: "next_bridge_index (snd (create_bridge cfg src dest s)) \<in> {next_bridge_index s, next_bridge_index s + 1}"
  by (auto simp: create_bridge_def Let_def split: option.splits)

lemma join_bridge_index: "next_bridge_index (snd (join_bridge cfg r i s)) = next_bridge_index s"
  by (auto simp: join_bridge_def Let_def split: option.splits)

lemma on_signed_index:
  "next_bridge_index (snd (bridge_on_signed_proposal cfg p s)) \<in> {next_bridge_index s, next_bridge_index s + 1}"
  using create_bridge_index [of cfg _ _ s]
  by (auto simp: bridge_on_signed_proposal_def link_resources_def Let_def join_bridge_index split: option.splits)

lemma run_signed_inv:
  assumes "bridge_inv s" and "2 \<le> b_max_resources cfg"
    and "unat (next_bridge_index s) + length ps < 2 ^ 32"
  shows "bridge_inv (run_signed cfg ps s)"
  using assms(1,3)
proof (induction ps arbitrary: s)
  case Nil
  then show ?case by (simp add: run_signed_def)
next
  case (Cons p ps)
  let ?s1 = "snd (bridge_on_signed_proposal cfg p s)"
  have lim: "unat (next_bridge_index s) + 1 < 2 ^ 32"
    using Cons.prems(2) by simp
  have "bridge_inv ?s1"
    by (rule on_signed_inv [OF Cons.prems(1) assms(2) succ_greater [OF lim] surjective_pairing])
  moreover have "unat (next_bridge_index ?s1) \<le> unat (next_bridge_index s) + 1"
    using on_signed_index [of cfg p s] unat_succ [OF lim] by auto
  ultimately show ?case
    using Cons.IH [of ?s1] Cons.prems(2) by (simp add: run_signed_def)
qed

text \<open>
  C13. Bridges stay disjoint: from a genesis that lists no resource twice, after any sequence of
  signed proposals, accepted or refused, a resource is listed in at most one bridge, is indexed under
  that bridge, and every index in use names an existing bridge with a positive index. So an accepted
  update never fails for a missing bridge.
\<close>

theorem bridges_stay_disjoint:
  assumes "distinct (concat (map resource_ids bs))" and "2 \<le> b_max_resources cfg"
    and "1 + length bs + length ps < 2 ^ 32" and "s = run_signed cfg ps (bridge_genesis_build bs)"
  shows "(\<forall>i j m m' r. bridges s i = Some m \<longrightarrow> bridges s j = Some m' \<longrightarrow>
        r \<in> set (resource_ids m) \<longrightarrow> r \<in> set (resource_ids m') \<longrightarrow> i = j) \<and>
     (\<forall>i m r. bridges s i = Some m \<longrightarrow> r \<in> set (resource_ids m) \<longrightarrow> resource_to_bridge_index s r = Some i) \<and>
     (\<forall>r i. resource_to_bridge_index s r = Some i \<longrightarrow> 0 < i \<and> bridges s i \<noteq> None)"
proof -
  have "bridge_inv s"
    using bridge_inv_genesis [OF assms(1)] run_signed_inv [of "bridge_genesis_build bs" cfg ps] assms(2-4) by simp
  note D = bridge_invD [OF this]
  have one: "i = j" if "bridges s i = Some m" "bridges s j = Some m'" "r \<in> set (resource_ids m)" "r \<in> set (resource_ids m')"
    for i j m m' r
    using D(2) [OF that(1,3)] D(2) [OF that(2,4)] by simp
  show ?thesis
    using one D(2,4,5) by blast
qed

definition sample_bcfg :: bridge_config where
  "sample_bcfg = \<lparr>b_force_origin = (\<lambda>org. org = Root), max_additional_fields = 4, b_max_resources = 2,
     anchor_update_length = 2,
     decode_anchor_update = (\<lambda>bs. if length bs = 2 then Some ([hd bs], tl bs) else None)\<rparr>"

theorem bridges_stay_disjoint_witness:
  "\<exists>m. bridges (run_signed sample_bcfg [SignedProposal AnchorUpdate [1, 2] []] (bridge_genesis_build [])) 1 = Some m"
proof -
  let ?s = "run_signed sample_bcfg [SignedProposal AnchorUpdate [1, 2] []] (bridge_genesis_build [])"
  have "resource_to_bridge_index ?s [1] = Some 1"
    by (simp add: run_signed_def bridge_on_signed_proposal_def sample_bcfg_def link_resources_def index_of_def
        bridge_genesis_build_def create_bridge_def try_push_def Let_def)
  moreover have "2 \<le> b_max_resources sample_bcfg"
    by (simp add: sample_bcfg_def)
  ultimately show ?thesis
    using bridges_stay_disjoint [of "[]" sample_bcfg "[SignedProposal AnchorUpdate [1, 2] []]" ?s] by auto
qed

text \<open>
  An accepted anchor update connects its two resources: afterwards both are indexed under the
  same bridge, which exists.
\<close>

theorem accepted_update_connects:
  assumes "bridge_inv s" and "2 \<le> b_max_resources cfg" and "next_bridge_index s < next_bridge_index s + 1"
    and "kind p = AnchorUpdate" and "decode_anchor_update cfg (data p) = Some (src, dest)"
    and "bridge_on_signed_proposal cfg p s = (Ok (), s')"
  shows "\<exists>i. resource_to_bridge_index s' src = Some i \<and> resource_to_bridge_index s' dest = Some i \<and>
     0 < i \<and> bridges s' i \<noteq> None"
proof -
  from assms(4-6) have run: "link_resources cfg src dest s = (Ok (), s')"
    by (auto simp: bridge_on_signed_proposal_def split: if_splits)
  have inv': "bridge_inv s'"
    by (rule link_resources_inv [OF assms(1-3) run])
  have join: "resource_to_bridge_index s' r = Some i \<and> resource_to_bridge_index s' q = Some i"
    if "join_bridge cfg r i s = (Ok (), s')" "resource_to_bridge_index s q = Some i" for r q i
    using that by (auto simp: join_bridge_def Let_def split: option.splits)
  have some: "index_of s r \<noteq> 0 \<Longrightarrow> resource_to_bridge_index s r = Some (index_of s r)" for r
    by (auto simp: index_of_def split: option.splits)
  have "\<exists>i. resource_to_bridge_index s' src = Some i \<and> resource_to_bridge_index s' dest = Some i"
    using run join [of src "index_of s dest" dest] join [of dest "index_of s src" src] some
    by (auto simp: link_resources_def Let_def create_bridge_Ok [OF assms(2)] split: if_splits)
  then show ?thesis
    using bridge_invD(4,5) [OF inv'] by blast
qed

lemma sample_bridge_inv: "bridge_inv (bridge_genesis_build [])"
  using bridge_inv_genesis [of "[]"] by simp

theorem accepted_update_connects_witness:
  "\<exists>s' i. bridge_on_signed_proposal sample_bcfg (SignedProposal AnchorUpdate [1, 2] []) (bridge_genesis_build []) = (Ok (), s') \<and>
     resource_to_bridge_index s' [1] = Some i \<and> resource_to_bridge_index s' [2] = Some i"
proof -
  let ?s = "bridge_genesis_build []" and ?p = "SignedProposal AnchorUpdate [1, 2] []"
  obtain s' where run: "bridge_on_signed_proposal sample_bcfg ?p ?s = (Ok (), s')"
    by (simp add: bridge_on_signed_proposal_def sample_bcfg_def link_resources_def index_of_def
        bridge_genesis_build_def create_bridge_def try_push_def Let_def)
  have "\<exists>i. resource_to_bridge_index s' [1] = Some i \<and> resource_to_bridge_index s' [2] = Some i \<and>
     0 < i \<and> bridges s' i \<noteq> None"
    by (rule accepted_update_connects [OF sample_bridge_inv _ _ _ _ run])
      (simp_all add: sample_bcfg_def bridge_genesis_build_def)
  with run show ?thesis by blast
qed

text \<open>
  A refused update leaves a trace: when an update would add a resource to a bridge that is full,
  the call fails, but the resource is already indexed under the bridge without being listed in it
  (the caller drops the error, so the write stays), and submitting the same update again succeeds.
\<close>

theorem refused_update_is_half_applied:
  assumes "is_signed p" and "kind p = AnchorUpdate" and "length (data p) = anchor_update_length cfg"
    and "decode_anchor_update cfg (data p) = Some (src, dest)"
    and "resource_to_bridge_index s src = Some i" and "0 < i" and "resource_to_bridge_index s dest = None"
    and "bridges s i = Some m" and "length (resource_ids m) = b_max_resources cfg" and "dest \<notin> set (resource_ids m)"
  shows "\<exists>s'. bridge_on_signed_proposal cfg p s = (Err (BridgeError TooManyResources), s') \<and>
     resource_to_bridge_index s' dest = Some i \<and> bridges s' = bridges s \<and>
     bridge_on_signed_proposal cfg p s' = (Ok (), s')"
proof -
  define s' where "s' = s\<lparr>resource_to_bridge_index := (resource_to_bridge_index s)(dest \<mapsto> i)\<rparr>"
  have "src \<noteq> dest" and "i \<noteq> 0" using assms(5-7) by auto
  then have "bridge_on_signed_proposal cfg p s = (Err (BridgeError TooManyResources), s')"
    using assms by (simp add: bridge_on_signed_proposal_def link_resources_def index_of_def join_bridge_def
        try_push_def s'_def Let_def)
  moreover have "bridge_on_signed_proposal cfg p s' = (Ok (), s')"
    using assms \<open>src \<noteq> dest\<close> \<open>i \<noteq> 0\<close> by (simp add: bridge_on_signed_proposal_def link_resources_def index_of_def s'_def Let_def)
  ultimately show ?thesis
    by (intro exI [of _ s']) (simp add: s'_def)
qed

theorem refused_update_is_half_applied_witness:
  "\<exists>s'. bridge_on_signed_proposal sample_bcfg (SignedProposal AnchorUpdate [1, 3] [])
       \<lparr>next_bridge_index = 2, bridges = [1 \<mapsto> \<lparr>info = bridge_info_default, resource_ids = [[1], [2]]\<rparr>],
        resource_to_bridge_index = [[1] \<mapsto> 1, [2] \<mapsto> 1]\<rparr> = (Err (BridgeError TooManyResources), s') \<and>
     resource_to_bridge_index s' [3] = Some 1"
  using refused_update_is_half_applied [of "SignedProposal AnchorUpdate [1, 3] []" sample_bcfg "[1]" "[3]"
      "\<lparr>next_bridge_index = 2, bridges = [1 \<mapsto> \<lparr>info = bridge_info_default, resource_ids = [[1], [2]]\<rparr>],
        resource_to_bridge_index = [[1] \<mapsto> 1, [2] \<mapsto> 1]\<rparr>" 1 "\<lparr>info = bridge_info_default, resource_ids = [[1], [2]]\<rparr>"]
  by (auto simp: sample_bcfg_def)

end
