(* ===== verification/Voter_Tree.thy ===== *)
theory Voter_Tree
  imports Primitives
begin

text \<open>
  The Merkle tree of the voter set a refresh proposal carries (\<open>pallets/dkg-metadata/src/lib.rs\<close>):
  the height of the smallest tree that holds the voters, the padded base layer, the layers above it
  and the root. A panic is \<open>None\<close>; the padding loop, which only ends when the layer has the wanted
  length, is a partial function, so that not ending is \<open>None\<close> as well.
\<close>

section \<open>The code\<close>

text \<open>The loop of \<open>get_voter_set_tree_height\<close>, from a height \<open>h\<close> on.\<close>

function tree_height_from :: "u32 \<Rightarrow> u32 \<Rightarrow> u32" where
  "tree_height_from n h = (if saturating_pow 2 (unat h) < n then tree_height_from n (h + 1) else h)"
  by auto

lemma saturating_pow_top: "32 \<le> h \<Longrightarrow> saturating_pow (2 :: u32) h = - 1"
proof -
  assume "32 \<le> h"
  then have "(2 :: nat) ^ 32 \<le> 2 ^ h"
    by (rule power_increasing) simp
  then show ?thesis
    by (simp add: saturating_pow_def)
qed

lemma height_below_32: "saturating_pow 2 (unat (h :: u32)) < (n :: u32) \<Longrightarrow> unat h < 32"
proof (rule ccontr)
  assume less: "saturating_pow 2 (unat h) < n" and "\<not> unat h < 32"
  then have "- 1 < n"
    by (simp add: saturating_pow_top)
  then show False
    by (meson not_less word_order.extremum)
qed

termination tree_height_from
proof (relation "measure (\<lambda>(n, h). 32 - unat h)")
  fix n h :: u32
  assume "saturating_pow 2 (unat h) < n"
  then have lt: "unat h < 32"
    by (rule height_below_32)
  then have "unat (h + 1) = unat h + 1"
    by (subst unat_add_no_overflow) simp_all
  with lt show "((n, h + 1), n, h) \<in> measure (\<lambda>(n, h). 32 - unat h)"
    by simp
qed simp

declare tree_height_from.simps [simp del]

definition get_voter_set_tree_height :: "nat \<Rightarrow> u32" where
  "get_voter_set_tree_height n =
     (if n = 1 then 1 else tree_height_from (of_nat n) 0)"

definition padding_leaf :: "ext \<Rightarrow> hash256" where
  "padding_leaf x = keccak_256 x [0]"

partial_function (option) pad_layer :: "hash256 \<Rightarrow> nat \<Rightarrow> hash256 list \<Rightarrow> hash256 list option" where
  "pad_layer p sz layer = (if length layer \<noteq> sz then pad_layer p sz (layer @ [p]) else Some layer)"

text \<open>The runtime is compiled to Wasm, where \<open>usize\<close> has 32 bits.\<close>

definition pre_process_for_merkleize ::
  "ext \<Rightarrow> (dkg_id \<Rightarrow> bytes) \<Rightarrow> dkg_id list \<Rightarrow> hash256 list option" where
  "pre_process_for_merkleize x to_leaf voters =
     (let height = get_voter_set_tree_height (length voters);
          base_layer = map (\<lambda>account. keccak_256 x (to_leaf account)) voters
      in pad_layer (padding_leaf x) (unat (saturating_pow (2 :: u32) (unat height))) base_layer)"

text \<open>Reading past the end of an odd layer panics.\<close>

fun next_layer :: "ext \<Rightarrow> hash256 list \<Rightarrow> hash256 list option" where
  "next_layer x [] = Some []"
| "next_layer x [a] = None"
| "next_layer x (a # b # rest) =
     (case next_layer x rest of None \<Rightarrow> None | Some upper \<Rightarrow> Some (keccak_256 x (a @ b) # upper))"

fun climb :: "ext \<Rightarrow> nat \<Rightarrow> hash256 list \<Rightarrow> hash256 list option" where
  "climb x 0 layer = Some layer"
| "climb x (Suc h) layer = (case next_layer x layer of None \<Rightarrow> None | Some upper \<Rightarrow> climb x h upper)"

definition get_voter_set_tree_root :: "ext \<Rightarrow> (dkg_id \<Rightarrow> bytes) \<Rightarrow> dkg_id list \<Rightarrow> hash256 option" where
  "get_voter_set_tree_root x to_leaf voters =
     (case pre_process_for_merkleize x to_leaf voters of
        None \<Rightarrow> None
      | Some layer \<Rightarrow>
          (case climb x (unat (get_voter_set_tree_height (length voters))) layer of
             Some (root # _) \<Rightarrow> Some root
           | _ \<Rightarrow> None))"

section \<open>The height\<close>

lemma tree_height_from_spec:
  assumes "unat h \<le> 32" and "h = 0 \<or> 2 ^ (unat h - 1) < unat n"
  shows "unat n \<le> 2 ^ unat (tree_height_from n h) \<and> unat (tree_height_from n h) \<le> 32 \<and>
     (tree_height_from n h = 0 \<or> 2 ^ (unat (tree_height_from n h) - 1) < unat n)"
  using assms
proof (induction n h rule: tree_height_from.induct)
  case (1 n h)
  have pow: "unat (saturating_pow (2 :: u32) (unat h)) = min (2 ^ unat h) (2 ^ 32 - 1)"
    using unat_saturating_pow [of "2 :: u32" "unat h"] by simp
  show ?case
  proof (cases "saturating_pow 2 (unat h) < n")
    case True
    then have lt: "unat h < 32"
      by (rule height_below_32)
    have h1: "unat (h + 1) = unat h + 1"
      using lt by (subst unat_add_no_overflow) simp_all
    have "(2 :: nat) ^ unat h \<le> 2 ^ 31"
      using lt by (intro power_increasing) simp_all
    then have "2 ^ unat h < unat n"
      using True pow by (simp add: word_less_nat_alt)
    then have "unat n \<le> 2 ^ unat (tree_height_from n (h + 1)) \<and> unat (tree_height_from n (h + 1)) \<le> 32 \<and>
      (tree_height_from n (h + 1) = 0 \<or> 2 ^ (unat (tree_height_from n (h + 1)) - 1) < unat n)"
      using lt h1 by (intro 1(1) [OF True]) simp_all
    then show ?thesis
      using True by (simp add: tree_height_from.simps [of n h])
  next
    case False
    then have "unat n \<le> 2 ^ unat h"
      using pow by (simp add: word_less_nat_alt)
    with False 1(2,3) show ?thesis
      by (simp add: tree_height_from.simps [of n h])
  qed
qed

text \<open>The tree is as small as it can be, except that one voter still gets a tree of height one.\<close>

lemma tree_height_spec:
  assumes "n < 2 ^ 32"
  shows "n \<le> 2 ^ unat (get_voter_set_tree_height n)"
    and "unat (get_voter_set_tree_height n) \<le> 32"
    and "2 \<le> n \<Longrightarrow> 2 ^ (unat (get_voter_set_tree_height n) - 1) < n"
proof -
  have n: "unat (of_nat n :: u32) = n"
    using assms by (simp add: unat_of_nat)
  note spec = tree_height_from_spec [of 0 "of_nat n", unfolded n]
  show "n \<le> 2 ^ unat (get_voter_set_tree_height n)" "unat (get_voter_set_tree_height n) \<le> 32"
    using spec by (auto simp: get_voter_set_tree_height_def)
  assume n2: "2 \<le> n"
  have "tree_height_from (of_nat n) 0 \<noteq> 0"
  proof
    assume "tree_height_from (of_nat n) 0 = 0"
    with spec n2 show False by simp
  qed
  with spec n2 show "2 ^ (unat (get_voter_set_tree_height n) - 1) < n"
    by (simp add: get_voter_set_tree_height_def)
qed

section \<open>The layers\<close>

lemma pad_layer_Some:
  assumes "length layer \<le> sz"
  shows "pad_layer p sz layer = Some (layer @ replicate (sz - length layer) p)"
  using assms
proof (induction "sz - length layer" arbitrary: layer)
  case 0
  then have "sz = length layer" by simp
  then show ?case by (simp add: pad_layer.simps [of p "length layer" layer])
next
  case (Suc k)
  have "pad_layer p sz (layer @ [p]) = Some ((layer @ [p]) @ replicate (sz - length (layer @ [p])) p)"
    using Suc.hyps(2) Suc.prems by (intro Suc.hyps(1)) simp_all
  moreover have "[p] @ replicate (sz - length (layer @ [p])) p = replicate (sz - length layer) p"
  proof -
    have "sz - length (layer @ [p]) = k" using Suc.hyps(2) by simp
    then show ?thesis using Suc.hyps(2) [symmetric] by simp
  qed
  ultimately show ?case
    using Suc.hyps(2) by (simp add: pad_layer.simps [of p sz layer])
qed

lemma power_two: "h \<le> 31 \<Longrightarrow> unat (saturating_pow (2 :: u32) h) = 2 ^ h"
proof -
  assume "h \<le> 31"
  then have "(2 :: nat) ^ h \<le> 2 ^ 31"
    by (intro power_increasing) simp_all
  then show ?thesis
    using unat_saturating_pow [of "2 :: u32" h] by simp
qed

lemma tree_height_31: "n \<le> 2 ^ 31 \<Longrightarrow> unat (get_voter_set_tree_height n) \<le> 31"
proof (cases "2 \<le> n")
  case True
  assume n: "n \<le> 2 ^ 31"
  then have "(2 :: nat) ^ (unat (get_voter_set_tree_height n) - 1) < 2 ^ 31"
    using tree_height_spec(3) [of n] True by simp
  then have "unat (get_voter_set_tree_height n) - 1 < 31"
    by (rule power_less_imp_less_exp [rotated]) simp
  then show ?thesis by simp
next
  case False
  then have "n = 0 \<or> n = 1" by auto
  then show ?thesis
    by (auto simp: get_voter_set_tree_height_def tree_height_from.simps [of 0 0])
qed

lemma pre_process_Some:
  assumes "length voters \<le> 2 ^ 31"
  shows "pre_process_for_merkleize x to_leaf voters =
     Some (map (\<lambda>a. keccak_256 x (to_leaf a)) voters @
       replicate (2 ^ unat (get_voter_set_tree_height (length voters)) - length voters) (padding_leaf x))"
  using tree_height_spec(1) [of "length voters"] tree_height_31 [OF assms] assms
  by (simp add: pre_process_for_merkleize_def pad_layer_Some power_two)

section \<open>The root\<close>

text \<open>The reference: the root of a perfect tree, by halving its leaves.\<close>

fun perfect_root :: "ext \<Rightarrow> nat \<Rightarrow> hash256 list \<Rightarrow> hash256" where
  "perfect_root x 0 leaves = hd leaves"
| "perfect_root x (Suc h) leaves =
     keccak_256 x (perfect_root x h (take (2 ^ h) leaves) @ perfect_root x h (drop (2 ^ h) leaves))"

lemma next_layer_append:
  "even (length xs) \<Longrightarrow> next_layer x (xs @ ys) =
     (case (next_layer x xs, next_layer x ys) of (Some a, Some b) \<Rightarrow> Some (a @ b) | _ \<Rightarrow> None)"
  by (induction x xs rule: next_layer.induct) (auto split: option.splits)

lemma next_layer_even:
  "length xs = 2 * n \<Longrightarrow> \<exists>ys. next_layer x xs = Some ys \<and> length ys = n"
proof (induction x xs arbitrary: n rule: next_layer.induct)
  case (3 x a b rest)
  from 3(2) have "length rest = 2 * (n - 1)" "0 < n" by auto
  with 3(1) [of "n - 1"] show ?case by (auto split: option.splits)
qed auto

lemma climb_append:
  assumes "length xs = 2 ^ h" and "length ys = 2 ^ h"
    and "climb x h xs = Some [a]" and "climb x h ys = Some [b]"
  shows "climb x h (xs @ ys) = Some [a, b]"
  using assms
proof (induction h arbitrary: xs ys)
  case 0
  then show ?case by simp
next
  case (Suc h)
  obtain us where us: "next_layer x xs = Some us" "length us = 2 ^ h"
    using next_layer_even [of xs "2 ^ h" x] Suc.prems(1) by auto
  obtain vs where vs: "next_layer x ys = Some vs" "length vs = 2 ^ h"
    using next_layer_even [of ys "2 ^ h" x] Suc.prems(2) by auto
  have "climb x h (us @ vs) = Some [a, b]"
    using Suc.IH [of us vs] us vs Suc.prems(3,4) by simp
  then show ?case
    using us vs Suc.prems(1) by (simp add: next_layer_append)
qed

lemma climb_Suc_right:
  "climb x (Suc h) layer = (case climb x h layer of None \<Rightarrow> None | Some upper \<Rightarrow> next_layer x upper)"
proof (induction h arbitrary: layer)
  case 0
  then show ?case by (simp split: option.splits)
next
  case (Suc h)
  show ?case
  proof (cases "next_layer x layer")
    case (Some u)
    then show ?thesis
      using Suc.IH [of u] by (simp only: climb.simps option.case)
  qed simp
qed

lemma climb_perfect:
  "length leaves = 2 ^ h \<Longrightarrow> climb x h leaves = Some [perfect_root x h leaves]"
proof (induction h arbitrary: leaves)
  case 0
  then show ?case by (cases leaves) auto
next
  case (Suc h)
  let ?l = "take (2 ^ h) leaves" and ?r = "drop (2 ^ h) leaves"
  have len: "length ?l = 2 ^ h" "length ?r = 2 ^ h"
    using Suc.prems by simp_all
  have "climb x h (?l @ ?r) = Some [perfect_root x h ?l, perfect_root x h ?r]"
    by (rule climb_append [OF len Suc.IH [OF len(1)] Suc.IH [OF len(2)]])
  then show ?case
    by (simp add: climb_Suc_right del: climb.simps)
qed

definition voter_leaves :: "ext \<Rightarrow> (dkg_id \<Rightarrow> bytes) \<Rightarrow> dkg_id list \<Rightarrow> hash256 list" where
  "voter_leaves x to_leaf voters = map (\<lambda>a. keccak_256 x (to_leaf a)) voters @
     replicate (2 ^ unat (get_voter_set_tree_height (length voters)) - length voters) (padding_leaf x)"

lemma length_voter_leaves:
  "length voters \<le> 2 ^ 31 \<Longrightarrow> length (voter_leaves x to_leaf voters) = 2 ^ unat (get_voter_set_tree_height (length voters))"
  using tree_height_spec(1) by (simp add: voter_leaves_def)

lemma tree_root_Some:
  assumes "length voters \<le> 2 ^ 31"
  shows "get_voter_set_tree_root x to_leaf voters =
     Some (perfect_root x (unat (get_voter_set_tree_height (length voters))) (voter_leaves x to_leaf voters))"
  using pre_process_Some [OF assms, of x to_leaf] climb_perfect [OF length_voter_leaves [OF assms, of x to_leaf], of x]
  by (simp add: get_voter_set_tree_root_def flip: voter_leaves_def)

text \<open>
  The byte strings that are hashed above the leaves of a tree. Two trees of the same height with the
  same root have the same leaves unless two of these strings collide.
\<close>

fun tree_inputs :: "ext \<Rightarrow> nat \<Rightarrow> hash256 list \<Rightarrow> bytes list" where
  "tree_inputs x 0 leaves = []"
| "tree_inputs x (Suc h) leaves =
     (perfect_root x h (take (2 ^ h) leaves) @ perfect_root x h (drop (2 ^ h) leaves)) #
     tree_inputs x h (take (2 ^ h) leaves) @ tree_inputs x h (drop (2 ^ h) leaves)"

lemma perfect_root_length:
  assumes "\<And>m. length (keccak_256 x m) = 32" and "\<And>l. l \<in> set leaves \<Longrightarrow> length l = 32" and "length leaves = 2 ^ h"
  shows "length (perfect_root x h leaves) = 32"
  using assms(2,3) by (cases h; cases leaves) (auto simp: assms(1))

lemma perfect_root_inj:
  assumes k: "\<And>m. length (keccak_256 x m) = 32"
    and "inj_on (keccak_256 x) (set (tree_inputs x h us) \<union> set (tree_inputs x h vs))"
    and "length us = 2 ^ h" and "length vs = 2 ^ h"
    and "\<And>l. l \<in> set us \<union> set vs \<Longrightarrow> length l = 32"
    and "perfect_root x h us = perfect_root x h vs"
  shows "us = vs"
  using assms(2-)
proof (induction h arbitrary: us vs)
  case 0
  then show ?case by (cases us; cases vs) auto
next
  case (Suc h)
  let ?L = "take (2 ^ h)" and ?R = "drop (2 ^ h)"
  have len: "length (?L us) = 2 ^ h" "length (?R us) = 2 ^ h" "length (?L vs) = 2 ^ h" "length (?R vs) = 2 ^ h"
    using Suc.prems(2,3) by simp_all
  have mem: "set (?L us) \<union> set (?L vs) \<subseteq> set us \<union> set vs" "set (?R us) \<union> set (?R vs) \<subseteq> set us \<union> set vs"
    by (auto dest: in_set_takeD in_set_dropD)
  have b: "\<And>l. l \<in> set (?L us) \<union> set (?L vs) \<Longrightarrow> length l = 32" "\<And>l. l \<in> set (?R us) \<union> set (?R vs) \<Longrightarrow> length l = 32"
    using Suc.prems(4) mem by blast+
  have inj: "inj_on (keccak_256 x) (set (tree_inputs x h (?L us)) \<union> set (tree_inputs x h (?L vs)))"
    "inj_on (keccak_256 x) (set (tree_inputs x h (?R us)) \<union> set (tree_inputs x h (?R vs)))"
    by (rule inj_on_subset [OF Suc.prems(1)], auto)+
  have "perfect_root x h (?L us) @ perfect_root x h (?R us) = perfect_root x h (?L vs) @ perfect_root x h (?R vs)"
    by (rule inj_onD [OF Suc.prems(1)]) (use Suc.prems(5) in simp_all)
  moreover have "length (perfect_root x h (?L us)) = 32" "length (perfect_root x h (?L vs)) = 32"
    by (rule perfect_root_length [OF k]; use b len in auto)+
  ultimately have "perfect_root x h (?L us) = perfect_root x h (?L vs)" "perfect_root x h (?R us) = perfect_root x h (?R vs)"
    by simp_all
  then have "?L us = ?L vs" "?R us = ?R vs"
    using Suc.IH [OF inj(1) len(1,3) b(1)] Suc.IH [OF inj(2) len(2,4) b(2)] by simp_all
  then show ?case
    by (metis append_take_drop_id)
qed

text \<open>All byte strings hashed for a voter set.\<close>

definition hashed_for :: "ext \<Rightarrow> (dkg_id \<Rightarrow> bytes) \<Rightarrow> dkg_id list \<Rightarrow> bytes list" where
  "hashed_for x to_leaf voters = map to_leaf voters @ [0] #
     tree_inputs x (unat (get_voter_set_tree_height (length voters))) (voter_leaves x to_leaf voters)"

lemma tree_root_inj:
  assumes k: "\<And>m. length (keccak_256 x m) = 32" and n: "length us = length vs" "length us \<le> 2 ^ 31"
    and inj: "inj_on (keccak_256 x) (set (hashed_for x to_leaf us) \<union> set (hashed_for x to_leaf vs))"
    and eq: "get_voter_set_tree_root x to_leaf us = get_voter_set_tree_root x to_leaf vs"
  shows "map to_leaf us = map to_leaf vs"
proof -
  let ?h = "unat (get_voter_set_tree_height (length us))"
  let ?H = "\<lambda>a. keccak_256 x (to_leaf a)"
  have "voter_leaves x to_leaf us = voter_leaves x to_leaf vs"
  proof (rule perfect_root_inj [OF k])
    show "inj_on (keccak_256 x) (set (tree_inputs x ?h (voter_leaves x to_leaf us)) \<union>
        set (tree_inputs x ?h (voter_leaves x to_leaf vs)))"
      using inj by (rule inj_on_subset) (auto simp: hashed_for_def n(1))
    show "length (voter_leaves x to_leaf us) = 2 ^ ?h" "length (voter_leaves x to_leaf vs) = 2 ^ ?h"
      using length_voter_leaves [of us x to_leaf] length_voter_leaves [of vs x to_leaf] n by simp_all
    show "length l = 32" if "l \<in> set (voter_leaves x to_leaf us) \<union> set (voter_leaves x to_leaf vs)" for l
      using that k by (auto simp: voter_leaves_def padding_leaf_def)
    show "perfect_root x ?h (voter_leaves x to_leaf us) = perfect_root x ?h (voter_leaves x to_leaf vs)"
      using eq n tree_root_Some [of us x to_leaf] tree_root_Some [of vs x to_leaf] by simp
  qed
  then have "map ?H us = map ?H vs"
    using n(1) by (simp add: voter_leaves_def)
  then have hashed: "map (keccak_256 x) (map to_leaf us) = map (keccak_256 x) (map to_leaf vs)"
    by (simp only: map_map comp_def)
  have "inj_on (keccak_256 x) (set (map to_leaf us) \<union> set (map to_leaf vs))"
    using inj by (rule inj_on_subset) (auto simp: hashed_for_def)
  then show ?thesis
    using hashed by (simp only: inj_on_map_eq_map)
qed

end
