(* ===== verification/Metadata_State.thy ===== *)
theory Metadata_State
  imports Signatures Dispatch Voter_Tree
begin

text \<open>
  The state of \<open>pallet-dkg-metadata\<close>: the storage items, the events and the consensus log, the
  configuration, the genesis, and the operations on the thresholds. Every storage item is a field of
  \<open>metadata_state\<close>; an \<open>OptionQuery\<close> item and one whose existence is tested are options.
\<close>

section \<open>Types of the primitives the pallet stores or receives\<close>

datatype misbehaviour_type = Keygen | Sign

record aggregated_public_keys =
  keys_and_signatures :: "(bytes \<times> bytes) list"

record aggregated_misbehaviour_reports =
  misbehaviour :: misbehaviour_type
  report_session_id :: u64
  offender :: dkg_id
  reporters :: "dkg_id list"
  report_signatures :: "bytes list"

record authority_set =
  set_authorities :: "dkg_id list"
  set_id :: u64

datatype consensus_log =
    AuthoritiesChange authority_set authority_set
  | OnDisabled u32
  | KeyRefresh bool bytes bytes bytes

record round_metadata =
  curr_round_pub_key :: bytes
  next_round_pub_key :: bytes
  refresh_signature :: bytes

record voter_set_data =
  voter_set_merkle_root :: hash256
  average_session_length_in_millisecs :: u64
  vs_voter_count :: u32

section \<open>Constants, events and configuration\<close>

definition INITIAL_REPUTATION :: u32 where
  "INITIAL_REPUTATION = 1000000000"

definition BLOCKS_TO_WAIT_BEFORE_KEYGEN_RETRY_TRIGGER :: u32 where
  "BLOCKS_TO_WAIT_BEFORE_KEYGEN_RETRY_TRIGGER = 20"

definition REPUTATION_INCREMENT :: u32 where
  "REPUTATION_INCREMENT = INITIAL_REPUTATION div 1000"

datatype metadata_event =
    PublicKeySubmitted bytes
  | NextPublicKeySubmitted bytes
  | NextPublicKeySignatureSubmitted hash256 u64 u32 u32 bytes bytes bytes
  | PublicKeyChanged bytes
  | PublicKeySignatureChanged hash256 u64 u32 u32 bytes bytes bytes
  | MisbehaviourReportsSubmitted misbehaviour_type "dkg_id list" dkg_id
  | ProposerSetVotesSubmitted "dkg_id list" "bytes list" bytes
  | RefreshKeysFinished u64
  | NextKeygenThresholdUpdated u16
  | NextSignatureThresholdUpdated u16
  | PendingKeygenThresholdUpdated u16
  | PendingSignatureThresholdUpdated u16
  | EmergencyKeygenTriggered
  | AuthorityJailed misbehaviour_type dkg_id
  | AuthorityUnJailed dkg_id

text \<open>
  \<open>decay\<close> is the multiplication with the decay percentage (\<open>Percent::mul_floor\<close>);
  \<open>reputation_order\<close> is the order in which the iterator of the storage visits the reputations.
\<close>

record metadata_config =
  m_force_origin :: "origin \<Rightarrow> bool"
  to_merkle_leaf :: "dkg_id \<Rightarrow> bytes"
  keygen_jail_sentence :: block_number
  signing_jail_sentence :: block_number
  decay :: "u128 \<Rightarrow> u128"
  unsigned_interval :: block_number
  unsigned_priority :: u64
  session_period :: block_number
  session_offset :: block_number
  minimum_period :: u64
  max_key_length :: nat
  max_signature_length :: nat
  max_authorities :: nat
  max_proposal_length :: nat
  reputation_order :: "(dkg_id, u128) smap \<Rightarrow> (dkg_id, u128) smap"

section \<open>Storage\<close>

record metadata_state =
  used_signatures :: "bytes list"
  refresh_nonce :: u32
  next_unsigned_at :: block_number
  refresh_in_progress :: bool
  should_execute_new_keygen :: "bool \<times> bool"
  should_submit_proposer_vote :: bool
  next_dkg_public_key :: "(u64 \<times> bytes) option"
  next_public_key_signature :: "bytes option"
  dkg_public_key_opt :: "(u64 \<times> bytes) option"
  dkg_public_key_signature :: bytes
  previous_public_key :: "u64 \<times> bytes"
  historical_rounds :: "u64 \<rightharpoonup> round_metadata"
  signature_threshold :: u16
  keygen_threshold :: u16
  next_signature_threshold :: u16
  next_keygen_threshold :: u16
  pending_signature_threshold :: u16
  pending_keygen_threshold :: u16
  authorities :: "dkg_id list"
  authority_set_id :: u64
  next_authority_set_id :: u64
  next_authorities :: "dkg_id list"
  current_authorities_accounts :: "account_id list"
  next_authorities_accounts :: "account_id list"
  account_to_authority :: "account_id \<rightharpoonup> dkg_id"
  misbehaviour_reports :: "misbehaviour_type \<times> u64 \<times> dkg_id \<rightharpoonup> aggregated_misbehaviour_reports"
  authority_reputations :: "(dkg_id, u128) smap"
  jailed_keygen_authorities :: "dkg_id \<rightharpoonup> block_number"
  jailed_signing_authorities :: "dkg_id \<rightharpoonup> block_number"
  best_authorities :: "(u16 \<times> dkg_id) list"
  next_best_authorities :: "(u16 \<times> dkg_id) list"
  last_session_rotation_block :: block_number
  pending_refresh_proposal :: "refresh_proposal option"
  current_refresh_proposal :: "refresh_proposal option"
  m_events :: "metadata_event list"
  m_log :: "consensus_log list"

definition empty_metadata_state :: metadata_state where
  "empty_metadata_state =
     \<lparr>used_signatures = [], refresh_nonce = 0, next_unsigned_at = 0, refresh_in_progress = False,
      should_execute_new_keygen = (False, False), should_submit_proposer_vote = False,
      next_dkg_public_key = None, next_public_key_signature = None, dkg_public_key_opt = None,
      dkg_public_key_signature = [], previous_public_key = (0, []), historical_rounds = Map.empty,
      signature_threshold = 0, keygen_threshold = 0, next_signature_threshold = 0, next_keygen_threshold = 0,
      pending_signature_threshold = 0, pending_keygen_threshold = 0, authorities = [], authority_set_id = 0,
      next_authority_set_id = 0, next_authorities = [], current_authorities_accounts = [],
      next_authorities_accounts = [], account_to_authority = Map.empty, misbehaviour_reports = Map.empty,
      authority_reputations = [], jailed_keygen_authorities = Map.empty, jailed_signing_authorities = Map.empty,
      best_authorities = [], next_best_authorities = [], last_session_rotation_block = 0,
      pending_refresh_proposal = None, current_refresh_proposal = None, m_events = [], m_log = []\<rparr>"

definition m_deposit :: "metadata_event \<Rightarrow> metadata_state \<Rightarrow> metadata_state" where
  "m_deposit e s = s\<lparr>m_events := m_events s @ [e]\<rparr>"

text \<open>The getters of the \<open>ValueQuery\<close> items that are options or maps here.\<close>

definition dkg_public_key :: "metadata_state \<Rightarrow> u64 \<times> bytes" where
  "dkg_public_key s = (case dkg_public_key_opt s of Some k \<Rightarrow> k | None \<Rightarrow> (0, []))"

definition reputation :: "metadata_state \<Rightarrow> dkg_id \<Rightarrow> u128" where
  "reputation s a = (case map_of (authority_reputations s) a of Some r \<Rightarrow> r | None \<Rightarrow> 0)"

definition set_reputation :: "dkg_id \<Rightarrow> u128 \<Rightarrow> metadata_state \<Rightarrow> metadata_state" where
  "set_reputation a r s = s\<lparr>authority_reputations := AList.update a r (authority_reputations s)\<rparr>"

definition dkg_key :: "metadata_state \<Rightarrow> bytes" where
  "dkg_key s = snd (dkg_public_key s)"

definition previous_dkg_key :: "metadata_state \<Rightarrow> bytes" where
  "previous_dkg_key s = snd (previous_public_key s)"

definition is_member :: "metadata_state \<Rightarrow> dkg_id \<Rightarrow> bool" where
  "is_member s a = (\<exists>i \<in> set (authorities s). i = a)"

definition authority_id_of :: "metadata_state \<Rightarrow> account_id \<Rightarrow> dkg_id option" where
  "authority_id_of s controller = account_to_authority s controller"

definition current_authority_set :: "metadata_state \<Rightarrow> authority_set" where
  "current_authority_set s = \<lparr>set_authorities = authorities s, set_id = authority_set_id s\<rparr>"

definition next_authority_set :: "metadata_state \<Rightarrow> authority_set" where
  "next_authority_set s = \<lparr>set_authorities = next_authorities s, set_id = next_authority_set_id s\<rparr>"

section \<open>Genesis\<close>

record metadata_genesis =
  g_authorities :: "dkg_id list"
  g_keygen_threshold :: u16
  g_signature_threshold :: u16
  g_authority_ids :: "account_id list"

definition metadata_genesis_default :: metadata_genesis where
  "metadata_genesis_default = \<lparr>g_authorities = [], g_keygen_threshold = 3, g_signature_threshold = 1,
     g_authority_ids = []\<rparr>"

definition metadata_genesis_build :: "metadata_genesis \<Rightarrow> metadata_state option" where
  "metadata_genesis_build g =
     (if \<not> g_signature_threshold g < g_keygen_threshold g then None
      else if \<not> 1 < g_keygen_threshold g then None
      else if \<not> unat (g_keygen_threshold g) \<le> length (g_authority_ids g) then None
      else Some (empty_metadata_state\<lparr>
        signature_threshold := g_signature_threshold g, keygen_threshold := g_keygen_threshold g,
        next_signature_threshold := g_signature_threshold g, next_keygen_threshold := g_keygen_threshold g,
        pending_signature_threshold := g_signature_threshold g, pending_keygen_threshold := g_keygen_threshold g,
        refresh_nonce := 0\<rparr>))"

section \<open>Thresholds\<close>

definition update_signature_threshold :: "u16 \<Rightarrow> metadata_state \<Rightarrow> metadata_state" where
  "update_signature_threshold t s = s\<lparr>pending_signature_threshold := t\<rparr>"

definition update_keygen_threshold :: "u16 \<Rightarrow> metadata_state \<Rightarrow> metadata_state" where
  "update_keygen_threshold t s = s\<lparr>pending_keygen_threshold := t\<rparr>"

definition update_next_keygen_threshold :: "u16 \<Rightarrow> metadata_state \<Rightarrow> metadata_state" where
  "update_next_keygen_threshold t s =
     (if next_keygen_threshold s \<noteq> t then m_deposit (NextKeygenThresholdUpdated t) (s\<lparr>next_keygen_threshold := t\<rparr>) else s)"

definition update_pending_keygen_threshold :: "u16 \<Rightarrow> metadata_state \<Rightarrow> metadata_state" where
  "update_pending_keygen_threshold t s =
     (if pending_keygen_threshold s \<noteq> t
      then m_deposit (PendingKeygenThresholdUpdated t) (s\<lparr>pending_keygen_threshold := t\<rparr>) else s)"

definition update_next_signature_threshold :: "u16 \<Rightarrow> metadata_state \<Rightarrow> metadata_state" where
  "update_next_signature_threshold t s =
     (if next_signature_threshold s \<noteq> t
      then m_deposit (NextSignatureThresholdUpdated t) (s\<lparr>next_signature_threshold := t\<rparr>) else s)"

definition set_signature_threshold ::
  "metadata_config \<Rightarrow> origin \<Rightarrow> u16 \<Rightarrow> metadata_state \<Rightarrow> unit dispatch \<times> metadata_state" where
  "set_signature_threshold cfg org new_threshold s =
     (if \<not> m_force_origin cfg org then (Err BadOrigin, s)
      else if \<not> 0 < new_threshold then (Err (MetadataError metadata_error.InvalidThreshold), s)
      else if \<not> unat new_threshold < length (next_authorities s)
        then (Err (MetadataError metadata_error.InvalidThreshold), s)
      else (Ok (), m_deposit (PendingSignatureThresholdUpdated new_threshold)
              (s\<lparr>pending_signature_threshold := new_threshold\<rparr>)))"

definition set_keygen_threshold ::
  "metadata_config \<Rightarrow> origin \<Rightarrow> u16 \<Rightarrow> metadata_state \<Rightarrow> unit dispatch \<times> metadata_state" where
  "set_keygen_threshold cfg org new_threshold s =
     (if \<not> m_force_origin cfg org then (Err BadOrigin, s)
      else if \<not> 1 < new_threshold then (Err (MetadataError metadata_error.InvalidThreshold), s)
      else if \<not> unat new_threshold \<le> length (next_authorities s)
        then (Err (MetadataError metadata_error.InvalidThreshold), s)
      else let s1 = (if new_threshold \<le> pending_signature_threshold s
             then let t = saturating_sub new_threshold 1
                  in m_deposit (PendingSignatureThresholdUpdated t) (update_signature_threshold t s)
             else s)
        in (Ok (), m_deposit (PendingKeygenThresholdUpdated new_threshold) (update_keygen_threshold new_threshold s1)))"

end
