(* ===== verification/Reputation.thy ===== *)
theory Reputation
  imports Metadata_State
begin

text \<open>
  The choice of the authorities for a key generation (\<open>get_best_authorities\<close>): the unjailed
  authorities, filled up with jailed ones when there are too few, ranked by reputation.
\<close>

section \<open>The code\<close>

text \<open>
  \<open>sort_by\<close> is stable, and so is \<open>sort_key\<close>; the comparison of \<open>b\<close> with \<open>a\<close> is the negated key.
\<close>

definition by_reputation :: "metadata_state \<Rightarrow> dkg_id list \<Rightarrow> (u128 \<times> dkg_id) list" where
  "by_reputation s ids = sort_key (\<lambda>p. - int (unat (fst p))) (map (\<lambda>i. (reputation s i, i)) ids)"

definition get_best_authorities_by_reputation :: "nat \<Rightarrow> dkg_id list \<Rightarrow> metadata_state \<Rightarrow> (u16 \<times> dkg_id) list" where
  "get_best_authorities_by_reputation n ids s =
     map (\<lambda>(i, (_, a)). (of_nat (i + 1), a)) (enumerate 0 (take n (by_reputation s ids)))"

definition keygen_jailed :: "metadata_state \<Rightarrow> dkg_id \<Rightarrow> bool" where
  "keygen_jailed s a \<longleftrightarrow> jailed_keygen_authorities s a \<noteq> None"

definition get_best_authorities :: "nat \<Rightarrow> dkg_id list \<Rightarrow> metadata_state \<Rightarrow> (u16 \<times> dkg_id) list" where
  "get_best_authorities n ids s =
     (let jailed_authorities = filter (keygen_jailed s) ids;
          best = filter (\<lambda>a. \<not> keygen_jailed s a) ids;
          best' = (if length best < n
            then best @ map snd (get_best_authorities_by_reputation (n - length best) jailed_authorities s)
            else best)
      in get_best_authorities_by_reputation n best' s)"

section \<open>Ranking\<close>

definition ranked :: "metadata_state \<Rightarrow> dkg_id list \<Rightarrow> dkg_id list" where
  "ranked s ids = sort_key (\<lambda>a. - int (unat (reputation s a))) ids"

lemma insort_key_map: "insort_key f (g x) (map g xs) = map g (insort_key (\<lambda>y. f (g y)) x xs)"
  by (induction xs) auto

lemma sort_key_map: "sort_key f (map g xs) = map g (sort_key (\<lambda>y. f (g y)) xs)"
  by (induction xs) (auto simp: insort_key_map)

lemma by_reputation_ranked: "by_reputation s ids = map (\<lambda>a. (reputation s a, a)) (ranked s ids)"
  by (simp add: by_reputation_def ranked_def sort_key_map)

lemma ranked_simps [simp]:
  "length (ranked s ids) = length ids" "set (ranked s ids) = set ids"
  "distinct (ranked s ids) \<longleftrightarrow> distinct ids" "mset (ranked s ids) = mset ids"
  by (simp_all add: ranked_def)

lemma ranked_sorted: "sorted_wrt (\<lambda>a b. reputation s b \<le> reputation s a) (ranked s ids)"
proof -
  have "sorted (map (\<lambda>a. - int (unat (reputation s a))) (ranked s ids))"
    by (simp add: ranked_def)
  then show ?thesis
    by (simp add: sorted_wrt_map word_le_def)
qed

lemma best_by_reputation_snd: "map snd (get_best_authorities_by_reputation n ids s) = take n (ranked s ids)"
proof -
  have "map snd (get_best_authorities_by_reputation n ids s) = map (\<lambda>p. snd (snd p)) (enumerate 0 (take n (by_reputation s ids)))"
    by (simp add: get_best_authorities_by_reputation_def comp_def case_prod_beta)
  also have "\<dots> = map snd (map snd (enumerate 0 (take n (by_reputation s ids))))"
    by (simp only: map_map comp_def)
  also have "\<dots> = map snd (take n (by_reputation s ids))"
    by (simp only: map_snd_enumerate)
  finally show ?thesis
    by (simp add: by_reputation_ranked take_map comp_def)
qed

lemma best_by_reputation_fst:
  "map fst (get_best_authorities_by_reputation n ids s) = map of_nat [1..<Suc (min n (length ids))]"
proof -
  have "map fst (get_best_authorities_by_reputation n ids s) =
      map (\<lambda>p. of_nat (Suc (fst p))) (enumerate 0 (take n (by_reputation s ids)))"
    by (simp add: get_best_authorities_by_reputation_def comp_def case_prod_beta)
  also have "\<dots> = map of_nat (map Suc (map fst (enumerate 0 (take n (by_reputation s ids)))))"
    by (simp only: map_map comp_def)
  also have "\<dots> = map of_nat (map Suc [0..<min n (length ids)])"
    by (simp only: map_fst_enumerate by_reputation_ranked length_take length_map ranked_simps min.commute add_0)
  also have "\<dots> = map of_nat [1..<Suc (min n (length ids))]"
    by (simp only: map_Suc_upt One_nat_def)
  finally show ?thesis .
qed

text \<open>The first entries of a ranking are no worse than those left out.\<close>

lemma ranked_take_best:
  assumes "a \<in> set (take n (ranked s ids))" and "b \<in> set ids" and "b \<notin> set (take n (ranked s ids))"
  shows "reputation s b \<le> reputation s a"
proof -
  have "b \<in> set (drop n (ranked s ids))"
    using assms(2,3) by (metis Un_iff append_take_drop_id ranked_simps(2) set_append)
  with assms(1) show ?thesis
    using ranked_sorted [of s ids] append_take_drop_id [of n "ranked s ids"]
    by (metis (no_types, lifting) sorted_wrt_append)
qed

section \<open>The chosen authorities\<close>

text \<open>The candidates: the unjailed authorities, and the best of the jailed if there are too few.\<close>

definition candidates :: "nat \<Rightarrow> dkg_id list \<Rightarrow> metadata_state \<Rightarrow> dkg_id list" where
  "candidates n ids s = filter (\<lambda>a. \<not> keygen_jailed s a) ids @
     take (n - length (filter (\<lambda>a. \<not> keygen_jailed s a) ids)) (ranked s (filter (keygen_jailed s) ids))"

lemma get_best_authorities_eq:
  "get_best_authorities n ids s = get_best_authorities_by_reputation n (candidates n ids s) s"
  by (simp add: get_best_authorities_def candidates_def best_by_reputation_snd Let_def)

lemma length_filter_split: "length (filter P xs) + length (filter (\<lambda>x. \<not> P x) xs) = length xs"
  by (rule sum_length_filter_compl)

lemma length_candidates: "min n (length (candidates n ids s)) = min n (length ids)"
  using length_filter_split [of "keygen_jailed s" ids] by (auto simp: candidates_def min_def)

lemma candidates_subset: "set (candidates n ids s) \<subseteq> set ids"
  using set_take_subset [of _ "ranked s (filter (keygen_jailed s) ids)"] by (fastforce simp: candidates_def)

lemma distinct_candidates: "distinct ids \<Longrightarrow> distinct (candidates n ids s)"
  using set_take_subset [of _ "ranked s (filter (keygen_jailed s) ids)"] by (fastforce simp: candidates_def)

lemma best_authorities_snd: "map snd (get_best_authorities n ids s) = take n (ranked s (candidates n ids s))"
  by (simp add: get_best_authorities_eq best_by_reputation_snd)

lemma best_authorities_fst: "map fst (get_best_authorities n ids s) = map of_nat [1..<Suc (min n (length ids))]"
  by (simp add: get_best_authorities_eq best_by_reputation_fst length_candidates)

lemma length_best_authorities [simp]: "length (get_best_authorities n ids s) = min n (length ids)"
  using arg_cong [OF best_authorities_fst, of length n ids s] by (simp only: length_map length_upt diff_Suc_1 One_nat_def diff_Suc_Suc diff_zero)

lemma best_authorities_subset: "snd ` set (get_best_authorities n ids s) \<subseteq> set ids"
proof -
  have "snd ` set (get_best_authorities n ids s) = set (take n (ranked s (candidates n ids s)))"
    by (metis best_authorities_snd list.set_map)
  then show ?thesis
    using set_take_subset [of n "ranked s (candidates n ids s)"] candidates_subset [of n ids s] by auto
qed

text \<open>A jailed authority is chosen only when every unjailed one is.\<close>

lemma jailed_last:
  assumes "a \<in> set (map snd (get_best_authorities n ids s))" and "keygen_jailed s a"
    and "b \<in> set ids" and "\<not> keygen_jailed s b"
  shows "b \<in> set (map snd (get_best_authorities n ids s))"
proof -
  let ?u = "filter (\<lambda>a. \<not> keygen_jailed s a) ids"
  have a: "a \<in> set (candidates n ids s)"
    using assms(1) by (metis best_authorities_snd in_set_takeD ranked_simps(2))
  have lt: "length ?u < n"
  proof (rule ccontr)
    assume "\<not> length ?u < n"
    with a assms(2) show False by (simp add: candidates_def)
  qed
  then have "length (candidates n ids s) \<le> n"
    by (simp add: candidates_def)
  then have "take n (ranked s (candidates n ids s)) = ranked s (candidates n ids s)"
    by simp
  then have "set (map snd (get_best_authorities n ids s)) = set (candidates n ids s)"
    by (simp only: best_authorities_snd ranked_simps)
  moreover have "b \<in> set (candidates n ids s)"
    using assms(3,4) by (simp add: candidates_def)
  ultimately show ?thesis by blast
qed

text \<open>Within the unjailed, and within the jailed, the better reputations are preferred.\<close>

lemma best_first:
  assumes a: "a \<in> set (map snd (get_best_authorities n ids s))"
    and b: "b \<in> set ids" "b \<notin> set (map snd (get_best_authorities n ids s))"
    and same: "keygen_jailed s a = keygen_jailed s b"
  shows "reputation s b \<le> reputation s a"
proof (cases "b \<in> set (candidates n ids s)")
  case True
  then show ?thesis
    using a b(2) by (intro ranked_take_best [of a n s "candidates n ids s" b]) (simp_all only: best_authorities_snd not_False_eq_True)
next
  case False
  let ?j = "filter (keygen_jailed s) ids"
  let ?k = "n - length (filter (\<lambda>a. \<not> keygen_jailed s a) ids)"
  have bj: "keygen_jailed s b" and bt: "b \<notin> set (take ?k (ranked s ?j))"
    using False b(1) by (auto simp: candidates_def)
  have "a \<in> set (candidates n ids s)"
    using a by (metis best_authorities_snd in_set_takeD ranked_simps(2))
  with bj same have "a \<in> set (take ?k (ranked s ?j))"
    by (auto simp: candidates_def)
  with bt bj b(1) show ?thesis
    using ranked_take_best [of a ?k s ?j b] by simp
qed

end
