(* ===== verification/Key_Submission.thy ===== *)
theory Key_Submission
  imports Reputation "HOL-Library.List_Lexorder"
begin

text \<open>
  The submission of public keys by the authorities of a key generation: the signatures are grouped by
  key, and the first key, in the order of the map, that enough authorities signed is stored.
\<close>

section \<open>The code\<close>

text \<open>The dictionary is a \<open>BTreeMap\<close>: its iterator visits the keys in ascending order.\<close>

type_synonym key_dict = "(bytes, dkg_id list) smap"

definition in_key_order :: "key_dict \<Rightarrow> key_dict" where
  "in_key_order dict = sort_key fst dict"

definition add_reporter :: "bytes \<Rightarrow> dkg_id \<Rightarrow> key_dict \<Rightarrow> key_dict" where
  "add_reporter pk authority dict =
     (let temp = (case map_of dict pk of Some v \<Rightarrow> v | None \<Rightarrow> [])
      in AList.update pk (if authority \<in> set temp then temp else temp @ [authority]) dict)"

fun process_public_key_submissions ::
  "ext \<Rightarrow> (bytes \<times> bytes) list \<Rightarrow> dkg_id list \<Rightarrow> key_dict \<Rightarrow> key_dict dispatch" where
  "process_public_key_submissions x [] auths dict = Ok dict"
| "process_public_key_submissions x ((pk, sig) # rest) auths dict =
     (if list_ex (\<lambda>a. to_slice_33 a = None) auths then Panic
      else case verify_signer_from_set_ecdsa x auths pk sig of
        (None, _) \<Rightarrow> Err (MetadataError CannotRetreiveSigner)
      | (Some authority, success) \<Rightarrow>
          process_public_key_submissions x rest auths
            (if success then add_reporter pk authority dict else dict))"

definition find_quorum :: "u16 \<Rightarrow> key_dict \<Rightarrow> (bytes \<times> dkg_id list) option" where
  "find_quorum threshold dict = List.find (\<lambda>(_, rs). unat threshold \<le> length rs) (in_key_order dict)"

definition submit_public_key ::
  "metadata_config \<Rightarrow> ext \<Rightarrow> block_number \<Rightarrow> origin \<Rightarrow> aggregated_public_keys \<Rightarrow> metadata_state \<Rightarrow>
   unit dispatch \<times> metadata_state" where
  "submit_public_key cfg x now org keys s =
     (if org \<noteq> NoOrigin then (Err BadOrigin, s)
      else if dkg_public_key_opt s \<noteq> None then (Err (MetadataError AlreadySubmittedPublicKey), s)
      else case process_public_key_submissions x (keys_and_signatures keys) (map snd (best_authorities s)) [] of
        Err e \<Rightarrow> (Err e, s)
      | Panic \<Rightarrow> (Panic, s)
      | Ok dict \<Rightarrow>
          (case find_quorum (signature_threshold s) dict of
             None \<Rightarrow> (Err (MetadataError InvalidPublicKeys), s)
           | Some (key, accounts) \<Rightarrow>
               (case try_bounded (max_key_length cfg) key of
                  None \<Rightarrow> (Err (MetadataError metadata_error.OutOfBounds), s)
                | Some bounded_key \<Rightarrow>
                    let s1 = m_deposit (PublicKeySubmitted key)
                               (s\<lparr>dkg_public_key_opt := Some (authority_set_id s, bounded_key)\<rparr>);
                        s2 = fold (\<lambda>a s. set_reputation a
                               (saturating_add (decay cfg (reputation s a)) (ucast INITIAL_REPUTATION)) s) accounts s1
                    in (Ok (), s2\<lparr>next_unsigned_at := now + unsigned_interval cfg\<rparr>))))"

definition submit_next_public_key ::
  "metadata_config \<Rightarrow> ext \<Rightarrow> block_number \<Rightarrow> origin \<Rightarrow> aggregated_public_keys \<Rightarrow> metadata_state \<Rightarrow>
   unit dispatch \<times> metadata_state" where
  "submit_next_public_key cfg x now org keys s =
     (if org \<noteq> NoOrigin then (Err BadOrigin, s)
      else if next_dkg_public_key s \<noteq> None then (Err (MetadataError AlreadySubmittedPublicKey), s)
      else case process_public_key_submissions x (keys_and_signatures keys) (map snd (next_best_authorities s)) [] of
        Err e \<Rightarrow> (Err e, s)
      | Panic \<Rightarrow> (Panic, s)
      | Ok dict \<Rightarrow>
          (case find_quorum (next_signature_threshold s) dict of
             None \<Rightarrow> (Err (MetadataError InvalidPublicKeys), s)
           | Some (key, accounts) \<Rightarrow>
               (case try_bounded (max_key_length cfg) key of
                  None \<Rightarrow> (Err (MetadataError metadata_error.OutOfBounds), s)
                | Some bounded_key \<Rightarrow>
                    let s1 = s\<lparr>next_dkg_public_key := Some (next_authority_set_id s, bounded_key)\<rparr>;
                        s2 = fold (\<lambda>a s. set_reputation a
                               (saturating_add (reputation s a) (ucast REPUTATION_INCREMENT)) s) accounts s1;
                        s3 = m_deposit (NextPublicKeySubmitted key) s2
                    in (Ok (), s3\<lparr>next_unsigned_at := now + unsigned_interval cfg, refresh_in_progress := False\<rparr>))))"

section \<open>The dictionary of reporters\<close>

text \<open>What the dictionary holds: for every key distinct authorities that signed it.\<close>

definition wf_dict :: "ext \<Rightarrow> (bytes \<times> bytes) list \<Rightarrow> dkg_id list \<Rightarrow> key_dict \<Rightarrow> bool" where
  "wf_dict x subs auths dict \<longleftrightarrow> wf_smap dict \<and>
     (\<forall>k rs. map_of dict k = Some rs \<longrightarrow> distinct rs \<and>
        (\<forall>a \<in> set rs. a \<in> set auths \<and> (\<exists>sig. (k, sig) \<in> set subs \<and> signed_by x a k sig)))"

lemma wf_dictD:
  assumes "wf_dict x subs auths dict"
  shows "wf_smap dict" and "map_of dict k = Some rs \<Longrightarrow> distinct rs"
    and "map_of dict k = Some rs \<Longrightarrow> a \<in> set rs \<Longrightarrow> a \<in> set auths \<and> (\<exists>sig. (k, sig) \<in> set subs \<and> signed_by x a k sig)"
  using assms unfolding wf_dict_def by blast+

lemma wf_dict_add:
  assumes "wf_dict x subs auths dict" and "(k, sig) \<in> set subs" and "a \<in> set auths" and "signed_by x a k sig"
  shows "wf_dict x subs auths (add_reporter k a dict)"
proof -
  have ok: "distinct rs \<and> (\<forall>b \<in> set rs. b \<in> set auths \<and> (\<exists>sig. (k', sig) \<in> set subs \<and> signed_by x b k' sig))"
    if "map_of dict k' = Some rs" for k' rs
    using assms(1) that unfolding wf_dict_def by blast
  have "distinct rs \<and> (\<forall>b \<in> set rs. b \<in> set auths \<and> (\<exists>sig. (k', sig) \<in> set subs \<and> signed_by x b k' sig))"
    if rs: "map_of (add_reporter k a dict) k' = Some rs" for k' rs
  proof (cases "k' = k")
    case True
    let ?old = "case map_of dict k of Some v \<Rightarrow> v | None \<Rightarrow> []"
    have "distinct ?old \<and> (\<forall>b \<in> set ?old. b \<in> set auths \<and> (\<exists>sig. (k, sig) \<in> set subs \<and> signed_by x b k sig))"
      using ok [of k] by (cases "map_of dict k") simp_all
    moreover have "rs = (if a \<in> set ?old then ?old else ?old @ [a])"
      using rs True by (simp add: add_reporter_def Let_def)
    ultimately show ?thesis
      using True assms(2-4) by auto
  next
    case False
    with rs ok [of k' rs] show ?thesis by (simp add: add_reporter_def Let_def)
  qed
  moreover have "wf_smap (add_reporter k a dict)"
  proof -
    have "wf_smap dict" by (rule wf_dictD(1) [OF assms(1)])
    then show ?thesis by (simp add: add_reporter_def Let_def)
  qed
  ultimately show ?thesis
    unfolding wf_dict_def by blast
qed

lemma process_sound:
  assumes "process_public_key_submissions x subs auths dict = Ok dict'" and "set subs \<subseteq> set all"
    and "wf_dict x all auths dict"
  shows "wf_dict x all auths dict'"
  using assms
proof (induction x subs auths dict arbitrary: dict' rule: process_public_key_submissions.induct)
  case (1 x auths dict)
  then show ?case by simp
next
  case (2 x k sig rest auths dict)
  obtain m ok where v: "verify_signer_from_set_ecdsa x auths k sig = (m, ok)" by (cases "verify_signer_from_set_ecdsa x auths k sig")
  from 2(2) v obtain a where m: "m = Some a"
    by (cases m) (auto split: if_splits)
  from verify_signer_Some [of x auths k sig a ok] v m have a: "ok" "a \<in> set auths" "signed_by x a k sig"
    by auto
  have "wf_dict x all auths (add_reporter k a dict)"
    using 2(3,4) a by (intro wf_dict_add [where sig = sig]) auto
  then show ?case
    using 2(1) [OF _ v [symmetric], of a dict'] 2(2,3) v m a by (auto split: if_splits)
qed

lemma process_Nil_sound:
  "process_public_key_submissions x subs auths [] = Ok dict \<Longrightarrow> wf_dict x subs auths dict"
  by (erule process_sound) (simp_all add: wf_dict_def)

text \<open>Every submission is counted: its signer is among the reporters of its key.\<close>

lemma add_reporter_grows:
  "map_of dict k = Some rs \<Longrightarrow> \<exists>rs'. map_of (add_reporter k' a dict) k = Some rs' \<and> set rs \<subseteq> set rs'"
  by (auto simp: add_reporter_def Let_def)

lemma add_reporter_new: "\<exists>rs. map_of (add_reporter k a dict) k = Some rs \<and> a \<in> set rs"
  by (auto simp: add_reporter_def Let_def)

lemma process_complete:
  assumes "process_public_key_submissions x subs auths dict = Ok dict'"
  shows "(\<forall>k rs. map_of dict k = Some rs \<longrightarrow> (\<exists>rs'. map_of dict' k = Some rs' \<and> set rs \<subseteq> set rs')) \<and>
     (\<forall>k sig. (k, sig) \<in> set subs \<longrightarrow>
        (\<exists>a rs. fst (verify_signer_from_set_ecdsa x auths k sig) = Some a \<and> map_of dict' k = Some rs \<and> a \<in> set rs))"
  using assms
proof (induction x subs auths dict arbitrary: dict' rule: process_public_key_submissions.induct)
  case (1 x auths dict)
  then show ?case by simp
next
  case (2 x k sig rest auths dict)
  obtain m ok where v: "verify_signer_from_set_ecdsa x auths k sig = (m, ok)" by (cases "verify_signer_from_set_ecdsa x auths k sig")
  from 2(2) v obtain a where m: "m = Some a"
    by (cases m) (auto split: if_splits)
  then have ok: "ok"
    using verify_signer_Some [of x auths k sig a ok] v by simp
  have run: "process_public_key_submissions x rest auths (add_reporter k a dict) = Ok dict'"
    and no: "\<not> list_ex (\<lambda>a. to_slice_33 a = None) auths"
    using 2(2) v m ok by (auto split: if_splits)
  note IH = 2(1) [OF no v [symmetric] m, unfolded if_P [OF ok], OF run]
  have old: "\<exists>rs'. map_of dict' k' = Some rs' \<and> set rs \<subseteq> set rs'" if held: "map_of dict k' = Some rs" for k' rs
  proof -
    obtain rs1 where rs1: "map_of (add_reporter k a dict) k' = Some rs1" "set rs \<subseteq> set rs1"
      using add_reporter_grows [OF held] by blast
    then obtain rs2 where "map_of dict' k' = Some rs2" "set rs1 \<subseteq> set rs2"
      using IH by blast
    with rs1 show ?thesis by blast
  qed
  obtain rs1 where "map_of (add_reporter k a dict) k = Some rs1" "a \<in> set rs1"
    using add_reporter_new by blast
  then obtain rs2 where "map_of dict' k = Some rs2" "a \<in> set rs2"
    using IH by blast
  then have new: "\<exists>b rs. fst (verify_signer_from_set_ecdsa x auths k sig) = Some b \<and> map_of dict' k = Some rs \<and> b \<in> set rs"
    using v m by simp
  have "\<exists>b rs. fst (verify_signer_from_set_ecdsa x auths k' sig') = Some b \<and> map_of dict' k' = Some rs \<and> b \<in> set rs"
    if "(k', sig') \<in> set ((k, sig) # rest)" for k' sig'
    using that IH new by auto
  with old show ?case by blast
qed

text \<open>Processing succeeds when every signature is one of an authority.\<close>

lemma process_succeeds:
  assumes "\<And>a. a \<in> set auths \<Longrightarrow> length a = ECDSA_KEY_LENGTH"
    and "\<And>k sig. (k, sig) \<in> set subs \<Longrightarrow> \<exists>a \<in> set auths. signed_by x a k sig"
  shows "\<exists>dict'. process_public_key_submissions x subs auths dict = Ok dict'"
  using assms(2)
proof (induction subs arbitrary: dict)
  case Nil
  then show ?case by simp
next
  case (Cons p rest)
  obtain k sig where p: "p = (k, sig)" by (cases p)
  obtain m ok where v: "verify_signer_from_set_ecdsa x auths k sig = (m, ok)" by (cases "verify_signer_from_set_ecdsa x auths k sig")
  obtain a where "m = Some a"
    using v verify_signer_None [of x auths k sig ok] Cons.prems [of k sig] p by (cases m) auto
  moreover have "\<not> list_ex (\<lambda>a. to_slice_33 a = None) auths"
    using assms(1) by (auto simp: list_ex_iff to_slice_33_def)
  ultimately show ?case
    using Cons.IH Cons.prems p v by simp
qed

section \<open>The accepted key\<close>

lemma find_quorum_Some:
  assumes "find_quorum t dict = Some (k, rs)" and "wf_smap dict"
  shows "map_of dict k = Some rs" and "unat t \<le> length rs"
proof -
  have "(k, rs) \<in> set (in_key_order dict)" and t: "unat t \<le> length rs"
    using assms(1) unfolding find_quorum_def by (auto simp: find_Some_iff) (metis nth_mem)
  with assms(2) show "map_of dict k = Some rs" "unat t \<le> length rs"
    by (simp_all add: in_key_order_def wf_smap_map_of)
qed

lemma find_quorum_exists:
  assumes "map_of dict k = Some rs" and "unat t \<le> length rs"
  shows "find_quorum t dict \<noteq> None"
  using assms map_of_SomeD [OF assms(1)] unfolding find_quorum_def find_None_iff
  by (auto simp: in_key_order_def)

text \<open>What a quorum is: enough distinct authorities of the set each signed the key.\<close>

definition quorum_signed :: "ext \<Rightarrow> (bytes \<times> bytes) list \<Rightarrow> dkg_id list \<Rightarrow> u16 \<Rightarrow> bytes \<Rightarrow> bool" where
  "quorum_signed x subs auths t k \<longleftrightarrow>
     (\<exists>rs. distinct rs \<and> unat t \<le> length rs \<and>
        (\<forall>a \<in> set rs. a \<in> set auths \<and> (\<exists>sig. (k, sig) \<in> set subs \<and> signed_by x a k sig)))"

lemma quorum_sound:
  assumes "process_public_key_submissions x subs auths [] = Ok dict" and "find_quorum t dict = Some (k, rs)"
  shows "quorum_signed x subs auths t k" and "distinct rs" and "set rs \<subseteq> set auths" and "unat t \<le> length rs"
proof -
  have wf: "wf_dict x subs auths dict"
    by (rule process_Nil_sound [OF assms(1)])
  note q = find_quorum_Some [OF assms(2) wf_dictD(1) [OF wf]]
  then have t: "unat t \<le> length rs" by blast
  have *: "distinct rs" "\<forall>a \<in> set rs. a \<in> set auths \<and> (\<exists>sig. (k, sig) \<in> set subs \<and> signed_by x a k sig)"
    using wf_dictD(2,3) [OF wf q(1)] by blast+
  with t show "quorum_signed x subs auths t k" "distinct rs" "set rs \<subseteq> set auths" "unat t \<le> length rs"
    unfolding quorum_signed_def by blast+
qed

lemma reputation_set [simp]: "reputation (set_reputation a r s) b = (if b = a then r else reputation s b)"
  by (simp add: reputation_def set_reputation_def)

text \<open>What giving reputation to the reporters leaves unchanged.\<close>

lemma fold_reputation:
  "\<exists>reps. fold (\<lambda>a s. set_reputation a (f (reputation s a)) s) rs s = s\<lparr>authority_reputations := reps\<rparr> \<and>
     (wf_smap (authority_reputations s) \<longrightarrow> wf_smap reps)"
proof (induction rs arbitrary: s)
  case Nil
  then show ?case by (intro exI [of _ "authority_reputations s"]) simp
next
  case (Cons a rs)
  let ?s1 = "set_reputation a (f (reputation s a)) s"
  from Cons [of ?s1] obtain reps where
    "fold (\<lambda>a s. set_reputation a (f (reputation s a)) s) (a # rs) s = ?s1\<lparr>authority_reputations := reps\<rparr>"
    and "wf_smap (authority_reputations ?s1) \<longrightarrow> wf_smap reps"
    by auto
  then show ?case
    by (intro exI [of _ reps]) (simp add: set_reputation_def)
qed

lemma fold_reputation_value:
  "distinct rs \<Longrightarrow> reputation (fold (\<lambda>a s. set_reputation a (f (reputation s a)) s) rs s) b =
     (if b \<in> set rs then f (reputation s b) else reputation s b)"
  by (induction rs arbitrary: s) auto

lemma submit_public_key_Ok:
  assumes "submit_public_key cfg x now org keys s = (Ok (), s')"
  shows "\<exists>k reps. org = NoOrigin \<and> dkg_public_key_opt s = None \<and> length k \<le> max_key_length cfg \<and>
     quorum_signed x (keys_and_signatures keys) (map snd (best_authorities s)) (signature_threshold s) k \<and>
     s' = (m_deposit (PublicKeySubmitted k) (s\<lparr>dkg_public_key_opt := Some (authority_set_id s, k)\<rparr>))
            \<lparr>authority_reputations := reps, next_unsigned_at := now + unsigned_interval cfg\<rparr> \<and>
     (wf_smap (authority_reputations s) \<longrightarrow> wf_smap reps)"
proof -
  let ?au = "map snd (best_authorities s)"
  let ?f = "\<lambda>r. saturating_add (decay cfg r) (ucast INITIAL_REPUTATION)"
  let ?bump = "fold (\<lambda>a s. set_reputation a (?f (reputation s a)) s)"
  have o: "org = NoOrigin" "dkg_public_key_opt s = None"
    using assms by (cases "org = NoOrigin"; cases "dkg_public_key_opt s"; simp add: submit_public_key_def)+
  obtain dict where d: "process_public_key_submissions x (keys_and_signatures keys) ?au [] = Ok dict"
    using assms o by (cases "process_public_key_submissions x (keys_and_signatures keys) ?au []") (auto simp: submit_public_key_def)
  obtain k rs where q: "find_quorum (signature_threshold s) dict = Some (k, rs)"
    using assms o d by (cases "find_quorum (signature_threshold s) dict") (auto simp: submit_public_key_def)
  have len: "length k \<le> max_key_length cfg"
    using assms o d q by (auto simp: submit_public_key_def try_bounded_def split: if_splits)
  let ?s1 = "m_deposit (PublicKeySubmitted k) (s\<lparr>dkg_public_key_opt := Some (authority_set_id s, k)\<rparr>)"
  have s': "s' = (?bump rs ?s1)\<lparr>next_unsigned_at := now + unsigned_interval cfg\<rparr>"
    using assms o d q len by (simp add: submit_public_key_def try_bounded_def Let_def)
  obtain reps where "?bump rs ?s1 = ?s1\<lparr>authority_reputations := reps\<rparr>"
      "wf_smap (authority_reputations ?s1) \<longrightarrow> wf_smap reps"
    using fold_reputation [where f = ?f and s = ?s1 and rs = rs] by blast
  with o len s' quorum_sound(1) [OF d q] show ?thesis
    by (intro exI [of _ k] exI [of _ reps]) (simp add: m_deposit_def)
qed

lemma submit_next_public_key_Ok:
  assumes "submit_next_public_key cfg x now org keys s = (Ok (), s')"
  shows "\<exists>k rs reps. org = NoOrigin \<and> next_dkg_public_key s = None \<and> length k \<le> max_key_length cfg \<and>
     quorum_signed x (keys_and_signatures keys) (map snd (next_best_authorities s)) (next_signature_threshold s) k \<and>
     s' = (m_deposit (NextPublicKeySubmitted k) (s\<lparr>next_dkg_public_key := Some (next_authority_set_id s, k)\<rparr>))
            \<lparr>authority_reputations := reps, next_unsigned_at := now + unsigned_interval cfg, refresh_in_progress := False\<rparr> \<and>
     (wf_smap (authority_reputations s) \<longrightarrow> wf_smap reps) \<and> distinct rs \<and> set rs \<subseteq> set (map snd (next_best_authorities s)) \<and> unat (next_signature_threshold s) \<le> length rs \<and>
     (\<forall>a. reputation s' a = (if a \<in> set rs then saturating_add (reputation s a) (ucast REPUTATION_INCREMENT) else reputation s a))"
proof -
  let ?au = "map snd (next_best_authorities s)"
  let ?f = "\<lambda>r. saturating_add r (ucast REPUTATION_INCREMENT)"
  let ?bump = "fold (\<lambda>a s. set_reputation a (?f (reputation s a)) s)"
  have o: "org = NoOrigin" "next_dkg_public_key s = None"
    using assms by (cases "org = NoOrigin"; cases "next_dkg_public_key s"; simp add: submit_next_public_key_def)+
  obtain dict where d: "process_public_key_submissions x (keys_and_signatures keys) ?au [] = Ok dict"
    using assms o by (cases "process_public_key_submissions x (keys_and_signatures keys) ?au []") (auto simp: submit_next_public_key_def)
  obtain k rs where q: "find_quorum (next_signature_threshold s) dict = Some (k, rs)"
    using assms o d by (cases "find_quorum (next_signature_threshold s) dict") (auto simp: submit_next_public_key_def)
  have len: "length k \<le> max_key_length cfg"
    using assms o d q by (auto simp: submit_next_public_key_def try_bounded_def split: if_splits)
  let ?s1 = "s\<lparr>next_dkg_public_key := Some (next_authority_set_id s, k)\<rparr>"
  have s': "s' = (m_deposit (NextPublicKeySubmitted k) (?bump rs ?s1))
      \<lparr>next_unsigned_at := now + unsigned_interval cfg, refresh_in_progress := False\<rparr>"
    using assms o d q len by (simp add: submit_next_public_key_def try_bounded_def Let_def)
  obtain reps where reps: "?bump rs ?s1 = ?s1\<lparr>authority_reputations := reps\<rparr>"
      "wf_smap (authority_reputations ?s1) \<longrightarrow> wf_smap reps"
    using fold_reputation [where f = ?f and s = ?s1 and rs = rs] by blast
  note qs = quorum_sound [OF d q]
  have "reputation s' a = (if a \<in> set rs then ?f (reputation s a) else reputation s a)" for a
    using fold_reputation_value [OF qs(2), where f = ?f, of ?s1 a] s'
    by (simp add: reputation_def m_deposit_def)
  with o len s' reps qs show ?thesis
    by (intro exI [of _ k] exI [of _ rs] exI [of _ reps]) (simp add: m_deposit_def)
qed

end
