(* ===== verification/Misbehaviour.thy ===== *)
theory Misbehaviour
  imports Key_Submission
begin

text \<open>
  Misbehaviour reports and the two jails of \<open>pallet-dkg-metadata\<close>: the verification of the reports,
  the jailing of the offender with its consequences for the next key generation, and the calls that
  release an authority.
\<close>

section \<open>Verifying reports\<close>

definition report_payload :: "aggregated_misbehaviour_reports \<Rightarrow> bytes" where
  "report_payload r = (case misbehaviour r of Keygen \<Rightarrow> [1] | Sign \<Rightarrow> [2]) @
     to_be_bytes (report_session_id r) @ offender r"

definition verifying_keys :: "dkg_id list \<Rightarrow> bytes list" where
  "verifying_keys ids = filter (\<lambda>k. k \<noteq> replicate 33 0)
     (map (\<lambda>a. case to_slice_33 a of Some k \<Rightarrow> k | None \<Rightarrow> replicate 33 0) ids)"

text \<open>The loop over the signatures from index \<open>i\<close> on. Indexing the reporters out of range panics.\<close>

fun collect_reporters ::
  "ext \<Rightarrow> aggregated_misbehaviour_reports \<Rightarrow> bytes list \<Rightarrow> nat \<Rightarrow> bytes list \<Rightarrow> dkg_id list \<Rightarrow> dkg_id list option" where
  "collect_reporters x r keys i [] valid = Some valid"
| "collect_reporters x r keys i (sig # sigs) valid =
     (if snd (verify_signer_from_set_ecdsa x keys (report_payload r) sig)
      then if i < length (reporters r)
           then collect_reporters x r keys (i + 1) sigs
                  (if reporters r ! i \<in> set valid then valid else valid @ [reporters r ! i])
           else None
      else collect_reporters x r keys (i + 1) sigs valid)"

definition process_misbehaviour_reports ::
  "ext \<Rightarrow> aggregated_misbehaviour_reports \<Rightarrow> dkg_id list \<Rightarrow> dkg_id list option" where
  "process_misbehaviour_reports x r verifying_set =
     collect_reporters x r (verifying_keys verifying_set) 0 (report_signatures r) []"

section \<open>Jailing an authority\<close>

definition u16_try_from :: "nat \<Rightarrow> u16" where
  "u16_try_from n = (if n < 65536 then of_nat n else 0)"

text \<open>What every accepted report ends with, unless the keygen branch returned early.\<close>

definition finish_report ::
  "metadata_config \<Rightarrow> block_number \<Rightarrow> aggregated_misbehaviour_reports \<Rightarrow> dkg_id list \<Rightarrow> metadata_state \<Rightarrow>
   unit dispatch \<times> metadata_state" where
  "finish_report cfg now r valid s =
     (Ok (), (m_deposit (MisbehaviourReportsSubmitted (misbehaviour r) valid (offender r)) s)
        \<lparr>next_unsigned_at := now + unsigned_interval cfg\<rparr>)"

definition unjailed_next_best :: "metadata_state \<Rightarrow> dkg_id list" where
  "unjailed_next_best s = map snd (filter (\<lambda>(_, a). \<not> keygen_jailed s a) (next_best_authorities s))"

text \<open>Authorities that are neither jailed nor in the next key generation yet.\<close>

definition spare_authorities :: "dkg_id list \<Rightarrow> metadata_state \<Rightarrow> dkg_id list" where
  "spare_authorities unjailed s =
     filter (\<lambda>a. \<not> keygen_jailed s a) (filter (\<lambda>a. a \<notin> set unjailed) (next_authorities s))"

definition replacement :: "metadata_config \<Rightarrow> dkg_id list \<Rightarrow> metadata_state \<Rightarrow> dkg_id" where
  "replacement cfg spare s =
     (let ordered = sort_key (\<lambda>p. snd p)
            (filter (\<lambda>p. fst p \<in> set spare) (reputation_order cfg (authority_reputations s)))
      in if ordered \<noteq> [] then fst (last ordered) else hd spare)"

definition put_next_best ::
  "metadata_config \<Rightarrow> dkg_id list \<Rightarrow> metadata_state \<Rightarrow> unit dispatch \<times> metadata_state" where
  "put_next_best cfg ids s =
     (case try_bounded (max_authorities cfg) (get_best_authorities (unat (next_keygen_threshold s)) ids s) of
        None \<Rightarrow> (Err (MetadataError metadata_error.OutOfBounds), s)
      | Some best \<Rightarrow>
          if \<not> 2 \<le> length best then (Err (MetadataError NotEnoughAuthoritiesToJail), s)
          else (Ok (), s\<lparr>next_best_authorities := best\<rparr>))"

definition drop_keygen_threshold :: "dkg_id list \<Rightarrow> metadata_state \<Rightarrow> metadata_state" where
  "drop_keygen_threshold unjailed s =
     (if length unjailed \<le> unat (next_keygen_threshold s) \<and> 2 < length unjailed
      then let new_val = u16_try_from (length unjailed - 1);
               s1 = update_pending_keygen_threshold new_val (update_next_keygen_threshold new_val s)
           in if next_keygen_threshold s1 \<le> next_signature_threshold s1
              then let t = next_signature_threshold s1
                   in if t \<noteq> 1 then s1\<lparr>next_signature_threshold := t - 1, pending_signature_threshold := t - 1\<rparr> else s1
              else s1
      else s)"

definition jail_for_keygen ::
  "metadata_config \<Rightarrow> block_number \<Rightarrow> aggregated_misbehaviour_reports \<Rightarrow> dkg_id list \<Rightarrow> metadata_state \<Rightarrow>
   unit dispatch \<times> metadata_state" where
  "jail_for_keygen cfg now r valid s =
     (let unjailed = unjailed_next_best s;
          others = filter (\<lambda>a. a \<noteq> offender r) unjailed
      in if offender r \<in> set unjailed
         then let s1 = m_deposit (AuthorityJailed Keygen (offender r))
                    (s\<lparr>jailed_keygen_authorities := (jailed_keygen_authorities s)(offender r \<mapsto> now)\<rparr>);
                  spare = spare_authorities unjailed s1
              in if spare \<noteq> []
                 then and_then (put_next_best cfg (others @ [replacement cfg spare s1]) s1) (\<lambda>_ s.
                        (Ok (), m_deposit (MisbehaviourReportsSubmitted (misbehaviour r) valid (offender r)) s))
                 else and_then (put_next_best cfg others (drop_keygen_threshold unjailed s1)) (\<lambda>_.
                        finish_report cfg now r valid)
         else and_then (put_next_best cfg others s) (\<lambda>_. finish_report cfg now r valid))"

definition jail_for_signing ::
  "metadata_config \<Rightarrow> block_number \<Rightarrow> aggregated_misbehaviour_reports \<Rightarrow> dkg_id list \<Rightarrow> u16 \<Rightarrow> metadata_state \<Rightarrow>
   unit dispatch \<times> metadata_state" where
  "jail_for_signing cfg now r valid threshold s =
     (let unjailed = map snd (filter (\<lambda>(_, a). jailed_signing_authorities s a = None \<or> a \<noteq> offender r) (best_authorities s));
          jail = (\<lambda>s. s\<lparr>jailed_signing_authorities := (jailed_signing_authorities s)(offender r \<mapsto> now)\<rparr>);
          s1 = (if length unjailed < unat threshold
            then if unjailed \<noteq> []
                 then let new_val = u16_try_from (length unjailed - 1)
                      in (update_next_signature_threshold new_val (jail s))\<lparr>pending_signature_threshold := new_val\<rparr>
                 else s
            else m_deposit (AuthorityJailed Sign (offender r)) (jail s))
      in finish_report cfg now r valid s1)"

definition submit_misbehaviour_reports ::
  "metadata_config \<Rightarrow> ext \<Rightarrow> block_number \<Rightarrow> origin \<Rightarrow> aggregated_misbehaviour_reports \<Rightarrow> metadata_state \<Rightarrow>
   unit dispatch \<times> metadata_state" where
  "submit_misbehaviour_reports cfg x now org r s =
     (if org \<noteq> NoOrigin then (Err BadOrigin, s)
      else if keygen_jailed s (offender r) then (Err (MetadataError AlreadyJailed), s)
      else if jailed_signing_authorities s (offender r) \<noteq> None then (Err (MetadataError AlreadyJailed), s)
      else let auths = (case misbehaviour r of Keygen \<Rightarrow> next_authorities s | Sign \<Rightarrow> authorities s)
        in if offender r \<notin> set auths then (Err (MetadataError OffenderNotAuthority), s)
           else case process_misbehaviour_reports x r auths of
             None \<Rightarrow> (Panic, s)
           | Some valid \<Rightarrow>
               let threshold = (case misbehaviour r of Keygen \<Rightarrow> next_signature_threshold s | Sign \<Rightarrow> signature_threshold s)
               in if unat threshold < length valid
                  then let s1 = set_reputation (offender r) (decay cfg (reputation s (offender r))) s
                       in case misbehaviour r of
                            Keygen \<Rightarrow> jail_for_keygen cfg now r valid s1
                          | Sign \<Rightarrow> jail_for_signing cfg now r valid threshold s1
                  else (Err (MetadataError InvalidMisbehaviourReports), s))"

section \<open>Leaving the jails\<close>

definition release :: "block_number \<Rightarrow> block_number \<Rightarrow> dkg_id \<Rightarrow> (dkg_id \<rightharpoonup> block_number) \<Rightarrow> (dkg_id \<rightharpoonup> block_number)" where
  "release now sentence a jail =
     (let since = (case jail a of Some b \<Rightarrow> b | None \<Rightarrow> 0)
      in if saturating_add since sentence < now then jail(a := None) else jail)"

definition unjail ::
  "metadata_config \<Rightarrow> block_number \<Rightarrow> origin \<Rightarrow> metadata_state \<Rightarrow> unit dispatch \<times> metadata_state" where
  "unjail cfg now org s =
     (case org of
        Signed who \<Rightarrow>
          (case authority_id_of s who of
             None \<Rightarrow> (Err (MetadataError InvalidControllerAccount), s)
           | Some a \<Rightarrow> (Ok (), s\<lparr>
               jailed_keygen_authorities := release now (keygen_jail_sentence cfg) a (jailed_keygen_authorities s),
               jailed_signing_authorities := release now (signing_jail_sentence cfg) a (jailed_signing_authorities s)\<rparr>))
      | _ \<Rightarrow> (Err BadOrigin, s))"

definition force_unjail_keygen ::
  "metadata_config \<Rightarrow> origin \<Rightarrow> dkg_id \<Rightarrow> metadata_state \<Rightarrow> unit dispatch \<times> metadata_state" where
  "force_unjail_keygen cfg org a s =
     (if \<not> m_force_origin cfg org then (Err BadOrigin, s)
      else (Ok (), m_deposit (AuthorityUnJailed a)
              (s\<lparr>jailed_keygen_authorities := (jailed_keygen_authorities s)(a := None)\<rparr>)))"

definition force_unjail_signing ::
  "metadata_config \<Rightarrow> origin \<Rightarrow> dkg_id \<Rightarrow> metadata_state \<Rightarrow> unit dispatch \<times> metadata_state" where
  "force_unjail_signing cfg org a s =
     (if \<not> m_force_origin cfg org then (Err BadOrigin, s)
      else (Ok (), m_deposit (AuthorityUnJailed a)
              (s\<lparr>jailed_signing_authorities := (jailed_signing_authorities s)(a := None)\<rparr>)))"

section \<open>Who is counted as a reporter\<close>

text \<open>Every signature of a member of the set counts for the name that stands at its position.\<close>

lemma collect_reporters_all:
  assumes "\<And>sig. sig \<in> set sigs \<Longrightarrow> snd (verify_signer_from_set_ecdsa x keys (report_payload r) sig)"
    and "i + length sigs \<le> length (reporters r)" and "distinct (valid @ take (length sigs) (drop i (reporters r)))"
  shows "collect_reporters x r keys i sigs valid = Some (valid @ take (length sigs) (drop i (reporters r)))"
  using assms
proof (induction sigs arbitrary: i valid)
  case Nil
  then show ?case by simp
next
  case (Cons sig sigs)
  let ?rep = "reporters r ! i"
  have i: "i < length (reporters r)" using Cons.prems(2) by simp
  then have split: "take (length (sig # sigs)) (drop i (reporters r)) = ?rep # take (length sigs) (drop (i + 1) (reporters r))"
    by (simp add: Cons_nth_drop_Suc [symmetric])
  have new: "?rep \<notin> set valid"
    using Cons.prems(3) split by auto
  have "collect_reporters x r keys (i + 1) sigs (valid @ [?rep]) =
      Some ((valid @ [?rep]) @ take (length sigs) (drop (i + 1) (reporters r)))"
    using Cons.prems split by (intro Cons.IH) auto
  then show ?case
    using Cons.prems(1) [of sig] i new split by simp
qed

lemma verifying_keys_member:
  "a \<in> set ids \<Longrightarrow> length a = 33 \<Longrightarrow> a \<noteq> replicate 33 0 \<Longrightarrow> a \<in> set (verifying_keys ids)"
  by (force simp: verifying_keys_def to_slice_33_def ECDSA_KEY_LENGTH_def)

text \<open>The jail of an accepted signing report: nobody is filtered out of the best authorities.\<close>

lemma signing_filter_keeps_all:
  assumes "jailed_signing_authorities s off = None"
  shows "filter (\<lambda>(_, a). jailed_signing_authorities s a = None \<or> a \<noteq> off) (best_authorities s) = best_authorities s"
  using assms by (intro filter_True) auto

text \<open>A jailed authority leaves the next key generation when there is a spare authority.\<close>

lemma put_next_best_Ok:
  "put_next_best cfg ids s = (Ok (), s') \<longleftrightarrow>
     (let best = get_best_authorities (unat (next_keygen_threshold s)) ids s
      in length best \<le> max_authorities cfg \<and> 2 \<le> length best \<and> s' = s\<lparr>next_best_authorities := best\<rparr>)"
  by (auto simp: put_next_best_def try_bounded_def Let_def)

end
