(* ===== verification/Rotation.thy ===== *)
theory Rotation
  imports Misbehaviour
begin

text \<open>
  The rotation of the DKG key in \<open>pallet-dkg-metadata\<close>: the refresh proposal for the next key, the
  change of the authorities at a session change or by force, the hook at the start of a block, the
  session handler and the periodic sessions, the processing of a signed refresh proposal, and the
  validation of unsigned calls.

  The pallet calls two others: the proposal handler takes the refresh proposal
  (\<open>'w unsigned_handler\<close>) and the listener of authority set changes is told of the new set
  (\<open>'w set_change_listener\<close>, \<open>None\<close> when it panics). Both act on the state \<open>'w\<close> of the other pallets.
\<close>

type_synonym 'w set_change_listener = "account_id list \<Rightarrow> dkg_id list \<Rightarrow> 'w \<Rightarrow> 'w option"

section \<open>Refresh proposals\<close>

definition decompress_public_key :: "ext \<Rightarrow> bytes \<Rightarrow> bytes dispatch" where
  "decompress_public_key x compressed =
     (case secp256k1_decompress x compressed of
        None \<Rightarrow> Err (MetadataError InvalidPublicKeys)
      | Some result \<Rightarrow> if length result = 65 then Ok (tl result) else Ok result)"

definition average_session_length :: "metadata_config \<Rightarrow> block_number" where
  "average_session_length cfg = session_period cfg"

definition create_voter_set_data :: "metadata_config \<Rightarrow> ext \<Rightarrow> metadata_state \<Rightarrow> voter_set_data option" where
  "create_voter_set_data cfg x s =
     (let voters = next_authorities s
      in case get_voter_set_tree_root x (to_merkle_leaf cfg) voters of
           None \<Rightarrow> None
         | Some root \<Rightarrow>
             let average_session_length_in_blocks = ucast (average_session_length cfg) :: u64;
                 average_millisecs_per_block = saturating_mul (minimum_period cfg) 2
             in Some \<lparr>voter_set_merkle_root = root,
                      average_session_length_in_millisecs =
                        saturating_mul average_session_length_in_blocks average_millisecs_per_block,
                      vs_voter_count = of_nat (length voters)\<rparr>)"

definition create_refresh_proposal ::
  "metadata_config \<Rightarrow> ext \<Rightarrow> bytes \<Rightarrow> u32 \<Rightarrow> metadata_state \<Rightarrow> proposal dispatch \<times> metadata_state" where
  "create_refresh_proposal cfg x key n s =
     (case decompress_public_key x key of
        Err e \<Rightarrow> (Err e, s)
      | Panic \<Rightarrow> (Panic, s)
      | Ok uncompressed_pub_key \<Rightarrow>
          (case create_voter_set_data cfg x s of
             None \<Rightarrow> (Panic, s)
           | Some v \<Rightarrow>
               let refresh = \<lparr>voter_merkle_root = voter_set_merkle_root v,
                     session_length = average_session_length_in_millisecs v,
                     voter_count = vs_voter_count v, nonce = n, pub_key = uncompressed_pub_key\<rparr>;
                   s1 = s\<lparr>pending_refresh_proposal := Some refresh\<rparr>
               in case refresh_encode x refresh of
                    None \<Rightarrow> (Panic, s1)
                  | Some bs \<Rightarrow>
                      (Ok (UnsignedProposal Refresh (if length bs \<le> max_proposal_length cfg then bs else [])), s1)))"

fun do_refresh ::
  "metadata_config \<Rightarrow> ext \<Rightarrow> 'w unsigned_handler \<Rightarrow> bytes \<Rightarrow> metadata_state \<times> 'w \<Rightarrow>
   unit dispatch \<times> (metadata_state \<times> 'w)" where
  "do_refresh cfg x hup key (s, w) =
     (case create_refresh_proposal cfg x key (refresh_nonce s + 1) s of
        (Err e, s1) \<Rightarrow> (Ok (), (s1, w))
      | (Panic, s1) \<Rightarrow> (Panic, (s1, w))
      | (Ok p, s1) \<Rightarrow>
          (case hup p w of
             (Ok _, w1) \<Rightarrow> (Ok (), (s1\<lparr>refresh_in_progress := True\<rparr>, w1))
           | (Err e, w1) \<Rightarrow> (Ok (), (s1, w1))
           | (Panic, w1) \<Rightarrow> (Panic, (s1, w1))))"

definition should_refresh :: "metadata_state \<Rightarrow> bool" where
  "should_refresh s \<longleftrightarrow> next_dkg_public_key s \<noteq> None \<and> next_public_key_signature s = None"

section \<open>The start of a block\<close>

definition trigger_keygen :: "metadata_config \<Rightarrow> block_number \<Rightarrow> metadata_state \<Rightarrow> metadata_state" where
  "trigger_keygen cfg n s =
     (let s1 = (if fst (should_execute_new_keygen s) then s\<lparr>should_execute_new_keygen := (False, False)\<rparr> else s);
          blocks_passed = n - last_session_rotation_block s1
      in if session_period cfg \<le> blocks_passed \<and> blocks_passed mod BLOCKS_TO_WAIT_BEFORE_KEYGEN_RETRY_TRIGGER = 0
         then s1\<lparr>should_execute_new_keygen := (True, False)\<rparr> else s1)"

fun on_initialize ::
  "metadata_config \<Rightarrow> ext \<Rightarrow> 'w unsigned_handler \<Rightarrow> block_number \<Rightarrow> metadata_state \<times> 'w \<Rightarrow>
   unit dispatch \<times> (metadata_state \<times> 'w)" where
  "on_initialize cfg x hup n (s, w) =
     (let s1 = trigger_keygen cfg n s
      in if should_refresh s1 \<and> \<not> refresh_in_progress s1
         then case next_dkg_public_key s1 of
                Some k \<Rightarrow> do_refresh cfg x hup (snd k) (s1, w)
              | None \<Rightarrow> (Ok (), (s1, w))
         else (Ok (), (s1, w)))"

section \<open>Changing the authorities\<close>

definition store_consensus_log :: "dkg_id list \<Rightarrow> dkg_id list \<Rightarrow> u64 \<Rightarrow> metadata_state \<Rightarrow> metadata_state" where
  "store_consensus_log active queued i s =
     s\<lparr>m_log := m_log s @ [AuthoritiesChange \<lparr>set_authorities = active, set_id = i\<rparr>
         \<lparr>set_authorities = queued, set_id = saturating_add i 1\<rparr>]\<rparr>"

definition insert_historical_refresh ::
  "u64 \<times> bytes \<Rightarrow> u64 \<times> bytes \<Rightarrow> bytes \<Rightarrow> metadata_state \<Rightarrow> metadata_state" where
  "insert_historical_refresh old new sig s =
     s\<lparr>historical_rounds := (historical_rounds s)(fst new \<mapsto>
         \<lparr>curr_round_pub_key = snd old, next_round_pub_key = snd new, refresh_signature = sig\<rparr>)\<rparr>"

definition fit_thresholds :: "nat \<Rightarrow> metadata_state \<Rightarrow> metadata_state" where
  "fit_thresholds n s =
     (let s1 = (if n < unat (next_keygen_threshold s)
            then (update_next_keygen_threshold (of_nat n) s)\<lparr>pending_keygen_threshold := of_nat n\<rparr> else s)
      in if n \<le> unat (next_signature_threshold s1)
         then (update_next_signature_threshold (of_nat n - 1) s1)\<lparr>pending_signature_threshold := of_nat n - 1\<rparr> else s1)"

text \<open>Events and the end of the refresh, once the new key is in place.\<close>

definition announce_key :: "bytes \<Rightarrow> bytes \<Rightarrow> metadata_state \<Rightarrow> metadata_state" where
  "announce_key key sig s =
     (let s1 = m_deposit (PublicKeyChanged key) s
      in case current_refresh_proposal s1 of
           None \<Rightarrow> s1
         | Some cur \<Rightarrow>
             (m_deposit (PublicKeySignatureChanged (voter_merkle_root cur) (session_length cur) (voter_count cur)
                (nonce cur) (pub_key cur) sig key) s1)\<lparr>current_refresh_proposal := None\<rparr>)"

text \<open>The keys rotate: the next key becomes the active one and the active one the previous.\<close>

definition rotate_keys ::
  "metadata_config \<Rightarrow> u64 \<times> bytes \<Rightarrow> bytes \<Rightarrow> metadata_state \<Rightarrow> metadata_state" where
  "rotate_keys cfg key sig s =
     (let old = dkg_public_key s;
          old_sig = dkg_public_key_signature s;
          s1 = insert_historical_refresh old key sig
                 (s\<lparr>next_dkg_public_key := None, next_public_key_signature := None\<rparr>);
          s2 = s1\<lparr>dkg_public_key_opt := Some key, dkg_public_key_signature := sig, previous_public_key := old,
                  used_signatures := (case try_push (max_signature_length cfg) old_sig (used_signatures s1) of
                     Some us \<Rightarrow> us | None \<Rightarrow> used_signatures s1),
                  refresh_nonce := saturating_add (refresh_nonce s1) 1\<rparr>
      in announce_key (snd key) sig s2)"

definition key_to_install :: "bool \<Rightarrow> metadata_state \<Rightarrow> ((u64 \<times> bytes) \<times> bytes) option" where
  "key_to_install forced s =
     (case next_dkg_public_key s of
        None \<Rightarrow> None
      | Some key \<Rightarrow>
          if forced then Some (key, []) else map_option (Pair key) (next_public_key_signature s))"

text \<open>
  The next authorities and thresholds are rotated in any case; the thresholds that become current are
  read before. A panic of a bounded conversion is \<open>None\<close>.
\<close>

definition queue_next ::
  "metadata_config \<Rightarrow> dkg_id list \<Rightarrow> account_id list \<Rightarrow> metadata_state \<Rightarrow> metadata_state option" where
  "queue_next cfg next_ids next_accounts s =
     (let s1 = update_next_signature_threshold (pending_signature_threshold s) (s\<lparr>refresh_in_progress := False\<rparr>);
          s2 = update_next_keygen_threshold (pending_keygen_threshold s1) s1
      in if max_authorities cfg < length next_ids \<or> max_authorities cfg < length next_accounts then None
         else let s3 = fit_thresholds (length next_ids)
                    (s2\<lparr>next_authorities := next_ids, next_authorities_accounts := next_accounts,
                        next_authority_set_id := saturating_add (next_authority_set_id s2) 1\<rparr>);
                  best = get_best_authorities (unat (next_keygen_threshold s3)) next_ids s3
              in if max_authorities cfg < length best then None else Some (s3\<lparr>next_best_authorities := best\<rparr>))"

fun change_authorities ::
  "metadata_config \<Rightarrow> 'w set_change_listener \<Rightarrow> dkg_id list \<Rightarrow> dkg_id list \<Rightarrow> account_id list \<Rightarrow> account_id list \<Rightarrow>
   bool \<Rightarrow> metadata_state \<times> 'w \<Rightarrow> unit dispatch \<times> (metadata_state \<times> 'w)" where
  "change_authorities cfg listener new_ids next_ids new_accounts next_accounts forced (s, w) =
     (case listener new_accounts new_ids w of
        None \<Rightarrow> (Panic, (s, w))
      | Some w1 \<Rightarrow>
          (case queue_next cfg next_ids next_accounts s of
             None \<Rightarrow> (Panic, (s, w1))
           | Some s1 \<Rightarrow>
               (case key_to_install forced s1 of
                  None \<Rightarrow> (Ok (), (s1, w1))
                | Some (key, sig) \<Rightarrow>
                    if max_authorities cfg < length new_ids \<or> max_authorities cfg < length new_accounts
                    then (Panic, (s1, w1))
                    else let next_id = next_authority_set_id s;
                             s2 = s1\<lparr>signature_threshold := next_signature_threshold s,
                                     keygen_threshold := next_keygen_threshold s, authorities := new_ids,
                                     current_authorities_accounts := new_accounts,
                                     best_authorities := next_best_authorities s, authority_set_id := next_id\<rparr>
                      in (Ok (), (rotate_keys cfg key sig (store_consensus_log new_ids next_ids next_id s2), w1)))))"

fun initialize_authorities ::
  "metadata_config \<Rightarrow> 'w set_change_listener \<Rightarrow> dkg_id list \<Rightarrow> account_id list \<Rightarrow> metadata_state \<times> 'w \<Rightarrow>
   unit dispatch \<times> (metadata_state \<times> 'w)" where
  "initialize_authorities cfg listener ids accounts (s, w) =
     (if ids = [] then (Ok (), (s, w))
      else if authorities s \<noteq> [] then (Panic, (s, w))
      else if max_authorities cfg < length ids then (Panic, (s, w))
      else if max_authorities cfg < length accounts then (Panic, (s, w))
      else let s1 = s\<lparr>authorities := ids, authority_set_id := 0, current_authorities_accounts := accounts,
                      next_authorities := ids, next_authority_set_id := 1, next_authorities_accounts := accounts\<rparr>;
               best = get_best_authorities (unat (keygen_threshold s1)) ids s1
        in if max_authorities cfg < length best then (Panic, (s1, w))
           else let s2 = s1\<lparr>best_authorities := best,
                      next_best_authorities := get_best_authorities (unat (keygen_threshold s1)) ids s1\<rparr>
             in case listener accounts ids w of
                  None \<Rightarrow> (Panic, (s2, w))
                | Some w1 \<Rightarrow> (Ok (), (s2, w1)))"

section \<open>The session handler\<close>

definition on_genesis_session ::
  "metadata_config \<Rightarrow> 'w set_change_listener \<Rightarrow> (account_id \<times> dkg_id) list \<Rightarrow> metadata_state \<times> 'w \<Rightarrow>
   unit dispatch \<times> (metadata_state \<times> 'w)" where
  "on_genesis_session cfg listener validators st =
     initialize_authorities cfg listener (map snd validators) (map fst validators) st"

definition map_account :: "account_id \<times> dkg_id \<Rightarrow> metadata_state \<Rightarrow> metadata_state" where
  "map_account v s = s\<lparr>account_to_authority := (account_to_authority s)(fst v \<mapsto> snd v)\<rparr>"

fun on_new_session ::
  "metadata_config \<Rightarrow> 'w set_change_listener \<Rightarrow> block_number \<Rightarrow> (account_id \<times> dkg_id) list \<Rightarrow>
   (account_id \<times> dkg_id) list \<Rightarrow> metadata_state \<times> 'w \<Rightarrow> unit dispatch \<times> (metadata_state \<times> 'w)" where
  "on_new_session cfg listener now validators queued (s, w) =
     (let s1 = fold map_account (validators @ queued) s;
          s2 = s1\<lparr>last_session_rotation_block := now\<rparr>
      in change_authorities cfg listener (map snd validators) (map snd queued) (map fst validators) (map fst queued)
           False (s2, w))"

definition on_disabled :: "u32 \<Rightarrow> metadata_state \<Rightarrow> metadata_state" where
  "on_disabled i s = s\<lparr>m_log := m_log s @ [OnDisabled i]\<rparr>"

section \<open>Forced rotation and emergency key generation\<close>

fun force_change_authorities ::
  "metadata_config \<Rightarrow> ext \<Rightarrow> 'w unsigned_handler \<Rightarrow> 'w set_change_listener \<Rightarrow> origin \<Rightarrow> metadata_state \<times> 'w \<Rightarrow>
   unit dispatch \<times> (metadata_state \<times> 'w)" where
  "force_change_authorities cfg x hup listener org (s, w) =
     (if \<not> m_force_origin cfg org then (Err BadOrigin, (s, w))
      else let ids = next_authorities s; accounts = next_authorities_accounts s;
               next_pub_key = next_dkg_public_key s
        in and_then (change_authorities cfg listener ids ids accounts accounts True
               (s\<lparr>pending_refresh_proposal := None, current_refresh_proposal := None\<rparr>, w)) (\<lambda>_ (s1, w1).
             case next_pub_key of
               None \<Rightarrow> (Ok (), (s1, w1))
             | Some k \<Rightarrow>
                 let next_nonce = refresh_nonce s1
                 in case create_refresh_proposal cfg x (snd k) next_nonce (s1\<lparr>should_submit_proposer_vote := True\<rparr>) of
                      (Err e, s2) \<Rightarrow> (Err e, (s2, w1))
                    | (Panic, s2) \<Rightarrow> (Panic, (s2, w1))
                    | (Ok p, s2) \<Rightarrow>
                        (case hup p w1 of
                           (Ok _, w2) \<Rightarrow> (Ok (), (s2\<lparr>refresh_in_progress := True, refresh_nonce := next_nonce\<rparr>, w2))
                         | (Err e, w2) \<Rightarrow> (Ok (), (s2, w2))
                         | (Panic, w2) \<Rightarrow> (Panic, (s2, w2)))))"

definition trigger_emergency_keygen ::
  "metadata_config \<Rightarrow> origin \<Rightarrow> metadata_state \<Rightarrow> unit dispatch \<times> metadata_state" where
  "trigger_emergency_keygen cfg org s =
     (if \<not> m_force_origin cfg org then (Err BadOrigin, s)
      else (Ok (), (m_deposit EmergencyKeygenTriggered
              (s\<lparr>next_dkg_public_key := None, next_public_key_signature := None\<rparr>))
              \<lparr>should_execute_new_keygen := (True, True)\<rparr>))"

section \<open>Signed refresh proposals\<close>

definition metadata_on_signed_proposal ::
  "metadata_config \<Rightarrow> ext \<Rightarrow> proposal \<Rightarrow> metadata_state \<Rightarrow> unit dispatch \<times> metadata_state" where
  "metadata_on_signed_proposal cfg x p s =
     (if \<not> is_signed p then (Err (MetadataError metadata_error.ProposalNotSigned), s)
      else if kind p = Refresh then
        (case next_dkg_public_key s of
           None \<Rightarrow> (Err (MetadataError NoNextPublicKey), s)
         | Some (_, next_pub_key) \<Rightarrow>
             if next_public_key_signature s \<noteq> None then (Err (MetadataError AlreadySubmittedSignature), s)
             else case pending_refresh_proposal s of
               None \<Rightarrow> (Err (MetadataError NoRefreshProposal), s)
             | Some cur \<Rightarrow>
                 (case refresh_encode x cur of
                    None \<Rightarrow> (Panic, s)
                  | Some bs \<Rightarrow>
                      if bs \<noteq> data p then (Err (MetadataError InvalidRefreshProposal), s)
                      else let sig = (case signature p of Some g \<Rightarrow> g | None \<Rightarrow> [])
                        in case try_bounded (max_signature_length cfg) sig of
                             None \<Rightarrow> (Err (MetadataError InvalidSignature), s)
                           | Some bounded_signature \<Rightarrow>
                               if bounded_signature \<in> set (used_signatures s) then (Err (MetadataError UsedSignature), s)
                               else (Ok (), m_deposit (NextPublicKeySignatureSubmitted (voter_merkle_root cur)
                                        (session_length cur) (voter_count cur) (nonce cur) (pub_key cur) sig next_pub_key)
                                      (s\<lparr>next_public_key_signature := Some bounded_signature,
                                         current_refresh_proposal := Some cur, pending_refresh_proposal := None\<rparr>))))
      else (Ok (), s))"

section \<open>Periodic sessions\<close>

text \<open>
  The remainder panics for a period of zero: \<open>None\<close>. As the operands are unsigned, a remainder is
  always at least zero.
\<close>

definition block_rem :: "block_number \<Rightarrow> block_number \<Rightarrow> block_number option" where
  "block_rem a b = (if b = 0 then None else Some (a mod b))"

definition should_end_session :: "metadata_config \<Rightarrow> block_number \<Rightarrow> metadata_state \<Rightarrow> bool option" where
  "should_end_session cfg now s =
     (if next_dkg_public_key s \<noteq> None \<and> next_public_key_signature s \<noteq> None \<and> session_offset cfg \<le> now
      then map_option (\<lambda>r. 0 \<le> r) (block_rem (now - session_offset cfg) (session_period cfg))
      else Some False)"

text \<open>\<open>Permill\<close> is code of the runtime library: its constructors are parameters.\<close>

definition estimate_current_session_progress ::
  "metadata_config \<Rightarrow> (nat \<Rightarrow> 'p) \<Rightarrow> (block_number \<Rightarrow> block_number \<Rightarrow> 'p) \<Rightarrow> block_number \<Rightarrow> metadata_state \<Rightarrow>
   'p option option" where
  "estimate_current_session_progress cfg from_percent from_rational now s =
     (if session_offset cfg \<le> now
      then if session_period cfg < saturating_sub now (last_session_rotation_block s)
           then Some (Some (from_percent 100))
           else map_option (\<lambda>r. Some (from_rational (r + 1) (session_period cfg)))
                  (block_rem (now - session_offset cfg) (session_period cfg))
      else Some (Some (from_rational (now + 1) (session_offset cfg))))"

definition estimate_next_session_rotation :: "metadata_config \<Rightarrow> block_number \<Rightarrow> block_number option option" where
  "estimate_next_session_rotation cfg now =
     (if session_offset cfg < now
      then map_option (\<lambda>block_after_last_session.
             if 0 < block_after_last_session
             then Some (saturating_add now (saturating_sub (session_period cfg) block_after_last_session))
             else Some (now + session_period cfg))
           (block_rem (now - session_offset cfg) (session_period cfg))
      else Some (Some (session_offset cfg)))"

section \<open>Unsigned calls\<close>

datatype metadata_call =
    SetSignatureThreshold u16
  | SetKeygenThreshold u16
  | SubmitPublicKey aggregated_public_keys
  | SubmitNextPublicKey aggregated_public_keys
  | SubmitMisbehaviourReports aggregated_misbehaviour_reports
  | Unjail
  | ForceUnjailKeygen dkg_id
  | ForceUnjailSigning dkg_id
  | ForceChangeAuthorities
  | TriggerEmergencyKeygen

fun unsigned_call :: "metadata_call \<Rightarrow> bool" where
  "unsigned_call (SubmitPublicKey _) = True"
| "unsigned_call (SubmitNextPublicKey _) = True"
| "unsigned_call (SubmitMisbehaviourReports _) = True"
| "unsigned_call _ = False"

definition metadata_validate_unsigned ::
  "metadata_config \<Rightarrow> block_number \<Rightarrow> transaction_source \<Rightarrow> metadata_call \<Rightarrow> metadata_state \<Rightarrow>
   transaction_error + valid_transaction" where
  "metadata_validate_unsigned cfg now src call s =
     (if src \<noteq> Local \<and> src \<noteq> InBlock then Inl InvalidCall
      else if now < next_unsigned_at s then Inl Stale
      else if \<not> unsigned_call call then Inl InvalidCall
      else Inr \<lparr>vt_priority = unsigned_priority cfg, vt_longevity = 5, vt_provides = now, vt_propagate = True\<rparr>)"

end
