(* ===== verification/Metadata_Invariant.thy ===== *)
theory Metadata_Invariant
  imports Rotation
begin

text \<open>
  The pallet \<open>pallet-dkg-metadata\<close> as a transition system, with the effect of each operation and the
  invariants every reachable state satisfies: the storage items keep their bounds, the keys carry
  the identifiers of the authority sets they belong to, and the history records the last rotation.
\<close>

section \<open>Effects of the operations\<close>

text \<open>The operations on the thresholds as single updates of the state.\<close>

lemma update_next_signature_threshold_eq:
  "update_next_signature_threshold t s = s\<lparr>next_signature_threshold := t,
     m_events := m_events s @ (if next_signature_threshold s = t then [] else [NextSignatureThresholdUpdated t])\<rparr>"
  by (simp add: update_next_signature_threshold_def m_deposit_def)

lemma update_next_keygen_threshold_eq:
  "update_next_keygen_threshold t s = s\<lparr>next_keygen_threshold := t,
     m_events := m_events s @ (if next_keygen_threshold s = t then [] else [NextKeygenThresholdUpdated t])\<rparr>"
  by (simp add: update_next_keygen_threshold_def m_deposit_def)

lemma update_pending_keygen_threshold_eq:
  "update_pending_keygen_threshold t s = s\<lparr>pending_keygen_threshold := t,
     m_events := m_events s @ (if pending_keygen_threshold s = t then [] else [PendingKeygenThresholdUpdated t])\<rparr>"
  by (simp add: update_pending_keygen_threshold_def m_deposit_def)

text \<open>The thresholds a set of \<open>n\<close> authorities gets when \<open>t\<close> is pending.\<close>

definition fit_keygen :: "nat \<Rightarrow> u16 \<Rightarrow> u16" where
  "fit_keygen n t = (if n < unat t then of_nat n else t)"

definition fit_signature :: "nat \<Rightarrow> u16 \<Rightarrow> u16" where
  "fit_signature n t = (if n \<le> unat t then of_nat n - 1 else t)"

definition fit_events :: "nat \<Rightarrow> metadata_state \<Rightarrow> metadata_event list" where
  "fit_events n s =
     (if n < unat (next_keygen_threshold s) \<and> next_keygen_threshold s \<noteq> of_nat n
      then [NextKeygenThresholdUpdated (of_nat n)] else []) @
     (if n \<le> unat (next_signature_threshold s) \<and> next_signature_threshold s \<noteq> of_nat n - 1
      then [NextSignatureThresholdUpdated (of_nat n - 1)] else [])"

lemma fit_thresholds_eq:
  assumes "next_keygen_threshold s = pending_keygen_threshold s" and "next_signature_threshold s = pending_signature_threshold s"
  shows "fit_thresholds n s =
     s\<lparr>next_keygen_threshold := fit_keygen n (pending_keygen_threshold s),
       pending_keygen_threshold := fit_keygen n (pending_keygen_threshold s),
       next_signature_threshold := fit_signature n (pending_signature_threshold s),
       pending_signature_threshold := fit_signature n (pending_signature_threshold s),
       m_events := m_events s @ fit_events n s\<rparr>"
  using assms
  by (cases "n < unat (pending_keygen_threshold s)"; cases "n \<le> unat (pending_signature_threshold s)")
    (simp_all add: fit_thresholds_def fit_keygen_def fit_signature_def fit_events_def update_next_keygen_threshold_eq
      update_next_signature_threshold_eq)

lemma get_best_authorities_cong:
  assumes "jailed_keygen_authorities s' = jailed_keygen_authorities s" and "authority_reputations s' = authority_reputations s"
  shows "get_best_authorities n ids s' = get_best_authorities n ids s"
proof -
  have "reputation s' = reputation s" "keygen_jailed s' = keygen_jailed s"
    using assms by (simp_all add: reputation_def keygen_jailed_def fun_eq_iff)
  then have "get_best_authorities_by_reputation m as s' = get_best_authorities_by_reputation m as s" for m as
    by (simp add: get_best_authorities_by_reputation_def by_reputation_def)
  with \<open>keygen_jailed s' = keygen_jailed s\<close> show ?thesis
    by (simp add: get_best_authorities_def Let_def)
qed

text \<open>The state after the queued authorities are in place and before a key is installed.\<close>

definition queue_authorities ::
  "dkg_id list \<Rightarrow> account_id list \<Rightarrow> metadata_event list \<Rightarrow> metadata_state \<Rightarrow> metadata_state" where
  "queue_authorities next_ids next_accounts ev s =
     (let nk = fit_keygen (length next_ids) (pending_keygen_threshold s);
          ns = fit_signature (length next_ids) (pending_signature_threshold s)
      in s\<lparr>refresh_in_progress := False, next_keygen_threshold := nk, pending_keygen_threshold := nk,
           next_signature_threshold := ns, pending_signature_threshold := ns,
           next_authorities := next_ids, next_authorities_accounts := next_accounts,
           next_authority_set_id := saturating_add (next_authority_set_id s) 1,
           next_best_authorities := get_best_authorities (unat nk) next_ids s, m_events := ev\<rparr>)"

text \<open>The state in which the new authorities are active.\<close>

definition activate_authorities ::
  "dkg_id list \<Rightarrow> dkg_id list \<Rightarrow> account_id list \<Rightarrow> metadata_state \<Rightarrow> metadata_state \<Rightarrow> metadata_state" where
  "activate_authorities new_ids next_ids new_accounts s s1 =
     s1\<lparr>signature_threshold := next_signature_threshold s, keygen_threshold := next_keygen_threshold s,
        authorities := new_ids, current_authorities_accounts := new_accounts,
        best_authorities := next_best_authorities s, authority_set_id := next_authority_set_id s,
        m_log := m_log s1 @ [AuthoritiesChange \<lparr>set_authorities = new_ids, set_id = next_authority_set_id s\<rparr>
          \<lparr>set_authorities = next_ids, set_id = saturating_add (next_authority_set_id s) 1\<rparr>]\<rparr>"

lemma queue_next_Some:
  assumes "queue_next cfg ids accounts s = Some s'"
  shows "\<exists>ev. s' = queue_authorities ids accounts ev s" and "length ids \<le> max_authorities cfg"
    and "length accounts \<le> max_authorities cfg"
proof -
  let ?s1 = "update_next_signature_threshold (pending_signature_threshold s) (s\<lparr>refresh_in_progress := False\<rparr>)"
  let ?s2 = "update_next_keygen_threshold (pending_keygen_threshold ?s1) ?s1"
  let ?s2' = "?s2\<lparr>next_authorities := ids, next_authorities_accounts := accounts,
      next_authority_set_id := saturating_add (next_authority_set_id ?s2) 1\<rparr>"
  let ?s3 = "fit_thresholds (length ids) ?s2'"
  have s3: "?s3 = s\<lparr>refresh_in_progress := False,
       next_keygen_threshold := fit_keygen (length ids) (pending_keygen_threshold s),
       pending_keygen_threshold := fit_keygen (length ids) (pending_keygen_threshold s),
       next_signature_threshold := fit_signature (length ids) (pending_signature_threshold s),
       pending_signature_threshold := fit_signature (length ids) (pending_signature_threshold s),
       next_authorities := ids, next_authorities_accounts := accounts,
       next_authority_set_id := saturating_add (next_authority_set_id s) 1, m_events := m_events ?s3\<rparr>"
    by (simp add: update_next_signature_threshold_eq update_next_keygen_threshold_eq fit_thresholds_eq)
  have best: "get_best_authorities n ids ?s3 = get_best_authorities n ids s" for n
    by (rule get_best_authorities_cong; subst s3; simp)
  have s': "s' = ?s3\<lparr>next_best_authorities := get_best_authorities (unat (next_keygen_threshold ?s3)) ids ?s3\<rparr>"
    using assms unfolding queue_next_def Let_def by (simp split: if_splits)
  show "\<exists>ev. s' = queue_authorities ids accounts ev s"
    unfolding s' best
    by (intro exI [of _ "m_events ?s3"], subst (1 2) s3) (simp add: queue_authorities_def Let_def)
  show "length ids \<le> max_authorities cfg" "length accounts \<le> max_authorities cfg"
    using assms unfolding queue_next_def Let_def by (simp_all split: if_splits)
qed

lemma queue_authorities_simps [simp]:
  "next_dkg_public_key (queue_authorities ids accounts ev s) = next_dkg_public_key s"
  "next_public_key_signature (queue_authorities ids accounts ev s) = next_public_key_signature s"
  "dkg_public_key_opt (queue_authorities ids accounts ev s) = dkg_public_key_opt s"
  "refresh_nonce (queue_authorities ids accounts ev s) = refresh_nonce s"
  "m_log (queue_authorities ids accounts ev s) = m_log s"
  by (simp_all add: queue_authorities_def Let_def)

lemma key_to_install_queue [simp]: "key_to_install forced (queue_authorities ids accounts ev s) = key_to_install forced s"
  by (cases "next_dkg_public_key s") (simp_all add: key_to_install_def)

text \<open>The result of a change of the authorities, as an equation.\<close>

lemma change_authorities_Ok:
  assumes "change_authorities cfg listener new_ids next_ids new_accounts next_accounts forced (s, w) = (Ok (), (s', w'))"
  shows "listener new_accounts new_ids w = Some w'" and "length next_ids \<le> max_authorities cfg"
    and "length next_accounts \<le> max_authorities cfg"
    and "key_to_install forced s = None \<Longrightarrow> \<exists>ev. s' = queue_authorities next_ids next_accounts ev s"
    and "key_to_install forced s = Some (key, sig) \<Longrightarrow>
      length new_ids \<le> max_authorities cfg \<and> length new_accounts \<le> max_authorities cfg \<and>
      (\<exists>ev. s' = rotate_keys cfg key sig (activate_authorities new_ids next_ids new_accounts s
                 (queue_authorities next_ids next_accounts ev s)))"
proof -
  obtain w1 where w1: "listener new_accounts new_ids w = Some w1"
    using assms by (cases "listener new_accounts new_ids w") auto
  obtain s1 where s1: "queue_next cfg next_ids next_accounts s = Some s1"
    using assms w1 by (cases "queue_next cfg next_ids next_accounts s") auto
  from queue_next_Some [OF this] obtain ev where ev: "s1 = queue_authorities next_ids next_accounts ev s"
    and len: "length next_ids \<le> max_authorities cfg" "length next_accounts \<le> max_authorities cfg" by blast
  show "length next_ids \<le> max_authorities cfg" "length next_accounts \<le> max_authorities cfg" by (fact len)+
  show "listener new_accounts new_ids w = Some w'"
    using assms w1 s1 by (auto simp: Let_def split: option.splits if_splits)
  show "\<exists>ev. s' = queue_authorities next_ids next_accounts ev s" if "key_to_install forced s = None"
    using assms w1 s1 ev that by auto
  show "length new_ids \<le> max_authorities cfg \<and> length new_accounts \<le> max_authorities cfg \<and>
      (\<exists>ev. s' = rotate_keys cfg key sig (activate_authorities new_ids next_ids new_accounts s
                 (queue_authorities next_ids next_accounts ev s)))" if "key_to_install forced s = Some (key, sig)"
    using assms w1 s1 that
    by (auto simp: ev Let_def store_consensus_log_def activate_authorities_def intro!: exI [of _ ev] split: if_splits)
qed

end
