(* ===== verification/Metadata_Steps.thy ===== *)
theory Metadata_Steps
  imports Metadata_Invariant
begin

text \<open>
  The steps of \<open>pallet-dkg-metadata\<close> in a running chain and the invariants they keep. A session ends
  when \<open>should_end_session\<close> says so, as the runtime configures it (\<open>ShouldEndSession\<close>).
\<close>

section \<open>Steps\<close>

datatype m_label = ByCall | ByForcedRotation | ByEmergency | ByBlock | BySession | BySignature proposal | ByOtherPallets

inductive m_step ::
  "metadata_config \<Rightarrow> ext \<Rightarrow> 'w unsigned_handler \<Rightarrow> 'w set_change_listener \<Rightarrow> m_label \<Rightarrow>
   metadata_state \<times> 'w \<Rightarrow> metadata_state \<times> 'w \<Rightarrow> bool" for cfg x hup listener where
  sig_threshold: "extrinsic (set_signature_threshold cfg org t) s = (r, s') \<Longrightarrow>
    m_step cfg x hup listener ByCall (s, w) (s', w)"
| keygen_thr: "extrinsic (set_keygen_threshold cfg org t) s = (r, s') \<Longrightarrow>
    m_step cfg x hup listener ByCall (s, w) (s', w)"
| submit_key: "extrinsic (submit_public_key cfg x now org keys) s = (r, s') \<Longrightarrow>
    m_step cfg x hup listener ByCall (s, w) (s', w)"
| submit_next_key: "extrinsic (submit_next_public_key cfg x now org keys) s = (r, s') \<Longrightarrow>
    m_step cfg x hup listener ByCall (s, w) (s', w)"
| submit_reports: "extrinsic (submit_misbehaviour_reports cfg x now org rep) s = (r, s') \<Longrightarrow>
    m_step cfg x hup listener ByCall (s, w) (s', w)"
| leave_jail: "extrinsic (unjail cfg now org) s = (r, s') \<Longrightarrow> m_step cfg x hup listener ByCall (s, w) (s', w)"
| free_keygen: "extrinsic (force_unjail_keygen cfg org a) s = (r, s') \<Longrightarrow>
    m_step cfg x hup listener ByCall (s, w) (s', w)"
| free_signing: "extrinsic (force_unjail_signing cfg org a) s = (r, s') \<Longrightarrow>
    m_step cfg x hup listener ByCall (s, w) (s', w)"
| forced: "extrinsic (force_change_authorities cfg x hup listener org) st = (r, st') \<Longrightarrow>
    m_step cfg x hup listener ByForcedRotation st st'"
| emergency: "extrinsic (trigger_emergency_keygen cfg org) s = (r, s') \<Longrightarrow>
    m_step cfg x hup listener ByEmergency (s, w) (s', w)"
| block: "on_initialize cfg x hup n st = (Ok (), st') \<Longrightarrow> m_step cfg x hup listener ByBlock st st'"
| session: "should_end_session cfg now s = Some True \<Longrightarrow> on_new_session cfg listener now validators queued (s, w) = (Ok (), st') \<Longrightarrow>
    m_step cfg x hup listener BySession (s, w) st'"
| signed: "metadata_on_signed_proposal cfg x p s = (r, s') \<Longrightarrow> r \<noteq> Panic \<Longrightarrow>
    m_step cfg x hup listener (BySignature p) (s, w) (s', w)"
| disabled: "m_step cfg x hup listener ByOtherPallets (s, w) (on_disabled i s, w)"
| others: "m_step cfg x hup listener ByOtherPallets (s, w) (s, w')"

definition m_next ::
  "metadata_config \<Rightarrow> ext \<Rightarrow> 'w unsigned_handler \<Rightarrow> 'w set_change_listener \<Rightarrow> metadata_state \<times> 'w \<Rightarrow> metadata_state \<times> 'w \<Rightarrow> bool" where
  "m_next cfg x hup listener st st' \<longleftrightarrow> (\<exists>l. m_step cfg x hup listener l st st')"

abbreviation m_steps where
  "m_steps cfg x hup listener \<equiv> (m_next cfg x hup listener)\<^sup>*\<^sup>*"

section \<open>The invariants\<close>

definition ranks_ok :: "(u16 \<times> dkg_id) list \<Rightarrow> bool" where
  "ranks_ok l \<longleftrightarrow> map fst l = map of_nat [1..<Suc (length l)]"

definition storage_inv :: "metadata_config \<Rightarrow> metadata_state \<Rightarrow> bool" where
  "storage_inv cfg s \<longleftrightarrow>
     length (used_signatures s) \<le> max_signature_length cfg \<and>
     length (authorities s) \<le> max_authorities cfg \<and> length (next_authorities s) \<le> max_authorities cfg \<and>
     length (current_authorities_accounts s) \<le> max_authorities cfg \<and>
     length (next_authorities_accounts s) \<le> max_authorities cfg \<and>
     length (best_authorities s) \<le> max_authorities cfg \<and> length (next_best_authorities s) \<le> max_authorities cfg \<and>
     ranks_ok (best_authorities s) \<and> ranks_ok (next_best_authorities s) \<and>
     snd ` set (next_best_authorities s) \<subseteq> set (next_authorities s) \<and> wf_smap (authority_reputations s) \<and>
     misbehaviour_reports s = Map.empty"

text \<open>Keys and signatures fit their bounded vectors, also in the history.\<close>

definition key_fits :: "metadata_config \<Rightarrow> bytes \<Rightarrow> bool" where
  "key_fits cfg k \<longleftrightarrow> length k \<le> max_key_length cfg"

definition sig_fits :: "metadata_config \<Rightarrow> bytes \<Rightarrow> bool" where
  "sig_fits cfg g \<longleftrightarrow> length g \<le> max_signature_length cfg"

definition keys_inv :: "metadata_config \<Rightarrow> metadata_state \<Rightarrow> bool" where
  "keys_inv cfg s \<longleftrightarrow>
     pred_option (\<lambda>k. key_fits cfg (snd k)) (next_dkg_public_key s) \<and>
     pred_option (sig_fits cfg) (next_public_key_signature s) \<and>
     pred_option (\<lambda>k. key_fits cfg (snd k)) (dkg_public_key_opt s) \<and>
     sig_fits cfg (dkg_public_key_signature s) \<and> key_fits cfg (snd (previous_public_key s)) \<and>
     list_all (sig_fits cfg) (used_signatures s) \<and>
     (\<forall>i. pred_option (\<lambda>r. key_fits cfg (curr_round_pub_key r) \<and> key_fits cfg (next_round_pub_key r) \<and>
        sig_fits cfg (refresh_signature r)) (historical_rounds s i))"

text \<open>A key carries the identifier of its authority set, and the history records the last rotation.\<close>

definition set_ids_inv :: "metadata_state \<Rightarrow> bool" where
  "set_ids_inv s \<longleftrightarrow>
     (\<forall>k. next_dkg_public_key s = Some k \<longrightarrow> fst k = next_authority_set_id s) \<and>
     (\<forall>k. dkg_public_key_opt s = Some k \<longrightarrow> fst k = authority_set_id s) \<and>
     (next_public_key_signature s \<noteq> None \<longrightarrow> next_dkg_public_key s \<noteq> None) \<and>
     authority_set_id s \<le> next_authority_set_id s \<and>
     (next_authority_set_id s \<noteq> - 1 \<longrightarrow> authority_set_id s < next_authority_set_id s)"

definition history_inv :: "metadata_state \<Rightarrow> bool" where
  "history_inv s \<longleftrightarrow>
     (\<forall>i. historical_rounds s i \<noteq> None \<longrightarrow> i \<le> authority_set_id s) \<and>
     pred_option (\<lambda>r. curr_round_pub_key r = snd (previous_public_key s) \<and>
          dkg_public_key_opt s = Some (authority_set_id s, next_round_pub_key r) \<and>
          refresh_signature r = dkg_public_key_signature s) (historical_rounds s (authority_set_id s))"

definition m_inv :: "metadata_config \<Rightarrow> metadata_state \<Rightarrow> bool" where
  "m_inv cfg s \<longleftrightarrow> storage_inv cfg s \<and> keys_inv cfg s \<and> set_ids_inv s \<and> history_inv s"

lemmas m_inv_defs = m_inv_def storage_inv_def keys_inv_def set_ids_inv_def history_inv_def

text \<open>The part of the state the invariants speak about.\<close>

definition inv_view where
  "inv_view s = (used_signatures s, next_dkg_public_key s, next_public_key_signature s, dkg_public_key_opt s,
     dkg_public_key_signature s, previous_public_key s, historical_rounds s, authorities s, authority_set_id s,
     next_authority_set_id s, next_authorities s, current_authorities_accounts s, next_authorities_accounts s,
     authority_reputations s, best_authorities s, next_best_authorities s, misbehaviour_reports s)"

lemma m_inv_cong: "inv_view s' = inv_view s \<Longrightarrow> m_inv cfg s' = m_inv cfg s"
  unfolding m_inv_defs inv_view_def by (simp only: prod.inject)

section \<open>Operations outside the view\<close>

lemma inv_view_m_deposit [simp]: "inv_view (m_deposit e s) = inv_view s"
  by (simp add: inv_view_def m_deposit_def)

lemma inv_view_thresholds [simp]:
  "inv_view (s\<lparr>next_signature_threshold := a\<rparr>) = inv_view s" "inv_view (s\<lparr>next_keygen_threshold := a\<rparr>) = inv_view s"
  "inv_view (s\<lparr>pending_signature_threshold := a\<rparr>) = inv_view s" "inv_view (s\<lparr>pending_keygen_threshold := a\<rparr>) = inv_view s"
  "inv_view (s\<lparr>next_unsigned_at := b\<rparr>) = inv_view s" "inv_view (s\<lparr>should_execute_new_keygen := c\<rparr>) = inv_view s"
  "inv_view (s\<lparr>jailed_keygen_authorities := d\<rparr>) = inv_view s" "inv_view (s\<lparr>jailed_signing_authorities := d\<rparr>) = inv_view s"
  "inv_view (s\<lparr>pending_refresh_proposal := e\<rparr>) = inv_view s" "inv_view (s\<lparr>current_refresh_proposal := e\<rparr>) = inv_view s"
  "inv_view (s\<lparr>refresh_in_progress := f\<rparr>) = inv_view s" "inv_view (s\<lparr>refresh_nonce := h\<rparr>) = inv_view s"
  "inv_view (s\<lparr>should_submit_proposer_vote := f\<rparr>) = inv_view s" "inv_view (s\<lparr>m_log := l\<rparr>) = inv_view s"
  "inv_view (s\<lparr>last_session_rotation_block := b\<rparr>) = inv_view s" "inv_view (s\<lparr>account_to_authority := g\<rparr>) = inv_view s"
  "inv_view (s\<lparr>m_events := ev\<rparr>) = inv_view s"
  by (simp_all add: inv_view_def)

lemma inv_view_updates [simp]:
  "inv_view (update_next_signature_threshold t s) = inv_view s" "inv_view (update_next_keygen_threshold t s) = inv_view s"
  "inv_view (update_pending_keygen_threshold t s) = inv_view s" "inv_view (update_signature_threshold t s) = inv_view s"
  "inv_view (update_keygen_threshold t s) = inv_view s" "inv_view (drop_keygen_threshold us s) = inv_view s"
  "inv_view (trigger_keygen cfg n s) = inv_view s" "inv_view (on_disabled i s) = inv_view s"
  by (simp_all add: update_next_signature_threshold_def update_next_keygen_threshold_def update_keygen_threshold_def
      update_pending_keygen_threshold_def update_signature_threshold_def drop_keygen_threshold_def trigger_keygen_def
      on_disabled_def Let_def)

lemma inv_view_set_signature_threshold: "set_signature_threshold cfg org t s = (r, s') \<Longrightarrow> inv_view s' = inv_view s"
  by (auto simp: set_signature_threshold_def split: if_splits)

lemma inv_view_set_keygen_threshold: "set_keygen_threshold cfg org t s = (r, s') \<Longrightarrow> inv_view s' = inv_view s"
  by (auto simp: set_keygen_threshold_def Let_def split: if_splits)

lemma inv_view_unjail: "unjail cfg now org s = (r, s') \<Longrightarrow> inv_view s' = inv_view s"
  by (auto simp: unjail_def split: origin.splits option.splits)

lemma inv_view_force_unjail:
  "force_unjail_keygen cfg org a s = (r, s') \<Longrightarrow> inv_view s' = inv_view s"
  "force_unjail_signing cfg org a s = (r, s') \<Longrightarrow> inv_view s' = inv_view s"
  by (auto simp: force_unjail_keygen_def force_unjail_signing_def split: if_splits)

lemma inv_view_create_refresh: "create_refresh_proposal cfg x k n s = (r, s') \<Longrightarrow> inv_view s' = inv_view s"
  by (auto simp: create_refresh_proposal_def Let_def split: result.splits option.splits)

lemma inv_view_do_refresh: "do_refresh cfg x hup k (s, w) = (r, (s', w')) \<Longrightarrow> inv_view s' = inv_view s"
  by (auto simp: inv_view_create_refresh split: prod.splits result.splits)

lemma inv_view_on_initialize: "on_initialize cfg x hup n (s, w) = (r, (s', w')) \<Longrightarrow> inv_view s' = inv_view s"
  using inv_view_do_refresh [of cfg x hup _ "trigger_keygen cfg n s" w r s' w']
  by (auto simp: Let_def simp del: do_refresh.simps split: if_splits option.splits)

section \<open>Operations that keep the invariants\<close>

lemma m_invI:
  assumes "inv_view s' = inv_view t" and "storage_inv cfg t" and "keys_inv cfg t" and "set_ids_inv t" and "history_inv t"
  shows "m_inv cfg s'"
  using assms m_inv_cong [OF assms(1), of cfg] by (simp add: m_inv_def)

lemma m_invD:
  assumes "m_inv cfg s"
  shows "storage_inv cfg s" and "keys_inv cfg s" and "set_ids_inv s" and "history_inv s"
  using assms by (simp_all add: m_inv_def)

lemma submit_key_inv:
  assumes inv: "m_inv cfg s" and run: "submit_public_key cfg x now org keys s = (Ok (), s')"
  shows "m_inv cfg s'"
proof -
  obtain k reps where none: "dkg_public_key_opt s = None" and k: "length k \<le> max_key_length cfg"
    and wf: "wf_smap (authority_reputations s) \<longrightarrow> wf_smap reps"
    and s': "s' = (m_deposit (PublicKeySubmitted k) (s\<lparr>dkg_public_key_opt := Some (authority_set_id s, k)\<rparr>))
            \<lparr>authority_reputations := reps, next_unsigned_at := now + unsigned_interval cfg\<rparr>"
    using submit_public_key_Ok [OF run] by blast
  let ?t = "s\<lparr>dkg_public_key_opt := Some (authority_set_id s, k), authority_reputations := reps\<rparr>"
  show ?thesis
  proof (rule m_invI [of s' ?t])
    show "inv_view s' = inv_view ?t"
      by (simp add: s' inv_view_def m_deposit_def)
    show "storage_inv cfg ?t" using m_invD(1) [OF inv] wf by (simp add: storage_inv_def)
    show "keys_inv cfg ?t" using m_invD(2) [OF inv] k by (simp add: keys_inv_def key_fits_def)
    show "set_ids_inv ?t" using m_invD(3) [OF inv] by (simp add: set_ids_inv_def)
    show "history_inv ?t" using m_invD(4) [OF inv] none
      by (cases "historical_rounds s (authority_set_id s)") (simp_all add: history_inv_def)
  qed
qed

lemma submit_next_key_inv:
  assumes inv: "m_inv cfg s" and run: "submit_next_public_key cfg x now org keys s = (Ok (), s')"
  shows "m_inv cfg s'"
proof -
  obtain k reps where none: "next_dkg_public_key s = None" and k: "length k \<le> max_key_length cfg"
    and wf: "wf_smap (authority_reputations s) \<longrightarrow> wf_smap reps"
    and s': "s' = (m_deposit (NextPublicKeySubmitted k) (s\<lparr>next_dkg_public_key := Some (next_authority_set_id s, k)\<rparr>))
            \<lparr>authority_reputations := reps, next_unsigned_at := now + unsigned_interval cfg, refresh_in_progress := False\<rparr>"
    using submit_next_public_key_Ok [OF run] by blast
  let ?t = "s\<lparr>next_dkg_public_key := Some (next_authority_set_id s, k), authority_reputations := reps\<rparr>"
  show ?thesis
  proof (rule m_invI [of s' ?t])
    show "inv_view s' = inv_view ?t"
      by (simp add: s' inv_view_def m_deposit_def)
    show "storage_inv cfg ?t" using m_invD(1) [OF inv] wf by (simp add: storage_inv_def)
    show "keys_inv cfg ?t" using m_invD(2) [OF inv] k by (simp add: keys_inv_def key_fits_def)
    show "set_ids_inv ?t" using m_invD(3) [OF inv] by (simp add: set_ids_inv_def)
    show "history_inv ?t" using m_invD(4) [OF inv] by (simp add: history_inv_def)
  qed
qed

lemma best_ranks_ok: "ranks_ok (get_best_authorities n ids s)"
  by (simp only: ranks_ok_def best_authorities_fst length_best_authorities)

text \<open>A report changes the reputations and the next best authorities, which it takes from the next ones.\<close>

definition next_best_from :: "metadata_config \<Rightarrow> dkg_id list \<Rightarrow> (u16 \<times> dkg_id) list \<Rightarrow> bool" where
  "next_best_from cfg ids best \<longleftrightarrow> length best \<le> max_authorities cfg \<and> ranks_ok best \<and> snd ` set best \<subseteq> set ids"

lemma put_next_best_view:
  assumes "put_next_best cfg ids s = (Ok (), s')" and "set ids \<subseteq> set (next_authorities s)"
  shows "\<exists>best. next_best_from cfg (next_authorities s) best \<and> s' = s\<lparr>next_best_authorities := best\<rparr>"
proof -
  let ?best = "get_best_authorities (unat (next_keygen_threshold s)) ids s"
  have "s' = s\<lparr>next_best_authorities := ?best\<rparr>" "length ?best \<le> max_authorities cfg"
    using assms(1) by (simp_all add: put_next_best_Ok Let_def)
  then show ?thesis
    using best_authorities_subset [of "unat (next_keygen_threshold s)" ids s] best_ranks_ok assms(2)
    by (intro exI [of _ ?best]) (auto simp: next_best_from_def)
qed

lemma replacement_spare:
  assumes "spare \<noteq> []"
  shows "replacement cfg spare s \<in> set spare"
proof -
  let ?l = "sort_key (\<lambda>p. snd p) (filter (\<lambda>p. fst p \<in> set spare) (reputation_order cfg (authority_reputations s)))"
  have "fst (last ?l) \<in> set spare" if "?l \<noteq> []"
    using last_in_set [OF that] by simp
  then show ?thesis
    using assms unfolding replacement_def Let_def by (simp split: if_splits)
qed

lemma inv_view_eqD:
  assumes "inv_view s = inv_view t"
  shows "next_authorities s = next_authorities t" and "inv_view (s\<lparr>next_best_authorities := b\<rparr>) = inv_view (t\<lparr>next_best_authorities := b\<rparr>)"
  using assms by (simp_all add: inv_view_def)

lemma put_next_best_inv_view:
  assumes "put_next_best cfg ids s1 = (Ok (), s2)" and "inv_view s1 = inv_view s" and "set ids \<subseteq> set (next_authorities s)"
  shows "\<exists>best. next_best_from cfg (next_authorities s) best \<and> inv_view s2 = inv_view (s\<lparr>next_best_authorities := best\<rparr>)"
  using put_next_best_view [OF assms(1)] inv_view_eqD [OF assms(2)] assms(3) by auto

lemma jail_for_keygen_view:
  assumes run: "jail_for_keygen cfg now r valid s = (Ok (), s')"
    and sub: "snd ` set (next_best_authorities s) \<subseteq> set (next_authorities s)"
  shows "\<exists>best. next_best_from cfg (next_authorities s) best \<and> inv_view s' = inv_view (s\<lparr>next_best_authorities := best\<rparr>)"
proof -
  define us where "us = unjailed_next_best s"
  define others where "others = filter (\<lambda>a. a \<noteq> offender r) us"
  define s1 where "s1 = m_deposit (AuthorityJailed Keygen (offender r))
      (s\<lparr>jailed_keygen_authorities := (jailed_keygen_authorities s)(offender r \<mapsto> now)\<rparr>)"
  define spare where "spare = spare_authorities us s1"
  have v1: "inv_view s1 = inv_view s" by (simp add: s1_def)
  have "set us \<subseteq> snd ` set (next_best_authorities s)"
    by (auto simp: us_def unjailed_next_best_def image_iff)
  then have others: "set others \<subseteq> set (next_authorities s)"
    using sub by (auto simp: others_def)
  have spare: "set spare \<subseteq> set (next_authorities s)"
    by (auto simp: spare_def spare_authorities_def s1_def m_deposit_def)
  have finish: "inv_view t' = inv_view t" if "finish_report cfg now r valid t = (Ok (), t')" for t t'
    using that by (auto simp: finish_report_def)
  note run' = run [unfolded jail_for_keygen_def Let_def, folded us_def, folded others_def s1_def, folded spare_def]
  consider (spare) t where "spare \<noteq> []" "put_next_best cfg (others @ [replacement cfg spare s1]) s1 = (Ok (), t)"
      "inv_view s' = inv_view t"
    | (none) t where "put_next_best cfg others (drop_keygen_threshold us s1) = (Ok (), t)" "inv_view s' = inv_view t"
    | (other) t where "put_next_best cfg others s = (Ok (), t)" "inv_view s' = inv_view t"
    using run' finish by (auto simp: and_then_Ok split: if_splits)
  then show ?thesis
  proof cases
    case spare: (spare t)
    then have "set (others @ [replacement cfg spare s1]) \<subseteq> set (next_authorities s)"
      using others \<open>set spare \<subseteq> set (next_authorities s)\<close> replacement_spare by auto
    then show ?thesis
      using put_next_best_inv_view [OF spare(2) v1] spare(3) by simp
  next
    case (none t)
    then show ?thesis
      using put_next_best_inv_view [OF none(1) _ others] v1 by simp
  next
    case (other t)
    then show ?thesis
      using put_next_best_inv_view [OF other(1) refl others] by simp
  qed
qed

lemma jail_for_signing_view: "jail_for_signing cfg now r valid t s = (Ok (), s') \<Longrightarrow> inv_view s' = inv_view s"
  by (auto simp: jail_for_signing_def finish_report_def Let_def split: if_splits)

lemma next_best_inv:
  assumes inv: "m_inv cfg s" and best: "next_best_from cfg (next_authorities s) best \<or> best = next_best_authorities s"
    and view: "inv_view s' = inv_view (s\<lparr>authority_reputations := reps, next_best_authorities := best\<rparr>)"
    and wf: "wf_smap reps"
  shows "m_inv cfg s'"
proof (rule m_invI [OF view])
  show "storage_inv cfg (s\<lparr>authority_reputations := reps, next_best_authorities := best\<rparr>)"
    using m_invD(1) [OF inv] best wf by (auto simp: storage_inv_def next_best_from_def)
  show "keys_inv cfg (s\<lparr>authority_reputations := reps, next_best_authorities := best\<rparr>)"
    using m_invD(2) [OF inv] by (simp add: keys_inv_def)
  show "set_ids_inv (s\<lparr>authority_reputations := reps, next_best_authorities := best\<rparr>)"
    using m_invD(3) [OF inv] by (simp add: set_ids_inv_def)
  show "history_inv (s\<lparr>authority_reputations := reps, next_best_authorities := best\<rparr>)"
    using m_invD(4) [OF inv] by (simp add: history_inv_def)
qed

lemma submit_reports_inv:
  assumes inv: "m_inv cfg s" and run: "submit_misbehaviour_reports cfg x now org r s = (Ok (), s')"
  shows "m_inv cfg s'"
proof -
  define s1 where "s1 = set_reputation (offender r) (decay cfg (reputation s (offender r))) s"
  let ?reps = "authority_reputations s1"
  have s1: "s1 = s\<lparr>authority_reputations := ?reps\<rparr>"
    by (simp add: s1_def set_reputation_def)
  have wf: "wf_smap ?reps"
    using m_invD(1) [OF inv] by (simp add: s1_def set_reputation_def storage_inv_def)
  have sub: "snd ` set (next_best_authorities s1) \<subseteq> set (next_authorities s1)"
    using m_invD(1) [OF inv] by (subst (1 2) s1) (simp add: storage_inv_def)
  have same: "next_authorities s1 = next_authorities s" "next_best_authorities s1 = next_best_authorities s"
    by (subst s1, simp)+
  consider (keygen) valid where "jail_for_keygen cfg now r valid s1 = (Ok (), s')"
    | (sign) valid t where "jail_for_signing cfg now r valid t s1 = (Ok (), s')"
    using run by (auto simp: submit_misbehaviour_reports_def Let_def s1_def split: if_splits option.splits misbehaviour_type.splits)
  then show ?thesis
  proof cases
    case (keygen valid)
    from jail_for_keygen_view [OF keygen sub] obtain best where "next_best_from cfg (next_authorities s) best"
      "inv_view s' = inv_view (s1\<lparr>next_best_authorities := best\<rparr>)"
      unfolding same by blast
    then show ?thesis
      using next_best_inv [OF inv _ _ wf, of best s'] s1 by (metis (no_types))
  next
    case (sign valid t)
    have "inv_view s' = inv_view (s\<lparr>authority_reputations := ?reps, next_best_authorities := next_best_authorities s\<rparr>)"
      using jail_for_signing_view [OF sign] by (simp add: inv_view_def s1_def set_reputation_def)
    then show ?thesis
      by (intro next_best_inv [OF inv _ _ wf, of "next_best_authorities s" s']) simp_all
  qed
qed

section \<open>Rotations keep the invariants\<close>

text \<open>The rotation of the keys as an update of the state.\<close>

lemma rotate_keys_view:
  "inv_view (rotate_keys cfg key sig s) = inv_view (s\<lparr>next_dkg_public_key := None, next_public_key_signature := None,
     historical_rounds := (historical_rounds s)(fst key \<mapsto> \<lparr>curr_round_pub_key = snd (dkg_public_key s),
       next_round_pub_key = snd key, refresh_signature = sig\<rparr>),
     dkg_public_key_opt := Some key, dkg_public_key_signature := sig, previous_public_key := dkg_public_key s,
     used_signatures := (case try_push (max_signature_length cfg) (dkg_public_key_signature s) (used_signatures s) of
        Some us \<Rightarrow> us | None \<Rightarrow> used_signatures s)\<rparr>)"
  by (simp add: rotate_keys_def announce_key_def insert_historical_refresh_def Let_def split: option.splits)

lemma saturating_succ: "(i :: u64) \<le> saturating_add i 1" "saturating_add (i :: u64) 1 \<noteq> - 1 \<Longrightarrow> i < saturating_add i 1"
proof -
  have u: "unat (saturating_add i 1) = min (unat i + 1) (2 ^ 64 - 1)"
    using unat_saturating_add [of i 1] by simp
  show le: "i \<le> saturating_add i 1"
    using u unat_bound [of i] by (simp add: word_le_nat_alt)
  assume "saturating_add i 1 \<noteq> - 1"
  then have "unat i + 1 < 2 ^ 64"
    by (auto simp: saturating_add_def split: if_splits)
  with u show "i < saturating_add i 1"
    by (simp add: word_less_nat_alt)
qed

lemma queue_authorities_inv:
  assumes inv: "m_inv cfg s" and none: "next_dkg_public_key s = None"
    and len: "length ids \<le> max_authorities cfg" "length accounts \<le> max_authorities cfg"
  shows "m_inv cfg (queue_authorities ids accounts ev s)"
proof -
  let ?best = "get_best_authorities (unat (fit_keygen (length ids) (pending_keygen_threshold s))) ids s"
  let ?t = "s\<lparr>next_authorities := ids, next_authorities_accounts := accounts,
      next_authority_set_id := saturating_add (next_authority_set_id s) 1, next_best_authorities := ?best\<rparr>"
  have "inv_view (queue_authorities ids accounts ev s) = inv_view ?t"
    by (simp add: queue_authorities_def Let_def inv_view_def)
  then show ?thesis
  proof (rule m_invI)
    have "length ?best \<le> max_authorities cfg" using len by simp
    then show "storage_inv cfg ?t"
      using m_invD(1) [OF inv] len best_ranks_ok best_authorities_subset by (simp add: storage_inv_def)
    show "keys_inv cfg ?t" using m_invD(2) [OF inv] by (simp add: keys_inv_def)
    show "history_inv ?t" using m_invD(4) [OF inv] by (simp add: history_inv_def)
    have le: "authority_set_id s \<le> next_authority_set_id s"
      using m_invD(3) [OF inv] by (simp add: set_ids_inv_def)
    have "authority_set_id s \<le> saturating_add (next_authority_set_id s) 1"
      using le saturating_succ(1) by (rule order_trans)
    moreover have "saturating_add (next_authority_set_id s) 1 \<noteq> - 1 \<Longrightarrow> authority_set_id s < saturating_add (next_authority_set_id s) 1"
      using le saturating_succ(2) by (meson le_less_trans)
    ultimately show "set_ids_inv ?t"
      using m_invD(3) [OF inv] none by (simp add: set_ids_inv_def)
  qed
qed

lemma rotation_inv:
  assumes inv: "m_inv cfg s" and key: "next_dkg_public_key s = Some key" and sig: "sig_fits cfg sig"
    and len: "length ids \<le> max_authorities cfg" "length accounts \<le> max_authorities cfg"
      "length new_ids \<le> max_authorities cfg" "length new_accounts \<le> max_authorities cfg"
  shows "m_inv cfg (rotate_keys cfg key sig (activate_authorities new_ids ids new_accounts s (queue_authorities ids accounts ev s)))"
proof -
  let ?q = "activate_authorities new_ids ids new_accounts s (queue_authorities ids accounts ev s)"
  let ?best = "get_best_authorities (unat (fit_keygen (length ids) (pending_keygen_threshold s))) ids s"
  let ?r = "\<lparr>curr_round_pub_key = snd (dkg_public_key s), next_round_pub_key = snd key, refresh_signature = sig\<rparr>"
  let ?us = "case try_push (max_signature_length cfg) (dkg_public_key_signature s) (used_signatures s) of
        Some us \<Rightarrow> us | None \<Rightarrow> used_signatures s"
  let ?t = "s\<lparr>next_dkg_public_key := None, next_public_key_signature := None,
     historical_rounds := (historical_rounds s)(fst key \<mapsto> ?r),
     dkg_public_key_opt := Some key, dkg_public_key_signature := sig, previous_public_key := dkg_public_key s,
     used_signatures := ?us, authorities := new_ids, current_authorities_accounts := new_accounts,
     best_authorities := next_best_authorities s, authority_set_id := next_authority_set_id s,
     next_authorities := ids, next_authorities_accounts := accounts,
     next_authority_set_id := saturating_add (next_authority_set_id s) 1, next_best_authorities := ?best\<rparr>"
  have q: "dkg_public_key ?q = dkg_public_key s"
    by (simp add: activate_authorities_def dkg_public_key_def)
  have us: "used_signatures ?q = used_signatures s" "dkg_public_key_signature ?q = dkg_public_key_signature s"
    by (simp_all add: activate_authorities_def queue_authorities_def Let_def)
  have view: "inv_view (rotate_keys cfg key sig ?q) = inv_view ?t"
    unfolding rotate_keys_view q us
    by (simp add: activate_authorities_def queue_authorities_def Let_def inv_view_def)
  have id: "fst key = next_authority_set_id s"
    using m_invD(3) [OF inv] key by (simp add: set_ids_inv_def)
  have old: "authority_set_id s \<le> next_authority_set_id s"
    using m_invD(3) [OF inv] by (simp add: set_ids_inv_def)
  have fits: "key_fits cfg (snd (dkg_public_key s))" "key_fits cfg (snd key)"
    using m_invD(2) [OF inv] key by (cases "dkg_public_key_opt s"; simp add: keys_inv_def dkg_public_key_def key_fits_def)+
  show ?thesis
  proof (rule m_invI [OF view])
    have "length ?best \<le> max_authorities cfg" using len by simp
    moreover have "length ?us \<le> max_signature_length cfg"
      using m_invD(1) [OF inv] by (simp add: storage_inv_def try_push_def)
    ultimately show "storage_inv cfg ?t"
      using m_invD(1) [OF inv] len best_ranks_ok best_authorities_subset by (simp add: storage_inv_def)
    have "list_all (sig_fits cfg) ?us"
      using m_invD(2) [OF inv] by (simp add: keys_inv_def try_push_def)
    then show "keys_inv cfg ?t"
      using m_invD(2) [OF inv] fits sig by (simp add: keys_inv_def)
    show "set_ids_inv ?t"
      using id saturating_succ by (simp add: set_ids_inv_def)
    have "i \<le> next_authority_set_id s" if "historical_rounds s i \<noteq> None" for i
      using m_invD(4) [OF inv] that old by (auto simp: history_inv_def intro: order_trans)
    then show "history_inv ?t"
      using id by (cases key) (simp add: history_inv_def)
  qed
qed

lemma key_to_install_Some:
  assumes "key_to_install forced s = Some (key, sig)" and "m_inv cfg s"
  shows "next_dkg_public_key s = Some key" and "sig_fits cfg sig"
  using assms m_invD(2) [OF assms(2)]
  by (auto simp: key_to_install_def keys_inv_def sig_fits_def split: option.splits if_splits)

lemma change_authorities_inv:
  assumes run: "change_authorities cfg listener new_ids next_ids new_accounts next_accounts forced (s, w) = (Ok (), (s', w'))"
    and inv: "m_inv cfg s" and rot: "key_to_install forced s = None \<Longrightarrow> next_dkg_public_key s = None"
  shows "m_inv cfg s'"
proof (cases "key_to_install forced s")
  case None
  then obtain ev where "s' = queue_authorities next_ids next_accounts ev s"
    using change_authorities_Ok(4) [OF run] by blast
  then show ?thesis
    using queue_authorities_inv [OF inv rot [OF None] change_authorities_Ok(2,3) [OF run]] by simp
next
  case (Some v)
  obtain key sig where v: "v = (key, sig)" by (cases v)
  note k = key_to_install_Some [OF Some [unfolded v] inv]
  obtain ev where "length new_ids \<le> max_authorities cfg" "length new_accounts \<le> max_authorities cfg"
    "s' = rotate_keys cfg key sig (activate_authorities new_ids next_ids new_accounts s (queue_authorities next_ids next_accounts ev s))"
    using change_authorities_Ok(5) [OF run Some [unfolded v]] by blast
  then show ?thesis
    using rotation_inv [OF inv k change_authorities_Ok(2,3) [OF run]] by simp
qed

lemma fold_accounts: "\<exists>m. fold map_account vs s = s\<lparr>account_to_authority := m\<rparr>"
proof (induction vs arbitrary: s)
  case Nil
  then show ?case by (intro exI [of _ "account_to_authority s"]) simp
next
  case (Cons v vs)
  obtain m where "fold map_account vs (map_account v s) = (map_account v s)\<lparr>account_to_authority := m\<rparr>"
    using Cons by blast
  then show ?case
    by (intro exI [of _ m]) (simp add: map_account_def [of v s])
qed

lemma on_new_session_run:
  assumes "on_new_session cfg listener now vs queued (s, w) = res"
  shows "\<exists>m. change_authorities cfg listener (map snd vs) (map snd queued) (map fst vs) (map fst queued) False
     (s\<lparr>account_to_authority := m, last_session_rotation_block := now\<rparr>, w) = res"
proof -
  obtain m where "fold map_account (vs @ queued) s = s\<lparr>account_to_authority := m\<rparr>"
    using fold_accounts [of "vs @ queued" s] by blast
  with assms show ?thesis
    by (intro exI [of _ m]) (simp add: Let_def del: change_authorities.simps fold_append)
qed

text \<open>When a session ends, a key and its signature are there, so the rotation happens.\<close>

lemma session_installs:
  assumes "should_end_session cfg now s = Some True"
  shows "\<exists>key sig. next_dkg_public_key s = Some key \<and> next_public_key_signature s = Some sig \<and>
     key_to_install False s = Some (key, sig)"
  using assms by (auto simp: should_end_session_def key_to_install_def split: if_splits)

lemma key_to_install_frame [simp]:
  "key_to_install forced (s\<lparr>account_to_authority := m, last_session_rotation_block := b\<rparr>) = key_to_install forced s"
  "key_to_install forced (s\<lparr>pending_refresh_proposal := p, current_refresh_proposal := c\<rparr>) = key_to_install forced s"
  by (cases "next_dkg_public_key s"; simp add: key_to_install_def)+

lemma on_new_session_inv:
  assumes "m_inv cfg s" and "should_end_session cfg now s = Some True"
    and "on_new_session cfg listener now vs queued (s, w) = (Ok (), (s', w'))"
  shows "m_inv cfg s'"
proof -
  obtain m where run: "change_authorities cfg listener (map snd vs) (map snd queued) (map fst vs) (map fst queued) False
     (s\<lparr>account_to_authority := m, last_session_rotation_block := now\<rparr>, w) = (Ok (), (s', w'))"
    using on_new_session_run [OF assms(3)] by blast
  have inv: "m_inv cfg (s\<lparr>account_to_authority := m, last_session_rotation_block := now\<rparr>)"
    using assms(1) by (simp add: m_inv_cong [of "s\<lparr>account_to_authority := m, last_session_rotation_block := now\<rparr>" s] inv_view_def)
  from session_installs [OF assms(2)] show ?thesis
    by (intro change_authorities_inv [OF run inv]) auto
qed

text \<open>A signed proposal either leaves the pallet alone or is the pending refresh proposal.\<close>

lemma metadata_signed_cases:
  assumes run: "metadata_on_signed_proposal cfg x p s = (r, s')"
  obtains (same) "s' = s"
  | (accepted) i k cur bs g where "r = Ok ()" and "p = SignedProposal Refresh bs g"
      and "next_dkg_public_key s = Some (i, k)" and "next_public_key_signature s = None"
      and "pending_refresh_proposal s = Some cur" and "refresh_encode x cur = Some bs"
      and "length g \<le> max_signature_length cfg" and "g \<notin> set (used_signatures s)"
      and "s' = m_deposit (NextPublicKeySignatureSubmitted (voter_merkle_root cur) (session_length cur) (voter_count cur)
             (nonce cur) (pub_key cur) g k)
           (s\<lparr>next_public_key_signature := Some g, current_refresh_proposal := Some cur, pending_refresh_proposal := None\<rparr>)"
proof (cases "s' = s")
  case False
  note d = metadata_on_signed_proposal_def
  obtain kd bs g where p: "p = SignedProposal kd bs g" and kd: "kd = Refresh"
    using run False by (cases p) (auto simp: d split: if_splits)
  obtain i k where n: "next_dkg_public_key s = Some (i, k)"
    using run False p kd by (cases "next_dkg_public_key s") (auto simp: d)
  have ns: "next_public_key_signature s = None"
    using run False p kd n by (cases "next_public_key_signature s") (auto simp: d)
  obtain cur where cur: "pending_refresh_proposal s = Some cur"
    using run False p kd n ns by (cases "pending_refresh_proposal s") (auto simp: d)
  have bs: "refresh_encode x cur = Some bs"
    using run False p kd n ns cur by (cases "refresh_encode x cur") (auto simp: d split: if_splits)
  have g: "length g \<le> max_signature_length cfg" "g \<notin> set (used_signatures s)"
    using run False p kd n ns cur bs by (auto simp: d try_bounded_def split: if_splits)
  have "r = Ok ()" "s' = m_deposit (NextPublicKeySignatureSubmitted (voter_merkle_root cur) (session_length cur)
        (voter_count cur) (nonce cur) (pub_key cur) g k)
      (s\<lparr>next_public_key_signature := Some g, current_refresh_proposal := Some cur, pending_refresh_proposal := None\<rparr>)"
    using run p kd n ns cur bs g by (auto simp: d try_bounded_def)
  with p kd n ns cur bs g show ?thesis
    by (intro that(2)) simp_all
qed

lemma signed_proposal_inv:
  assumes inv: "m_inv cfg s" and run: "metadata_on_signed_proposal cfg x p s = (r, s')"
  shows "m_inv cfg s'"
  using run
proof (cases rule: metadata_signed_cases)
  case same
  with inv show ?thesis by simp
next
  case (accepted i k cur bs g)
  have nk: "next_dkg_public_key s \<noteq> None" using accepted by simp
  note g = accepted(7) and s' = accepted(9)
  have view: "inv_view s' = inv_view (s\<lparr>next_public_key_signature := Some g\<rparr>)"
    by (simp add: s' inv_view_def m_deposit_def)
  show ?thesis
  proof (rule m_invI [OF view])
    show "storage_inv cfg (s\<lparr>next_public_key_signature := Some g\<rparr>)" using m_invD(1) [OF inv] by (simp add: storage_inv_def)
    show "keys_inv cfg (s\<lparr>next_public_key_signature := Some g\<rparr>)" using m_invD(2) [OF inv] g by (simp add: keys_inv_def sig_fits_def)
    show "set_ids_inv (s\<lparr>next_public_key_signature := Some g\<rparr>)" using m_invD(3) [OF inv] nk by (simp add: set_ids_inv_def)
    show "history_inv (s\<lparr>next_public_key_signature := Some g\<rparr>)" using m_invD(4) [OF inv] by (simp add: history_inv_def)
  qed
qed

lemma emergency_inv:
  assumes inv: "m_inv cfg s" and run: "trigger_emergency_keygen cfg org s = (r, s')"
  shows "m_inv cfg s'"
proof (cases "s' = s")
  case False
  then have view: "inv_view s' = inv_view (s\<lparr>next_dkg_public_key := None, next_public_key_signature := None\<rparr>)"
    using run by (auto simp: trigger_emergency_keygen_def split: if_splits)
  let ?t = "s\<lparr>next_dkg_public_key := None, next_public_key_signature := None\<rparr>"
  show ?thesis
  proof (rule m_invI [OF view])
    show "storage_inv cfg ?t" using m_invD(1) [OF inv] by (simp add: storage_inv_def)
    show "keys_inv cfg ?t" using m_invD(2) [OF inv] by (simp add: keys_inv_def)
    show "set_ids_inv ?t" using m_invD(3) [OF inv] by (simp add: set_ids_inv_def)
    show "history_inv ?t" using m_invD(4) [OF inv] by (simp add: history_inv_def)
  qed
qed (use inv in simp)

lemma force_change_run:
  assumes "force_change_authorities cfg x hup listener org (s, w) = (Ok (), (s', w'))"
  shows "\<exists>s1 w1. m_force_origin cfg org \<and>
     change_authorities cfg listener (next_authorities s) (next_authorities s) (next_authorities_accounts s)
       (next_authorities_accounts s) True (s\<lparr>pending_refresh_proposal := None, current_refresh_proposal := None\<rparr>, w) = (Ok (), (s1, w1)) \<and>
     inv_view s' = inv_view s1"
proof -
  have "m_force_origin cfg org"
    using assms by (auto split: if_splits)
  with assms obtain s1 w1 where ch: "change_authorities cfg listener (next_authorities s) (next_authorities s) (next_authorities_accounts s)
       (next_authorities_accounts s) True (s\<lparr>pending_refresh_proposal := None, current_refresh_proposal := None\<rparr>, w) = (Ok (), (s1, w1))"
    by (auto simp: Let_def and_then_Ok simp del: change_authorities.simps)
  have "inv_view s' = inv_view s1"
  proof (cases "next_dkg_public_key s")
    case None
    with assms ch \<open>m_force_origin cfg org\<close> show ?thesis
      by (simp add: Let_def del: change_authorities.simps)
  next
    case (Some k)
    let ?c = "create_refresh_proposal cfg x (snd k) (refresh_nonce s1) (s1\<lparr>should_submit_proposer_vote := True\<rparr>)"
    obtain r s2 where c: "?c = (r, s2)" by (cases ?c)
    then have "inv_view s2 = inv_view s1"
      using inv_view_create_refresh [OF c] by simp
    with assms ch c Some \<open>m_force_origin cfg org\<close> show ?thesis
      by (auto simp: Let_def simp del: change_authorities.simps split: result.splits prod.splits)
  qed
  with ch \<open>m_force_origin cfg org\<close> show ?thesis by blast
qed

lemma force_change_inv:
  assumes "m_inv cfg s" and "force_change_authorities cfg x hup listener org (s, w) = (Ok (), (s', w'))"
  shows "m_inv cfg s'"
proof -
  let ?s0 = "s\<lparr>pending_refresh_proposal := None, current_refresh_proposal := None\<rparr>"
  obtain s1 w1 where run: "change_authorities cfg listener (next_authorities s) (next_authorities s) (next_authorities_accounts s)
       (next_authorities_accounts s) True (?s0, w) = (Ok (), (s1, w1))" and view: "inv_view s' = inv_view s1"
    using force_change_run [OF assms(2)] by blast
  have "m_inv cfg ?s0"
    using assms(1) by (simp add: m_inv_cong [of ?s0 s] inv_view_def)
  then have "m_inv cfg s1"
    by (rule change_authorities_inv [OF run]) (auto simp: key_to_install_def split: option.splits)
  with view show ?thesis
    using m_inv_cong by blast
qed

section \<open>Reachable states\<close>

lemma m_inv_keep: "inv_view s' = inv_view s \<Longrightarrow> m_inv cfg s \<Longrightarrow> m_inv cfg s'"
  using m_inv_cong [of s' s cfg] by simp

lemma extrinsic_keeps:
  "extrinsic f s = (r, s') \<Longrightarrow> P s \<Longrightarrow> (f s = (Ok (), s') \<Longrightarrow> P s') \<Longrightarrow> P s'"
  by (erule extrinsic_cases) auto

lemma m_step_inv:
  assumes "m_step cfg x hup listener l st st'" and "m_inv cfg (fst st)"
  shows "m_inv cfg (fst st')"
  using assms
proof (induction rule: m_step.induct)
  case (sig_threshold org t s r s' w)
  then show ?case
    by simp (erule (1) extrinsic_keeps, rule m_inv_keep, erule inv_view_set_signature_threshold)
next
  case (keygen_thr org t s r s' w)
  then show ?case
    by simp (erule (1) extrinsic_keeps, rule m_inv_keep, erule inv_view_set_keygen_threshold)
next
  case (submit_key now org keys s r s' w)
  then show ?case
    by simp (erule (1) extrinsic_keeps, erule (1) submit_key_inv)
next
  case (submit_next_key now org keys s r s' w)
  then show ?case
    by simp (erule (1) extrinsic_keeps, erule (1) submit_next_key_inv)
next
  case (submit_reports now org rep s r s' w)
  then show ?case
    by simp (erule (1) extrinsic_keeps, erule (1) submit_reports_inv)
next
  case (leave_jail now org s r s' w)
  then show ?case
    by simp (erule (1) extrinsic_keeps, rule m_inv_keep, erule inv_view_unjail)
next
  case (free_keygen org a s r s' w)
  then show ?case
    by simp (erule (1) extrinsic_keeps, rule m_inv_keep, erule inv_view_force_unjail(1))
next
  case (free_signing org a s r s' w)
  then show ?case
    by simp (erule (1) extrinsic_keeps, rule m_inv_keep, erule inv_view_force_unjail(2))
next
  case (forced org st r st')
  from forced(1,2) show ?case
  proof (rule extrinsic_keeps [where P = "\<lambda>st. m_inv cfg (fst st)"])
    assume "force_change_authorities cfg x hup listener org st = (Ok (), st')"
    then show "m_inv cfg (fst st')"
      using force_change_inv [of cfg "fst st" x hup listener org "snd st" "fst st'" "snd st'"] forced(2)
      by (simp del: force_change_authorities.simps)
  qed
next
  case (emergency org s r s' w)
  then show ?case
    by simp (erule (1) extrinsic_keeps, erule (1) emergency_inv)
next
  case (block n st st')
  then have "inv_view (fst st') = inv_view (fst st)"
    using inv_view_on_initialize [of cfg x hup n "fst st" "snd st" "Ok ()" "fst st'" "snd st'"]
    by (simp del: on_initialize.simps)
  then show ?case
    using block(2) by (rule m_inv_keep)
next
  case (session now s vs queued w st')
  then show ?case
    using on_new_session_inv [of cfg s now listener vs queued w "fst st'" "snd st'"]
    by (simp del: on_new_session.simps)
next
  case (signed p s r s' w)
  then show ?case
    by (auto dest: signed_proposal_inv)
next
  case (disabled s w i)
  then show ?case
    by (auto intro: m_inv_keep [of "on_disabled i s" s])
qed simp

lemma m_steps_inv:
  "m_steps cfg x hup listener st st' \<Longrightarrow> m_inv cfg (fst st) \<Longrightarrow> m_inv cfg (fst st')"
  by (induction rule: rtranclp_induct) (auto simp: m_next_def dest: m_step_inv)

text \<open>The first state of the chain: the genesis of the pallet, then the genesis session.\<close>

definition m_genesis ::
  "metadata_config \<Rightarrow> 'w set_change_listener \<Rightarrow> metadata_genesis \<Rightarrow> (account_id \<times> dkg_id) list \<Rightarrow> 'w \<Rightarrow>
   metadata_state \<times> 'w \<Rightarrow> bool" where
  "m_genesis cfg listener g validators w0 st \<longleftrightarrow> validators \<noteq> [] \<and>
     (\<exists>s0. metadata_genesis_build g = Some s0 \<and> on_genesis_session cfg listener validators (s0, w0) = (Ok (), st))"

lemma genesis_state:
  assumes "m_genesis cfg listener g vs w0 (s, w)"
  shows "s = empty_metadata_state\<lparr>
        signature_threshold := g_signature_threshold g, keygen_threshold := g_keygen_threshold g,
        next_signature_threshold := g_signature_threshold g, next_keygen_threshold := g_keygen_threshold g,
        pending_signature_threshold := g_signature_threshold g, pending_keygen_threshold := g_keygen_threshold g,
        authorities := map snd vs, current_authorities_accounts := map fst vs, next_authorities := map snd vs,
        next_authority_set_id := 1, next_authorities_accounts := map fst vs,
        best_authorities := get_best_authorities (unat (g_keygen_threshold g)) (map snd vs) empty_metadata_state,
        next_best_authorities := get_best_authorities (unat (g_keygen_threshold g)) (map snd vs) empty_metadata_state\<rparr>"
    and "length vs \<le> max_authorities cfg" and "listener (map fst vs) (map snd vs) w0 = Some w"
proof -
  obtain s0 where s0: "metadata_genesis_build g = Some s0" and run: "on_genesis_session cfg listener vs (s0, w0) = (Ok (), (s, w))"
    and vs: "vs \<noteq> []"
    using assms by (auto simp: m_genesis_def)
  have s0': "s0 = empty_metadata_state\<lparr>
        signature_threshold := g_signature_threshold g, keygen_threshold := g_keygen_threshold g,
        next_signature_threshold := g_signature_threshold g, next_keygen_threshold := g_keygen_threshold g,
        pending_signature_threshold := g_signature_threshold g, pending_keygen_threshold := g_keygen_threshold g,
        refresh_nonce := 0\<rparr>"
    using s0 by (simp add: metadata_genesis_build_def split: if_splits)
  define s1 where "s1 = s0\<lparr>authorities := map snd vs, authority_set_id := 0, current_authorities_accounts := map fst vs,
      next_authorities := map snd vs, next_authority_set_id := 1, next_authorities_accounts := map fst vs\<rparr>"
  have best: "get_best_authorities n ids s1 = get_best_authorities n ids empty_metadata_state" for n ids
    by (rule get_best_authorities_cong) (simp_all add: s1_def s0')
  have kt: "keygen_threshold s1 = g_keygen_threshold g" "authorities s0 = []"
    by (simp_all add: s1_def s0' empty_metadata_state_def)
  note run' = run [unfolded on_genesis_session_def initialize_authorities.simps Let_def, folded s1_def]
  show len: "length vs \<le> max_authorities cfg"
    using run' vs kt(2) by (auto split: if_splits)
  then have len': "\<not> max_authorities cfg < length vs"
      "\<not> max_authorities cfg < length (get_best_authorities (unat (keygen_threshold s1)) (map snd vs) s1)"
    by simp_all
  show lw: "listener (map fst vs) (map snd vs) w0 = Some w"
    using run' vs kt(2) len' by (cases "listener (map fst vs) (map snd vs) w0") auto
  have "s = s1\<lparr>best_authorities := get_best_authorities (unat (keygen_threshold s1)) (map snd vs) s1,
             next_best_authorities := get_best_authorities (unat (keygen_threshold s1)) (map snd vs) s1\<rparr>"
    using run' vs kt(2) len' lw by simp
  then have "s = s1\<lparr>best_authorities := get_best_authorities (unat (g_keygen_threshold g)) (map snd vs) empty_metadata_state,
             next_best_authorities := get_best_authorities (unat (g_keygen_threshold g)) (map snd vs) empty_metadata_state\<rparr>"
    unfolding best kt(1) .
  then show "s = empty_metadata_state\<lparr>
        signature_threshold := g_signature_threshold g, keygen_threshold := g_keygen_threshold g,
        next_signature_threshold := g_signature_threshold g, next_keygen_threshold := g_keygen_threshold g,
        pending_signature_threshold := g_signature_threshold g, pending_keygen_threshold := g_keygen_threshold g,
        authorities := map snd vs, current_authorities_accounts := map fst vs, next_authorities := map snd vs,
        next_authority_set_id := 1, next_authorities_accounts := map fst vs,
        best_authorities := get_best_authorities (unat (g_keygen_threshold g)) (map snd vs) empty_metadata_state,
        next_best_authorities := get_best_authorities (unat (g_keygen_threshold g)) (map snd vs) empty_metadata_state\<rparr>"
    by (simp add: s1_def s0' empty_metadata_state_def)
qed

lemma genesis_inv:
  assumes "m_genesis cfg listener g vs w0 (s, w)"
  shows "m_inv cfg s"
proof -
  note G = genesis_state [OF assms]
  have "storage_inv cfg s"
    using G(2) best_ranks_ok best_authorities_subset [of "unat (g_keygen_threshold g)" "map snd vs" empty_metadata_state]
    by (simp add: G(1) storage_inv_def empty_metadata_state_def)
  moreover have "keys_inv cfg s" "set_ids_inv s" "history_inv s"
    by (simp_all add: G(1) keys_inv_def set_ids_inv_def history_inv_def empty_metadata_state_def sig_fits_def key_fits_def)
  ultimately show ?thesis
    by (simp add: m_inv_def)
qed

end
