(* ===== verification/Metadata_Refresh.thy ===== *)
theory Metadata_Refresh
  imports Metadata_Steps
begin

text \<open>
  What the refresh proposals of \<open>pallet-dkg-metadata\<close> speak about: as long as no rotation is forced and
  no emergency key generation is triggered, the pending and the signed refresh proposal are the one
  for the next key, the next voters and the next nonce.
\<close>

section \<open>The refresh proposal a state calls for\<close>

definition refresh_of :: "metadata_config \<Rightarrow> ext \<Rightarrow> bytes \<Rightarrow> u32 \<Rightarrow> dkg_id list \<Rightarrow> refresh_proposal option" where
  "refresh_of cfg x key n voters =
     (case (decompress_public_key x key, get_voter_set_tree_root x (to_merkle_leaf cfg) voters) of
        (Ok u, Some root) \<Rightarrow> Some \<lparr>voter_merkle_root = root,
          session_length = saturating_mul (ucast (session_period cfg)) (saturating_mul (minimum_period cfg) 2),
          voter_count = of_nat (length voters), nonce = n, pub_key = u\<rparr>
      | _ \<Rightarrow> None)"

definition expected_refresh :: "metadata_config \<Rightarrow> ext \<Rightarrow> metadata_state \<Rightarrow> refresh_proposal option" where
  "expected_refresh cfg x s =
     (case next_dkg_public_key s of
        None \<Rightarrow> None
      | Some k \<Rightarrow> refresh_of cfg x (snd k) (refresh_nonce s + 1) (next_authorities s))"

lemma expected_refresh_cong:
  assumes "next_dkg_public_key s' = next_dkg_public_key s" and "refresh_nonce s' = refresh_nonce s"
    and "next_authorities s' = next_authorities s"
  shows "expected_refresh cfg x s' = expected_refresh cfg x s"
  unfolding expected_refresh_def assms ..

definition refresh_inv :: "metadata_config \<Rightarrow> ext \<Rightarrow> metadata_state \<Rightarrow> bool" where
  "refresh_inv cfg x s \<longleftrightarrow>
     (pending_refresh_proposal s \<noteq> None \<longrightarrow> pending_refresh_proposal s = expected_refresh cfg x s) \<and>
     (current_refresh_proposal s \<noteq> None \<longrightarrow> current_refresh_proposal s = expected_refresh cfg x s) \<and>
     (next_public_key_signature s \<noteq> None \<longrightarrow> current_refresh_proposal s \<noteq> None \<and> pending_refresh_proposal s = None)"

text \<open>The fields this invariant speaks about.\<close>

definition refresh_view where
  "refresh_view s = (next_dkg_public_key s, refresh_nonce s, next_authorities s, pending_refresh_proposal s,
     current_refresh_proposal s, next_public_key_signature s)"

lemma refresh_inv_keep: "refresh_view s' = refresh_view s \<Longrightarrow> refresh_inv cfg x s \<Longrightarrow> refresh_inv cfg x s'"
  unfolding refresh_view_def refresh_inv_def expected_refresh_def by (simp only: prod.inject)

lemma refresh_view_updates [simp]:
  "refresh_view (m_deposit e s) = refresh_view s" "refresh_view (update_next_signature_threshold t s) = refresh_view s"
  "refresh_view (update_next_keygen_threshold t s) = refresh_view s" "refresh_view (drop_keygen_threshold us s) = refresh_view s"
  "refresh_view (update_pending_keygen_threshold t s) = refresh_view s" "refresh_view (on_disabled i s) = refresh_view s"
  "refresh_view (trigger_keygen cfg n s) = refresh_view s" "refresh_view (set_reputation a v s) = refresh_view s"
  by (simp_all add: refresh_view_def m_deposit_def update_next_signature_threshold_def update_next_keygen_threshold_def
      update_pending_keygen_threshold_def drop_keygen_threshold_def on_disabled_def trigger_keygen_def set_reputation_def Let_def)

lemma refresh_view_thresholds:
  "set_signature_threshold cfg org t s = (r, s') \<Longrightarrow> refresh_view s' = refresh_view s"
  "set_keygen_threshold cfg org t s = (r, s') \<Longrightarrow> refresh_view s' = refresh_view s"
  by (auto simp: set_signature_threshold_def set_keygen_threshold_def m_deposit_def update_signature_threshold_def
      update_keygen_threshold_def refresh_view_def Let_def split: if_splits)

lemma refresh_view_jails:
  "unjail cfg now org s = (r, s') \<Longrightarrow> refresh_view s' = refresh_view s"
  "force_unjail_keygen cfg org a s = (r, s') \<Longrightarrow> refresh_view s' = refresh_view s"
  "force_unjail_signing cfg org a s = (r, s') \<Longrightarrow> refresh_view s' = refresh_view s"
  by (auto simp: unjail_def force_unjail_keygen_def force_unjail_signing_def m_deposit_def refresh_view_def
      split: origin.splits option.splits if_splits)

lemma refresh_view_put_next_best: "put_next_best cfg ids s = (Ok (), s') \<Longrightarrow> refresh_view s' = refresh_view s"
  by (auto simp: put_next_best_Ok Let_def refresh_view_def)

lemma refresh_view_reports:
  assumes "submit_misbehaviour_reports cfg x now org rep s = (Ok (), s')"
  shows "refresh_view s' = refresh_view s"
proof -
  define s1 where "s1 = set_reputation (offender rep) (decay cfg (reputation s (offender rep))) s"
  have s1: "refresh_view s1 = refresh_view s" by (simp add: s1_def)
  have fin: "refresh_view t' = refresh_view t" if "finish_report cfg now rep valid t = (Ok (), t')" for valid t t'
    using that by (auto simp: finish_report_def refresh_view_def m_deposit_def)
  have jail: "refresh_view (t\<lparr>jailed_keygen_authorities := j\<rparr>) = refresh_view t"
    "refresh_view (t\<lparr>jailed_signing_authorities := j\<rparr>) = refresh_view t"
    "refresh_view (t\<lparr>pending_signature_threshold := p\<rparr>) = refresh_view t" for t j p
    by (simp_all add: refresh_view_def)
  consider (keygen) valid where "jail_for_keygen cfg now rep valid s1 = (Ok (), s')"
    | (sign) valid t where "jail_for_signing cfg now rep valid t s1 = (Ok (), s')"
    using assms by (auto simp: submit_misbehaviour_reports_def Let_def s1_def split: if_splits option.splits misbehaviour_type.splits)
  then show ?thesis
  proof cases
    case (keygen valid)
    have "refresh_view s' = refresh_view s1"
      using keygen
      by (auto simp: jail_for_keygen_def Let_def and_then_Ok jail dest!: refresh_view_put_next_best fin split: if_splits)
    with s1 show ?thesis by simp
  next
    case (sign valid t)
    then have "refresh_view s' = refresh_view s1"
      by (auto simp: jail_for_signing_def Let_def jail dest!: fin split: if_splits)
    with s1 show ?thesis by simp
  qed
qed

section \<open>Creating the refresh proposal\<close>

lemma create_refresh_Ok:
  assumes "create_refresh_proposal cfg x key n s = (r, s')"
  shows "s' = s \<or> (\<exists>p. refresh_of cfg x key n (next_authorities s) = Some p \<and> s' = s\<lparr>pending_refresh_proposal := Some p\<rparr>)"
  using assms
  by (auto simp: create_refresh_proposal_def create_voter_set_data_def refresh_of_def average_session_length_def Let_def
      split: result.splits option.splits)

lemma create_refresh_inv:
  assumes inv: "refresh_inv cfg x s" and sr: "should_refresh s" and k: "next_dkg_public_key s = Some k"
    and run: "create_refresh_proposal cfg x (snd k) (refresh_nonce s + 1) s = (r, s')"
  shows "refresh_inv cfg x s'"
proof -
  have sig: "next_public_key_signature s = None"
    using sr by (simp add: should_refresh_def)
  from create_refresh_Ok [OF run] show ?thesis
  proof
    assume "\<exists>p. refresh_of cfg x (snd k) (refresh_nonce s + 1) (next_authorities s) = Some p \<and>
        s' = s\<lparr>pending_refresh_proposal := Some p\<rparr>"
    then obtain p where p: "expected_refresh cfg x s = Some p" and s': "s' = s\<lparr>pending_refresh_proposal := Some p\<rparr>"
      using k by (auto simp: expected_refresh_def)
    have "expected_refresh cfg x s' = Some p"
      using p expected_refresh_cong [of s' s] by (simp add: s')
    with inv sig p show ?thesis
      by (auto simp: refresh_inv_def s')
  qed (use inv in simp)
qed

lemma do_refresh_inv:
  assumes "refresh_inv cfg x s" and "should_refresh s" and "next_dkg_public_key s = Some k"
    and run: "do_refresh cfg x hup (snd k) (s, w) = (Ok (), (s', w'))"
  shows "refresh_inv cfg x s'"
proof -
  obtain r s1 where c: "create_refresh_proposal cfg x (snd k) (refresh_nonce s + 1) s = (r, s1)"
    by (cases "create_refresh_proposal cfg x (snd k) (refresh_nonce s + 1) s")
  have "refresh_view s' = refresh_view s1"
    using run c by (auto simp: refresh_view_def split: result.splits prod.splits)
  then show ?thesis
    using refresh_inv_keep create_refresh_inv [OF assms(1-3) c] by blast
qed

lemma on_initialize_refresh_inv:
  assumes inv: "refresh_inv cfg x s" and run: "on_initialize cfg x hup n (s, w) = (Ok (), (s', w'))"
  shows "refresh_inv cfg x s'"
proof -
  define s1 where "s1 = trigger_keygen cfg n s"
  have inv1: "refresh_inv cfg x s1"
    using refresh_inv_keep [of s1 s] inv by (simp add: s1_def)
  have run1: "(if should_refresh s1 \<and> \<not> refresh_in_progress s1 then case next_dkg_public_key s1 of
      Some k \<Rightarrow> do_refresh cfg x hup (snd k) (s1, w) | None \<Rightarrow> (Ok (), (s1, w)) else (Ok (), (s1, w))) = (Ok (), (s', w'))"
    using run unfolding on_initialize.simps Let_def s1_def .
  show ?thesis
  proof (cases "should_refresh s1 \<and> \<not> refresh_in_progress s1")
    case True
    then obtain k where k: "next_dkg_public_key s1 = Some k"
      by (auto simp: should_refresh_def)
    with True run1 show ?thesis
      using do_refresh_inv [OF inv1 _ k] by simp
  next
    case False
    with run1 inv1 show ?thesis by (simp split: if_splits)
  qed
qed

section \<open>Keys, signatures and sessions\<close>

lemma submit_key_refresh_view:
  assumes "submit_public_key cfg x now org keys s = (Ok (), s')"
  shows "refresh_view s' = refresh_view s"
  using submit_public_key_Ok [OF assms] by (auto simp: refresh_view_def m_deposit_def)

lemma submit_next_key_refresh_inv:
  assumes inv: "refresh_inv cfg x s" and run: "submit_next_public_key cfg x' now org keys s = (Ok (), s')"
  shows "refresh_inv cfg x s'"
proof -
  obtain k where none: "next_dkg_public_key s = None"
    and rv: "refresh_view s' = refresh_view (s\<lparr>next_dkg_public_key := Some k\<rparr>)"
    using submit_next_public_key_Ok [OF run] by (auto simp: refresh_view_def m_deposit_def)
  have "expected_refresh cfg x s = None" by (simp add: expected_refresh_def none)
  then have "pending_refresh_proposal s = None" "current_refresh_proposal s = None"
    using inv by (auto simp: refresh_inv_def)
  moreover then have "next_public_key_signature s = None"
    using inv by (auto simp: refresh_inv_def)
  ultimately have "refresh_inv cfg x (s\<lparr>next_dkg_public_key := Some k\<rparr>)"
    by (simp add: refresh_inv_def)
  then show ?thesis
    using refresh_inv_keep [OF rv] by blast
qed

lemma signed_refresh_inv:
  assumes inv: "refresh_inv cfg x s" and run: "metadata_on_signed_proposal cfg x p s = (r, s')"
  shows "refresh_inv cfg x s'"
  using run
proof (cases rule: metadata_signed_cases)
  case same
  with inv show ?thesis by simp
next
  case (accepted i k cur bs g)
  have "expected_refresh cfg x s' = expected_refresh cfg x s"
    by (rule expected_refresh_cong) (simp_all add: accepted(9) m_deposit_def)
  moreover have "expected_refresh cfg x s = Some cur"
    using inv accepted(5) by (simp add: refresh_inv_def)
  ultimately show ?thesis
    by (simp add: refresh_inv_def) (simp add: accepted(9) m_deposit_def)
qed

lemma rotate_keys_clears:
  "current_refresh_proposal (rotate_keys cfg key sig s) = None"
  "pending_refresh_proposal (rotate_keys cfg key sig s) = pending_refresh_proposal s"
  "next_public_key_signature (rotate_keys cfg key sig s) = None"
  "next_dkg_public_key (rotate_keys cfg key sig s) = None"
  by (simp_all add: rotate_keys_def announce_key_def insert_historical_refresh_def m_deposit_def Let_def split: option.splits)

lemma session_refresh_inv:
  assumes inv: "refresh_inv cfg x s" and e: "should_end_session cfg now s = Some True"
    and run: "on_new_session cfg listener now vs queued (s, w) = (Ok (), (s', w'))"
  shows "refresh_inv cfg x s'"
proof -
  obtain key sig where ks: "next_public_key_signature s = Some sig" "key_to_install False s = Some (key, sig)"
    using session_installs [OF e] by blast
  obtain m where ch: "change_authorities cfg listener (map snd vs) (map snd queued) (map fst vs) (map fst queued) False
     (s\<lparr>account_to_authority := m, last_session_rotation_block := now\<rparr>, w) = (Ok (), (s', w'))"
    using on_new_session_run [OF run] by blast
  define s0 where "s0 = s\<lparr>account_to_authority := m, last_session_rotation_block := now\<rparr>"
  have "key_to_install False s0 = Some (key, sig)"
    using ks(2) by (simp add: s0_def)
  then obtain ev where s': "s' = rotate_keys cfg key sig (activate_authorities (map snd vs) (map snd queued) (map fst vs) s0
      (queue_authorities (map snd queued) (map fst queued) ev s0))"
    using change_authorities_Ok(5) [OF ch [folded s0_def]] by blast
  have "pending_refresh_proposal s = None"
    using inv ks(1) by (simp add: refresh_inv_def)
  then have "pending_refresh_proposal s' = None"
    unfolding s' rotate_keys_clears by (simp add: activate_authorities_def queue_authorities_def s0_def Let_def)
  then show ?thesis
    by (simp add: refresh_inv_def) (simp add: s' rotate_keys_clears)
qed

lemma session_clears_signature:
  assumes e: "should_end_session cfg now s = Some True"
    and run: "on_new_session cfg listener now vs queued (s, w) = (Ok (), (s', w'))"
  shows "next_public_key_signature s' = None"
proof -
  obtain key sig where ks: "key_to_install False s = Some (key, sig)"
    using session_installs [OF e] by blast
  obtain m where ch: "change_authorities cfg listener (map snd vs) (map snd queued) (map fst vs) (map fst queued) False
     (s\<lparr>account_to_authority := m, last_session_rotation_block := now\<rparr>, w) = (Ok (), (s', w'))"
    using on_new_session_run [OF run] by blast
  have "key_to_install False (s\<lparr>account_to_authority := m, last_session_rotation_block := now\<rparr>) = Some (key, sig)"
    using ks by simp
  then show ?thesis
    using change_authorities_Ok(5) [OF ch] rotate_keys_clears(3) by metis
qed

section \<open>Runs without force and emergency\<close>

definition m_regular ::
  "metadata_config \<Rightarrow> ext \<Rightarrow> 'w unsigned_handler \<Rightarrow> 'w set_change_listener \<Rightarrow> metadata_state \<times> 'w \<Rightarrow> metadata_state \<times> 'w \<Rightarrow> bool" where
  "m_regular cfg x hup listener st st' \<longleftrightarrow>
     (\<exists>l. l \<noteq> ByForcedRotation \<and> l \<noteq> ByEmergency \<and> m_step cfg x hup listener l st st')"

lemma m_step_refresh_inv:
  assumes "m_step cfg x hup listener l st st'" and "refresh_inv cfg x (fst st)"
    and "l \<noteq> ByForcedRotation" and "l \<noteq> ByEmergency"
  shows "refresh_inv cfg x (fst st')"
  using assms
proof (induction rule: m_step.induct)
  case (sig_threshold org t s r s' w)
  then show ?case
    by simp (erule (1) extrinsic_keeps, rule refresh_inv_keep, erule refresh_view_thresholds(1))
next
  case (keygen_thr org t s r s' w)
  then show ?case
    by simp (erule (1) extrinsic_keeps, rule refresh_inv_keep, erule refresh_view_thresholds(2))
next
  case (submit_key now org keys s r s' w)
  then show ?case
    by simp (erule (1) extrinsic_keeps, rule refresh_inv_keep, erule submit_key_refresh_view)
next
  case (submit_next_key now org keys s r s' w)
  then show ?case
    by simp (erule (1) extrinsic_keeps, erule (1) submit_next_key_refresh_inv)
next
  case (submit_reports now org rep s r s' w)
  then show ?case
    by simp (erule (1) extrinsic_keeps, rule refresh_inv_keep, erule refresh_view_reports)
next
  case (leave_jail now org s r s' w)
  then show ?case
    by simp (erule (1) extrinsic_keeps, rule refresh_inv_keep, erule refresh_view_jails(1))
next
  case (free_keygen org a s r s' w)
  then show ?case
    by simp (erule (1) extrinsic_keeps, rule refresh_inv_keep, erule refresh_view_jails(2))
next
  case (free_signing org a s r s' w)
  then show ?case
    by simp (erule (1) extrinsic_keeps, rule refresh_inv_keep, erule refresh_view_jails(3))
next
  case (block n st st')
  then show ?case
    using on_initialize_refresh_inv [of cfg x "fst st" hup n "snd st" "fst st'" "snd st'"]
    by (simp del: on_initialize.simps)
next
  case (session now s vs queued w st')
  then show ?case
    using session_refresh_inv [of cfg x s now listener vs queued w "fst st'" "snd st'"]
    by (simp del: on_new_session.simps)
next
  case (signed p s r s' w)
  then show ?case
    by (auto dest: signed_refresh_inv)
next
  case (disabled s w i)
  then show ?case
    by (auto intro: refresh_inv_keep [of "on_disabled i s" s])
qed simp_all

lemma m_regular_refresh_inv:
  "(m_regular cfg x hup listener)\<^sup>*\<^sup>* st st' \<Longrightarrow> refresh_inv cfg x (fst st) \<Longrightarrow> refresh_inv cfg x (fst st')"
  by (induction rule: rtranclp_induct) (auto simp: m_regular_def dest: m_step_refresh_inv)

section \<open>The signature and the proposal it came with\<close>

text \<open>The signature of the next key and the refresh proposal it is for change together.\<close>

definition sig_kept :: "metadata_state \<Rightarrow> metadata_state \<Rightarrow> bool" where
  "sig_kept s s' \<longleftrightarrow> next_public_key_signature s' = next_public_key_signature s \<and>
     current_refresh_proposal s' = current_refresh_proposal s"

lemma sig_kept_refl [simp]: "sig_kept s s"
  by (simp add: sig_kept_def)

lemma sig_kept_view: "refresh_view s' = refresh_view s \<Longrightarrow> sig_kept s s'"
  by (simp add: sig_kept_def refresh_view_def)

lemma sig_kept_initialize:
  assumes "on_initialize cfg x hup n (s, w) = (Ok (), (s', w'))"
  shows "sig_kept s s'"
proof -
  have create: "sig_kept t t'" if "create_refresh_proposal cfg x k m t = (r, t')" for k m t r t'
    using create_refresh_Ok [OF that] by (auto simp: sig_kept_def)
  have refresh: "sig_kept t t'" if "do_refresh cfg x hup k (t, w) = (Ok (), (t', w'))" for k t t'
  proof -
    obtain r t1 where c: "create_refresh_proposal cfg x k (refresh_nonce t + 1) t = (r, t1)"
      by (cases "create_refresh_proposal cfg x k (refresh_nonce t + 1) t")
    have "refresh_view t' = refresh_view t1"
      using that c by (auto simp: refresh_view_def split: result.splits prod.splits)
    with create [OF c] show ?thesis
      by (simp add: sig_kept_def refresh_view_def)
  qed
  define s1 where "s1 = trigger_keygen cfg n s"
  have "sig_kept s1 s'"
    using assms refresh unfolding on_initialize.simps Let_def s1_def [symmetric]
    by (auto split: if_splits option.splits simp del: do_refresh.simps)
  moreover have "refresh_view s1 = refresh_view s"
    by (simp add: s1_def)
  ultimately show ?thesis
    by (simp add: sig_kept_def refresh_view_def)
qed

lemma m_step_signature:
  assumes "m_step cfg x hup listener l st st'" and "l \<noteq> ByForcedRotation" and "l \<noteq> ByEmergency"
    and "next_public_key_signature (fst st') = Some g"
  shows "sig_kept (fst st) (fst st') \<or>
     (\<exists>r bs. l = BySignature (SignedProposal Refresh bs g) \<and> current_refresh_proposal (fst st') = Some r \<and>
        refresh_encode x r = Some bs)"
  using assms
proof (induction rule: m_step.induct)
  case (sig_threshold org t s r s' w)
  have "sig_kept s s'"
    by (rule extrinsic_keeps [OF sig_threshold(1)]) (auto intro: sig_kept_view dest: refresh_view_thresholds)
  then show ?case by simp
next
  case (keygen_thr org t s r s' w)
  have "sig_kept s s'"
    by (rule extrinsic_keeps [OF keygen_thr(1)]) (auto intro: sig_kept_view dest: refresh_view_thresholds)
  then show ?case by simp
next
  case (submit_key now org keys s r s' w)
  have "sig_kept s s'"
    by (rule extrinsic_keeps [OF submit_key(1)]) (auto intro: sig_kept_view dest: submit_key_refresh_view)
  then show ?case by simp
next
  case (submit_next_key now org keys s r s' w)
  have "sig_kept s s'"
    by (rule extrinsic_keeps [OF submit_next_key(1)])
      (auto simp: sig_kept_def m_deposit_def dest!: submit_next_public_key_Ok)
  then show ?case by simp
next
  case (submit_reports now org rep s r s' w)
  have "sig_kept s s'"
    by (rule extrinsic_keeps [OF submit_reports(1)]) (auto intro: sig_kept_view dest: refresh_view_reports)
  then show ?case by simp
next
  case (leave_jail now org s r s' w)
  have "sig_kept s s'"
    by (rule extrinsic_keeps [OF leave_jail(1)]) (auto intro: sig_kept_view dest: refresh_view_jails)
  then show ?case by simp
next
  case (free_keygen org a s r s' w)
  have "sig_kept s s'"
    by (rule extrinsic_keeps [OF free_keygen(1)]) (auto intro: sig_kept_view dest: refresh_view_jails)
  then show ?case by simp
next
  case (free_signing org a s r s' w)
  have "sig_kept s s'"
    by (rule extrinsic_keeps [OF free_signing(1)]) (auto intro: sig_kept_view dest: refresh_view_jails)
  then show ?case by simp
next
  case (block n st st')
  then show ?case
    using sig_kept_initialize [of cfg x hup n "fst st" "snd st" "fst st'" "snd st'"]
    by (simp del: on_initialize.simps)
next
  case (session now s vs queued w st')
  then obtain s' w' where st': "st' = (s', w')" by (cases st')
  with session have "next_public_key_signature s' = None"
    by (intro session_clears_signature [OF session(1)]) simp
  with session st' show ?case by simp
next
  case (signed p s r s' w)
  from signed(1) show ?case
    by (cases rule: metadata_signed_cases) (use signed in \<open>auto simp: m_deposit_def\<close>)
next
  case (disabled s w i)
  have "sig_kept s (on_disabled i s)" by (rule sig_kept_view) simp
  then show ?case by simp
qed simp_all

lemma genesis_refresh_inv: "m_genesis cfg listener g vs w0 (s, w) \<Longrightarrow> refresh_inv cfg x s"
  by (simp add: genesis_state(1) [of cfg listener g vs w0 s w] refresh_inv_def empty_metadata_state_def)

end
