(* ===== verification/Metadata_Offchain.thy ===== *)
theory Metadata_Offchain
  imports Rotation
begin

text \<open>
  The offchain worker of \<open>pallet-dkg-metadata\<close>: it takes the keys and the misbehaviour reports the DKG
  node left in the offchain storage and submits them as unsigned transactions. Whether the pool
  takes a transaction is the parameter \<open>pool\<close>. Each submitter returns its result, the calls it
  submitted and the offchain storage it leaves.
\<close>

datatype 'a stored_value = Absent | Undecodable | Stored 'a

record offchain_storage =
  aggregated_public_keys_at_genesis :: "aggregated_public_keys stored_value"
  submit_genesis_keys_at :: "block_number stored_value"
  aggregated_next_public_keys :: "aggregated_public_keys stored_value"
  submit_keys_at :: "block_number stored_value"
  aggregated_reports :: "aggregated_misbehaviour_reports stored_value"

definition submit_genesis_public_key_onchain ::
  "(metadata_call \<Rightarrow> bool) \<Rightarrow> block_number \<Rightarrow> metadata_state \<Rightarrow> offchain_storage \<Rightarrow>
   (string + unit) \<times> metadata_call list \<times> offchain_storage" where
  "submit_genesis_public_key_onchain pool n s os =
     (if n < next_unsigned_at s then (Inl ''Too early to send unsigned transaction'', [], os)
      else if aggregated_public_keys_at_genesis os = Absent then (Inr (), [], os)
      else case submit_genesis_keys_at os of
        Stored submit_at \<Rightarrow>
          if n < submit_at then (Inr (), [], os)
          else let os1 = os\<lparr>submit_genesis_keys_at := Absent\<rparr>
            in if dkg_key s \<noteq> [] then (Inr (), [], os1\<lparr>aggregated_public_keys_at_genesis := Absent\<rparr>)
               else (case aggregated_public_keys_at_genesis os1 of
                  Stored keys \<Rightarrow>
                    if pool (SubmitPublicKey keys)
                    then (Inr (), [SubmitPublicKey keys], os1\<lparr>aggregated_public_keys_at_genesis := Absent\<rparr>)
                    else (Inl ''Failed to submit the public key, will retry later'', [], os1)
                | _ \<Rightarrow> (Inr (), [], os1))
      | _ \<Rightarrow> (Inl ''Already submitted a key in this session'', [], os))"

definition submit_next_public_key_onchain ::
  "(metadata_call \<Rightarrow> bool) \<Rightarrow> block_number \<Rightarrow> metadata_state \<Rightarrow> offchain_storage \<Rightarrow>
   (string + unit) \<times> metadata_call list \<times> offchain_storage" where
  "submit_next_public_key_onchain pool n s os =
     (if n < next_unsigned_at s then (Inl ''Too early to send unsigned transaction'', [], os)
      else if aggregated_next_public_keys os = Absent then (Inr (), [], os)
      else case submit_keys_at os of
        Stored submit_at \<Rightarrow>
          if n < submit_at then (Inr (), [], os)
          else let os1 = os\<lparr>submit_keys_at := Absent\<rparr>
            in if next_dkg_public_key s \<noteq> None then (Inr (), [], os1\<lparr>aggregated_next_public_keys := Absent\<rparr>)
               else (case aggregated_next_public_keys os1 of
                  Stored keys \<Rightarrow>
                    if pool (SubmitNextPublicKey keys)
                    then (Inr (), [SubmitNextPublicKey keys], os1\<lparr>aggregated_next_public_keys := Absent\<rparr>)
                    else (Inl ''Failed to submit the next public key, will retry later'', [], os1)
                | _ \<Rightarrow> (Inr (), [], os1))
      | _ \<Rightarrow> (Inl ''Already submitted a key in this session'', [], os))"

definition submit_misbehaviour_reports_onchain ::
  "(metadata_call \<Rightarrow> bool) \<Rightarrow> bool \<Rightarrow> block_number \<Rightarrow> metadata_state \<Rightarrow> offchain_storage \<Rightarrow>
   (string + unit) \<times> metadata_call list \<times> offchain_storage" where
  "submit_misbehaviour_reports_onchain pool can_sign n s os =
     (if n < next_unsigned_at s then (Inl ''Too early to send unsigned transaction'', [], os)
      else if \<not> can_sign
        then (Inl ''No local accounts available. Consider adding one via `author_insertKey` RPC.'', [], os)
      else case aggregated_reports os of
        Stored r \<Rightarrow>
          if misbehaviour_reports s (misbehaviour r, report_session_id r, offender r) \<noteq> None
          then (Inr (), [], os\<lparr>aggregated_reports := Absent\<rparr>)
          else if pool (SubmitMisbehaviourReports r)
            then (Inr (), [SubmitMisbehaviourReports r], os\<lparr>aggregated_reports := Absent\<rparr>)
            else (Inl ''Failed to submit the misbehaviour reports, will retry later'', [], os)
      | _ \<Rightarrow> (Inr (), [], os))"

definition metadata_offchain_worker ::
  "(metadata_call \<Rightarrow> bool) \<Rightarrow> bool \<Rightarrow> block_number \<Rightarrow> metadata_state \<Rightarrow> offchain_storage \<Rightarrow>
   metadata_call list \<times> offchain_storage" where
  "metadata_offchain_worker pool can_sign n s os =
     (case submit_genesis_public_key_onchain pool n s os of (_, c1, os1) \<Rightarrow>
      case submit_next_public_key_onchain pool n s os1 of (_, c2, os2) \<Rightarrow>
      case submit_misbehaviour_reports_onchain pool can_sign n s os2 of (_, c3, os3) \<Rightarrow>
        (c1 @ c2 @ c3, os3))"

section \<open>Submissions\<close>

lemma next_key_submitted:
  assumes "next_unsigned_at s \<le> n" and "aggregated_next_public_keys os = Stored keys" and "submit_keys_at os = Stored m"
    and "m \<le> n" and "next_dkg_public_key s = None"
  shows "submit_next_public_key_onchain pool n s os =
     (if pool (SubmitNextPublicKey keys)
      then (Inr (), [SubmitNextPublicKey keys], os\<lparr>submit_keys_at := Absent, aggregated_next_public_keys := Absent\<rparr>)
      else (Inl ''Failed to submit the next public key, will retry later'', [], os\<lparr>submit_keys_at := Absent\<rparr>))"
  using assms by (simp add: submit_next_public_key_onchain_def Let_def not_less)

text \<open>Once the block to submit at is gone, nothing is submitted and nothing changes.\<close>

lemma no_submission_without_block:
  assumes "submit_keys_at os = Absent"
  shows "\<exists>r. submit_next_public_key_onchain pool n s os = (r, [], os)"
  using assms by (auto simp: submit_next_public_key_onchain_def)

fun next_key_worker_runs ::
  "(metadata_call \<Rightarrow> bool) \<Rightarrow> (block_number \<times> metadata_state) list \<Rightarrow> offchain_storage \<Rightarrow> metadata_call list" where
  "next_key_worker_runs pool [] os = []"
| "next_key_worker_runs pool ((n, s) # bs) os =
     (case submit_next_public_key_onchain pool n s os of (_, calls, os1) \<Rightarrow> calls @ next_key_worker_runs pool bs os1)"

lemma no_later_submission: "submit_keys_at os = Absent \<Longrightarrow> next_key_worker_runs pool bs os = []"
proof (induction bs)
  case (Cons b bs)
  obtain n s where b: "b = (n, s)" by (cases b)
  from no_submission_without_block [OF Cons.prems, of pool n s] Cons show ?case
    by (auto simp: b)
qed simp

end
