(* ===== verification/Sample_Metadata.thy ===== *)
theory Sample_Metadata
  imports Metadata_Refresh Metadata_Offchain Sample_Ext
begin

text \<open>
  A concrete configuration of \<open>pallet-dkg-metadata\<close> with three authorities and the first states of a
  run: the genesis, the submission of the next key by two of them, and the refresh proposal.
\<close>

definition sample_mcfg :: metadata_config where
  "sample_mcfg = \<lparr>m_force_origin = (\<lambda>org. org = Root), to_merkle_leaf = (\<lambda>a. a), keygen_jail_sentence = 10,
     signing_jail_sentence = 10, decay = (\<lambda>r. r div 2), unsigned_interval = 3, unsigned_priority = 1,
     session_period = 20, session_offset = 0, minimum_period = 3000, max_key_length = 512,
     max_signature_length = 512, max_authorities = 100, max_proposal_length = 10000, reputation_order = (\<lambda>m. m)\<rparr>"

definition sample_auth :: "u8 \<Rightarrow> dkg_id" where
  "sample_auth b = 2 # replicate 32 b"

definition sample_sig :: "u8 \<Rightarrow> bytes" where
  "sample_sig b = replicate 32 b @ replicate 33 0"

lemma sample_signed_by: "b \<noteq> 0 \<Longrightarrow> signed_by sample_ext (sample_auth b) msg (sample_sig b)"
  by (simp add: signed_by_def recover_ecdsa_pub_key_def SIGNATURE_LENGTH_def sample_ext_def sample_auth_def sample_sig_def)

definition sample_validators :: "(account_id \<times> dkg_id) list" where
  "sample_validators = [([1], sample_auth 1), ([2], sample_auth 2), ([3], sample_auth 3)]"

definition sample_mgenesis :: metadata_genesis where
  "sample_mgenesis = \<lparr>g_authorities = [], g_keygen_threshold = 3, g_signature_threshold = 1,
     g_authority_ids = [[1], [2], [3]]\<rparr>"

definition sample_listener :: "proposal list set_change_listener" where
  "sample_listener accounts ids w = Some w"

definition sample_taker :: "proposal list unsigned_handler" where
  "sample_taker p w = (Ok (), w @ [p])"

definition sample_best :: "(u16 \<times> dkg_id) list" where
  "sample_best = [(1, sample_auth 1), (2, sample_auth 2), (3, sample_auth 3)]"

definition sample_m0 :: metadata_state where
  "sample_m0 = empty_metadata_state\<lparr>signature_threshold := 1, keygen_threshold := 3, next_signature_threshold := 1,
     next_keygen_threshold := 3, pending_signature_threshold := 1, pending_keygen_threshold := 3,
     authorities := map snd sample_validators, current_authorities_accounts := map fst sample_validators,
     next_authorities := map snd sample_validators, next_authority_set_id := 1,
     next_authorities_accounts := map fst sample_validators, best_authorities := sample_best,
     next_best_authorities := sample_best\<rparr>"

lemma sample_mcfg_simps [simp]:
  "max_authorities sample_mcfg = 100" "max_key_length sample_mcfg = 512" "max_signature_length sample_mcfg = 512"
  "session_period sample_mcfg = 20" "session_offset sample_mcfg = 0" "max_proposal_length sample_mcfg = 10000"
  "minimum_period sample_mcfg = 3000" "to_merkle_leaf sample_mcfg = (\<lambda>a. a)" "unsigned_interval sample_mcfg = 3"
  by (simp_all add: sample_mcfg_def)

lemma length_sample_auth [simp]: "length (sample_auth b) = 33"
  by (simp add: sample_auth_def)

lemma sample_auth_eq [simp]: "sample_auth a = sample_auth b \<longleftrightarrow> a = b"
  by (simp add: sample_auth_def)

lemma sample_best_genesis:
  assumes "jailed_keygen_authorities s = Map.empty" and "authority_reputations s = []"
  shows "get_best_authorities 3 (map snd sample_validators) s = sample_best"
  using assms
  by (simp add: get_best_authorities_def get_best_authorities_by_reputation_def by_reputation_def keygen_jailed_def
      reputation_def sample_validators_def sample_best_def Let_def)

lemma sample_genesis_metadata: "m_genesis sample_mcfg sample_listener sample_mgenesis sample_validators [] (sample_m0, [])"
proof -
  have "on_genesis_session sample_mcfg sample_listener sample_validators (the (metadata_genesis_build sample_mgenesis), []) =
      (Ok (), (sample_m0, []))"
    by (simp add: on_genesis_session_def metadata_genesis_build_def sample_mgenesis_def Let_def sample_best_genesis
        empty_metadata_state_def sample_listener_def sample_m0_def)
      (simp add: sample_validators_def)
  moreover have "\<exists>s0. metadata_genesis_build sample_mgenesis = Some s0"
    by (simp add: metadata_genesis_build_def sample_mgenesis_def)
  ultimately show ?thesis
    by (auto simp: m_genesis_def sample_validators_def)
qed

definition sample_next_key :: bytes where
  "sample_next_key = 3 # replicate 32 9"

definition sample_keys :: aggregated_public_keys where
  "sample_keys = \<lparr>keys_and_signatures = [(sample_next_key, sample_sig 1), (sample_next_key, sample_sig 2)]\<rparr>"

definition sample_m1 :: metadata_state where
  "sample_m1 = sample_m0\<lparr>next_dkg_public_key := Some (1, sample_next_key),
     authority_reputations := [(sample_auth 1, 1000000), (sample_auth 2, 1000000)],
     m_events := [NextPublicKeySubmitted sample_next_key], next_unsigned_at := 4\<rparr>"

lemma verify_sample_sig:
  "b \<noteq> 0 \<Longrightarrow> verify_signer_from_set_ecdsa sample_ext (sample_auth c # cs) msg (sample_sig b) =
     (if b = c then (Some (sample_auth c), True) else verify_signer_from_set_ecdsa sample_ext cs msg (sample_sig b))"
  by (simp add: recover_ecdsa_pub_key_def SIGNATURE_LENGTH_def sample_ext_def sample_auth_def sample_sig_def)

lemma sample_process:
  "process_public_key_submissions sample_ext (keys_and_signatures sample_keys) (map snd sample_best) [] =
     Ok [(sample_next_key, [sample_auth 1, sample_auth 2])]"
  by (simp add: sample_keys_def sample_best_def to_slice_33_def ECDSA_KEY_LENGTH_def verify_sample_sig add_reporter_def
      del: verify_signer_from_set_ecdsa.simps)

lemma sample_submit_key: "submit_next_public_key sample_mcfg sample_ext 1 NoOrigin sample_keys sample_m0 = (Ok (), sample_m1)"
proof -
  have "next_best_authorities sample_m0 = sample_best" "next_dkg_public_key sample_m0 = None"
    "next_signature_threshold sample_m0 = 1"
    by (simp_all add: sample_m0_def empty_metadata_state_def)
  moreover have "find_quorum 1 [(sample_next_key, [sample_auth 1, sample_auth 2])] =
      Some (sample_next_key, [sample_auth 1, sample_auth 2])"
    by (simp add: find_quorum_def in_key_order_def)
  moreover have "length sample_next_key = 33" by (simp add: sample_next_key_def)
  ultimately show ?thesis
    by (simp add: submit_next_public_key_def sample_process try_bounded_def)
      (simp add: sample_m1_def sample_m0_def empty_metadata_state_def set_reputation_def reputation_def m_deposit_def
        saturating_add_def REPUTATION_INCREMENT_def INITIAL_REPUTATION_def)
qed

definition sample_root :: hash256 where
  "sample_root = the (get_voter_set_tree_root sample_ext (\<lambda>a. a) (map snd sample_validators))"

lemma sample_tree_root: "get_voter_set_tree_root sample_ext (\<lambda>a. a) (map snd sample_validators) = Some sample_root"
  using tree_root_Some [of "map snd sample_validators" sample_ext "\<lambda>a. a"]
  by (simp add: sample_root_def sample_validators_def)

definition sample_refresh :: refresh_proposal where
  "sample_refresh = \<lparr>voter_merkle_root = sample_root, session_length = 120000, voter_count = 3, nonce = 1,
     pub_key = replicate 31 0 @ sample_next_key\<rparr>"

definition sample_refresh_data :: bytes where
  "sample_refresh_data = the (refresh_encode sample_ext sample_refresh)"

lemma sample_encode: "refresh_encode sample_ext sample_refresh = Some sample_refresh_data"
  by (simp add: sample_refresh_data_def refresh_encode_def sample_refresh_def sample_next_key_def)

lemma length_sample_root: "length sample_root = 32"
proof -
  have "length (keccak_256 sample_ext m) = 32" for m
    by (simp add: sample_ext_def)
  moreover have "length (map snd sample_validators) = 3" by (simp add: sample_validators_def)
  moreover have "length (voter_leaves sample_ext (\<lambda>a. a) (map snd sample_validators)) =
      2 ^ unat (get_voter_set_tree_height (length (map snd sample_validators)))"
    by (rule length_voter_leaves) (simp add: sample_validators_def)
  ultimately have "length (perfect_root sample_ext (unat (get_voter_set_tree_height (length (map snd sample_validators))))
      (voter_leaves sample_ext (\<lambda>a. a) (map snd sample_validators))) = 32"
    by (intro perfect_root_length) (auto simp: voter_leaves_def padding_leaf_def)
  then show ?thesis
    using tree_root_Some [of "map snd sample_validators" sample_ext "\<lambda>a. a"] sample_tree_root
    by (simp add: sample_validators_def)
qed

lemma length_sample_refresh: "length sample_refresh_data = 112"
proof -
  have "wf_refresh sample_refresh"
    by (simp add: wf_refresh_def sample_refresh_def sample_next_key_def length_sample_root)
  then show ?thesis
    using length_refresh_encode [OF sample_nonce_codec _ sample_encode] by (simp add: REFRESH_LENGTH_def)
qed

definition sample_m2 :: metadata_state where
  "sample_m2 = sample_m1\<lparr>pending_refresh_proposal := Some sample_refresh, refresh_in_progress := True\<rparr>"

lemma sample_create:
  assumes "next_authorities s = map snd sample_validators"
  shows "create_refresh_proposal sample_mcfg sample_ext sample_next_key 1 s =
     (Ok (UnsignedProposal Refresh sample_refresh_data), s\<lparr>pending_refresh_proposal := Some sample_refresh\<rparr>)"
proof -
  have d: "decompress_public_key sample_ext sample_next_key = Ok (replicate 31 0 @ sample_next_key)"
    by (simp add: decompress_public_key_def sample_ext_def sample_next_key_def)
  have v: "create_voter_set_data sample_mcfg sample_ext s =
      Some \<lparr>voter_set_merkle_root = sample_root, average_session_length_in_millisecs = 120000, vs_voter_count = 3\<rparr>"
    using assms sample_tree_root
    by (simp add: create_voter_set_data_def average_session_length_def saturating_mul_def)
      (simp add: sample_validators_def)
  show ?thesis
    using sample_encode length_sample_refresh
    by (simp add: create_refresh_proposal_def d v flip: sample_refresh_def)
qed

lemma sample_init:
  "on_initialize sample_mcfg sample_ext sample_taker 2 (sample_m1, []) =
     (Ok (), (sample_m2, [UnsignedProposal Refresh sample_refresh_data]))"
proof -
  have t: "trigger_keygen sample_mcfg 2 sample_m1 = sample_m1"
    by (simp add: trigger_keygen_def sample_m1_def sample_m0_def empty_metadata_state_def)
  have c: "create_refresh_proposal sample_mcfg sample_ext sample_next_key (refresh_nonce sample_m1 + 1) sample_m1 =
     (Ok (UnsignedProposal Refresh sample_refresh_data), sample_m1\<lparr>pending_refresh_proposal := Some sample_refresh\<rparr>)"
    using sample_create [of sample_m1] by (simp add: sample_m1_def sample_m0_def empty_metadata_state_def)
  have "should_refresh sample_m1" "\<not> refresh_in_progress sample_m1" "next_dkg_public_key sample_m1 = Some (1, sample_next_key)"
    by (simp_all add: should_refresh_def sample_m1_def sample_m0_def empty_metadata_state_def)
  with t c show ?thesis
    by (simp add: sample_taker_def sample_m2_def)
qed

text \<open>The refresh proposal comes back signed.\<close>

definition sample_m3 :: metadata_state where
  "sample_m3 = m_deposit (NextPublicKeySignatureSubmitted (voter_merkle_root sample_refresh) (session_length sample_refresh)
        (voter_count sample_refresh) (nonce sample_refresh) (pub_key sample_refresh) [7] sample_next_key)
      (sample_m2\<lparr>next_public_key_signature := Some [7], current_refresh_proposal := Some sample_refresh,
         pending_refresh_proposal := None\<rparr>)"

lemma sample_sign:
  "metadata_on_signed_proposal sample_mcfg sample_ext (SignedProposal Refresh sample_refresh_data [7]) sample_m2 = (Ok (), sample_m3)"
proof -
  have "next_dkg_public_key sample_m2 = Some (1, sample_next_key)" "next_public_key_signature sample_m2 = None"
    "pending_refresh_proposal sample_m2 = Some sample_refresh" "used_signatures sample_m2 = []"
    by (simp_all add: sample_m2_def sample_m1_def sample_m0_def empty_metadata_state_def)
  then show ?thesis
    by (simp add: metadata_on_signed_proposal_def sample_encode try_bounded_def sample_m3_def Let_def)
qed

lemma sample_run2:
  "(m_regular sample_mcfg sample_ext sample_taker sample_listener)\<^sup>*\<^sup>* (sample_m0, [])
     (sample_m2, [UnsignedProposal Refresh sample_refresh_data])"
proof -
  let ?w = "[UnsignedProposal Refresh sample_refresh_data]"
  have "extrinsic (submit_next_public_key sample_mcfg sample_ext 1 NoOrigin sample_keys) sample_m0 = (Ok (), sample_m1)"
    using sample_submit_key by (simp add: extrinsic_Ok)
  then have "m_step sample_mcfg sample_ext sample_taker sample_listener ByCall (sample_m0, []) (sample_m1, [])"
    by (rule m_step.submit_next_key)
  then have 1: "m_regular sample_mcfg sample_ext sample_taker sample_listener (sample_m0, []) (sample_m1, [])"
    unfolding m_regular_def by blast
  have 2: "m_regular sample_mcfg sample_ext sample_taker sample_listener (sample_m1, []) (sample_m2, ?w)"
    unfolding m_regular_def using m_step.block [OF sample_init] by blast
  show ?thesis
    by (rule converse_rtranclp_into_rtranclp [OF 1 r_into_rtranclp [of "m_regular _ _ _ _", OF 2]])
qed

lemma sample_run:
  "(m_regular sample_mcfg sample_ext sample_taker sample_listener)\<^sup>*\<^sup>* (sample_m0, [])
     (sample_m3, [UnsignedProposal Refresh sample_refresh_data])"
proof -
  let ?w = "[UnsignedProposal Refresh sample_refresh_data]"
  have "m_step sample_mcfg sample_ext sample_taker sample_listener
      (BySignature (SignedProposal Refresh sample_refresh_data [7])) (sample_m2, ?w) (sample_m3, ?w)"
    by (rule m_step.signed [OF sample_sign]) simp
  then have "m_regular sample_mcfg sample_ext sample_taker sample_listener (sample_m2, ?w) (sample_m3, ?w)"
    unfolding m_regular_def by blast
  with sample_run2 show ?thesis
    by (rule rtranclp.rtrancl_into_rtrancl)
qed

end
