(* ===== verification/Voters_Correct.thy ===== *)
theory Voters_Correct
  imports Sample_Metadata
begin

text \<open>
  The properties of the choice of authorities, of the Merkle tree of voters, and of the submission of
  keys in \<open>pallet-dkg-metadata\<close>.
\<close>

section \<open>The choice of the authorities\<close>

text \<open>
  C19. The authorities chosen for a key generation are the best ones: as many as asked for (or all),
  numbered from one in the order of falling reputation, taken from the given list without repetition;
  an authority in the keygen jail is chosen only if every free one is, and among the free, and among
  the jailed, nobody left out has a better reputation than somebody chosen.
\<close>

theorem best_authorities_are_optimal:
  assumes "best = map snd (get_best_authorities n ids s)"
  shows "length best = min n (length ids) \<and> map fst (get_best_authorities n ids s) = map of_nat [1..<Suc (length best)] \<and>
     set best \<subseteq> set ids \<and> (distinct ids \<longrightarrow> distinct best) \<and>
     sorted_wrt (\<lambda>a b. reputation s b \<le> reputation s a) best \<and>
     (\<forall>a \<in> set best. \<forall>b \<in> set ids - set best. (keygen_jailed s a \<longrightarrow> keygen_jailed s b) \<and>
        (keygen_jailed s a = keygen_jailed s b \<longrightarrow> reputation s b \<le> reputation s a))"
proof (intro conjI ballI impI)
  show len: "length best = min n (length ids)" by (simp add: assms)
  show "map fst (get_best_authorities n ids s) = map of_nat [1..<Suc (length best)]"
    by (simp only: best_authorities_fst len)
  show "set best \<subseteq> set ids" using best_authorities_subset [of n ids s] by (simp add: assms)
  have best: "best = take n (ranked s (candidates n ids s))" unfolding assms by (rule best_authorities_snd)
  show "distinct best" if "distinct ids" using distinct_candidates [OF that] by (simp add: best)
  show "sorted_wrt (\<lambda>a b. reputation s b \<le> reputation s a) best"
    unfolding best by (rule sorted_wrt_take [OF ranked_sorted])
  fix a b assume ab: "a \<in> set best" "b \<in> set ids - set best"
  show "keygen_jailed s b" if "keygen_jailed s a"
    using jailed_last [of a n ids s b] ab that by (auto simp: assms)
  show "reputation s b \<le> reputation s a" if "keygen_jailed s a = keygen_jailed s b"
    using best_first [of a n ids s b] ab that by (simp add: assms)
qed

theorem best_authorities_are_optimal_witness:
  "\<exists>best. best = map snd (get_best_authorities 2 [sample_auth 3, sample_auth 1, sample_auth 2] sample_m1) \<and>
     length best = 2 \<and> distinct best"
  using best_authorities_are_optimal [OF refl, of 2 "[sample_auth 3, sample_auth 1, sample_auth 2]" sample_m1] by simp

section \<open>The tree of voters\<close>

text \<open>
  C20. The construction of the tree ends: for any number of voters up to \<open>2 ^ 31\<close> the height is the
  least \<open>h\<close> with room for the voters (one voter gets height one), the padding loop stops with a base
  layer of \<open>2 ^ h\<close> leaves, and the loop over the layers returns a root.
\<close>

theorem voter_tree_is_built:
  assumes "length voters \<le> 2 ^ 31" and "h = unat (get_voter_set_tree_height (length voters))"
  shows "length voters \<le> 2 ^ h \<and> (2 \<le> length voters \<longrightarrow> 2 ^ (h - 1) < length voters) \<and> h \<le> 31 \<and>
     (\<exists>layer. pre_process_for_merkleize x to_leaf voters = Some layer \<and> length layer = 2 ^ h) \<and>
     (\<exists>root. get_voter_set_tree_root x to_leaf voters = Some root)"
proof -
  have "length voters < 2 ^ 32" using assms(1) by simp
  note H = tree_height_spec [OF this, folded assms(2)]
  have "\<exists>layer. pre_process_for_merkleize x to_leaf voters = Some layer \<and> length layer = 2 ^ h"
    using pre_process_Some [OF assms(1), of x to_leaf] H(1) by (simp add: assms(2))
  moreover have "\<exists>root. get_voter_set_tree_root x to_leaf voters = Some root"
    using tree_root_Some [OF assms(1), of x to_leaf] by blast
  ultimately show ?thesis
    using H(1,3) tree_height_31 [OF assms(1)] assms(2) by blast
qed

theorem voter_tree_is_built_witness:
  "\<exists>root. get_voter_set_tree_root sample_ext (\<lambda>a. a) [sample_auth 1, sample_auth 2, sample_auth 3] = Some root"
  using voter_tree_is_built [of "[sample_auth 1, sample_auth 2, sample_auth 3]" _ sample_ext "\<lambda>a. a", OF _ refl] by simp

text \<open>
  C21. The layer-by-layer construction computes the root of the perfect binary tree over the hashed
  voters, padded with the hash of a zero byte: the hash of the roots of its two halves, recursively.
\<close>

theorem voter_root_is_the_perfect_tree_root:
  assumes "length voters \<le> 2 ^ 31"
  shows "get_voter_set_tree_root x to_leaf voters =
     Some (perfect_root x (unat (get_voter_set_tree_height (length voters)))
       (map (\<lambda>a. keccak_256 x (to_leaf a)) voters @
        replicate (2 ^ unat (get_voter_set_tree_height (length voters)) - length voters) (keccak_256 x [0])))"
  using tree_root_Some [OF assms, of x to_leaf] by (simp add: voter_leaves_def padding_leaf_def)

theorem voter_root_is_the_perfect_tree_root_witness:
  "\<exists>root. get_voter_set_tree_root sample_ext (\<lambda>a. a) [sample_auth 1] = Some root \<and>
     root = perfect_root sample_ext 1 [keccak_256 sample_ext (sample_auth 1), keccak_256 sample_ext [0]]"
  using voter_root_is_the_perfect_tree_root [of "[sample_auth 1]" sample_ext "\<lambda>a. a"]
  by (simp add: get_voter_set_tree_height_def)

text \<open>
  The leaf of a voter in the runtime (\<open>DKGEcdsaToEthereumAddress\<close>): its Ethereum address, or no bytes at
  all when its key does not parse. The parser is code of another library: \<open>from_sec1\<close> gives the 65
  bytes of the uncompressed point.
\<close>

definition ecdsa_to_ethereum_address :: "ext \<Rightarrow> (dkg_id \<Rightarrow> bytes option) \<Rightarrow> dkg_id \<Rightarrow> bytes" where
  "ecdsa_to_ethereum_address x from_sec1 a =
     (case from_sec1 a of Some uncompressed \<Rightarrow> drop 12 (keccak_256 x (drop 1 uncompressed)) | None \<Rightarrow> [])"

lemma address_eq_iff:
  assumes "\<And>m. length (keccak_256 x m) = 32" and "inj_on (ecdsa_to_ethereum_address x from_sec1) {a \<in> A. from_sec1 a \<noteq> None}"
    and "a \<in> A" "b \<in> A"
  shows "ecdsa_to_ethereum_address x from_sec1 a = ecdsa_to_ethereum_address x from_sec1 b \<longleftrightarrow>
     a = b \<or> from_sec1 a = None \<and> from_sec1 b = None"
proof -
  have len: "length (ecdsa_to_ethereum_address x from_sec1 c) = (if from_sec1 c = None then 0 else 20)" for c
    using assms(1) by (simp add: ecdsa_to_ethereum_address_def split: option.split)
  show ?thesis
  proof (cases "from_sec1 a = None \<or> from_sec1 b = None")
    case True
    with len [of a] len [of b] show ?thesis
      by (metis length_0_conv numeral_neq_zero)
  next
    case False
    with assms(2-4) show ?thesis
      by (auto dest: inj_onD)
  qed
qed

text \<open>
  C22. The root binds the voters whose keys parse, and no others: two voter sets of the same size have
  the same root exactly if in each position they have the same voter or two voters whose keys both do
  not parse, unless two of the byte strings hashed for the trees collide or two keys that parse have
  the same address.
\<close>

theorem voter_root_binds_the_voters:
  assumes "\<And>m. length (keccak_256 x m) = 32" and "length us = length vs" and "length us \<le> 2 ^ 31"
    and "to_leaf = ecdsa_to_ethereum_address x from_sec1"
    and "inj_on (keccak_256 x) (set (hashed_for x to_leaf us) \<union> set (hashed_for x to_leaf vs))"
    and "inj_on to_leaf {a \<in> set us \<union> set vs. from_sec1 a \<noteq> None}"
  shows "get_voter_set_tree_root x to_leaf us = get_voter_set_tree_root x to_leaf vs \<longleftrightarrow>
     list_all2 (\<lambda>a b. a = b \<or> from_sec1 a = None \<and> from_sec1 b = None) us vs"
proof -
  have "map to_leaf us = map to_leaf vs \<longleftrightarrow> list_all2 (\<lambda>a b. a = b \<or> from_sec1 a = None \<and> from_sec1 b = None) us vs"
    using assms(2) address_eq_iff [OF assms(1) assms(6) [unfolded assms(4)]]
    unfolding assms(4) list_all2_conv_all_nth list_eq_iff_nth_eq by (auto simp del: map_map)
  moreover have "get_voter_set_tree_root x to_leaf us = get_voter_set_tree_root x to_leaf vs"
    if eq: "map to_leaf us = map to_leaf vs"
  proof -
    have "map (\<lambda>a. keccak_256 x (to_leaf a)) us = map (\<lambda>a. keccak_256 x (to_leaf a)) vs"
      using arg_cong [OF eq, of "map (keccak_256 x)"] by (simp add: comp_def)
    then show ?thesis
      using tree_root_Some [of us x to_leaf] tree_root_Some [of vs x to_leaf] assms(2,3) by (simp add: voter_leaves_def)
  qed
  ultimately show ?thesis
    using tree_root_inj [OF assms(1-3,5)] by blast
qed

definition tagged_ext :: ext where
  "tagged_ext = sample_ext\<lparr>keccak_256 := \<lambda>bs. of_nat (length bs) # take 31 (bs @ replicate 31 0)\<rparr>"

definition sample_sec1 :: "dkg_id \<Rightarrow> bytes option" where
  "sample_sec1 a = (if a = [1] then Some (4 # replicate 64 1) else None)"

abbreviation sample_leaf :: "dkg_id \<Rightarrow> bytes" where
  "sample_leaf \<equiv> ecdsa_to_ethereum_address tagged_ext sample_sec1"

lemma sample_leaf_simps: "sample_leaf [1] = replicate 20 1" "a \<noteq> [1] \<Longrightarrow> sample_leaf a = []"
  by (simp_all add: ecdsa_to_ethereum_address_def sample_sec1_def tagged_ext_def drop_Cons')

lemma sample_hashed:
  "hashed_for tagged_ext sample_leaf [a, b] =
     [sample_leaf a, sample_leaf b, [0], keccak_256 tagged_ext (sample_leaf a) @ keccak_256 tagged_ext (sample_leaf b)]"
proof -
  have "get_voter_set_tree_height 2 = 1"
    by (simp add: get_voter_set_tree_height_def tree_height_from.simps [of 2 0] tree_height_from.simps [of 2 1] saturating_pow_def)
  then have h: "get_voter_set_tree_height (Suc (Suc 0)) = 1"
    by (simp only: numeral_2_eq_2)
  show ?thesis
    by (simp add: hashed_for_def h voter_leaves_def)
qed

theorem voter_root_binds_the_voters_witness:
  "get_voter_set_tree_root tagged_ext sample_leaf [[1], [8]] = get_voter_set_tree_root tagged_ext sample_leaf [[1], [9]] \<and>
   get_voter_set_tree_root tagged_ext sample_leaf [[1], [8]] \<noteq> get_voter_set_tree_root tagged_ext sample_leaf [[8], [1]]"
proof -
  have len: "length (keccak_256 tagged_ext m) = 32" for m
    by (simp add: tagged_ext_def)
  have inj: "inj_on (keccak_256 tagged_ext) (set (hashed_for tagged_ext sample_leaf [[1], [8]]) \<union> set (hashed_for tagged_ext sample_leaf [[1], [9]]))"
    unfolding sample_hashed by (auto simp: sample_leaf_simps) (auto simp: tagged_ext_def inj_on_def)
  have one: "inj_on sample_leaf {a \<in> A. sample_sec1 a \<noteq> None}" for A
    by (auto simp: inj_on_def sample_sec1_def split: if_splits)
  have "get_voter_set_tree_root tagged_ext sample_leaf [[1], [8]] = get_voter_set_tree_root tagged_ext sample_leaf [[1], [9]]"
    using voter_root_binds_the_voters [OF len _ _ refl inj one] by (simp add: sample_sec1_def)
  moreover have "inj_on (keccak_256 tagged_ext) (set (hashed_for tagged_ext sample_leaf [[1], [8]]) \<union> set (hashed_for tagged_ext sample_leaf [[8], [1]]))"
    unfolding sample_hashed by (auto simp: sample_leaf_simps) (auto simp: tagged_ext_def inj_on_def)
  ultimately show ?thesis
    using voter_root_binds_the_voters [OF len _ _ refl _ one, of "[[1], [8]]" "[[8], [1]]"] by (simp add: sample_sec1_def)
qed

section \<open>The submission of keys\<close>

text \<open>
  C18. A public key is stored only with a quorum: when \<open>submit_public_key\<close> or \<open>submit_next_public_key\<close>
  succeeds, no key was stored before, and the stored key carries the identifier of the set and was
  signed by at least a threshold of distinct best authorities of that set. The reporters of a next
  key, and nobody else, gain reputation.
\<close>

theorem accepted_key_has_a_quorum:
  "(submit_public_key cfg x now org keys s = (Ok (), s') \<longrightarrow>
     dkg_public_key_opt s = None \<and> org = NoOrigin \<and>
     (\<exists>k. dkg_public_key_opt s' = Some (authority_set_id s, k) \<and>
        quorum_signed x (keys_and_signatures keys) (map snd (best_authorities s)) (signature_threshold s) k)) \<and>
   (submit_next_public_key cfg x now org keys s = (Ok (), s') \<longrightarrow>
     next_dkg_public_key s = None \<and> org = NoOrigin \<and>
     (\<exists>k rs. next_dkg_public_key s' = Some (next_authority_set_id s, k) \<and>
        quorum_signed x (keys_and_signatures keys) (map snd (next_best_authorities s)) (next_signature_threshold s) k \<and>
        distinct rs \<and> set rs \<subseteq> set (map snd (next_best_authorities s)) \<and> unat (next_signature_threshold s) \<le> length rs \<and>
        (\<forall>a. reputation s' a = (if a \<in> set rs then saturating_add (reputation s a) (ucast REPUTATION_INCREMENT) else reputation s a))))"
proof (intro conjI impI)
  assume "submit_public_key cfg x now org keys s = (Ok (), s')"
  from submit_public_key_Ok [OF this]
  show "dkg_public_key_opt s = None" "org = NoOrigin"
    "\<exists>k. dkg_public_key_opt s' = Some (authority_set_id s, k) \<and>
        quorum_signed x (keys_and_signatures keys) (map snd (best_authorities s)) (signature_threshold s) k"
    by (auto simp: m_deposit_def)
next
  assume "submit_next_public_key cfg x now org keys s = (Ok (), s')"
  from submit_next_public_key_Ok [OF this] obtain k rs reps where
    *: "org = NoOrigin" "next_dkg_public_key s = None"
      "quorum_signed x (keys_and_signatures keys) (map snd (next_best_authorities s)) (next_signature_threshold s) k"
      "s' = (m_deposit (NextPublicKeySubmitted k) (s\<lparr>next_dkg_public_key := Some (next_authority_set_id s, k)\<rparr>))
            \<lparr>authority_reputations := reps, next_unsigned_at := now + unsigned_interval cfg, refresh_in_progress := False\<rparr>"
      "distinct rs" "set rs \<subseteq> set (map snd (next_best_authorities s))" "unat (next_signature_threshold s) \<le> length rs"
      "\<forall>a. reputation s' a = (if a \<in> set rs then saturating_add (reputation s a) (ucast REPUTATION_INCREMENT) else reputation s a)"
    by blast
  then have "next_dkg_public_key s' = Some (next_authority_set_id s, k)" by (simp add: m_deposit_def)
  with * show "next_dkg_public_key s = None" "org = NoOrigin"
    "\<exists>k rs. next_dkg_public_key s' = Some (next_authority_set_id s, k) \<and>
        quorum_signed x (keys_and_signatures keys) (map snd (next_best_authorities s)) (next_signature_threshold s) k \<and>
        distinct rs \<and> set rs \<subseteq> set (map snd (next_best_authorities s)) \<and> unat (next_signature_threshold s) \<le> length rs \<and>
        (\<forall>a. reputation s' a = (if a \<in> set rs then saturating_add (reputation s a) (ucast REPUTATION_INCREMENT) else reputation s a))"
    by blast+
qed

theorem accepted_key_has_a_quorum_witness:
  "\<exists>k. next_dkg_public_key sample_m1 = Some (1, k) \<and>
     quorum_signed sample_ext (keys_and_signatures sample_keys) (map snd sample_best) 1 k"
proof -
  have s0: "next_authority_set_id sample_m0 = 1" "next_best_authorities sample_m0 = sample_best" "next_signature_threshold sample_m0 = 1"
    by (simp_all add: sample_m0_def empty_metadata_state_def)
  from accepted_key_has_a_quorum [of sample_mcfg sample_ext 1 NoOrigin sample_keys sample_m0 sample_m1] sample_submit_key
  show ?thesis unfolding s0 by blast
qed

lemma process_keys:
  "process_public_key_submissions x subs auths dict = Ok dict' \<Longrightarrow> map_of dict' k \<noteq> None \<Longrightarrow>
   map_of dict k \<noteq> None \<or> k \<in> fst ` set subs"
proof (induction x subs auths dict rule: process_public_key_submissions.induct)
  case (2 x pk sig rest auths dict)
  obtain m ok where v: "verify_signer_from_set_ecdsa x auths pk sig = (m, ok)" by (cases "verify_signer_from_set_ecdsa x auths pk sig")
  obtain a where m: "m = Some a"
    using 2(2) v by (cases m) (auto split: if_splits)
  from 2(2) v m have no: "\<not> list_ex (\<lambda>a. to_slice_33 a = None) auths"
    and run: "process_public_key_submissions x rest auths (if ok then add_reporter pk a dict else dict) = Ok dict'"
    by (auto split: if_splits)
  have "map_of (if ok then add_reporter pk a dict else dict) k \<noteq> None \<or> k \<in> fst ` set rest"
    by (rule 2(1) [OF no v [symmetric] m run 2(3)])
  then show ?case
    by (auto simp: add_reporter_def Let_def split: if_splits)
qed simp

text \<open>Submissions for one key, all of them signed by authorities, a quorum of whom is among the signers.\<close>

lemma quorum_accepted:
  assumes new: "next_dkg_public_key s = None"
    and auths: "\<And>a. a \<in> set (map snd (next_best_authorities s)) \<Longrightarrow> length a = 33"
      "inj_on tl (set (map snd (next_best_authorities s)))"
    and subs: "\<And>k' sig. (k', sig) \<in> set subs \<Longrightarrow> k' = k \<and> (\<exists>a \<in> set (map snd (next_best_authorities s)). signed_by x a k sig)"
    and rs: "distinct rs" "rs \<noteq> []" "set rs \<subseteq> set (map snd (next_best_authorities s))" "unat (next_signature_threshold s) \<le> length rs"
    and signed: "\<And>a. a \<in> set rs \<Longrightarrow> \<exists>sig. (k, sig) \<in> set subs \<and> signed_by x a k sig" and len: "length k \<le> max_key_length cfg"
  shows "\<exists>s'. submit_next_public_key cfg x now NoOrigin \<lparr>keys_and_signatures = subs\<rparr> s = (Ok (), s') \<and>
     next_dkg_public_key s' = Some (next_authority_set_id s, k)"
proof -
  let ?au = "map snd (next_best_authorities s)"
  obtain dict where dict: "process_public_key_submissions x subs ?au [] = Ok dict"
    using process_succeeds [of ?au subs x "[]"] auths(1) subs by (fastforce simp: ECDSA_KEY_LENGTH_def)
  note wf = process_Nil_sound [OF dict] and complete = process_complete [OF dict]
  have key: "k' = k" if "map_of dict k' \<noteq> None" for k'
    using process_keys [OF dict that] subs by auto
  obtain a0 where "a0 \<in> set rs" using rs(2) by (cases rs) auto
  with signed obtain sig0 where "(k, sig0) \<in> set subs" by blast
  from complete [THEN conjunct2, rule_format, OF this] obtain ds where ds: "map_of dict k = Some ds" by auto
  have "a \<in> set ds" if a: "a \<in> set rs" for a
  proof -
    obtain sig where sig: "(k, sig) \<in> set subs" "signed_by x a k sig" using signed [OF a] by blast
    from complete [THEN conjunct2, rule_format, OF sig(1)] ds
    obtain b where b: "fst (verify_signer_from_set_ecdsa x ?au k sig) = Some b" "b \<in> set ds"
      by auto
    then have "b \<in> set ?au \<and> signed_by x b k sig"
      using verify_signer_Some [of x ?au k sig b] by (metis prod.collapse)
    moreover have "a \<in> set ?au" using a rs(3) by auto
    ultimately have "tl b = tl a" "b \<in> set ?au" "a \<in> set ?au"
      using sig(2) unfolding signed_by_def by auto
    then have "b = a"
      by (rule inj_onD [OF auths(2)])
    with b show ?thesis by simp
  qed
  then have "length rs \<le> length ds"
    using rs(1) by (metis card_mono card_length distinct_card finite_set le_trans subsetI)
  then have "unat (next_signature_threshold s) \<le> length ds"
    using rs(4) by simp
  then obtain k' ds' where q: "find_quorum (next_signature_threshold s) dict = Some (k', ds')"
    using find_quorum_exists [OF ds, of "next_signature_threshold s"] by auto
  then have "k' = k"
    using find_quorum_Some(1) [OF q wf_dictD(1) [OF wf]] key by simp
  with new dict q len show ?thesis
    using fold_reputation [where f = "\<lambda>r. saturating_add r (ucast REPUTATION_INCREMENT)" and rs = ds' and
        s = "s\<lparr>next_dkg_public_key := Some (next_authority_set_id s, k)\<rparr>"]
    by (auto simp: submit_next_public_key_def try_bounded_def m_deposit_def Let_def)
qed

text \<open>
  An honest quorum is heard: when at least a threshold of distinct best authorities, whose keys
  have 33 bytes and different x coordinates, sign the same key and no key is stored yet, the
  submission of their signatures stores the key.
\<close>

theorem honest_quorum_is_accepted:
  assumes new: "next_dkg_public_key s = None"
    and auths: "\<And>a. a \<in> set (map snd (next_best_authorities s)) \<Longrightarrow> length a = 33"
      "inj_on tl (set (map snd (next_best_authorities s)))"
    and rs: "distinct rs" "rs \<noteq> []" "set rs \<subseteq> set (map snd (next_best_authorities s))" "unat (next_signature_threshold s) \<le> length rs"
    and signed: "\<And>a. a \<in> set rs \<Longrightarrow> signed_by x a k (sg a)" and len: "length k \<le> max_key_length cfg"
  shows "\<exists>s'. submit_next_public_key cfg x now NoOrigin \<lparr>keys_and_signatures = map (\<lambda>a. (k, sg a)) rs\<rparr> s = (Ok (), s') \<and>
     next_dkg_public_key s' = Some (next_authority_set_id s, k)"
  by (rule quorum_accepted [OF new auths _ rs _ len]) (use rs(3) signed in auto)

theorem honest_quorum_is_accepted_witness:
  "\<exists>s'. submit_next_public_key sample_mcfg sample_ext 1 NoOrigin
       \<lparr>keys_and_signatures = [(sample_next_key, sample_sig 1), (sample_next_key, sample_sig 2)]\<rparr> sample_m0 = (Ok (), s') \<and>
     next_dkg_public_key s' = Some (1, sample_next_key)"
proof -
  have s0: "next_dkg_public_key sample_m0 = None" "next_best_authorities sample_m0 = sample_best"
    "next_signature_threshold sample_m0 = 1" "next_authority_set_id sample_m0 = 1"
    by (simp_all add: sample_m0_def empty_metadata_state_def)
  have "\<exists>s'. submit_next_public_key sample_mcfg sample_ext 1 NoOrigin
       \<lparr>keys_and_signatures = map (\<lambda>a. (sample_next_key, sample_sig (a ! 1))) [sample_auth 1, sample_auth 2]\<rparr> sample_m0 = (Ok (), s') \<and>
     next_dkg_public_key s' = Some (next_authority_set_id sample_m0, sample_next_key)"
  proof (rule honest_quorum_is_accepted [OF s0(1)])
    show "length a = 33" if "a \<in> set (map snd (next_best_authorities sample_m0))" for a
      using that by (auto simp: s0 sample_best_def)
    show "inj_on tl (set (map snd (next_best_authorities sample_m0)))"
      by (simp add: s0 sample_best_def inj_on_def sample_auth_def)
    show "signed_by sample_ext a sample_next_key (sample_sig (a ! 1))" if "a \<in> set [sample_auth 1, sample_auth 2]" for a
      using that sample_signed_by [of 1] sample_signed_by [of 2] by (auto simp: sample_auth_def)
  qed (simp_all add: s0 sample_best_def sample_next_key_def)
  then show ?thesis
    by (simp add: s0 sample_auth_def)
qed

end
