(* ===== verification/Rotation_Correct.thy ===== *)
theory Rotation_Correct
  imports Sample_Metadata
begin

text \<open>
  The properties of \<open>pallet-dkg-metadata\<close> that concern its reachable states, the rotation of the key,
  the reports of misbehaviour and the unsigned transactions.
\<close>

section \<open>Reachable states\<close>

text \<open>
  C17. The storage stays well typed: from the genesis session, after any sequence of calls, blocks,
  session changes and signed proposals, every bounded vector keeps its bound (authorities, accounts,
  best authorities, keys, signatures and the history), the best authorities are numbered from one,
  the next best authorities belong to the next authorities, and no report was ever recorded.
\<close>

theorem reachable_storage_is_well_typed:
  assumes "m_genesis cfg listener g validators w0 st0" and "m_steps cfg x hup listener st0 (s, w)"
  shows "storage_inv cfg s \<and> keys_inv cfg s"
proof -
  have "m_inv cfg (fst st0)"
    using genesis_inv [of cfg listener g validators w0 "fst st0" "snd st0"] assms(1) by simp
  then show ?thesis
    using m_steps_inv [OF assms(2)] by (simp add: m_inv_def)
qed

lemma sample_m3_keys:
  "next_dkg_public_key sample_m3 = Some (1, sample_next_key)" "next_public_key_signature sample_m3 = Some [7]"
  "current_refresh_proposal sample_m3 = Some sample_refresh" "next_authority_set_id sample_m3 = 1"
  by (simp_all add: sample_m3_def sample_m2_def sample_m1_def sample_m0_def m_deposit_def)

lemma m_regular_steps: "(m_regular cfg x hup listener)\<^sup>*\<^sup>* st st' \<Longrightarrow> m_steps cfg x hup listener st st'"
  by (erule rtranclp_mono [THEN predicate2D, rotated]) (auto simp: m_regular_def m_next_def)

theorem reachable_storage_is_well_typed_witness:
  "storage_inv sample_mcfg sample_m3 \<and> keys_inv sample_mcfg sample_m3"
  by (rule reachable_storage_is_well_typed [OF sample_genesis_metadata m_regular_steps [OF sample_run]])

text \<open>
  C16. Keys and set identifiers stay in step: in every reachable state the active key carries the
  identifier of the active authority set and the next key that of the next set, which is larger (until
  the counter is exhausted); a signature is stored only next to a key; and if the history has an entry
  for the active set, it records the previous key, the active key and its signature.
\<close>

theorem keys_and_set_ids_in_step:
  assumes "m_genesis cfg listener g validators w0 st0" and "m_steps cfg x hup listener st0 (s, w)"
  shows "(\<forall>i k. dkg_public_key_opt s = Some (i, k) \<longrightarrow> i = authority_set_id s) \<and>
     (\<forall>i k. next_dkg_public_key s = Some (i, k) \<longrightarrow> i = next_authority_set_id s) \<and>
     (next_public_key_signature s \<noteq> None \<longrightarrow> next_dkg_public_key s \<noteq> None) \<and>
     (next_authority_set_id s \<noteq> - 1 \<longrightarrow> authority_set_id s < next_authority_set_id s) \<and>
     (\<forall>r. historical_rounds s (authority_set_id s) = Some r \<longrightarrow>
        r = \<lparr>curr_round_pub_key = snd (previous_public_key s), next_round_pub_key = dkg_key s,
             refresh_signature = dkg_public_key_signature s\<rparr>)"
proof -
  have "m_inv cfg (fst st0)"
    using genesis_inv [of cfg listener g validators w0 "fst st0" "snd st0"] assms(1) by simp
  then have inv: "m_inv cfg s"
    using m_steps_inv [OF assms(2)] by simp
  note ids = m_invD(3) [OF inv, unfolded set_ids_inv_def] and hist = m_invD(4) [OF inv, unfolded history_inv_def]
  have "r = \<lparr>curr_round_pub_key = snd (previous_public_key s), next_round_pub_key = dkg_key s,
      refresh_signature = dkg_public_key_signature s\<rparr>" if "historical_rounds s (authority_set_id s) = Some r" for r
    using hist that by (cases r) (simp add: dkg_key_def dkg_public_key_def)
  with ids show ?thesis by auto
qed

theorem keys_and_set_ids_in_step_witness:
  "\<exists>k. next_dkg_public_key sample_m3 = Some (next_authority_set_id sample_m3, k)"
proof -
  have "1 = next_authority_set_id sample_m3"
    using keys_and_set_ids_in_step [OF sample_genesis_metadata m_regular_steps [OF sample_run], THEN conjunct2, THEN conjunct1,
        rule_format, OF sample_m3_keys(1)] .
  then show ?thesis
    using sample_m3_keys(1) by simp
qed

text \<open>
  C14. A stored refresh signature is for the next key: in every state reached without a forced rotation
  and without an emergency key generation, the refresh proposal waiting for a signature and the one
  that was signed are the refresh proposal for the next key, the root and the number of the next
  voters and the next nonce; whenever the signature of the next key is stored, the signed proposal is
  stored with it. And the two belong together: a step after which a signature is stored either changes
  neither, or it is the handling of a signed proposal that carries this very signature and whose data
  are the encoding of the refresh proposal that is stored with it.
\<close>

theorem refresh_signature_is_for_the_next_key:
  assumes "m_genesis cfg listener g validators w0 st0" and "(m_regular cfg x hup listener)\<^sup>*\<^sup>* st0 (s, w)"
  shows "(\<forall>r. pending_refresh_proposal s = Some r \<or> current_refresh_proposal s = Some r \<longrightarrow>
        (\<exists>i k. next_dkg_public_key s = Some (i, k) \<and> decompress_public_key x k = Ok (pub_key r)) \<and>
        get_voter_set_tree_root x (to_merkle_leaf cfg) (next_authorities s) = Some (voter_merkle_root r) \<and>
        voter_count r = of_nat (length (next_authorities s)) \<and> nonce r = refresh_nonce s + 1) \<and>
     (next_public_key_signature s \<noteq> None \<longrightarrow> current_refresh_proposal s \<noteq> None) \<and>
     (\<forall>l s' w' sig. m_step cfg x hup listener l (s, w) (s', w') \<longrightarrow> l \<noteq> ByForcedRotation \<longrightarrow> l \<noteq> ByEmergency \<longrightarrow>
        next_public_key_signature s' = Some sig \<longrightarrow>
        next_public_key_signature s = Some sig \<and> current_refresh_proposal s' = current_refresh_proposal s \<or>
        (\<exists>r bs. l = BySignature (SignedProposal Refresh bs sig) \<and> current_refresh_proposal s' = Some r \<and>
           refresh_encode x r = Some bs))"
proof -
  have "refresh_inv cfg x (fst st0)"
    using genesis_refresh_inv [of cfg listener g validators w0 "fst st0" "snd st0"] assms(1) by simp
  then have inv: "refresh_inv cfg x s"
    using m_regular_refresh_inv [OF assms(2)] by simp
  have exp: "(\<exists>i k. next_dkg_public_key s = Some (i, k) \<and> decompress_public_key x k = Ok (pub_key r)) \<and>
      get_voter_set_tree_root x (to_merkle_leaf cfg) (next_authorities s) = Some (voter_merkle_root r) \<and>
      voter_count r = of_nat (length (next_authorities s)) \<and> nonce r = refresh_nonce s + 1"
    if "expected_refresh cfg x s = Some r" for r
    using that by (auto simp: expected_refresh_def refresh_of_def split: option.splits result.splits)
  have cur: "expected_refresh cfg x s = Some r" if "pending_refresh_proposal s = Some r \<or> current_refresh_proposal s = Some r" for r
    using inv that by (auto simp: refresh_inv_def)
  have step: "next_public_key_signature s = Some sig \<and> current_refresh_proposal s' = current_refresh_proposal s \<or>
        (\<exists>r bs. l = BySignature (SignedProposal Refresh bs sig) \<and> current_refresh_proposal s' = Some r \<and>
           refresh_encode x r = Some bs)"
    if "m_step cfg x hup listener l (s, w) (s', w')" "l \<noteq> ByForcedRotation" "l \<noteq> ByEmergency"
      "next_public_key_signature s' = Some sig" for l s' w' sig
    using m_step_signature [OF that(1-3), of sig] that(4) by (auto simp: sig_kept_def)
  show ?thesis
    using exp cur inv step unfolding refresh_inv_def by blast
qed

lemma sample_step_m3:
  "m_step sample_mcfg sample_ext sample_taker sample_listener (BySignature (SignedProposal Refresh sample_refresh_data [7]))
     (sample_m2, w) (sample_m3, w)"
  by (rule m_step.signed [OF sample_sign]) simp

theorem refresh_signature_is_for_the_next_key_witness:
  "\<exists>r k. current_refresh_proposal sample_m3 = Some r \<and> next_dkg_public_key sample_m3 = Some (1, k) \<and>
     decompress_public_key sample_ext k = Ok (pub_key r) \<and> refresh_encode sample_ext r = Some sample_refresh_data"
proof -
  have m2: "next_public_key_signature sample_m2 = None" "current_refresh_proposal sample_m2 = None"
    by (simp_all add: sample_m2_def sample_m1_def sample_m0_def empty_metadata_state_def)
  have "\<exists>i k. next_dkg_public_key sample_m3 = Some (i, k) \<and> decompress_public_key sample_ext k = Ok (pub_key sample_refresh)"
    using refresh_signature_is_for_the_next_key [OF sample_genesis_metadata sample_run, THEN conjunct1, rule_format, of sample_refresh]
      sample_m3_keys(3) by blast
  moreover have "\<exists>r bs. BySignature (SignedProposal Refresh sample_refresh_data [7]) = BySignature (SignedProposal Refresh bs [7]) \<and>
      current_refresh_proposal sample_m3 = Some r \<and> refresh_encode sample_ext r = Some bs"
    using refresh_signature_is_for_the_next_key [OF sample_genesis_metadata sample_run2, THEN conjunct2, THEN conjunct2,
        rule_format, OF sample_step_m3, of "[7]"] sample_m3_keys(2) m2 by auto
  ultimately show ?thesis
    using sample_m3_keys(1,3) by auto
qed

text \<open>
  An emergency key generation breaks that link: the call discards the next key but keeps the
  refresh proposal that was made for it. Once another key is submitted, and before the next block makes
  a new refresh proposal, the signed old proposal is still accepted: its signature is stored as the one
  of the new key and the session may end.
\<close>

theorem emergency_keeps_the_old_refresh:
  assumes "pending_refresh_proposal s = Some cur" and "refresh_encode x cur = Some bs"
    and "trigger_emergency_keygen cfg org s = (Ok (), s1)"
    and "submit_next_public_key cfg x now NoOrigin keys s1 = (Ok (), s2)"
    and "length g \<le> max_signature_length cfg" and "g \<notin> set (used_signatures s)" and "session_offset cfg \<le> n" and "session_period cfg \<noteq> 0"
  shows "\<exists>s3. metadata_on_signed_proposal cfg x (SignedProposal Refresh bs g) s2 = (Ok (), s3) \<and>
     next_dkg_public_key s3 = next_dkg_public_key s2 \<and> next_public_key_signature s3 = Some g \<and>
     current_refresh_proposal s3 = Some cur \<and> should_end_session cfg n s3 = Some True"
proof -
  have s1: "pending_refresh_proposal s1 = Some cur" "next_public_key_signature s1 = None" "used_signatures s1 = used_signatures s"
    using assms(1,3) by (auto simp: trigger_emergency_keygen_def m_deposit_def split: if_splits)
  obtain k where s2: "pending_refresh_proposal s2 = Some cur" "next_public_key_signature s2 = None"
      "used_signatures s2 = used_signatures s" "next_dkg_public_key s2 = Some k"
    using submit_next_public_key_Ok [OF assms(4)] s1 by (auto simp: m_deposit_def)
  obtain i key where "k = (i, key)" by (cases k)
  with s2 assms(2,5,6,7,8) show ?thesis
    by (simp add: metadata_on_signed_proposal_def try_bounded_def m_deposit_def should_end_session_def block_rem_def Let_def)
qed

definition sample_m4 :: metadata_state where
  "sample_m4 = snd (trigger_emergency_keygen sample_mcfg Root sample_m2)"

lemma sample_emergency: "trigger_emergency_keygen sample_mcfg Root sample_m2 = (Ok (), sample_m4)"
  by (simp add: sample_m4_def trigger_emergency_keygen_def sample_mcfg_def)

definition sample_keys' :: aggregated_public_keys where
  "sample_keys' = \<lparr>keys_and_signatures = [(3 # replicate 32 8, sample_sig 1), (3 # replicate 32 8, sample_sig 3)]\<rparr>"

lemma sample_resubmit:
  "\<exists>s2. submit_next_public_key sample_mcfg sample_ext 9 NoOrigin sample_keys' sample_m4 = (Ok (), s2)"
proof -
  let ?k = "3 # replicate 32 8"
  have m4: "next_best_authorities sample_m4 = sample_best" "next_dkg_public_key sample_m4 = None" "next_signature_threshold sample_m4 = 1"
    by (simp_all add: sample_m4_def trigger_emergency_keygen_def sample_mcfg_def sample_m2_def sample_m1_def sample_m0_def
        empty_metadata_state_def m_deposit_def)
  have "process_public_key_submissions sample_ext (keys_and_signatures sample_keys') (map snd sample_best) [] =
     Ok [(?k, [sample_auth 1, sample_auth 3])]"
    by (simp add: sample_keys'_def sample_best_def to_slice_33_def ECDSA_KEY_LENGTH_def verify_sample_sig add_reporter_def
        del: verify_signer_from_set_ecdsa.simps)
  moreover have "find_quorum 1 [(?k, [sample_auth 1, sample_auth 3])] = Some (?k, [sample_auth 1, sample_auth 3])"
    by (simp add: find_quorum_def in_key_order_def)
  ultimately show ?thesis
    by (simp add: submit_next_public_key_def m4 try_bounded_def Let_def)
qed

theorem emergency_keeps_the_old_refresh_witness:
  "\<exists>s2 s3. submit_next_public_key sample_mcfg sample_ext 9 NoOrigin sample_keys' sample_m4 = (Ok (), s2) \<and>
     metadata_on_signed_proposal sample_mcfg sample_ext (SignedProposal Refresh sample_refresh_data [7]) s2 = (Ok (), s3) \<and>
     next_public_key_signature s3 = Some [7] \<and> should_end_session sample_mcfg 10 s3 = Some True"
proof -
  obtain s2 where s2: "submit_next_public_key sample_mcfg sample_ext 9 NoOrigin sample_keys' sample_m4 = (Ok (), s2)"
    using sample_resubmit by blast
  have "pending_refresh_proposal sample_m2 = Some sample_refresh" "used_signatures sample_m2 = []"
    by (simp_all add: sample_m2_def sample_m1_def sample_m0_def empty_metadata_state_def)
  then show ?thesis
    using emergency_keeps_the_old_refresh [OF _ sample_encode sample_emergency s2, of "[7]" 10] s2 by auto
qed

section \<open>Session changes\<close>

lemma on_new_session_rotates:
  assumes "should_end_session cfg now s = Some True" and "on_new_session cfg listener now validators queued (s, w) = (Ok (), (s', w'))"
  obtains key sig m ev where "next_dkg_public_key s = Some key" "next_public_key_signature s = Some sig"
    "listener (map fst validators) (map snd validators) w = Some w'"
    "s' = rotate_keys cfg key sig (activate_authorities (map snd validators) (map snd queued) (map fst validators)
       (s\<lparr>account_to_authority := m, last_session_rotation_block := now\<rparr>)
       (queue_authorities (map snd queued) (map fst queued) ev (s\<lparr>account_to_authority := m, last_session_rotation_block := now\<rparr>)))"
proof -
  obtain key sig where ks: "next_dkg_public_key s = Some key" "next_public_key_signature s = Some sig"
      "key_to_install False s = Some (key, sig)"
    using session_installs [OF assms(1)] by blast
  obtain m where ch: "change_authorities cfg listener (map snd validators) (map snd queued) (map fst validators) (map fst queued) False
     (s\<lparr>account_to_authority := m, last_session_rotation_block := now\<rparr>, w) = (Ok (), (s', w'))"
    using on_new_session_run [OF assms(2)] by blast
  define s0 where "s0 = s\<lparr>account_to_authority := m, last_session_rotation_block := now\<rparr>"
  have "key_to_install False s0 = Some (key, sig)"
    using ks(3) by (simp add: s0_def)
  then obtain ev where "s' = rotate_keys cfg key sig (activate_authorities (map snd validators) (map snd queued) (map fst validators) s0
      (queue_authorities (map snd queued) (map fst queued) ev s0))"
    using change_authorities_Ok(5) [OF ch [folded s0_def]] by blast
  then show ?thesis
    using that [of key sig m ev] ks(1,2) change_authorities_Ok(1) [OF ch] unfolding s0_def by blast
qed

lemma rotate_keys_installs:
  "dkg_public_key_opt (rotate_keys cfg key sig s) = Some key" "dkg_public_key_signature (rotate_keys cfg key sig s) = sig"
  by (simp_all add: rotate_keys_def announce_key_def m_deposit_def Let_def split: option.splits)

text \<open>
  A session change installs the next key: when the session ends, the next key becomes the active
  one with its signature, the active key the previous one; the given validators become the authorities
  and the authorities of the key generation the best ones; the set identifier advances to that of the
  next set, the thresholds of the next set become current, the pending ones, fitted to the number of
  queued validators, become the next; the nonce advances, the next key is cleared, and the listener is
  told of the new set.
\<close>

theorem session_change_installs_the_next_key:
  assumes "should_end_session cfg now s = Some True" and "on_new_session cfg listener now validators queued (s, w) = (Ok (), (s', w'))"
  shows "\<exists>key sig. next_dkg_public_key s = Some key \<and> next_public_key_signature s = Some sig \<and>
     dkg_public_key_opt s' = Some key \<and> dkg_public_key_signature s' = sig \<and> previous_public_key s' = dkg_public_key s \<and>
     next_dkg_public_key s' = None \<and> next_public_key_signature s' = None \<and>
     authorities s' = map snd validators \<and> best_authorities s' = next_best_authorities s \<and>
     next_authorities s' = map snd queued \<and>
     authority_set_id s' = next_authority_set_id s \<and> next_authority_set_id s' = saturating_add (next_authority_set_id s) 1 \<and>
     signature_threshold s' = next_signature_threshold s \<and> keygen_threshold s' = next_keygen_threshold s \<and>
     next_signature_threshold s' = fit_signature (length queued) (pending_signature_threshold s) \<and>
     next_keygen_threshold s' = fit_keygen (length queued) (pending_keygen_threshold s) \<and>
     refresh_nonce s' = saturating_add (refresh_nonce s) 1 \<and>
     historical_rounds s' (fst key) = Some \<lparr>curr_round_pub_key = dkg_key s, next_round_pub_key = snd key, refresh_signature = sig\<rparr> \<and>
     listener (map fst validators) (map snd validators) w = Some w'"
proof -
  obtain key sig m ev where ks: "next_dkg_public_key s = Some key" "next_public_key_signature s = Some sig"
      and told: "listener (map fst validators) (map snd validators) w = Some w'"
      and eq: "s' = rotate_keys cfg key sig (activate_authorities (map snd validators) (map snd queued) (map fst validators)
       (s\<lparr>account_to_authority := m, last_session_rotation_block := now\<rparr>)
       (queue_authorities (map snd queued) (map fst queued) ev (s\<lparr>account_to_authority := m, last_session_rotation_block := now\<rparr>)))"
    by (rule on_new_session_rotates [OF assms])
  define s0 where "s0 = s\<lparr>account_to_authority := m, last_session_rotation_block := now\<rparr>"
  note s' = eq [folded s0_def]
  define q where "q = activate_authorities (map snd validators) (map snd queued) (map fst validators) s0
      (queue_authorities (map snd queued) (map fst queued) ev s0)"
  have dk: "dkg_public_key q = dkg_public_key s"
    by (simp add: q_def activate_authorities_def dkg_public_key_def s0_def)
  have keys: "dkg_public_key_opt s' = Some key \<and> dkg_public_key_signature s' = sig \<and> previous_public_key s' = dkg_public_key s \<and>
      refresh_nonce s' = saturating_add (refresh_nonce s) 1 \<and>
      historical_rounds s' (fst key) = Some \<lparr>curr_round_pub_key = dkg_key s, next_round_pub_key = snd key, refresh_signature = sig\<rparr>"
    unfolding s' q_def [symmetric]
    by (cases "current_refresh_proposal q")
      (simp_all add: rotate_keys_def announce_key_def insert_historical_refresh_def m_deposit_def Let_def dk dkg_key_def,
       simp_all add: q_def activate_authorities_def s0_def)
  have sets: "authorities s' = map snd validators" "next_authorities s' = map snd queued"
    "best_authorities s' = next_best_authorities s" "authority_set_id s' = next_authority_set_id s"
    "next_authority_set_id s' = saturating_add (next_authority_set_id s) 1"
    unfolding s' q_def [symmetric]
    by (simp_all add: rotate_keys_def announce_key_def insert_historical_refresh_def m_deposit_def Let_def split: option.splits)
      (simp_all add: q_def activate_authorities_def queue_authorities_def s0_def Let_def)
  have thr: "signature_threshold s' = next_signature_threshold s" "keygen_threshold s' = next_keygen_threshold s"
    "next_signature_threshold s' = fit_signature (length queued) (pending_signature_threshold s)"
    "next_keygen_threshold s' = fit_keygen (length queued) (pending_keygen_threshold s)"
    unfolding s' q_def [symmetric]
    by (simp_all add: rotate_keys_def announce_key_def insert_historical_refresh_def m_deposit_def Let_def split: option.splits)
      (simp_all add: q_def activate_authorities_def queue_authorities_def s0_def Let_def)
  have "next_dkg_public_key s' = None" "next_public_key_signature s' = None"
    unfolding s' by (rule rotate_keys_clears)+
  with ks keys sets thr told show ?thesis by blast
qed

lemma on_new_session_succeeds:
  assumes "length validators \<le> max_authorities cfg" and "length queued \<le> max_authorities cfg"
    and "listener (map fst validators) (map snd validators) w = Some w'"
  shows "\<exists>s'. on_new_session cfg listener now validators queued (s, w) = (Ok (), (s', w'))"
proof -
  define s0 where "s0 = (fold map_account queued (fold map_account validators s))\<lparr>last_session_rotation_block := now\<rparr>"
  have "queue_next cfg (map snd queued) (map fst queued) s0 \<noteq> None"
    using assms(2) by (simp add: queue_next_def Let_def)
  then obtain s1 where "queue_next cfg (map snd queued) (map fst queued) s0 = Some s1"
    by blast
  then show ?thesis
    using assms by (auto simp: Let_def simp flip: s0_def split: option.splits)
qed

lemma sample_session:
  "\<exists>s'. on_new_session sample_mcfg sample_listener 20 sample_validators sample_validators (sample_m3, []) = (Ok (), (s', []))"
  by (rule on_new_session_succeeds) (simp_all add: sample_validators_def sample_listener_def)

theorem session_change_installs_the_next_key_witness:
  "\<exists>s'. on_new_session sample_mcfg sample_listener 20 sample_validators sample_validators (sample_m3, []) = (Ok (), (s', [])) \<and>
     dkg_public_key_opt s' = Some (1, sample_next_key) \<and> dkg_public_key_signature s' = [7]"
proof -
  obtain s' where run: "on_new_session sample_mcfg sample_listener 20 sample_validators sample_validators (sample_m3, []) = (Ok (), (s', []))"
    using sample_session by blast
  note m3 = sample_m3_keys(1,2)
  then have "should_end_session sample_mcfg 20 sample_m3 = Some True"
    by (simp add: should_end_session_def block_rem_def)
  from session_change_installs_the_next_key [OF this run] m3 run show ?thesis by auto
qed

text \<open>
  The thresholds of the next set are fitted to its size: for up to 65535 authorities the keygen
  threshold is at most their number and, if there is an authority at all, the signature threshold is
  below it. For an empty set the subtraction wraps around and the signature threshold becomes 65535.
\<close>

theorem thresholds_fit_the_authorities:
  assumes "n < 65536" and "s' = fit_thresholds n s"
  shows "unat (next_keygen_threshold s') \<le> n \<and> (0 < n \<longrightarrow> unat (next_signature_threshold s') < n) \<and>
     (n = 0 \<longrightarrow> next_signature_threshold s' = 65535)"
proof -
  have n: "unat (of_nat n :: u16) = n" using assms(1) by (simp add: unat_of_nat)
  have n1: "0 < n \<Longrightarrow> unat (of_nat n - 1 :: u16) = n - 1"
    using n by (subst unat_sub) (simp_all add: word_le_nat_alt)
  have "next_keygen_threshold s' = (if n < unat (next_keygen_threshold s) then of_nat n else next_keygen_threshold s)"
    "next_signature_threshold s' = (if n \<le> unat (next_signature_threshold s) then of_nat n - 1 else next_signature_threshold s)"
    unfolding assms(2) by (auto simp: fit_thresholds_def update_next_keygen_threshold_eq update_next_signature_threshold_eq)
  then show ?thesis
    using n n1 by auto
qed

theorem thresholds_fit_the_authorities_witness:
  "next_signature_threshold (fit_thresholds 0 sample_m0) = 65535 \<and> unat (next_signature_threshold (fit_thresholds 1 sample_m0)) < 1"
  using thresholds_fit_the_authorities [of 0 _ sample_m0, OF _ refl] thresholds_fit_the_authorities [of 1 _ sample_m0, OF _ refl] by simp

text \<open>A refresh proposal is created whenever the key decompresses and the encoding fits.\<close>

lemma create_refresh_succeeds:
  assumes "decompress_public_key x k = Ok pk" and "length pk = 64" and "length (next_authorities s) \<le> 2 ^ 31"
    and "REFRESH_LENGTH \<le> max_proposal_length cfg" and "nonce_codec_ok x" and hash: "\<And>m. length (keccak_256 x m) = 32"
  shows "\<exists>r d. create_refresh_proposal cfg x k n s = (Ok (UnsignedProposal Refresh d), s\<lparr>pending_refresh_proposal := Some r\<rparr>) \<and>
     refresh_of cfg x k n (next_authorities s) = Some r \<and> refresh_encode x r = Some d \<and> wf_refresh r"
proof -
  let ?h = "unat (get_voter_set_tree_height (length (next_authorities s)))"
  let ?root = "perfect_root x ?h (voter_leaves x (to_merkle_leaf cfg) (next_authorities s))"
  have "get_voter_set_tree_root x (to_merkle_leaf cfg) (next_authorities s) = Some ?root"
    by (rule tree_root_Some [OF assms(3)])
  then obtain v where v: "create_voter_set_data cfg x s = Some v" "voter_set_merkle_root v = ?root"
    by (simp add: create_voter_set_data_def Let_def)
  have "length ?root = 32"
    by (rule perfect_root_length) (use length_voter_leaves [OF assms(3)] hash in \<open>auto simp: voter_leaves_def padding_leaf_def\<close>)
  define r where "r = \<lparr>voter_merkle_root = voter_set_merkle_root v, session_length = average_session_length_in_millisecs v,
     voter_count = vs_voter_count v, nonce = n, pub_key = pk\<rparr>"
  have wf: "wf_refresh r"
    using \<open>length ?root = 32\<close> assms(2) v(2) by (simp add: wf_refresh_def r_def)
  then obtain d where d: "refresh_encode x r = Some d"
    by (auto simp: refresh_encode_def wf_refresh_def)
  have "length d \<le> max_proposal_length cfg"
    using length_refresh_encode [OF assms(5) wf d] assms(4) by simp
  moreover have "refresh_of cfg x k n (next_authorities s) = Some r"
    using v(1) assms(1)
    by (auto simp: refresh_of_def create_voter_set_data_def average_session_length_def r_def Let_def split: option.splits)
  ultimately show ?thesis
    using d v(1) assms(1) wf
    by (intro exI [of _ r] exI [of _ d]) (simp add: create_refresh_proposal_def Let_def flip: r_def)
qed

text \<open>The period does not hold a session back; a period of zero panics.\<close>

theorem session_end_ignores_the_period:
  "should_end_session cfg now s =
     (if next_dkg_public_key s \<noteq> None \<and> next_public_key_signature s \<noteq> None \<and> session_offset cfg \<le> now
      then if session_period cfg = 0 then None else Some True else Some False)"
  by (simp add: should_end_session_def block_rem_def)

section \<open>Reports of misbehaviour\<close>

text \<open>
  One authority suffices to jail another: the reports are counted by the names of the reporters
  they carry, and each signature is only checked against the whole set. A signature of a single
  authority, repeated under invented names, exceeds any threshold, and the offender is jailed.
\<close>

theorem one_signature_jails_a_signer:
  assumes "misbehaviour r = Sign" and "offender r \<in> set (authorities s)"
    and "\<not> keygen_jailed s (offender r)" and "jailed_signing_authorities s (offender r) = None"
    and a: "a \<in> set (authorities s)" "length a = 33" "a \<noteq> replicate 33 0" "signed_by x a (report_payload r) sig"
    and "distinct (reporters r)" and "unat (signature_threshold s) < length (reporters r)"
    and "report_signatures r = replicate (length (reporters r)) sig"
    and "unat (signature_threshold s) \<le> length (best_authorities s)"
  shows "\<exists>s'. submit_misbehaviour_reports cfg x now NoOrigin r s = (Ok (), s') \<and>
     jailed_signing_authorities s' (offender r) = Some now"
proof -
  let ?keys = "verifying_keys (authorities s)"
  have "snd (verify_signer_from_set_ecdsa x ?keys (report_payload r) sig)"
    using verify_signer_flag [of x ?keys "report_payload r" sig] verifying_keys_member [OF a(1-3)] a(4) by blast
  then have "collect_reporters x r ?keys 0 (report_signatures r) [] = Some (reporters r)"
    using assms(9,11) collect_reporters_all [of "report_signatures r" x ?keys r 0 "[]"] by simp
  then have valid: "process_misbehaviour_reports x r (authorities s) = Some (reporters r)"
    by (simp add: process_misbehaviour_reports_def)
  define s1 where "s1 = set_reputation (offender r) (decay cfg (reputation s (offender r))) s"
  have s1: "best_authorities s1 = best_authorities s" "jailed_signing_authorities s1 (offender r) = None"
    using assms(4) by (simp_all add: s1_def set_reputation_def)
  have "submit_misbehaviour_reports cfg x now NoOrigin r s = jail_for_signing cfg now r (reporters r) (signature_threshold s) s1"
    using assms(1-4,10) valid by (simp add: submit_misbehaviour_reports_def s1_def)
  also have "\<exists>s'. \<dots> = (Ok (), s') \<and> jailed_signing_authorities s' (offender r) = Some now"
    using assms(12) signing_filter_keeps_all [OF s1(2)] s1(1)
    by (simp add: jail_for_signing_def finish_report_def m_deposit_def)
  finally show ?thesis .
qed

definition sample_report :: aggregated_misbehaviour_reports where
  "sample_report = \<lparr>misbehaviour = Sign, report_session_id = 0, offender = sample_auth 1,
     reporters = [[11], [12]], report_signatures = [sample_sig 2, sample_sig 2]\<rparr>"

theorem one_signature_jails_a_signer_witness:
  "\<exists>s'. submit_misbehaviour_reports sample_mcfg sample_ext 5 NoOrigin sample_report sample_m0 = (Ok (), s') \<and>
     jailed_signing_authorities s' (sample_auth 1) = Some 5"
proof -
  have m0: "authorities sample_m0 = map snd sample_validators" "jailed_keygen_authorities sample_m0 = Map.empty"
    "jailed_signing_authorities sample_m0 = Map.empty" "signature_threshold sample_m0 = 1" "best_authorities sample_m0 = sample_best"
    by (simp_all add: sample_m0_def empty_metadata_state_def)
  have "\<exists>s'. submit_misbehaviour_reports sample_mcfg sample_ext 5 NoOrigin sample_report sample_m0 = (Ok (), s') \<and>
     jailed_signing_authorities s' (offender sample_report) = Some 5"
  proof (rule one_signature_jails_a_signer)
    show "signed_by sample_ext (sample_auth 2) (report_payload sample_report) (sample_sig 2)"
      by (rule sample_signed_by) simp
    show "sample_auth 2 \<noteq> replicate 33 0" by (simp add: sample_auth_def eval_nat_numeral)
  qed (simp_all add: m0 sample_report_def sample_validators_def keygen_jailed_def sample_best_def numeral_2_eq_2)
  then show ?thesis by (simp add: sample_report_def)
qed

section \<open>Unsigned transactions\<close>

text \<open>The calls that are accepted without a signature.\<close>

fun unsigned_dispatch ::
  "metadata_config \<Rightarrow> ext \<Rightarrow> block_number \<Rightarrow> metadata_call \<Rightarrow> metadata_state \<Rightarrow> unit dispatch \<times> metadata_state" where
  "unsigned_dispatch cfg x now (SubmitPublicKey keys) s = submit_public_key cfg x now NoOrigin keys s"
| "unsigned_dispatch cfg x now (SubmitNextPublicKey keys) s = submit_next_public_key cfg x now NoOrigin keys s"
| "unsigned_dispatch cfg x now (SubmitMisbehaviourReports r) s = submit_misbehaviour_reports cfg x now NoOrigin r s"
| "unsigned_dispatch cfg x now _ s = (Err BadOrigin, s)"

text \<open>A keygen report whose offender is replaced by a spare authority.\<close>

fun replaces_offender :: "metadata_call \<Rightarrow> metadata_state \<Rightarrow> bool" where
  "replaces_offender (SubmitMisbehaviourReports r) s \<longleftrightarrow> misbehaviour r = Keygen \<and>
     offender r \<in> set (unjailed_next_best s) \<and> spare_authorities (unjailed_next_best s) s \<noteq> []"
| "replaces_offender _ s \<longleftrightarrow> False"

lemma unjailed_next_best_reputation [simp]: "unjailed_next_best (set_reputation a v s) = unjailed_next_best s"
  by (simp add: unjailed_next_best_def set_reputation_def keygen_jailed_def)

lemma spare_after_jailing:
  assumes "a \<in> set unjailed"
  shows "spare_authorities unjailed (m_deposit e (s\<lparr>jailed_keygen_authorities := (jailed_keygen_authorities s)(a \<mapsto> now)\<rparr>)) =
     spare_authorities unjailed s"
  using assms by (auto simp: spare_authorities_def m_deposit_def keygen_jailed_def intro!: filter_cong)

lemma spare_reputation [simp]: "spare_authorities unjailed (set_reputation a v s) = spare_authorities unjailed s"
  by (simp add: spare_authorities_def set_reputation_def keygen_jailed_def)

lemma finish_report_next_unsigned:
  "and_then m (\<lambda>_. finish_report cfg now r valid) = (Ok (), s') \<Longrightarrow> next_unsigned_at s' = now + unsigned_interval cfg"
  by (auto simp: and_then_Ok finish_report_def)

lemma jail_for_keygen_next_unsigned:
  assumes "jail_for_keygen cfg now r valid s = (Ok (), s')"
  shows "next_unsigned_at s' =
     (if offender r \<in> set (unjailed_next_best s) \<and> spare_authorities (unjailed_next_best s) s \<noteq> [] then next_unsigned_at s
      else now + unsigned_interval cfg)"
proof (cases "offender r \<in> set (unjailed_next_best s)")
  case False
  then show ?thesis
    using assms finish_report_next_unsigned by (simp add: jail_for_keygen_def Let_def)
next
  case True
  define s1 where "s1 = m_deposit (AuthorityJailed Keygen (offender r))
    (s\<lparr>jailed_keygen_authorities := (jailed_keygen_authorities s)(offender r \<mapsto> now)\<rparr>)"
  have spare: "spare_authorities (unjailed_next_best s) s1 = spare_authorities (unjailed_next_best s) s"
    unfolding s1_def by (rule spare_after_jailing [OF True])
  have at: "next_unsigned_at s1 = next_unsigned_at s" by (simp add: s1_def m_deposit_def)
  note run = assms [unfolded jail_for_keygen_def Let_def, folded s1_def, unfolded spare]
  show ?thesis
  proof (cases "spare_authorities (unjailed_next_best s) s = []")
    case True
    with run \<open>offender r \<in> _\<close> show ?thesis
      using finish_report_next_unsigned by simp
  next
    case False
    with run True at show ?thesis
      by (auto simp: and_then_Ok put_next_best_Ok m_deposit_def Let_def)
  qed
qed

lemma submit_misbehaviour_next_unsigned:
  assumes "submit_misbehaviour_reports cfg x now org r s = (Ok (), s')"
  shows "next_unsigned_at s' = (if replaces_offender (SubmitMisbehaviourReports r) s then next_unsigned_at s
     else now + unsigned_interval cfg)"
proof (cases "misbehaviour r")
  case Keygen
  then obtain valid where "jail_for_keygen cfg now r valid (set_reputation (offender r) (decay cfg (reputation s (offender r))) s) = (Ok (), s')"
    using assms by (auto simp: submit_misbehaviour_reports_def Let_def split: if_splits option.splits)
  moreover have "next_unsigned_at (set_reputation a v s) = next_unsigned_at s" for a v
    by (simp add: set_reputation_def)
  ultimately show ?thesis
    using jail_for_keygen_next_unsigned Keygen by simp
next
  case Sign
  then show ?thesis
    using assms by (auto simp: submit_misbehaviour_reports_def jail_for_signing_def finish_report_def Let_def
        split: if_splits option.splits)
qed

text \<open>
  Accepted unsigned calls start the cooldown: after an accepted key submission or report in block
  \<open>now\<close>, no unsigned call of the pallet is valid until the interval has passed. The one exception is a
  keygen report that replaces the offender by a spare authority: it returns early and leaves the block
  of the next unsigned transaction unchanged.
\<close>

theorem cooldown_after_unsigned_calls:
  assumes "unsigned_dispatch cfg x now call s = (Ok (), s')"
  shows "next_unsigned_at s' = (if replaces_offender call s then next_unsigned_at s else now + unsigned_interval cfg) \<and>
     (\<not> replaces_offender call s \<longrightarrow> n < now + unsigned_interval cfg \<longrightarrow>
        metadata_validate_unsigned cfg n src call' s' \<in> {Inl Stale, Inl InvalidCall})"
proof -
  have "next_unsigned_at s' = (if replaces_offender call s then next_unsigned_at s else now + unsigned_interval cfg)"
  proof (cases call)
    case (SubmitPublicKey keys)
    then show ?thesis using submit_public_key_Ok [of cfg x now NoOrigin keys s s'] assms by auto
  next
    case (SubmitNextPublicKey keys)
    then show ?thesis using submit_next_public_key_Ok [of cfg x now NoOrigin keys s s'] assms by auto
  next
    case (SubmitMisbehaviourReports r)
    then show ?thesis using submit_misbehaviour_next_unsigned [of cfg x now NoOrigin r s s'] assms by simp
  qed (use assms in simp_all)
  then show ?thesis
    by (simp add: metadata_validate_unsigned_def)
qed

theorem cooldown_after_unsigned_calls_witness:
  "next_unsigned_at sample_m1 = 4 \<and>
     metadata_validate_unsigned sample_mcfg 3 Local (SubmitNextPublicKey sample_keys) sample_m1 \<in> {Inl Stale, Inl InvalidCall}"
  using cooldown_after_unsigned_calls [of sample_mcfg sample_ext 1 "SubmitNextPublicKey sample_keys" sample_m0 sample_m1 3 Local
      "SubmitNextPublicKey sample_keys"] sample_submit_key by simp

section \<open>The offchain worker\<close>

text \<open>
  A failed submission is not retried: when the transaction pool refuses the next public key, the
  worker reports that it will retry later, but it has already forgotten the block at which to submit.
  Until the node writes that block again, no later run of the worker submits the key, whatever the pool
  and the chain do.
\<close>

theorem failed_submission_is_not_retried:
  assumes "next_unsigned_at s \<le> n" and "aggregated_next_public_keys os = Stored keys" and "submit_keys_at os = Stored m"
    and "m \<le> n" and "next_dkg_public_key s = None" and "\<not> pool (SubmitNextPublicKey keys)"
  shows "\<exists>os1. submit_next_public_key_onchain pool n s os = (Inl ''Failed to submit the next public key, will retry later'', [], os1) \<and>
     aggregated_next_public_keys os1 = Stored keys \<and> next_key_worker_runs pool' blocks os1 = []"
  using next_key_submitted [OF assms(1-5), of pool] assms(2,6) by (simp add: no_later_submission)

theorem failed_submission_is_not_retried_witness:
  "\<exists>os1. submit_next_public_key_onchain (\<lambda>_. False) 5 sample_m0
       \<lparr>aggregated_public_keys_at_genesis = Absent, submit_genesis_keys_at = Absent,
        aggregated_next_public_keys = Stored sample_keys, submit_keys_at = Stored 2, aggregated_reports = Absent\<rparr> =
       (Inl ''Failed to submit the next public key, will retry later'', [], os1) \<and>
     next_key_worker_runs (\<lambda>_. True) [(6, sample_m0), (7, sample_m0)] os1 = []"
proof -
  have "next_unsigned_at sample_m0 \<le> 5" "next_dkg_public_key sample_m0 = None"
    by (simp_all add: sample_m0_def empty_metadata_state_def)
  then show ?thesis
    using failed_submission_is_not_retried [of sample_m0 5
      "\<lparr>aggregated_public_keys_at_genesis = Absent, submit_genesis_keys_at = Absent,
        aggregated_next_public_keys = Stored sample_keys, submit_keys_at = Stored 2, aggregated_reports = Absent\<rparr>"
      sample_keys 2 "\<lambda>_. False" "\<lambda>_. True" "[(6, sample_m0), (7, sample_m0)]"] by auto
qed

end
