(* ===== verification/Runtime_Rotation.thy ===== *)
theory Runtime_Rotation
  imports Rotation_Correct Handler_Properties
begin

text \<open>
  The rotation of the key over the pallets of the runtime: \<open>pallet-dkg-metadata\<close> hands its refresh
  proposal to \<open>pallet-dkg-proposal-handler\<close> (\<open>type ProposalHandler = DKGProposalHandler\<close>) and tells
  \<open>pallet-dkg-proposals\<close> of the new authorities (\<open>type OnAuthoritySetChangeHandler = DKGProposals\<close>).
\<close>

section \<open>The configuration of the runtime\<close>




section \<open>A refresh proposal is taken\<close>





section \<open>From the submitted key to the active one\<close>



end
