(* ===== verification/Dkg_Messages.thy ===== *)
theory Dkg_Messages
  imports Metadata_State
begin

text \<open>
  The messages the DKG nodes exchange (\<open>dkg-primitives/src/types.rs\<close> and
  \<open>dkg-runtime-primitives/src/gossip_messages.rs\<close>), the errors of a node, the two numberings of the
  parties (\<open>dkg-gadget/src/async_protocols/mod.rs\<close>), the checks of the origin of a message
  (\<open>worker.rs\<close>) and the filter in front of a running protocol (\<open>async_protocols/incoming.rs\<close>).

  The derived SCALE encodings and the block hash are parameters, the record \<open>wire\<close>.
\<close>

section \<open>Messages\<close>

record dkg_keygen_message =
  km_sender_id :: u16
  keygen_msg :: bytes
  km_protocol_hash :: hash256

record dkg_offline_message =
  om_key :: bytes
  om_signer_set_id :: u64
  offline_msg :: bytes
  om_proposal_hash :: hash256

record dkg_vote_message =
  party_ind :: u16
  round_key :: bytes
  partial_signature :: bytes
  vm_proposal_hash :: hash256

record public_key_message =
  pk_session_id :: u64
  pk_pub_key :: bytes
  pk_signature :: bytes

record misbehaviour_message =
  mm_type :: misbehaviour_type
  mm_session_id :: u64
  mm_offender :: dkg_id
  mm_signature :: bytes

datatype network_msg_payload =
    KeygenPayload dkg_keygen_message
  | OfflinePayload dkg_offline_message
  | VotePayload dkg_vote_message
  | PublicKeyBroadcast public_key_message
  | MisbehaviourBroadcast misbehaviour_message

record dkg_message =
  sender_id :: dkg_id
  recipient_id :: "dkg_id option"
  msg_payload :: network_msg_payload
  msg_session_id :: u64
  msg_block_id :: u64
  msg_ssid :: u16

record signed_dkg_message =
  sd_msg :: dkg_message
  sd_signature :: "bytes option"

record wire =
  encode_message :: "dkg_message \<Rightarrow> bytes"
  encode_vote :: "dkg_vote_message \<Rightarrow> bytes"
  encode_public_key :: "public_key_message \<Rightarrow> bytes"
  encode_misbehaviour :: "misbehaviour_message \<Rightarrow> bytes"
  hash_of :: "bytes \<Rightarrow> hash256"

fun payload_bytes :: "network_msg_payload \<Rightarrow> bytes" where
  "payload_bytes (OfflinePayload m) = offline_msg m"
| "payload_bytes (VotePayload m) = partial_signature m"
| "payload_bytes (KeygenPayload m) = keygen_msg m"
| "payload_bytes (PublicKeyBroadcast m) = pk_pub_key m"
| "payload_bytes (MisbehaviourBroadcast m) = mm_signature m"

fun unsigned_proposal_hash :: "network_msg_payload \<Rightarrow> hash256 option" where
  "unsigned_proposal_hash (OfflinePayload m) = Some (om_proposal_hash m)"
| "unsigned_proposal_hash (VotePayload m) = Some (vm_proposal_hash m)"
| "unsigned_proposal_hash _ = None"

fun keygen_protocol_hash :: "network_msg_payload \<Rightarrow> hash256 option" where
  "keygen_protocol_hash (KeygenPayload m) = Some (km_protocol_hash m)"
| "keygen_protocol_hash _ = None"

fun async_proto_only_get_sender_id :: "network_msg_payload \<Rightarrow> u16 option" where
  "async_proto_only_get_sender_id (KeygenPayload m) = Some (km_sender_id m)"
| "async_proto_only_get_sender_id (OfflinePayload m) = Some (ucast (om_signer_set_id m))"
| "async_proto_only_get_sender_id (VotePayload m) = Some (party_ind m)"
| "async_proto_only_get_sender_id _ = None"

text \<open>For keygen and offline messages only the inner bytes are hashed.\<close>

definition message_hash :: "wire \<Rightarrow> signed_dkg_message \<Rightarrow> hash256" where
  "message_hash y m =
     hash_of y (case msg_payload (sd_msg m) of
       KeygenPayload k \<Rightarrow> keygen_msg k
     | OfflinePayload f \<Rightarrow> offline_msg f
     | VotePayload v \<Rightarrow> encode_vote y v
     | PublicKeyBroadcast p \<Rightarrow> encode_public_key y p
     | MisbehaviourBroadcast b \<Rightarrow> encode_misbehaviour y b)"

section \<open>Errors\<close>

datatype dkg_error =
    KeygenMisbehaviour string "dkg_id list" u64
  | KeygenTimeout u64 "dkg_id list"
  | StartKeygen string
  | StartOffline string
  | CreateOfflineStage string
  | VoteError string
  | CriticalError string
  | GenericError string
  | NoAuthorityAccounts
  | NoHeader
  | SignMisbehaviour string "dkg_id list" u64
  | InvalidPeerId
  | InvalidSignatureError
  | InvalidKeygenPartyId
  | InvalidSigningSet
  | InputOutOfBounds
  | CannotSign
  | LocalKeyNotFound
  | StoringLocalKeyFailed

section \<open>Party numbers\<close>

text \<open>
  A party of a key generation is numbered from one; a party of a signing set is numbered by its
  position in the set, also from one.
\<close>

definition keygen_party_id_try_from :: "u16 \<Rightarrow> (dkg_error, u16) result" where
  "keygen_party_id_try_from v = (if v = 0 then Err InvalidKeygenPartyId else Ok v)"

fun position :: "('a \<Rightarrow> bool) \<Rightarrow> 'a list \<Rightarrow> nat option" where
  "position P [] = None"
| "position P (a # as) = (if P a then Some 0 else map_option Suc (position P as))"

definition try_from_keygen_party_id :: "u16 \<Rightarrow> u16 list \<Rightarrow> (dkg_error, u16) result" where
  "try_from_keygen_party_id i s_l =
     (case position (\<lambda>p. p = i) s_l of
        None \<Rightarrow> Err InvalidKeygenPartyId
      | Some index \<Rightarrow> Ok (of_nat index + 1))"

definition try_to_offline_party_id :: "u16 \<Rightarrow> u16 list \<Rightarrow> (dkg_error, u16) result" where
  "try_to_offline_party_id i s_l = try_from_keygen_party_id i s_l"

text \<open>A party number is never zero, so the subtraction does not underflow.\<close>

definition to_index :: "u16 \<Rightarrow> nat" where
  "to_index i = unat i - 1"

definition try_to_keygen_party_id :: "u16 \<Rightarrow> u16 list \<Rightarrow> (dkg_error, u16) result" where
  "try_to_keygen_party_id i s_l =
     (if to_index i < length s_l then Ok (s_l ! to_index i) else Err InvalidSigningSet)"

lemma position_Some: "position P as = Some i \<Longrightarrow> i < length as \<and> P (as ! i) \<and> (\<forall>j < i. \<not> P (as ! j))"
proof (induction as arbitrary: i)
  case (Cons a as)
  show ?case
  proof (cases "P a")
    case True
    with Cons.prems show ?thesis by simp
  next
    case False
    with Cons.prems obtain k where k: "position P as = Some k" "i = Suc k" by auto
    with Cons.IH [OF k(1)] False show ?thesis by (auto simp: less_Suc_eq_0_disj)
  qed
qed simp

lemma position_None: "position P as = None \<longleftrightarrow> (\<forall>a \<in> set as. \<not> P a)"
  by (induction as) auto

text \<open>The two numberings are inverse on a signing set.\<close>

lemma offline_party_round_trip:
  assumes "i \<in> set s_l" and "length s_l < 65535"
  shows "\<exists>j. try_to_offline_party_id i s_l = Ok j \<and> 0 < j \<and> unat j \<le> length s_l \<and> try_to_keygen_party_id j s_l = Ok i"
proof -
  obtain k where k: "position (\<lambda>p. p = i) s_l = Some k"
    using assms(1) position_None [of "\<lambda>p. p = i" s_l] by auto
  with position_Some [OF k] have le: "k < length s_l" and eq: "s_l ! k = i" by auto
  have un: "unat (of_nat k + 1 :: u16) = Suc k"
    using le assms(2) by (simp add: unat_word_ariths unat_of_nat)
  then have "0 < (of_nat k + 1 :: u16)"
    by (metis Zero_not_Suc unat_0 word_gt_0)
  with k le eq un show ?thesis
    by (simp add: try_to_offline_party_id_def try_from_keygen_party_id_def try_to_keygen_party_id_def to_index_def)
qed

section \<open>Who may be an offender\<close>

text \<open>Parties are blamed by number; the mapping of a protocol says which authorities they are.\<close>

datatype proto_stage_type = KeygenGenesis | KeygenStandard | Signing hash256

definition generate_authority_mapping :: "(u16 \<times> dkg_id) list \<Rightarrow> proto_stage_type \<Rightarrow> (nat \<rightharpoonup> dkg_id)" where
  "generate_authority_mapping auths stage =
     (case stage of
        Signing _ \<Rightarrow>
          fold (\<lambda>(i, a) m. case try_to_offline_party_id i (map fst auths) of
              Ok j \<Rightarrow> m(unat j \<mapsto> a)
            | _ \<Rightarrow> m) auths Map.empty
      | _ \<Rightarrow> fold (\<lambda>(i, a) m. m(unat i \<mapsto> a)) auths Map.empty)"

definition bad_actors_to_authorities :: "u16 list \<Rightarrow> (nat \<rightharpoonup> dkg_id) \<Rightarrow> dkg_id list" where
  "bad_actors_to_authorities bad mapping = List.map_filter (\<lambda>b. mapping (unat b)) bad"

section \<open>Checks of the origin\<close>

text \<open>The keys of a set of authorities; a key that does not have 33 bytes panics.\<close>

fun authority_keys :: "dkg_id list \<Rightarrow> bytes list option" where
  "authority_keys [] = Some []"
| "authority_keys (a # as) =
     (case to_slice_33 a of
        None \<Rightarrow> None
      | Some k \<Rightarrow> map_option ((#) k) (authority_keys as))"

definition check_signers :: "ext \<Rightarrow> bytes \<Rightarrow> bytes \<Rightarrow> dkg_id list \<Rightarrow> bool option" where
  "check_signers x encoded sig ids =
     map_option (\<lambda>keys. snd (verify_signer_from_set_ecdsa x keys encoded sig)) (authority_keys ids)"

text \<open>\<open>sets\<close> are the active and the queued authorities at the latest header.\<close>

definition verify_signature_against_authorities_inner ::
  "ext \<Rightarrow> wire \<Rightarrow> (dkg_id list \<times> dkg_id list) option \<Rightarrow> signed_dkg_message \<Rightarrow> (dkg_error, dkg_message) result" where
  "verify_signature_against_authorities_inner x y sets m =
     (let dkg_msg = sd_msg m; encoded = encode_message y dkg_msg
      in case sd_signature m of
           None \<Rightarrow> Err (GenericError ''Signature not found in signed_dkg_msg'')
         | Some sig \<Rightarrow>
             (case sets of
                None \<Rightarrow> Err (GenericError ''No authorities'')
              | Some (active, queued) \<Rightarrow>
                  (case check_signers x encoded sig active of
                     None \<Rightarrow> Panic
                   | Some True \<Rightarrow> Ok dkg_msg
                   | Some False \<Rightarrow>
                       (case check_signers x encoded sig queued of
                          None \<Rightarrow> Panic
                        | Some True \<Rightarrow> Ok dkg_msg
                        | Some False \<Rightarrow>
                            Err (GenericError ''Message signature is not from a registered authority or next authority'')))))"

definition authenticate_msg_origin ::
  "ext \<Rightarrow> bool \<Rightarrow> dkg_id list \<times> dkg_id list \<Rightarrow> bytes \<Rightarrow> bytes \<Rightarrow> (dkg_error, dkg_id) result" where
  "authenticate_msg_origin x is_main_round sets m sig =
     (case authority_keys (if is_main_round then fst sets else snd sets) of
        None \<Rightarrow> Panic
      | Some maybe_signers \<Rightarrow>
          (case verify_signer_from_set_ecdsa x maybe_signers m sig of
             (maybe_signer, success) \<Rightarrow>
               if \<not> success then Err (GenericError ''Message signature is not from a registered authority'')
               else (case maybe_signer of
                  None \<Rightarrow> Err (GenericError ''verify_signer_from_set_ecdsa could not determin signer!'')
                | Some signer \<Rightarrow> Ok signer)))"

lemma authority_keys_Some: "authority_keys ids = Some ks \<longleftrightarrow> ks = ids \<and> (\<forall>a \<in> set ids. length a = 33)"
  by (induction ids arbitrary: ks) (auto simp: to_slice_33_def ECDSA_KEY_LENGTH_def split: option.splits)

lemma authenticate_Ok:
  assumes "authenticate_msg_origin x main sets m sig = Ok a"
  shows "a \<in> set (if main then fst sets else snd sets)" and "signed_by x a m sig"
proof -
  obtain ks where ks: "authority_keys (if main then fst sets else snd sets) = Some ks"
    using assms by (auto simp: authenticate_msg_origin_def split: option.splits)
  then have "verify_signer_from_set_ecdsa x ks m sig = (Some a, True)"
    using assms by (auto simp: authenticate_msg_origin_def split: prod.splits option.splits if_splits)
  from verify_signer_Some [OF this] ks show "a \<in> set (if main then fst sets else snd sets)" "signed_by x a m sig"
    by (auto simp: authority_keys_Some)
qed

lemma verified_has_a_signer:
  assumes "verify_signature_against_authorities_inner x y (Some (active, queued)) m = Ok d"
  shows "d = sd_msg m" and "\<exists>a sig. a \<in> set active \<union> set queued \<and> sd_signature m = Some sig \<and>
     signed_by x a (encode_message y (sd_msg m)) sig"
proof -
  obtain sig where sig: "sd_signature m = Some sig"
    using assms by (auto simp: verify_signature_against_authorities_inner_def Let_def split: option.splits)
  have "d = sd_msg m \<and> (check_signers x (encode_message y (sd_msg m)) sig active = Some True \<or>
      check_signers x (encode_message y (sd_msg m)) sig queued = Some True)"
    using assms sig by (auto simp: verify_signature_against_authorities_inner_def Let_def split: option.splits bool.splits)
  then show "d = sd_msg m" "\<exists>a sig. a \<in> set active \<union> set queued \<and> sd_signature m = Some sig \<and>
     signed_by x a (encode_message y (sd_msg m)) sig"
    using sig by (auto simp: check_signers_def authority_keys_Some verify_signer_flag)
qed

lemma verify_accepts_member:
  assumes "a \<in> set active" and "\<And>b. b \<in> set active \<Longrightarrow> length b = 33" and "sd_signature m = Some sig"
    and "signed_by x a (encode_message y (sd_msg m)) sig"
  shows "verify_signature_against_authorities_inner x y (Some (active, queued)) m = Ok (sd_msg m)"
proof -
  have "authority_keys active = Some active"
    using assms(2) by (simp add: authority_keys_Some)
  then have "check_signers x (encode_message y (sd_msg m)) sig active = Some True"
    using assms(1,4) by (auto simp: check_signers_def verify_signer_flag)
  then show ?thesis
    using assms(3) by (simp add: verify_signature_against_authorities_inner_def)
qed

section \<open>The filter in front of a protocol\<close>

datatype protocol_kind = KeygenProtocol | OfflineProtocol | VotingProtocol

fun same_stage :: "protocol_kind \<Rightarrow> network_msg_payload \<Rightarrow> bool" where
  "same_stage KeygenProtocol (KeygenPayload _) = True"
| "same_stage OfflineProtocol (OfflinePayload _) = True"
| "same_stage VotingProtocol (VotePayload _) = True"
| "same_stage _ _ = False"

text \<open>The stage, the number of the local party and the block of a protocol.\<close>

record protocol_type =
  pt_kind :: protocol_kind
  pt_i :: u16
  pt_block_id :: u64

text \<open>A message that passes comes with the number of the party it claims to be from.\<close>

definition transform ::
  "ext \<Rightarrow> wire \<Rightarrow> (dkg_id list \<times> dkg_id list) option \<Rightarrow> protocol_type \<Rightarrow> u64 \<Rightarrow> signed_dkg_message \<Rightarrow>
   (dkg_error, (u16 \<times> dkg_message) option) result" where
  "transform x y sets ty this_session_id m =
     (let p = msg_payload (sd_msg m)
      in if same_stage (pt_kind ty) p
         then case async_proto_only_get_sender_id p of
                None \<Rightarrow> Panic
              | Some sender \<Rightarrow>
                  if sender \<noteq> pt_i ty
                  then if msg_session_id (sd_msg m) = this_session_id
                       then if associated_block_id_acceptable (pt_block_id ty) (msg_block_id (sd_msg m))
                            then case verify_signature_against_authorities_inner x y sets m of
                                   Ok body \<Rightarrow> Ok (Some (sender, body))
                                 | Err e \<Rightarrow> Err e
                                 | Panic \<Rightarrow> Panic
                            else Ok None
                       else Ok None
                  else Ok None
         else Ok None)"

text \<open>The stream of a protocol: messages that do not pass, or whose check fails, are skipped.\<close>

fun incoming_stream ::
  "ext \<Rightarrow> wire \<Rightarrow> (dkg_id list \<times> dkg_id list) option \<Rightarrow> protocol_type \<Rightarrow> u64 \<Rightarrow> signed_dkg_message list \<Rightarrow>
   (u16 \<times> dkg_message) list option" where
  "incoming_stream x y sets ty session [] = Some []"
| "incoming_stream x y sets ty session (m # ms) =
     (case transform x y sets ty session m of
        Panic \<Rightarrow> None
      | Ok (Some p) \<Rightarrow> map_option ((#) p) (incoming_stream x y sets ty session ms)
      | _ \<Rightarrow> incoming_stream x y sets ty session ms)"

end
