(* ===== verification/Protocol_Remote.thy ===== *)
theory Protocol_Remote
  imports Dkg_Messages
begin

text \<open>
  The handle of a running protocol (\<open>dkg-gadget/src/async_protocols/remote.rs\<close>). Its clones share
  their state through reference counts, so the shared part of every protocol lives in a store, and a
  handle is the address of its shared part together with what each clone has for itself. A channel is
  the list of the messages sent into it and a flag that says whether its receiver still exists.
\<close>

section \<open>Shared state and handles\<close>

datatype meta_handler_status =
    Beginning | KeygenStatus | AwaitingProposals | OfflineAndVoting | Complete | Terminated

datatype shutdown_reason = Stalled | DropCode

record protocol_state =
  status :: meta_handler_status
  status_history :: "meta_handler_status list"
  rx_keygen_signing :: "signed_dkg_message list"
  rx_keygen_signing_open :: bool
  rx_voting :: "signed_dkg_message list"
  rx_voting_open :: bool
  start_tx :: bool
  start_rx_open :: bool
  start_signal :: bool
  stop_tx :: bool
  stop_rx_open :: bool
  stop_signal :: "shutdown_reason option"

record remote =
  protocol :: nat
  started_at :: block_number
  is_primary_remote :: bool
  remote_session_id :: u64
  remote_block_id :: u64
  remote_ssid :: u16

type_synonym protocols = "nat \<Rightarrow> protocol_state"

definition new_protocol :: protocol_state where
  "new_protocol = \<lparr>status = Beginning, status_history = [Beginning], rx_keygen_signing = [],
     rx_keygen_signing_open = True, rx_voting = [], rx_voting_open = True, start_tx = True,
     start_rx_open = True, start_signal = False, stop_tx = True, stop_rx_open = True, stop_signal = None\<rparr>"

definition remote_new :: "nat \<Rightarrow> block_number \<Rightarrow> u64 \<Rightarrow> u64 \<Rightarrow> u16 \<Rightarrow> remote" where
  "remote_new p at session block ssid =
     \<lparr>protocol = p, started_at = at, is_primary_remote = False, remote_session_id = session,
      remote_block_id = block, remote_ssid = ssid\<rparr>"

definition set_as_primary :: "remote \<Rightarrow> remote" where
  "set_as_primary h = h\<lparr>is_primary_remote := True\<rparr>"

definition clone_remote :: "remote \<Rightarrow> remote" where
  "clone_remote h = h\<lparr>is_primary_remote := False\<rparr>"

section \<open>Status\<close>

fun should_update :: "meta_handler_status \<Rightarrow> meta_handler_status \<Rightarrow> bool" where
  "should_update Beginning KeygenStatus = True"
| "should_update Beginning OfflineAndVoting = True"
| "should_update Beginning Terminated = True"
| "should_update KeygenStatus Complete = True"
| "should_update KeygenStatus Terminated = True"
| "should_update OfflineAndVoting Complete = True"
| "should_update OfflineAndVoting Terminated = True"
| "should_update _ _ = False"

text \<open>An update out of order is reported and made all the same.\<close>

definition set_status :: "meta_handler_status \<Rightarrow> protocol_state \<Rightarrow> protocol_state" where
  "set_status new p =
     (if should_update (status p) new
      then p\<lparr>status_history := status_history p @ [new], status := new\<rparr>
      else p\<lparr>status_history := status_history p @ [new], status := new\<rparr>)"

definition has_stalled :: "protocol_state \<Rightarrow> remote \<Rightarrow> block_number \<Rightarrow> u32 \<Rightarrow> bool" where
  "has_stalled p h now timeout \<longleftrightarrow> status p = Terminated \<or> started_at h + timeout \<le> now"

definition keygen_has_stalled :: "protocol_state \<Rightarrow> remote \<Rightarrow> block_number \<Rightarrow> bool" where
  "keygen_has_stalled p h now = has_stalled p h now KEYGEN_TIMEOUT"

definition signing_has_stalled :: "protocol_state \<Rightarrow> remote \<Rightarrow> block_number \<Rightarrow> bool" where
  "signing_has_stalled p h now = has_stalled p h now SIGN_TIMEOUT"

definition is_active :: "protocol_state \<Rightarrow> bool" where
  "is_active p \<longleftrightarrow> status p \<noteq> Complete \<and> status p \<noteq> Terminated"

definition is_completed :: "protocol_state \<Rightarrow> bool" where
  "is_completed p \<longleftrightarrow> status p = Complete"

definition is_terminated :: "protocol_state \<Rightarrow> bool" where
  "is_terminated p \<longleftrightarrow> status p = Terminated"

definition is_done :: "protocol_state \<Rightarrow> bool" where
  "is_done p \<longleftrightarrow> is_terminated p \<or> is_completed p"

definition has_started :: "protocol_state \<Rightarrow> bool" where
  "has_started p \<longleftrightarrow> status p \<noteq> Beginning"

section \<open>Messages and signals\<close>

text \<open>A message for a protocol that is done is dropped without an error.\<close>

definition remote_deliver_message :: "signed_dkg_message \<Rightarrow> protocol_state \<Rightarrow> bool \<times> protocol_state" where
  "remote_deliver_message m p =
     (if status p \<noteq> Complete \<and> status p \<noteq> Terminated
      then (case msg_payload (sd_msg m) of
          VotePayload _ \<Rightarrow>
            if rx_voting_open p then (True, p\<lparr>rx_voting := rx_voting p @ [m]\<rparr>) else (False, p)
        | _ \<Rightarrow>
            if rx_keygen_signing_open p then (True, p\<lparr>rx_keygen_signing := rx_keygen_signing p @ [m]\<rparr>)
            else (False, p))
      else (True, p))"

definition remote_start :: "protocol_state \<Rightarrow> (dkg_error, unit) result \<times> protocol_state" where
  "remote_start p =
     (if start_tx p
      then let p1 = p\<lparr>start_tx := False\<rparr>
           in if start_rx_open p1 then (Ok (), p1\<lparr>start_signal := True\<rparr>)
              else (Err (GenericError ''Unable to send start signal (already shut down?)''), p1)
      else (Err (GenericError ''Start has already been called''), p))"

definition remote_shutdown :: "shutdown_reason \<Rightarrow> protocol_state \<Rightarrow> (dkg_error, unit) result \<times> protocol_state" where
  "remote_shutdown reason p =
     (if stop_tx p
      then let p1 = p\<lparr>stop_tx := False\<rparr>
           in if stop_rx_open p1 then (Ok (), p1\<lparr>stop_signal := Some reason\<rparr>)
              else (Err (GenericError ''Unable to send shutdown signal (already shut down?)''), p1)
      else (Ok (), p))"

text \<open>The last clone, or the primary one, ends the protocol when it is dropped.\<close>

definition drop_remote :: "bool \<Rightarrow> remote \<Rightarrow> protocol_state \<Rightarrow> protocol_state" where
  "drop_remote last_clone h p =
     (if last_clone \<or> is_primary_remote h
      then snd (remote_shutdown DropCode
             (if status p \<noteq> Complete \<and> status p \<noteq> Terminated then set_status Terminated p else p))
      else p)"

lemma set_status_simps [simp]:
  "status (set_status new p) = new" "stop_tx (set_status new p) = stop_tx p" "stop_signal (set_status new p) = stop_signal p"
  "stop_rx_open (set_status new p) = stop_rx_open p" "start_tx (set_status new p) = start_tx p"
  "rx_voting (set_status new p) = rx_voting p" "rx_keygen_signing (set_status new p) = rx_keygen_signing p"
  by (simp_all add: set_status_def)

lemma remote_shutdown_simps [simp]:
  "status (snd (remote_shutdown r p)) = status p" "\<not> stop_tx (snd (remote_shutdown r p))"
  "rx_voting (snd (remote_shutdown r p)) = rx_voting p"
  "rx_keygen_signing (snd (remote_shutdown r p)) = rx_keygen_signing p"
  by (simp_all add: remote_shutdown_def Let_def)

text \<open>A stop signal is sent at most once, so the first reason is the one the protocol sees.\<close>

lemma shutdown_first_reason:
  "stop_tx p \<Longrightarrow> stop_rx_open p \<Longrightarrow> stop_signal (snd (remote_shutdown r p)) = Some r"
  "\<not> stop_tx p \<Longrightarrow> snd (remote_shutdown r p) = p"
  by (simp_all add: remote_shutdown_def Let_def)

lemma drop_primary_ends:
  assumes "is_primary_remote h"
  shows "status (drop_remote l h p) = (if status p = Complete then Complete else Terminated)"
    and "\<not> stop_tx (drop_remote l h p)"
  using assms by (auto simp: drop_remote_def)

end
