(* ===== verification/Work_Manager.thy ===== *)
theory Work_Manager
  imports Protocol_Remote
begin

text \<open>
  The work manager of the signing and the keygen manager (\<open>signing_manager/work_manager.rs\<close>): jobs
  that run, jobs that wait, and messages that came before their job. The set of the active jobs is a
  list without repeated task hashes; inserting a job whose hash is present drops the new job. The
  futures handed to the executor are recorded by the address of their protocol.
\<close>

section \<open>State\<close>

datatype poll_method = Interval u64 | Manual

record job =
  task_hash :: hash256
  job_handle :: remote

type_synonym message_store = "(hash256, (u16, signed_dkg_message list) smap) smap"

record work_manager =
  active_tasks :: "job list"
  enqueued_tasks :: "job list"
  enqueued_messages :: message_store
  spawned :: "nat list"
  protos :: protocols
  max_tasks :: nat
  max_enqueued_tasks :: nat
  wm_poll_method :: poll_method
  to_handler_open :: bool

record job_metadata =
  jm_session_id :: u64
  jm_is_stalled :: bool
  jm_is_finished :: bool
  jm_has_started :: bool
  jm_is_active :: bool

definition work_manager_new :: "protocols \<Rightarrow> nat \<Rightarrow> nat \<Rightarrow> poll_method \<Rightarrow> work_manager" where
  "work_manager_new ps tasks enqueued poll_method =
     \<lparr>active_tasks = [], enqueued_tasks = [], enqueued_messages = [], spawned = [], protos = ps,
      max_tasks = tasks, max_enqueued_tasks = enqueued, wm_poll_method = poll_method, to_handler_open = True\<rparr>"

abbreviation proto_of :: "work_manager \<Rightarrow> job \<Rightarrow> protocol_state" where
  "proto_of w j \<equiv> protos w (protocol (job_handle j))"

definition update_proto :: "nat \<Rightarrow> (protocol_state \<Rightarrow> protocol_state) \<Rightarrow> work_manager \<Rightarrow> work_manager" where
  "update_proto a f w = w\<lparr>protos := (protos w)(a := f (protos w a))\<rparr>"

section \<open>Jobs\<close>

definition should_deliver :: "job \<Rightarrow> signed_dkg_message \<Rightarrow> hash256 \<Rightarrow> bool" where
  "should_deliver j m h \<longleftrightarrow>
     remote_session_id (job_handle j) = msg_session_id (sd_msg m) \<and> task_hash j = h \<and>
     remote_ssid (job_handle j) = msg_ssid (sd_msg m) \<and>
     associated_block_id_acceptable (remote_block_id (job_handle j)) (msg_block_id (sd_msg m))"

definition job_metadata_of :: "protocol_state \<Rightarrow> job \<Rightarrow> block_number \<Rightarrow> job_metadata" where
  "job_metadata_of p j now =
     \<lparr>jm_session_id = remote_session_id (job_handle j), jm_is_stalled = keygen_has_stalled p (job_handle j) now,
      jm_is_finished = is_completed p, jm_has_started = has_started p, jm_is_active = is_active p\<rparr>"

text \<open>Dropping a job shuts its protocol down and then drops its handle, the primary one.\<close>

definition drop_job :: "job \<Rightarrow> work_manager \<Rightarrow> work_manager" where
  "drop_job j w = update_proto (protocol (job_handle j))
     (\<lambda>p. drop_remote False (job_handle j) (snd (remote_shutdown DropCode p))) w"

fun drop_jobs :: "job list \<Rightarrow> work_manager \<Rightarrow> work_manager" where
  "drop_jobs [] w = w"
| "drop_jobs (j # js) w = drop_jobs js (drop_job j w)"

section \<open>Starting a job\<close>

fun deliver_all :: "job \<Rightarrow> signed_dkg_message list \<Rightarrow> work_manager \<Rightarrow> work_manager" where
  "deliver_all j [] w = w"
| "deliver_all j (m # ms) w =
     deliver_all j ms
       (if should_deliver j m (task_hash j)
        then update_proto (protocol (job_handle j)) (\<lambda>p. snd (remote_deliver_message m p)) w
        else w)"

definition start_job_unconditional :: "job \<Rightarrow> work_manager \<Rightarrow> work_manager" where
  "start_job_unconditional j w =
     (let a = protocol (job_handle j);
          w1 = update_proto a (\<lambda>p. snd (remote_start p)) w;
          w2 = (case fst (remote_start (protos w a)) of
              Ok _ \<Rightarrow>
                (case map_of (enqueued_messages w1) (task_hash j) of
                   None \<Rightarrow> w1
                 | Some queues \<Rightarrow>
                     let rest = AList.delete (remote_ssid (job_handle j)) queues;
                         others = AList.delete (task_hash j) (enqueued_messages w1);
                         w' = deliver_all j (case map_of queues (remote_ssid (job_handle j)) of Some ms \<Rightarrow> ms | None \<Rightarrow> []) w1
                     in w'\<lparr>enqueued_messages := (if rest \<noteq> [] then AList.update (task_hash j) rest others else others)\<rparr>)
            | _ \<Rightarrow> w1);
          w3 = (if task_hash j \<in> set (map task_hash (active_tasks w2)) then drop_job j w2
                else w2\<lparr>active_tasks := active_tasks w2 @ [j]\<rparr>)
      in w3\<lparr>spawned := spawned w3 @ [a]\<rparr>)"

definition push_task :: "hash256 \<Rightarrow> bool \<Rightarrow> remote \<Rightarrow> work_manager \<Rightarrow> (dkg_error, unit) result \<times> work_manager" where
  "push_task h force_start handle w =
     (let j = \<lparr>task_hash = h, job_handle = set_as_primary handle\<rparr>
      in if force_start then (Ok (), start_job_unconditional j w)
         else let w1 = w\<lparr>enqueued_tasks := enqueued_tasks w @ [j]\<rparr>
              in if wm_poll_method w1 \<noteq> Manual
                 then if to_handler_open w1 then (Ok (), w1)
                      else (Err (GenericError ''Failed to send job to worker''), w1)
                 else (Ok (), w1))"

section \<open>Polling\<close>

text \<open>Stalled jobs are shut down; jobs that are stalled or done leave the set and are dropped.\<close>

fun retain_active :: "block_number \<Rightarrow> job list \<Rightarrow> work_manager \<Rightarrow> job list \<times> work_manager" where
  "retain_active now [] w = ([], w)"
| "retain_active now (j # js) w =
     (if signing_has_stalled (proto_of w j) (job_handle j) now
      then retain_active now js (drop_job j
             (update_proto (protocol (job_handle j)) (\<lambda>p. snd (remote_shutdown Stalled p)) w))
      else if is_done (proto_of w j) then retain_active now js (drop_job j w)
      else case retain_active now js w of (kept, w') \<Rightarrow> (j # kept, w'))"

fun start_jobs :: "nat \<Rightarrow> work_manager \<Rightarrow> work_manager" where
  "start_jobs 0 w = w"
| "start_jobs (Suc n) w =
     (case enqueued_tasks w of
        [] \<Rightarrow> w
      | j # js \<Rightarrow> start_jobs n (start_job_unconditional j (w\<lparr>enqueued_tasks := js\<rparr>)))"

definition prune_queues ::
  "block_number \<Rightarrow> (u16, signed_dkg_message list) smap \<Rightarrow> (u16, signed_dkg_message list) smap" where
  "prune_queues now queues =
     filter (\<lambda>q. snd q \<noteq> [])
       (map (\<lambda>(ssid, ms). (ssid, filter (\<lambda>m. associated_block_id_acceptable (ucast now) (msg_block_id (sd_msg m))) ms)) queues)"

definition prune_messages :: "block_number \<Rightarrow> message_store \<Rightarrow> message_store" where
  "prune_messages now store =
     filter (\<lambda>e. snd e \<noteq> []) (map (\<lambda>(h, queues). (h, prune_queues now queues)) store)"

definition poll :: "block_number \<Rightarrow> work_manager \<Rightarrow> work_manager" where
  "poll now w =
     (case retain_active now (active_tasks w) w of
        (kept, w1) \<Rightarrow>
          let w2 = w1\<lparr>active_tasks := kept\<rparr>;
              w3 = start_jobs (max_tasks w2 - length (active_tasks w2)) w2
          in w3\<lparr>enqueued_messages := prune_messages now (enqueued_messages w3)\<rparr>)"

section \<open>Messages\<close>

definition store_message :: "hash256 \<Rightarrow> signed_dkg_message \<Rightarrow> message_store \<Rightarrow> message_store" where
  "store_message h m store =
     (let queues = (case map_of store h of Some q \<Rightarrow> q | None \<Rightarrow> []);
          ms = (case map_of queues (msg_ssid (sd_msg m)) of Some l \<Rightarrow> l | None \<Rightarrow> [])
      in AList.update h (AList.update (msg_ssid (sd_msg m)) (ms @ [m]) queues) store)"

definition deliver_message :: "signed_dkg_message \<Rightarrow> hash256 \<Rightarrow> work_manager \<Rightarrow> work_manager" where
  "deliver_message m h w =
     (let give = (\<lambda>j. update_proto (protocol (job_handle j)) (\<lambda>p. snd (remote_deliver_message m p)) w)
      in case List.find (\<lambda>j. should_deliver j m h) (enqueued_tasks w) of
           Some j \<Rightarrow> give j
         | None \<Rightarrow>
             (case List.find (\<lambda>j. should_deliver j m h) (active_tasks w) of
                Some j \<Rightarrow> give j
              | None \<Rightarrow> w\<lparr>enqueued_messages := store_message h m (enqueued_messages w)\<rparr>))"

section \<open>Queries and the other operations\<close>

definition can_submit_more_tasks :: "work_manager \<Rightarrow> bool" where
  "can_submit_more_tasks w \<longleftrightarrow> length (enqueued_tasks w) < max_enqueued_tasks w"

definition job_exists :: "hash256 \<Rightarrow> work_manager \<Rightarrow> bool" where
  "job_exists h w \<longleftrightarrow> h \<in> set (map task_hash (active_tasks w)) \<or> (\<exists>j \<in> set (enqueued_tasks w). task_hash j = h)"

definition get_active_sessions_metadata :: "block_number \<Rightarrow> work_manager \<Rightarrow> job_metadata list" where
  "get_active_sessions_metadata now w = map (\<lambda>j. job_metadata_of (proto_of w j) j now) (active_tasks w)"

definition clear_enqueued_tasks :: "work_manager \<Rightarrow> work_manager" where
  "clear_enqueued_tasks w = drop_jobs (enqueued_tasks w) (w\<lparr>enqueued_tasks := []\<rparr>)"

definition force_shutdown_all :: "work_manager \<Rightarrow> work_manager" where
  "force_shutdown_all w =
     (let w1 = drop_jobs (active_tasks w) (w\<lparr>active_tasks := []\<rparr>);
          w2 = drop_jobs (enqueued_tasks w1) (w1\<lparr>enqueued_tasks := []\<rparr>)
      in w2\<lparr>enqueued_messages := []\<rparr>)"

end
