(* ===== verification/Signing_Manager.thy ===== *)
theory Signing_Manager
  imports Work_Manager
begin

text \<open>
  The signing manager of a node (\<open>dkg-gadget/src/signing_manager/mod.rs\<close>): at each finalized block
  it walks over the unsigned batches of the chain and starts, for each, the next signing set. What
  the node reads from the runtime at a header is the record \<open>chain_view\<close>. The crates that enumerate
  the combinations of the parties and draw from them, and the encoding of a batch, are the record
  \<open>sampling\<close>.
\<close>

section \<open>What a node sees of the chain\<close>

text \<open>\<open>cv_latest\<close> is the number of the latest header of the worker when a handle is created.\<close>

record chain_view =
  cv_number :: block_number
  cv_latest :: block_number
  cv_sets :: "(authority_set \<times> authority_set) option"
  cv_dkg_pub_key :: "u64 \<times> bytes"
  cv_next_dkg_pub_key :: "(u64 \<times> bytes) option"
  cv_best_authorities :: "(u16 \<times> dkg_id) list"
  cv_next_best_authorities :: "(u16 \<times> dkg_id) list"
  cv_signature_threshold :: u16
  cv_next_signature_threshold :: u16
  cv_unsigned_proposal_batches :: "stored_unsigned_proposal_batch list option"
  cv_execute :: bool
  cv_force_execute :: bool

fun find_party :: "dkg_id \<Rightarrow> (u16 \<times> dkg_id) list \<Rightarrow> u16 option" where
  "find_party public [] = None"
| "find_party public (elt # rest) = (if snd elt = public then Some (fst elt) else find_party public rest)"

definition get_party_index :: "dkg_id \<Rightarrow> chain_view \<Rightarrow> u16 option" where
  "get_party_index public cv = find_party public (cv_best_authorities cv)"

definition get_next_party_index :: "dkg_id \<Rightarrow> chain_view \<Rightarrow> u16 option" where
  "get_next_party_index public cv = find_party public (cv_next_best_authorities cv)"

definition dkg_pub_key_is_unset :: "chain_view \<Rightarrow> bool" where
  "dkg_pub_key_is_unset cv \<longleftrightarrow> snd (cv_dkg_pub_key cv) = []"

text \<open>Numbers that are not party numbers are left out.\<close>

definition keygen_parties :: "(u16 \<times> dkg_id) list \<Rightarrow> (u16 \<times> dkg_id) list" where
  "keygen_parties auths = filter (\<lambda>(i, a). is_ok (keygen_party_id_try_from i)) auths"

section \<open>State\<close>

record proposed_signing_set =
  ps_ssid :: u16
  locally_started_at :: "u64 option"
  signing_set :: "u16 list"

record signing_set_history_tracker =
  ssids_attempted :: "u16 set"
  tracked_sets :: "proposed_signing_set list"

definition empty_tracker :: signing_set_history_tracker where
  "empty_tracker = \<lparr>ssids_attempted = {}, tracked_sets = []\<rparr>"

text \<open>
  \<open>next_protocol\<close> is the address of the next handle that is created, \<open>sm_reported\<close> the errors given
  to the worker.
\<close>

record signing_manager =
  sm_work :: work_manager
  sm_lock :: bool
  ssid_history :: "hash256 \<rightharpoonup> signing_set_history_tracker"
  next_protocol :: nat
  sm_reported :: "dkg_error list"

record sampling =
  combinations :: "nat \<Rightarrow> u16 list \<Rightarrow> u16 list list"
  choose_multiple :: "hash256 \<Rightarrow> nat \<Rightarrow> u16 list list \<Rightarrow> u16 list list"
  encode_batch :: "stored_unsigned_proposal_batch \<Rightarrow> bytes"

text \<open>
  What the crates document: the combinations of \<open>k\<close> elements are the subsequences of length \<open>k\<close>, each
  once, and drawing as many elements as there are gives them all.
\<close>

definition sampling_ok :: "sampling \<Rightarrow> bool" where
  "sampling_ok e \<longleftrightarrow>
     (\<forall>k xs. mset (combinations e k xs) = mset (filter (\<lambda>ys. length ys = k) (subseqs xs))) \<and>
     (\<forall>seed n xss. length xss \<le> n \<longrightarrow> mset (choose_multiple e seed n xss) = mset xss)"

definition SM_MAX_RUNNING_TASKS :: nat where
  "SM_MAX_RUNNING_TASKS = 1"

definition SM_MAX_ENQUEUED_TASKS :: nat where
  "SM_MAX_ENQUEUED_TASKS = 20"

definition JOB_POLL_INTERVAL_IN_MILLISECONDS :: u64 where
  "JOB_POLL_INTERVAL_IN_MILLISECONDS = 500"

definition signing_manager_new :: signing_manager where
  "signing_manager_new =
     \<lparr>sm_work = work_manager_new (\<lambda>_. new_protocol) SM_MAX_RUNNING_TASKS SM_MAX_ENQUEUED_TASKS
        (Interval JOB_POLL_INTERVAL_IN_MILLISECONDS),
      sm_lock = False, ssid_history = Map.empty, next_protocol = 0, sm_reported = []\<rparr>"

definition sm_deliver_message :: "signed_dkg_message \<Rightarrow> signing_manager \<Rightarrow> (dkg_error, unit) result \<times> signing_manager" where
  "sm_deliver_message m s =
     (case unsigned_proposal_hash (msg_payload (sd_msg m)) of
        None \<Rightarrow> (Panic, s)
      | Some h \<Rightarrow> (Ok (), s\<lparr>sm_work := deliver_message m h (sm_work s)\<rparr>))"

definition clear_enqueued_proposal_tasks :: "signing_manager \<Rightarrow> signing_manager" where
  "clear_enqueued_proposal_tasks s = s\<lparr>sm_work := clear_enqueued_tasks (sm_work s)\<rparr>"

definition keygen_lock :: "signing_manager \<Rightarrow> signing_manager" where
  "keygen_lock s = s\<lparr>sm_lock := True\<rparr>"

definition keygen_unlock :: "signing_manager \<Rightarrow> signing_manager" where
  "keygen_unlock s = s\<lparr>sm_lock := False\<rparr>"

section \<open>Signing sets\<close>

definition generate_signing_sets ::
  "ext \<Rightarrow> sampling \<Rightarrow> bytes \<Rightarrow> bytes \<Rightarrow> (u16 \<times> dkg_id) list \<Rightarrow> u16 \<Rightarrow> proposed_signing_set list" where
  "generate_signing_sets x e dkg_pub_key unsigned_proposal_bytes best threshold =
     (let seed = keccak_256 x (dkg_pub_key @ unsigned_proposal_bytes);
          parties = map (\<lambda>r. of_nat r + 1) [0..<length best];
          signing_sets = choose_multiple e seed 256 (take 256 (combinations e (unat threshold + 1) parties))
      in map (\<lambda>(ssid, s). \<lparr>ps_ssid = of_nat ssid, locally_started_at = None, signing_set = s\<rparr>)
           (enumerate 0 signing_sets))"

definition get_unsigned_proposals ::
  "ext \<Rightarrow> chain_view \<Rightarrow> work_manager \<Rightarrow>
   (dkg_error, stored_unsigned_proposal_batch list \<times> stored_unsigned_proposal_batch list) result" where
  "get_unsigned_proposals x cv w =
     (case cv_unsigned_proposal_batches cv of
        None \<Rightarrow> Err (GenericError ''Failed to get unsigned proposals'')
      | Some batches \<Rightarrow>
          let all_proposals = sort_key ub_timestamp batches
          in Ok (filter (\<lambda>b. case unsigned_batch_hash x b of None \<Rightarrow> False | Some h \<Rightarrow> \<not> job_exists h w) all_proposals,
                 all_proposals))"

section \<open>Starting a signing protocol\<close>

text \<open>
  A new handle still has both of its receivers, so the setup fails only in its assertion on the size
  of the signing set. What the task does later is the outcome of the next section.
\<close>

definition setup_signing :: "u16 \<Rightarrow> u16 list \<Rightarrow> (dkg_error, unit) result" where
  "setup_signing threshold s_l = (if threshold + 1 = of_nat (length s_l) then Ok () else Panic)"

definition initialize_signing_protocol ::
  "chain_view \<Rightarrow> u64 \<Rightarrow> u16 \<Rightarrow> u16 list \<Rightarrow> u16 \<Rightarrow> signing_manager \<Rightarrow> (dkg_error, remote) result \<times> signing_manager" where
  "initialize_signing_protocol cv session threshold s_l ssid s =
     (let a = next_protocol s;
          handle = remote_new a (cv_latest cv) session (ucast (cv_number cv)) ssid;
          s1 = s\<lparr>next_protocol := Suc a, sm_work := update_proto a (\<lambda>_. new_protocol) (sm_work s)\<rparr>
      in case setup_signing threshold s_l of
           Ok _ \<Rightarrow> (Ok handle, s1)
         | Err er \<Rightarrow> (Err er, s1)
         | Panic \<Rightarrow> (Panic, s1))"

section \<open>A finalized block\<close>

definition latest_attempt :: "signing_set_history_tracker \<Rightarrow> u64 option" where
  "latest_attempt t =
     (case List.map_filter locally_started_at (tracked_sets t) of
        [] \<Rightarrow> None
      | ts \<Rightarrow> Some (Max (set ts)))"

definition next_ssid :: "signing_set_history_tracker \<Rightarrow> u16" where
  "next_ssid t = (if ssids_attempted t = {} then 0 else Max (ssids_attempted t) + 1)"

definition tracker_of :: "hash256 \<Rightarrow> signing_manager \<Rightarrow> signing_set_history_tracker" where
  "tracker_of h s = (case ssid_history s h of Some t \<Rightarrow> t | None \<Rightarrow> empty_tracker)"

text \<open>The number of the set to attempt, and the tracker with the attempt noted.\<close>

definition choose_ssid :: "proposed_signing_set list \<Rightarrow> signing_set_history_tracker \<Rightarrow> u16 \<times> signing_set_history_tracker" where
  "choose_ssid generated t =
     (let n = next_ssid t;
          t1 = (if n = 0 then t\<lparr>tracked_sets := generated\<rparr> else t);
          (n', t2) = (if length (tracked_sets t1) \<le> unat n then (0, t1\<lparr>ssids_attempted := {}\<rparr>) else (n, t1))
      in (n', t2\<lparr>ssids_attempted := insert n' (ssids_attempted t2)\<rparr>))"

definition attempt_batch ::
  "ext \<Rightarrow> sampling \<Rightarrow> chain_view \<Rightarrow> u16 \<Rightarrow> stored_unsigned_proposal_batch \<Rightarrow> bool \<Rightarrow> hash256 \<Rightarrow> signing_manager \<Rightarrow>
   (dkg_error, unit) result \<times> signing_manager" where
  "attempt_batch x e cv party_i batch force_start h s =
     (let best = keygen_parties (cv_best_authorities cv);
          threshold = cv_signature_threshold cv;
          (ssid, t1) = choose_ssid
             (generate_signing_sets x e (snd (cv_dkg_pub_key cv)) (encode_batch e batch) best threshold) (tracker_of h s)
      in if unat ssid < length (tracked_sets t1)
         then let this_set = tracked_sets t1 ! unat ssid;
                  t2 = t1\<lparr>tracked_sets := (tracked_sets t1)
                            [unat ssid := this_set\<lparr>locally_started_at := Some (ucast (cv_number cv))\<rparr>]\<rparr>;
                  s1 = s\<lparr>ssid_history := (ssid_history s)(h \<mapsto> t2)\<rparr>
              in if party_i \<notin> set (signing_set this_set)
                 then (Ok (), s1\<lparr>ssid_history := (ssid_history s1)(h \<mapsto> t2\<lparr>ssids_attempted := insert ssid (ssids_attempted t2)\<rparr>)\<rparr>)
                 else (case initialize_signing_protocol cv (fst (cv_dkg_pub_key cv)) threshold (signing_set this_set) ssid s1 of
                     (Ok handle, s2) \<Rightarrow>
                       (case push_task h force_start handle (sm_work s2) of (r, w) \<Rightarrow> (r, s2\<lparr>sm_work := w\<rparr>))
                   | (Err er, s2) \<Rightarrow> (Err er, s2\<lparr>sm_reported := sm_reported s2 @ [er]\<rparr>)
                   | (Panic, s2) \<Rightarrow> (Panic, s2))
         else (Ok (), s\<lparr>ssid_history := (ssid_history s)(h \<mapsto> t1)\<rparr>))"

definition sign_batch ::
  "ext \<Rightarrow> sampling \<Rightarrow> chain_view \<Rightarrow> u16 \<Rightarrow> stored_unsigned_proposal_batch list \<Rightarrow> stored_unsigned_proposal_batch \<Rightarrow> bool \<Rightarrow>
   hash256 \<Rightarrow> signing_manager \<Rightarrow> (dkg_error, unit) result \<times> signing_manager" where
  "sign_batch x e cv party_i full batch force_start h s =
     (if \<not> (\<exists>p \<in> set full. unsigned_batch_hash x p = Some h)
      then (Ok (), s\<lparr>ssid_history := (ssid_history s)(h := None)\<rparr>)
      else let s1 = s\<lparr>ssid_history := (ssid_history s)(h \<mapsto> tracker_of h s)\<rparr>
           in case latest_attempt (tracker_of h s) of
                Some init_time \<Rightarrow>
                  if init_time + ucast SIGN_TIMEOUT \<le> ucast (cv_number cv)
                  then attempt_batch x e cv party_i batch force_start h s1
                  else (Ok (), s1)
              | None \<Rightarrow> attempt_batch x e cv party_i batch force_start h s1)"

fun sign_batches ::
  "ext \<Rightarrow> sampling \<Rightarrow> chain_view \<Rightarrow> u16 \<Rightarrow> stored_unsigned_proposal_batch list \<Rightarrow> stored_unsigned_proposal_batch list \<Rightarrow>
   signing_manager \<Rightarrow> (dkg_error, unit) result \<times> signing_manager" where
  "sign_batches x e cv party_i full [] s = (Ok (), s)"
| "sign_batches x e cv party_i full (batch # rest) s =
     (case ub_proposals batch of
        [] \<Rightarrow> (Panic, s)
      | first # _ \<Rightarrow>
          if \<not> can_submit_more_tasks (sm_work s) then (Ok (), s)
          else (case unsigned_batch_hash x batch of
              None \<Rightarrow> (Panic, s)
            | Some h \<Rightarrow>
                and_then (sign_batch x e cv party_i full batch (up_typed_chain_id first = ChainNone) h s)
                  (\<lambda>_. sign_batches x e cv party_i full rest)))"

definition sm_on_block_finalized ::
  "ext \<Rightarrow> sampling \<Rightarrow> dkg_id \<Rightarrow> chain_view \<Rightarrow> signing_manager \<Rightarrow> (dkg_error, unit) result \<times> signing_manager" where
  "sm_on_block_finalized x e public cv s =
     (if sm_lock s then (Ok (), s)
      else case get_party_index public cv of
             None \<Rightarrow> (Ok (), s)
           | Some i \<Rightarrow>
               (case keygen_party_id_try_from i of
                  Panic \<Rightarrow> (Panic, s)
                | Err er \<Rightarrow> (Err er, s)
                | Ok party_i \<Rightarrow>
                    (case get_unsigned_proposals x cv (sm_work s) of
                       Panic \<Rightarrow> (Panic, s)
                     | Err er \<Rightarrow> (Err er, s)
                     | Ok (todo, full) \<Rightarrow>
                         if todo = [] then (Ok (), s)
                         else sign_batches x e cv party_i full todo s)))"

section \<open>The end of a signing protocol\<close>

datatype signing_result = SigningSuccess hash256 | SigningFailure hash256 u16

definition update_local_signing_set_state :: "signing_result \<Rightarrow> signing_manager \<Rightarrow> signing_manager" where
  "update_local_signing_set_state update s =
     (case update of
        SigningSuccess h \<Rightarrow> s\<lparr>ssid_history := (ssid_history s)(h := None)\<rparr>
      | SigningFailure h ssid \<Rightarrow>
          (let t = tracker_of h s
           in s\<lparr>ssid_history := (ssid_history s)(h \<mapsto> t\<lparr>ssids_attempted := insert ssid (ssids_attempted t)\<rparr>)\<rparr>))"

text \<open>
  The task of a protocol waits for the protocol and for the stop signal, whichever is first. The
  protocol marks its handle complete whatever its result; a stop that does not come from a stall
  counts as success.
\<close>

definition signing_stopped :: "shutdown_reason option \<Rightarrow> u64 \<Rightarrow> dkg_id list \<Rightarrow> (dkg_error, unit) result" where
  "signing_stopped signal session bad_actors =
     (case signal of
        Some DropCode \<Rightarrow> Ok ()
      | Some Stalled \<Rightarrow> Err (SignMisbehaviour ''Signing has stalled!'' bad_actors session)
      | None \<Rightarrow> Ok ())"

definition signing_concluded :: "nat \<Rightarrow> signing_manager \<Rightarrow> signing_manager" where
  "signing_concluded a s = s\<lparr>sm_work := update_proto a (set_status Complete) (sm_work s)\<rparr>"

text \<open>What the signing manager does with the result of a task; the error is sent to the worker.\<close>

definition signing_task_done :: "hash256 \<Rightarrow> u16 \<Rightarrow> (dkg_error, unit) result \<Rightarrow> signing_manager \<Rightarrow> signing_manager" where
  "signing_task_done h ssid r s =
     (case r of
        Ok _ \<Rightarrow> update_local_signing_set_state (SigningSuccess h) s
      | Err er \<Rightarrow>
          (let s1 = update_local_signing_set_state (SigningFailure h ssid) s
           in s1\<lparr>sm_reported := sm_reported s1 @ [er]\<rparr>)
      | Panic \<Rightarrow> s)"

end
