(* ===== verification/Work_Correct.thy ===== *)
theory Work_Correct
  imports Work_Manager
begin

text \<open>
  What the work manager guarantees: which jobs a poll ends and which it starts, that task hashes stay
  unique and the limit of running jobs is kept, and that no message is lost between the arrival of a
  message and the start of its job.
\<close>

abbreviation addr :: "job \<Rightarrow> nat" where
  "addr j \<equiv> protocol (job_handle j)"

section \<open>Frames\<close>

lemma update_proto_simps [simp]:
  "active_tasks (update_proto a f w) = active_tasks w" "enqueued_tasks (update_proto a f w) = enqueued_tasks w"
  "enqueued_messages (update_proto a f w) = enqueued_messages w" "spawned (update_proto a f w) = spawned w"
  "max_tasks (update_proto a f w) = max_tasks w" "max_enqueued_tasks (update_proto a f w) = max_enqueued_tasks w"
  "wm_poll_method (update_proto a f w) = wm_poll_method w" "to_handler_open (update_proto a f w) = to_handler_open w"
  "protos (update_proto a f w) = (protos w)(a := f (protos w a))"
  by (simp_all add: update_proto_def)

lemma drop_job_simps [simp]:
  "active_tasks (drop_job j w) = active_tasks w" "enqueued_tasks (drop_job j w) = enqueued_tasks w"
  "enqueued_messages (drop_job j w) = enqueued_messages w" "spawned (drop_job j w) = spawned w"
  "max_tasks (drop_job j w) = max_tasks w" "max_enqueued_tasks (drop_job j w) = max_enqueued_tasks w"
  "wm_poll_method (drop_job j w) = wm_poll_method w" "to_handler_open (drop_job j w) = to_handler_open w"
  by (simp_all add: drop_job_def)

lemma drop_job_protos: "a \<noteq> addr j \<Longrightarrow> protos (drop_job j w) a = protos w a"
  by (simp add: drop_job_def)

lemma drop_job_status:
  assumes "is_primary_remote (job_handle j)"
  shows "status (proto_of (drop_job j w) j) = (if status (proto_of w j) = Complete then Complete else Terminated)"
  using drop_primary_ends(1) [OF assms] by (simp add: drop_job_def)

lemma drop_jobs_simps [simp]:
  "active_tasks (drop_jobs js w) = active_tasks w" "enqueued_tasks (drop_jobs js w) = enqueued_tasks w"
  "enqueued_messages (drop_jobs js w) = enqueued_messages w" "spawned (drop_jobs js w) = spawned w"
  "max_tasks (drop_jobs js w) = max_tasks w"
  by (induction js arbitrary: w) simp_all

lemma deliver_all_simps [simp]:
  "active_tasks (deliver_all j ms w) = active_tasks w" "enqueued_tasks (deliver_all j ms w) = enqueued_tasks w"
  "enqueued_messages (deliver_all j ms w) = enqueued_messages w" "spawned (deliver_all j ms w) = spawned w"
  "max_tasks (deliver_all j ms w) = max_tasks w"
  by (induction ms arbitrary: w) simp_all

lemma deliver_all_protos: "a \<noteq> addr j \<Longrightarrow> protos (deliver_all j ms w) a = protos w a"
  by (induction ms arbitrary: w) simp_all

section \<open>Delivering to a protocol\<close>

lemma remote_deliver_simps [simp]:
  "status (snd (remote_deliver_message m p)) = status p"
  "rx_voting_open (snd (remote_deliver_message m p)) = rx_voting_open p"
  "rx_keygen_signing_open (snd (remote_deliver_message m p)) = rx_keygen_signing_open p"
  "stop_tx (snd (remote_deliver_message m p)) = stop_tx p" "stop_signal (snd (remote_deliver_message m p)) = stop_signal p"
  by (simp_all add: remote_deliver_message_def split: network_msg_payload.splits)

text \<open>The messages a protocol has been given.\<close>

definition inbox :: "protocol_state \<Rightarrow> signed_dkg_message set" where
  "inbox p = set (rx_voting p) \<union> set (rx_keygen_signing p)"

definition listening :: "protocol_state \<Rightarrow> bool" where
  "listening p \<longleftrightarrow> is_active p \<and> rx_voting_open p \<and> rx_keygen_signing_open p"

lemma deliver_inbox: "inbox p \<subseteq> inbox (snd (remote_deliver_message m p))"
  by (auto simp: inbox_def remote_deliver_message_def split: network_msg_payload.splits)

lemma deliver_listening:
  "listening (snd (remote_deliver_message m p)) = listening p"
  "listening p \<Longrightarrow> m \<in> inbox (snd (remote_deliver_message m p))"
  by (simp_all add: listening_def is_active_def)
    (auto simp: inbox_def remote_deliver_message_def split: network_msg_payload.splits)

lemma deliver_all_inbox: "inbox (proto_of w j) \<subseteq> inbox (proto_of (deliver_all j ms w) j)"
proof (induction ms arbitrary: w)
  case (Cons m ms)
  let ?w = "if should_deliver j m (task_hash j)
    then update_proto (addr j) (\<lambda>p. snd (remote_deliver_message m p)) w else w"
  have "inbox (proto_of w j) \<subseteq> inbox (proto_of ?w j)"
    using deliver_inbox by simp
  also have "\<dots> \<subseteq> inbox (proto_of (deliver_all j (m # ms) w) j)"
    using Cons.IH [of ?w] by simp
  finally show ?case .
qed simp

lemma deliver_all_listening: "listening (proto_of (deliver_all j ms w) j) = listening (proto_of w j)"
  by (induction ms arbitrary: w) (simp_all add: deliver_listening(1))

lemma deliver_all_delivers:
  assumes "m \<in> set ms" and "should_deliver j m (task_hash j)" and "listening (proto_of w j)"
  shows "m \<in> inbox (proto_of (deliver_all j ms w) j)"
  using assms(1,3)
proof (induction ms arbitrary: w)
  case (Cons n ms)
  let ?w = "if should_deliver j n (task_hash j)
    then update_proto (addr j) (\<lambda>p. snd (remote_deliver_message n p)) w else w"
  have l: "listening (proto_of ?w j)"
    using Cons.prems(2) by (simp add: deliver_listening(1))
  show ?case
  proof (cases "m \<in> set ms")
    case True
    from Cons.IH [OF this l] show ?thesis by simp
  next
    case False
    with Cons.prems(1) have "n = m" by simp
    then have "m \<in> inbox (proto_of ?w j)"
      using Cons.prems(2) assms(2) by (simp add: deliver_listening(2))
    then show ?thesis
      using deliver_all_inbox [of ?w j ms] by auto
  qed
qed simp

section \<open>Starting a job\<close>

text \<open>What starting a job does to its messages and its protocol, apart from the set of active jobs.\<close>

definition released :: "job \<Rightarrow> work_manager \<Rightarrow> work_manager" where
  "released j w =
     (let w1 = update_proto (addr j) (\<lambda>p. snd (remote_start p)) w
      in case fst (remote_start (proto_of w j)) of
           Ok _ \<Rightarrow>
             (case map_of (enqueued_messages w1) (task_hash j) of
                None \<Rightarrow> w1
              | Some queues \<Rightarrow>
                  let rest = AList.delete (remote_ssid (job_handle j)) queues;
                      others = AList.delete (task_hash j) (enqueued_messages w1);
                      w' = deliver_all j (case map_of queues (remote_ssid (job_handle j)) of Some ms \<Rightarrow> ms | None \<Rightarrow> []) w1
                  in w'\<lparr>enqueued_messages := (if rest \<noteq> [] then AList.update (task_hash j) rest others else others)\<rparr>)
         | _ \<Rightarrow> w1)"

lemma start_job_released:
  "start_job_unconditional j w =
     (let w2 = released j w;
          w3 = (if task_hash j \<in> set (map task_hash (active_tasks w2)) then drop_job j w2
                else w2\<lparr>active_tasks := active_tasks w2 @ [j]\<rparr>)
      in w3\<lparr>spawned := spawned w3 @ [addr j]\<rparr>)"
  unfolding start_job_unconditional_def released_def Let_def ..

lemma released_simps [simp]:
  "active_tasks (released j w) = active_tasks w" "enqueued_tasks (released j w) = enqueued_tasks w"
  "spawned (released j w) = spawned w" "max_tasks (released j w) = max_tasks w"
  by (simp_all add: released_def Let_def split: result.splits option.splits)

lemma released_protos: "a \<noteq> addr j \<Longrightarrow> protos (released j w) a = protos w a"
  by (simp add: released_def Let_def deliver_all_protos split: result.splits option.splits)

lemma released_other_messages:
  "h \<noteq> task_hash j \<Longrightarrow> map_of (enqueued_messages (released j w)) h = map_of (enqueued_messages w) h"
  by (auto simp: released_def Let_def map_of_update map_of_delete split: result.splits option.splits)

lemma remote_start_simps [simp]:
  "status (snd (remote_start p)) = status p" "listening (snd (remote_start p)) = listening p"
  "inbox (snd (remote_start p)) = inbox p"
  by (simp_all add: remote_start_def Let_def listening_def is_active_def inbox_def)

lemma released_delivers:
  assumes "map_of (enqueued_messages w) (task_hash j) = Some queues" and "map_of queues (remote_ssid (job_handle j)) = Some ms"
    and "m \<in> set ms" and "should_deliver j m (task_hash j)" and "listening (proto_of w j)"
    and "start_tx (proto_of w j)" and "start_rx_open (proto_of w j)"
  shows "m \<in> inbox (proto_of (released j w) j)"
proof -
  let ?w1 = "update_proto (addr j) (\<lambda>p. snd (remote_start p)) w"
  have "fst (remote_start (proto_of w j)) = Ok ()"
    using assms(6,7) by (simp add: remote_start_def Let_def)
  moreover have "listening (proto_of ?w1 j)"
    using assms(5) by simp
  ultimately show ?thesis
    using deliver_all_delivers [OF assms(3,4), of ?w1] assms(1,2) by (simp add: released_def Let_def)
qed

lemma start_job_simps:
  assumes "task_hash j \<notin> set (map task_hash (active_tasks w))"
  shows "active_tasks (start_job_unconditional j w) = active_tasks w @ [j]"
    and "enqueued_tasks (start_job_unconditional j w) = enqueued_tasks w"
    and "spawned (start_job_unconditional j w) = spawned w @ [addr j]"
    and "max_tasks (start_job_unconditional j w) = max_tasks w"
    and "enqueued_messages (start_job_unconditional j w) = enqueued_messages (released j w)"
    and "protos (start_job_unconditional j w) = protos (released j w)"
  using assms by (simp_all add: start_job_released Let_def)

lemma start_jobs_spec:
  assumes "distinct (map task_hash (active_tasks w @ enqueued_tasks w))"
  shows "active_tasks (start_jobs n w) = active_tasks w @ take n (enqueued_tasks w)"
    and "enqueued_tasks (start_jobs n w) = drop n (enqueued_tasks w)"
    and "spawned (start_jobs n w) = spawned w @ map addr (take n (enqueued_tasks w))"
    and "max_tasks (start_jobs n w) = max_tasks w"
proof -
  have "active_tasks (start_jobs n w) = active_tasks w @ take n (enqueued_tasks w) \<and>
      enqueued_tasks (start_jobs n w) = drop n (enqueued_tasks w) \<and>
      spawned (start_jobs n w) = spawned w @ map addr (take n (enqueued_tasks w)) \<and> max_tasks (start_jobs n w) = max_tasks w"
    using assms
  proof (induction n arbitrary: w)
    case (Suc n)
    show ?case
    proof (cases "enqueued_tasks w")
      case (Cons j js)
      let ?w = "start_job_unconditional j (w\<lparr>enqueued_tasks := js\<rparr>)"
      have fresh: "task_hash j \<notin> set (map task_hash (active_tasks (w\<lparr>enqueued_tasks := js\<rparr>)))"
        using Suc.prems Cons by auto
      note st = start_job_simps [OF fresh]
      have "distinct (map task_hash (active_tasks ?w @ enqueued_tasks ?w))"
        using Suc.prems Cons by (auto simp: st)
      from Suc.IH [OF this] show ?thesis
        by (simp add: Cons st)
    qed simp
  qed simp
  then show "active_tasks (start_jobs n w) = active_tasks w @ take n (enqueued_tasks w)"
    "enqueued_tasks (start_jobs n w) = drop n (enqueued_tasks w)"
    "spawned (start_jobs n w) = spawned w @ map addr (take n (enqueued_tasks w))" "max_tasks (start_jobs n w) = max_tasks w"
    by blast+
qed

lemma start_jobs_protos:
  assumes "distinct (map task_hash (active_tasks w @ enqueued_tasks w))" and "a \<notin> addr ` set (enqueued_tasks w)"
  shows "protos (start_jobs n w) a = protos w a"
  using assms
proof (induction n arbitrary: w)
  case (Suc n)
  show ?case
  proof (cases "enqueued_tasks w")
    case (Cons j js)
    let ?v = "w\<lparr>enqueued_tasks := js\<rparr>"
    have fresh: "task_hash j \<notin> set (map task_hash (active_tasks ?v))"
      using Suc.prems(1) Cons by auto
    note st = start_job_simps [OF fresh]
    have "protos (start_jobs n (start_job_unconditional j ?v)) a = protos (start_job_unconditional j ?v) a"
      by (rule Suc.IH) (use Suc.prems Cons in \<open>auto simp: st\<close>)
    moreover have "a \<noteq> addr j"
      using Suc.prems(2) Cons by auto
    ultimately show ?thesis
      by (simp add: Cons st released_protos)
  qed simp
qed simp

section \<open>Ending jobs\<close>

definition alive :: "block_number \<Rightarrow> work_manager \<Rightarrow> job \<Rightarrow> bool" where
  "alive now w j \<longleftrightarrow> \<not> signing_has_stalled (proto_of w j) (job_handle j) now \<and> \<not> is_done (proto_of w j)"

text \<open>What a poll leaves of a job it ends.\<close>

definition ended :: "block_number \<Rightarrow> work_manager \<Rightarrow> job \<Rightarrow> protocol_state" where
  "ended now w j =
     (let p = (if signing_has_stalled (proto_of w j) (job_handle j) now then snd (remote_shutdown Stalled (proto_of w j))
               else proto_of w j)
      in drop_remote False (job_handle j) (snd (remote_shutdown DropCode p)))"

lemma ended_status:
  assumes "is_primary_remote (job_handle j)"
  shows "status (ended now w j) = (if status (proto_of w j) = Complete then Complete else Terminated)"
  using drop_primary_ends(1) [OF assms] by (simp add: ended_def Let_def)

lemma ended_signal:
  assumes "signing_has_stalled (proto_of w j) (job_handle j) now" and "stop_tx (proto_of w j)" and "stop_rx_open (proto_of w j)"
  shows "stop_signal (ended now w j) = Some Stalled"
  using assms by (simp add: ended_def Let_def shutdown_first_reason drop_remote_def)

lemma retain_active_spec:
  assumes "distinct (map addr js)" and "retain_active now js w = (kept, w')"
  shows "kept = filter (alive now w) js" and "\<exists>ps. w' = w\<lparr>protos := ps\<rparr>"
    and "\<And>a. (\<And>j. j \<in> set js \<Longrightarrow> \<not> alive now w j \<Longrightarrow> addr j \<noteq> a) \<Longrightarrow> protos w' a = protos w a"
    and "\<And>j. j \<in> set js \<Longrightarrow> \<not> alive now w j \<Longrightarrow> proto_of w' j = ended now w j"
proof -
  have "kept = filter (alive now w) js \<and> (\<exists>ps. w' = w\<lparr>protos := ps\<rparr>) \<and>
      (\<forall>a. (\<forall>j \<in> set js. \<not> alive now w j \<longrightarrow> addr j \<noteq> a) \<longrightarrow> protos w' a = protos w a) \<and>
      (\<forall>j \<in> set js. \<not> alive now w j \<longrightarrow> proto_of w' j = ended now w j)"
    using assms
  proof (induction js arbitrary: w kept)
    case Nil
    have "\<exists>ps. w = w\<lparr>protos := ps\<rparr>" by (rule exI [of _ "protos w"]) simp
    with Nil show ?case by simp
  next
    case (Cons j js)
    show ?case
    proof (cases "alive now w j")
      case True
      then obtain ks where ks: "retain_active now js w = (ks, w')" "kept = j # ks"
        using Cons.prems(2) by (auto simp: alive_def split: prod.splits)
      with Cons.IH [OF _ ks(1)] Cons.prems(1) True show ?thesis by auto
    next
      case False
      define v where "v = (if signing_has_stalled (proto_of w j) (job_handle j) now
        then drop_job j (update_proto (addr j) (\<lambda>p. snd (remote_shutdown Stalled p)) w) else drop_job j w)"
      have run: "retain_active now js v = (kept, w')"
        using Cons.prems(2) False by (auto simp: v_def alive_def)
      have vj: "proto_of v j = ended now w j"
        by (simp add: v_def ended_def Let_def drop_job_def)
      have other: "protos v a = protos w a" if "a \<noteq> addr j" for a
        using that by (simp add: v_def drop_job_protos)
      have vw: "\<exists>ps. v = w\<lparr>protos := ps\<rparr>"
        by (auto simp: v_def drop_job_def update_proto_def)
      have ne: "addr k \<noteq> addr j" if "k \<in> set js" for k
        using Cons.prems(1) that by (auto simp: rev_image_eqI)
      have same: "alive now v k = alive now w k" "ended now v k = ended now w k" if "k \<in> set js" for k
        using other [OF ne [OF that]] by (simp_all add: alive_def ended_def)
      have filt: "filter (alive now v) js = filter (alive now w) js"
        by (rule filter_cong [OF refl same(1)])
      from Cons.IH [OF _ run] Cons.prems(1)
      have ih: "kept = filter (alive now v) js" "\<exists>ps. w' = v\<lparr>protos := ps\<rparr>"
        "\<forall>a. (\<forall>k \<in> set js. \<not> alive now v k \<longrightarrow> addr k \<noteq> a) \<longrightarrow> protos w' a = protos v a"
        "\<forall>k \<in> set js. \<not> alive now v k \<longrightarrow> proto_of w' k = ended now v k" by auto
      have "proto_of w' j = ended now w j"
        using ih(3) [rule_format, of "addr j"] ne vj by auto
      moreover have "protos w' a = protos w a" if "\<forall>k \<in> set (j # js). \<not> alive now w k \<longrightarrow> addr k \<noteq> a" for a
        using ih(3) [rule_format, of a] that other [of a] False same(1) by auto
      ultimately show ?thesis
        using ih False filt same vw by auto
    qed
  qed
  then show "kept = filter (alive now w) js" "\<exists>ps. w' = w\<lparr>protos := ps\<rparr>"
    "\<And>a. (\<And>j. j \<in> set js \<Longrightarrow> \<not> alive now w j \<Longrightarrow> addr j \<noteq> a) \<Longrightarrow> protos w' a = protos w a"
    "\<And>j. j \<in> set js \<Longrightarrow> \<not> alive now w j \<Longrightarrow> proto_of w' j = ended now w j"
    by blast+
qed


section \<open>The configuration\<close>

text \<open>No operation changes the limits of the manager or its poll method.\<close>

definition wm_config :: "work_manager \<Rightarrow> nat \<times> nat \<times> poll_method \<times> bool" where
  "wm_config w = (max_tasks w, max_enqueued_tasks w, wm_poll_method w, to_handler_open w)"

lemma wm_config_base [simp]:
  "wm_config (update_proto a f w) = wm_config w" "wm_config (drop_job j w) = wm_config w"
  by (simp_all add: wm_config_def)

lemma wm_config_lists [simp]:
  "wm_config (drop_jobs js w) = wm_config w" "wm_config (deliver_all j ms w) = wm_config w"
  "wm_config (snd (retain_active now js w)) = wm_config w"
proof -
  show "wm_config (drop_jobs js w) = wm_config w"
    by (induction js arbitrary: w) simp_all
  show "wm_config (deliver_all j ms w) = wm_config w"
    by (induction ms arbitrary: w) simp_all
  show "wm_config (snd (retain_active now js w)) = wm_config w"
  proof (induction js arbitrary: w)
    case (Cons j js)
    obtain ks w' where "retain_active now js w = (ks, w')" by fastforce
    with Cons.IH [of w] Cons.IH show ?case by simp
  qed simp
qed

lemma wm_config_fields [simp]:
  "wm_config (w\<lparr>active_tasks := js\<rparr>) = wm_config w" "wm_config (w\<lparr>enqueued_tasks := js\<rparr>) = wm_config w"
  "wm_config (w\<lparr>enqueued_messages := ms\<rparr>) = wm_config w" "wm_config (w\<lparr>spawned := ps\<rparr>) = wm_config w"
  by (simp_all add: wm_config_def)

lemma wm_config_start [simp]: "wm_config (start_job_unconditional j w) = wm_config w"
  by (simp add: start_job_released released_def Let_def split: result.splits option.splits)

lemma wm_config_push [simp]: "wm_config (snd (push_task h f handle w)) = wm_config w"
  by (simp add: push_task_def Let_def)

lemma wm_config_start_jobs [simp]: "wm_config (start_jobs n w) = wm_config w"
  by (induction n arbitrary: w) (simp_all split: list.splits)

lemma wm_config_ops [simp]:
  "wm_config (poll now w) = wm_config w" "wm_config (deliver_message m h w) = wm_config w"
  "wm_config (clear_enqueued_tasks w) = wm_config w" "wm_config (force_shutdown_all w) = wm_config w"
proof -
  obtain kept w1 where r: "retain_active now (active_tasks w) w = (kept, w1)" by fastforce
  then have "wm_config w1 = wm_config w"
    by (metis snd_conv wm_config_lists(3))
  with r show "wm_config (poll now w) = wm_config w"
    by (simp add: poll_def Let_def)
qed (simp_all add: deliver_message_def clear_enqueued_tasks_def force_shutdown_all_def Let_def split: option.splits)

lemma wm_config_eq:
  assumes "wm_config v = wm_config w"
  shows "max_tasks v = max_tasks w" and "max_enqueued_tasks v = max_enqueued_tasks w"
    and "wm_poll_method v = wm_poll_method w" and "to_handler_open v = to_handler_open w"
  using assms by (simp_all add: wm_config_def)

section \<open>The invariant\<close>

definition wm_inv :: "work_manager \<Rightarrow> bool" where
  "wm_inv w \<longleftrightarrow>
     distinct (map task_hash (active_tasks w @ enqueued_tasks w)) \<and>
     distinct (map addr (active_tasks w @ enqueued_tasks w)) \<and>
     (\<forall>j \<in> set (active_tasks w @ enqueued_tasks w). is_primary_remote (job_handle j))"

lemma wm_inv_cong:
  "active_tasks w = active_tasks v \<Longrightarrow> enqueued_tasks w = enqueued_tasks v \<Longrightarrow> wm_inv w = wm_inv v"
  by (simp add: wm_inv_def)

lemma poll_split:
  assumes "wm_inv w"
  obtains w1 where "retain_active now (active_tasks w) w = (filter (alive now w) (active_tasks w), w1)"
    and "\<exists>ps. w1 = w\<lparr>protos := ps\<rparr>"
    and "poll now w =
      (let w3 = start_jobs (max_tasks w - length (filter (alive now w) (active_tasks w)))
                  (w1\<lparr>active_tasks := filter (alive now w) (active_tasks w)\<rparr>)
       in w3\<lparr>enqueued_messages := prune_messages now (enqueued_messages w3)\<rparr>)"
proof -
  obtain kept w1 where run: "retain_active now (active_tasks w) w = (kept, w1)" by fastforce
  have d: "distinct (map addr (active_tasks w))"
    using assms by (simp add: wm_inv_def)
  note k = retain_active_spec(1,2) [OF d run]
  show thesis
    by (rule that [of w1]) (use run k in \<open>auto simp: poll_def\<close>)
qed

lemma poll_tasks:
  fixes w now
  defines "kept \<equiv> filter (alive now w) (active_tasks w)"
  assumes "wm_inv w"
  shows "active_tasks (poll now w) = kept @ take (max_tasks w - length kept) (enqueued_tasks w)"
    and "enqueued_tasks (poll now w) = drop (max_tasks w - length kept) (enqueued_tasks w)"
    and "spawned (poll now w) = spawned w @ map addr (take (max_tasks w - length kept) (enqueued_tasks w))"
    and "max_tasks (poll now w) = max_tasks w"
proof -
  obtain w1 where w1: "\<exists>ps. w1 = w\<lparr>protos := ps\<rparr>"
    and pl: "poll now w = (let w3 = start_jobs (max_tasks w - length kept) (w1\<lparr>active_tasks := kept\<rparr>)
       in w3\<lparr>enqueued_messages := prune_messages now (enqueued_messages w3)\<rparr>)"
    using poll_split [OF assms(2), of now] unfolding kept_def by metis
  let ?v = "w1\<lparr>active_tasks := kept\<rparr>"
  have d: "distinct (map task_hash (active_tasks ?v @ enqueued_tasks ?v))"
    using assms(2) w1 by (auto simp: wm_inv_def kept_def distinct_map_filter)
  note st = start_jobs_spec [OF d, of "max_tasks w - length kept"]
  show "active_tasks (poll now w) = kept @ take (max_tasks w - length kept) (enqueued_tasks w)"
    "enqueued_tasks (poll now w) = drop (max_tasks w - length kept) (enqueued_tasks w)"
    "spawned (poll now w) = spawned w @ map addr (take (max_tasks w - length kept) (enqueued_tasks w))"
    "max_tasks (poll now w) = max_tasks w"
    using w1 st by (auto simp: pl Let_def)
qed

lemma distinct_map_kept:
  assumes "distinct (map f (xs @ ys))"
  shows "distinct (map f ((filter P xs @ take n ys) @ drop n ys))"
proof -
  have "map f ((filter P xs @ take n ys) @ drop n ys) = map f (filter P xs) @ map f ys"
    by (simp flip: map_append)
  with assms show ?thesis
    by (auto simp: distinct_map_filter)
qed

lemma poll_inv:
  assumes "wm_inv w"
  shows "wm_inv (poll now w)"
proof -
  have d: "distinct (map task_hash (active_tasks w @ enqueued_tasks w))" "distinct (map addr (active_tasks w @ enqueued_tasks w))"
    and p: "\<forall>j \<in> set (active_tasks w @ enqueued_tasks w). is_primary_remote (job_handle j)"
    using assms unfolding wm_inv_def by blast+
  have "\<forall>j \<in> set (active_tasks (poll now w) @ enqueued_tasks (poll now w)). is_primary_remote (job_handle j)"
    using p by (auto simp: poll_tasks [OF assms] dest: in_set_takeD in_set_dropD)
  then show ?thesis
    unfolding wm_inv_def poll_tasks(1,2) [OF assms]
    by (intro conjI distinct_map_kept d)
qed

lemma push_task_queued:
  "snd (push_task h False handle w) =
     w\<lparr>enqueued_tasks := enqueued_tasks w @ [\<lparr>task_hash = h, job_handle = set_as_primary handle\<rparr>]\<rparr>"
  by (simp add: push_task_def Let_def)

lemma set_as_primary_simps [simp]:
  "protocol (set_as_primary r) = protocol r" "is_primary_remote (set_as_primary r)"
  "remote_ssid (set_as_primary r) = remote_ssid r"
  by (simp_all add: set_as_primary_def)

lemma push_inv:
  assumes "wm_inv w" and "\<not> job_exists h w" and "protocol handle \<notin> addr ` set (active_tasks w @ enqueued_tasks w)"
  shows "wm_inv (snd (push_task h force handle w))"
proof (cases force)
  case True
  let ?j = "\<lparr>task_hash = h, job_handle = set_as_primary handle\<rparr>"
  have "task_hash ?j \<notin> set (map task_hash (active_tasks w))"
    using assms(2) by (auto simp: job_exists_def)
  note st = start_job_simps [OF this]
  show ?thesis
    using True assms by (auto simp: push_task_def Let_def wm_inv_def st job_exists_def)
next
  case False
  then show ?thesis
    using assms by (auto simp: push_task_queued wm_inv_def job_exists_def)
qed

lemma deliver_message_simps [simp]:
  "active_tasks (deliver_message m h w) = active_tasks w" "enqueued_tasks (deliver_message m h w) = enqueued_tasks w"
  "max_tasks (deliver_message m h w) = max_tasks w" "spawned (deliver_message m h w) = spawned w"
  by (simp_all add: deliver_message_def Let_def split: option.splits)

section \<open>Runs of the work manager\<close>

text \<open>
  The operations of the manager and, in \<open>wm_protocol\<close>, the progress the protocols make on their own:
  a running task may change its protocol's state at any moment.  Callers push a job only under a hash
  that has none, with a newly created protocol.
\<close>

inductive wm_step :: "work_manager \<Rightarrow> work_manager \<Rightarrow> bool" where
  wm_push: "\<lbrakk>\<not> job_exists h w; protocol handle \<notin> addr ` set (active_tasks w @ enqueued_tasks w)\<rbrakk>
    \<Longrightarrow> wm_step w (snd (push_task h False handle w))"
| wm_poll: "wm_step w (poll now w)"
| wm_deliver: "wm_step w (deliver_message m h w)"
| wm_clear: "wm_step w (clear_enqueued_tasks w)"
| wm_shutdown: "wm_step w (force_shutdown_all w)"
| wm_protocol: "wm_step w (update_proto a f w)"

inductive wm_reachable :: "work_manager \<Rightarrow> bool" where
  wm_start: "wm_reachable (work_manager_new ps max_t max_e pm)"
| wm_next: "\<lbrakk>wm_reachable w; wm_step w w'\<rbrakk> \<Longrightarrow> wm_reachable w'"

lemma wm_step_inv:
  assumes "wm_step w w'" and "wm_inv w" and "length (active_tasks w) \<le> max_tasks w"
  shows "wm_inv w' \<and> length (active_tasks w') \<le> max_tasks w'"
  using assms
proof cases
  case (wm_push h handle)
  then show ?thesis
    using push_inv [OF assms(2), of h handle False] assms(3) by (simp add: push_task_queued)
next
  case (wm_poll now)
  have "length (filter (alive now w) (active_tasks w)) \<le> max_tasks w"
    using assms(3) length_filter_le [of "alive now w" "active_tasks w"] by linarith
  then show ?thesis
    using wm_poll poll_inv [OF assms(2)] poll_tasks [OF assms(2), of now] by simp
next
  case (wm_deliver m h)
  then show ?thesis
    using assms wm_inv_cong [of w' w] by simp
next
  case wm_clear
  then show ?thesis
    using assms by (simp add: clear_enqueued_tasks_def wm_inv_def)
next
  case wm_shutdown
  then show ?thesis
    by (simp add: force_shutdown_all_def Let_def wm_inv_def)
next
  case (wm_protocol a f)
  then show ?thesis
    using assms wm_inv_cong [of w' w] by simp
qed

lemma wm_reachable_inv:
  assumes "wm_reachable w"
  shows "wm_inv w" and "length (active_tasks w) \<le> max_tasks w"
proof -
  have "wm_inv w \<and> length (active_tasks w) \<le> max_tasks w"
    using assms
  proof induction
    case (wm_start ps max_t max_e pm)
    show ?case by (simp add: work_manager_new_def wm_inv_def)
  next
    case (wm_next w w')
    then show ?case using wm_step_inv by blast
  qed
  then show "wm_inv w" "length (active_tasks w) \<le> max_tasks w" by auto
qed

section \<open>Messages that arrive before their job\<close>

text \<open>A job that is started among others finds its messages untouched by theirs.\<close>

lemma start_jobs_delivers:
  assumes "distinct (map task_hash (active_tasks w @ enqueued_tasks w))"
    and "distinct (map addr (active_tasks w @ enqueued_tasks w))"
    and "k < n" and "k < length (enqueued_tasks w)" and "j = enqueued_tasks w ! k"
    and "map_of (enqueued_messages w) (task_hash j) = Some queues" and "map_of queues (remote_ssid (job_handle j)) = Some ms"
    and "m \<in> set ms" and "should_deliver j m (task_hash j)" and "listening (proto_of w j)"
    and "start_tx (proto_of w j)" and "start_rx_open (proto_of w j)"
  shows "m \<in> inbox (proto_of (start_jobs n w) j)"
  using assms(1-5,6,10-12)
proof (induction k arbitrary: n w)
  case (0 n w)
  then obtain n' js where n: "n = Suc n'" and q: "enqueued_tasks w = j # js"
    by (cases n; cases "enqueued_tasks w") auto
  let ?v = "w\<lparr>enqueued_tasks := js\<rparr>"
  let ?u = "start_job_unconditional j ?v"
  have fresh: "task_hash j \<notin> set (map task_hash (active_tasks ?v))"
    using "0.prems"(1) q by auto
  note st = start_job_simps [OF fresh]
  have "m \<in> inbox (proto_of (released j ?v) j)"
    by (rule released_delivers [OF _ assms(7-9)]) (use "0.prems" in simp_all)
  then have "m \<in> inbox (proto_of ?u j)"
    by (simp add: st)
  moreover have "protos (start_jobs n' ?u) (addr j) = protos ?u (addr j)"
    by (rule start_jobs_protos) (use "0.prems"(1,2) q in \<open>auto simp: st\<close>)
  ultimately show ?case
    by (simp add: n q)
next
  case (Suc k n w)
  then obtain n' i js where n: "n = Suc n'" and q: "enqueued_tasks w = i # js"
    by (cases n; cases "enqueued_tasks w") auto
  let ?v = "w\<lparr>enqueued_tasks := js\<rparr>"
  let ?u = "start_job_unconditional i ?v"
  have fresh: "task_hash i \<notin> set (map task_hash (active_tasks ?v))"
    using Suc.prems(1) q by auto
  note st = start_job_simps [OF fresh]
  have jin: "j \<in> set js"
    using Suc.prems(4,5) q by simp
  then have ne: "task_hash j \<noteq> task_hash i" "addr j \<noteq> addr i"
    using Suc.prems(1,2) q by (auto simp: rev_image_eqI)
  have "m \<in> inbox (proto_of (start_jobs n' ?u) j)"
  proof (rule Suc.IH)
    show "distinct (map task_hash (active_tasks ?u @ enqueued_tasks ?u))"
      "distinct (map addr (active_tasks ?u @ enqueued_tasks ?u))"
      using Suc.prems(1,2) q by (auto simp: st)
    show "k < n'" "k < length (enqueued_tasks ?u)" "j = enqueued_tasks ?u ! k"
      using Suc.prems(3-5) n q by (auto simp: st)
    show "map_of (enqueued_messages ?u) (task_hash j) = Some queues"
      using Suc.prems(6) ne(1) by (simp add: st released_other_messages)
    show "listening (proto_of ?u j)" "start_tx (proto_of ?u j)" "start_rx_open (proto_of ?u j)"
      using Suc.prems(7-9) ne(2) by (simp_all add: st released_protos)
  qed
  then show ?case
    by (simp add: n q)
qed

lemma store_message_lookup:
  "\<exists>queues ms. map_of (store_message h m store) h = Some queues \<and> map_of queues (msg_ssid (sd_msg m)) = Some ms \<and> m \<in> set ms"
  by (auto simp: store_message_def Let_def map_of_update)


lemma poll_ended:
  assumes "wm_inv w" and "j \<in> set (active_tasks w)"
  shows "proto_of (poll now w) j = (if alive now w j then proto_of w j else ended now w j)"
proof -
  obtain kept w1 where run: "retain_active now (active_tasks w) w = (kept, w1)" by fastforce
  have d: "distinct (map addr (active_tasks w))" "distinct (map task_hash (active_tasks w @ enqueued_tasks w))"
    "addr j \<notin> addr ` set (enqueued_tasks w)"
    using assms by (auto simp: wm_inv_def)
  note spec = retain_active_spec [OF d(1) run]
  obtain ps where ps: "w1 = w\<lparr>protos := ps\<rparr>" using spec(2) by blast
  let ?v = "w1\<lparr>active_tasks := kept\<rparr>"
  have "distinct (map task_hash (active_tasks ?v @ enqueued_tasks ?v))"
    using d(2) by (auto simp: spec(1) ps distinct_map_filter)
  then have "protos (start_jobs n ?v) (addr j) = protos ?v (addr j)" for n
    by (rule start_jobs_protos) (use d(3) ps in simp)
  moreover have "proto_of w1 j = (if alive now w j then proto_of w j else ended now w j)"
  proof (cases "alive now w j")
    case True
    have "addr i \<noteq> addr j" if "i \<in> set (active_tasks w)" "\<not> alive now w i" for i
      using True that assms(2) d(1) by (metis distinct_map inj_on_eq_iff)
    with True show ?thesis
      using spec(3) [of "addr j"] by simp
  next
    case False
    with spec(4) [OF assms(2)] show ?thesis by simp
  qed
  ultimately show ?thesis
    by (simp add: poll_def run Let_def)
qed

lemma early_message_delivered:
  fixes w now handle h m
  defines "j \<equiv> \<lparr>task_hash = h, job_handle = set_as_primary handle\<rparr>"
    and "w2 \<equiv> snd (push_task h False handle (deliver_message m h w))"
    and "kept \<equiv> filter (alive now w) (active_tasks w)"
  assumes "wm_inv w" and "\<not> job_exists h w" and "protocol handle \<notin> addr ` set (active_tasks w @ enqueued_tasks w)"
    and "protos w (protocol handle) = new_protocol" and "length (enqueued_tasks w) < max_tasks w - length kept"
    and "should_deliver j m h"
  shows "j \<in> set (active_tasks (poll now w2))" and "m \<in> inbox (proto_of (poll now w2) j)"
proof -
  have none: "List.find (\<lambda>j. should_deliver j m h) (enqueued_tasks w) = None"
    "List.find (\<lambda>j. should_deliver j m h) (active_tasks w) = None"
    using assms(5) by (auto simp: find_None_iff should_deliver_def job_exists_def)
  then have dm: "deliver_message m h w = w\<lparr>enqueued_messages := store_message h m (enqueued_messages w)\<rparr>"
    by (simp add: deliver_message_def)
  have w2: "w2 = w\<lparr>enqueued_messages := store_message h m (enqueued_messages w), enqueued_tasks := enqueued_tasks w @ [j]\<rparr>"
    by (simp add: w2_def push_task_queued dm j_def)
  have inv: "wm_inv w2"
    unfolding w2_def
  proof (rule push_inv)
    show "wm_inv (deliver_message m h w)" using assms(4) wm_inv_cong [of "deliver_message m h w" w] by simp
  qed (use assms(5,6) in \<open>simp_all add: job_exists_def\<close>)
  have k2: "filter (alive now w2) (active_tasks w2) = kept"
    by (simp add: w2 kept_def alive_def cong: filter_cong)
  obtain kept' w3 where run: "retain_active now (active_tasks w2) w2 = (kept', w3)" by fastforce
  have d: "distinct (map addr (active_tasks w2))" "distinct (map task_hash (active_tasks w2 @ enqueued_tasks w2))"
    "distinct (map addr (active_tasks w2 @ enqueued_tasks w2))"
    using inv by (simp_all add: wm_inv_def)
  note spec = retain_active_spec [OF d(1) run]
  then have kk: "kept' = kept" using k2 by simp
  obtain ps where ps: "w3 = w2\<lparr>protos := ps\<rparr>" using spec(2) by blast
  have pj: "proto_of w3 j = new_protocol"
  proof -
    have "addr i \<noteq> addr j" if "i \<in> set (active_tasks w2)" for i
      using assms(6) that by (force simp: w2 j_def)
    then show ?thesis
      using spec(3) [of "addr j"] assms(7) by (simp add: w2 j_def)
  qed
  let ?v = "w3\<lparr>active_tasks := kept\<rparr>"
  obtain queues ms where q: "map_of (enqueued_messages ?v) (task_hash j) = Some queues"
    "map_of queues (remote_ssid (job_handle j)) = Some ms" "m \<in> set ms"
    using store_message_lookup [of h m "enqueued_messages w"] assms(9) by (auto simp: ps w2 j_def should_deliver_def)
  have dv: "distinct (map task_hash (active_tasks ?v @ enqueued_tasks ?v))" "distinct (map addr (active_tasks ?v @ enqueued_tasks ?v))"
    using d(2,3) by (auto simp: ps w2 kept_def distinct_map_filter)
  have mi: "m \<in> inbox (proto_of (start_jobs (max_tasks w - length kept) ?v) j)"
    by (rule start_jobs_delivers [OF dv assms(8) _ _ q])
      (use assms(9) pj in \<open>simp_all add: ps w2 nth_append j_def listening_def is_active_def new_protocol_def\<close>)
  have "max_tasks w3 = max_tasks w"
    by (simp add: ps w2)
  with mi show "m \<in> inbox (proto_of (poll now w2) j)"
    by (simp add: poll_def run kk Let_def)
  show "j \<in> set (active_tasks (poll now w2))"
    using assms(8) by (simp add: poll_tasks [OF inv] k2) (simp add: w2)
qed

end
