(* ===== verification/Signing_Correct.thy ===== *)
theory Signing_Correct
  imports Signing_Manager Work_Correct
begin

text \<open>
  Lemmas on the signing manager: the signing sets it generates, the order in which they are attempted,
  and the invariant that it keeps together with its work manager.
\<close>

section \<open>The generated sets\<close>

lemma generated_sets:
  assumes "sampling_ok e"
  shows "length (generate_signing_sets x e key bytes auths threshold) \<le> 256"
    and "set (map signing_set (generate_signing_sets x e key bytes auths threshold))
           \<subseteq> {ys \<in> set (subseqs (map (\<lambda>r. of_nat r + 1) [0..<length auths])). length ys = unat threshold + 1}"
    and "\<And>i. i < length (generate_signing_sets x e key bytes auths threshold) \<Longrightarrow>
           ps_ssid (generate_signing_sets x e key bytes auths threshold ! i) = of_nat i \<and>
           locally_started_at (generate_signing_sets x e key bytes auths threshold ! i) = None"
proof -
  define C where "C = combinations e (unat threshold + 1) (map (\<lambda>r. of_nat r + 1) [0..<length auths])"
  define L where "L = choose_multiple e (keccak_256 x (key @ bytes)) 256 (take 256 C)"
  have gen: "generate_signing_sets x e key bytes auths threshold =
      map (\<lambda>(ssid, s). \<lparr>ps_ssid = of_nat ssid, locally_started_at = None, signing_set = s\<rparr>) (enumerate 0 L)"
    by (simp add: generate_signing_sets_def Let_def C_def L_def)
  have L: "mset L = mset (take 256 C)"
    using assms by (simp add: sampling_ok_def L_def)
  have C: "mset C = mset (filter (\<lambda>ys. length ys = unat threshold + 1) (subseqs (map (\<lambda>r. of_nat r + 1) [0..<length auths])))"
    using assms by (simp add: sampling_ok_def C_def)
  have "length L \<le> 256"
    using mset_eq_length [OF L] by simp
  then show "length (generate_signing_sets x e key bytes auths threshold) \<le> 256"
    by (simp add: gen)
  have "set L \<subseteq> set C"
    using mset_eq_setD [OF L] set_take_subset [of 256 C] by simp
  also have "set C = {ys \<in> set (subseqs (map (\<lambda>r. of_nat r + 1) [0..<length auths])). length ys = unat threshold + 1}"
    using mset_eq_setD [OF C] by simp
  also have "set L = set (map signing_set (generate_signing_sets x e key bytes auths threshold))"
    by (simp add: gen comp_def case_prod_unfold flip: set_map)
  finally show "set (map signing_set (generate_signing_sets x e key bytes auths threshold))
           \<subseteq> {ys \<in> set (subseqs (map (\<lambda>r. of_nat r + 1) [0..<length auths])). length ys = unat threshold + 1}" .
  show "ps_ssid (generate_signing_sets x e key bytes auths threshold ! i) = of_nat i \<and>
           locally_started_at (generate_signing_sets x e key bytes auths threshold ! i) = None"
    if "i < length (generate_signing_sets x e key bytes auths threshold)" for i
    using that by (simp add: gen nth_enumerate_eq)
qed

lemma subseqs_member:
  assumes "ys \<in> set (subseqs xs)"
  shows "length ys \<le> length xs" and "set ys \<subseteq> set xs" and "distinct xs \<Longrightarrow> distinct ys"
proof -
  have "length ys \<le> length xs \<and> set ys \<subseteq> set xs \<and> (distinct xs \<longrightarrow> distinct ys)"
    using assms
  proof (induction xs arbitrary: ys)
    case (Cons a xs)
    then consider (taken) zs where "ys = a # zs" "zs \<in> set (subseqs xs)" | (skipped) "ys \<in> set (subseqs xs)"
      by (auto simp: Let_def)
    then show ?case
      by cases (use Cons.IH in \<open>fastforce+\<close>)
  qed simp
  then show "length ys \<le> length xs" "set ys \<subseteq> set xs" "distinct xs \<Longrightarrow> distinct ys" by auto
qed

lemma party_numbers:
  assumes "n < 65536"
  shows "distinct (map (\<lambda>r. of_nat r + 1 :: u16) [0..<n])"
    and "set (map (\<lambda>r. of_nat r + 1 :: u16) [0..<n]) = {i. \<exists>r < n. i = of_nat r + 1}"
proof -
  have "inj_on (\<lambda>r. of_nat r + 1 :: u16) {0..<n}"
  proof (rule inj_onI)
    fix r q :: nat
    assume rq: "r \<in> {0..<n}" "q \<in> {0..<n}" and eq: "of_nat r + 1 = (of_nat q + 1 :: u16)"
    from eq have "unat (of_nat r :: u16) = unat (of_nat q :: u16)" by simp
    moreover have "r < 65536" "q < 65536"
      using rq assms by auto
    ultimately show "r = q" by (simp add: unat_of_nat)
  qed
  then show "distinct (map (\<lambda>r. of_nat r + 1 :: u16) [0..<n])"
    by (simp add: distinct_map)
  show "set (map (\<lambda>r. of_nat r + 1 :: u16) [0..<n]) = {i. \<exists>r < n. i = of_nat r + 1}"
    by auto
qed

lemma no_sets_for_few_parties:
  assumes "sampling_ok e" and "length auths \<le> unat threshold"
  shows "generate_signing_sets x e key bytes auths threshold = []"
proof -
  have len: "length ys \<le> length auths" if "ys \<in> set (subseqs (map (\<lambda>r. of_nat r + 1 :: u16) [0..<length auths]))" for ys
    using subseqs_member(1) [OF that] by simp
  have "set (map signing_set (generate_signing_sets x e key bytes auths threshold)) = {}"
  proof (rule equals0I)
    fix ys
    assume "ys \<in> set (map signing_set (generate_signing_sets x e key bytes auths threshold))"
    from subsetD [OF generated_sets(2) [OF assms(1)] this]
    have "ys \<in> set (subseqs (map (\<lambda>r. of_nat r + 1) [0..<length auths]))" "length ys = unat threshold + 1" by simp_all
    with len [OF this(1)] assms(2) show False by linarith
  qed
  then show ?thesis by simp
qed

section \<open>One attempt\<close>

text \<open>The tracker of a proposal after an attempt at block \<open>now\<close>.\<close>

definition attempted :: "u64 \<Rightarrow> proposed_signing_set list \<Rightarrow> signing_set_history_tracker \<Rightarrow> signing_set_history_tracker" where
  "attempted now generated t =
     (case choose_ssid generated t of (ssid, t1) \<Rightarrow>
        if unat ssid < length (tracked_sets t1)
        then t1\<lparr>tracked_sets := (tracked_sets t1)
               [unat ssid := (tracked_sets t1 ! unat ssid)\<lparr>locally_started_at := Some now\<rparr>]\<rparr>
        else t1)"

abbreviation view_sets :: "ext \<Rightarrow> sampling \<Rightarrow> chain_view \<Rightarrow> stored_unsigned_proposal_batch \<Rightarrow> proposed_signing_set list" where
  "view_sets x e cv b \<equiv> generate_signing_sets x e (snd (cv_dkg_pub_key cv)) (encode_batch e b)
     (keygen_parties (cv_best_authorities cv)) (cv_signature_threshold cv)"

lemma choose_ssid_inserted: "choose_ssid g t = (n, t1) \<Longrightarrow> n \<in> ssids_attempted t1"
  by (auto simp: choose_ssid_def Let_def split: if_splits)

lemma attempt_batch_cases:
  assumes "attempt_batch x e cv p b f h s = (r, s')"
  obtains (idle) "r = Ok ()"
      and "s' = s\<lparr>ssid_history := (ssid_history s)(h \<mapsto> attempted (ucast (cv_number cv)) (view_sets x e cv b) (tracker_of h s))\<rparr>"
      and "\<And>ssid t1. choose_ssid (view_sets x e cv b) (tracker_of h s) = (ssid, t1) \<Longrightarrow> unat ssid < length (tracked_sets t1) \<Longrightarrow>
             p \<notin> set (signing_set (tracked_sets t1 ! unat ssid))"
  | (pushed) ssid t1 handle w where "choose_ssid (view_sets x e cv b) (tracker_of h s) = (ssid, t1)"
      and "unat ssid < length (tracked_sets t1)" and "p \<in> set (signing_set (tracked_sets t1 ! unat ssid))"
      and "handle = remote_new (next_protocol s) (cv_latest cv) (fst (cv_dkg_pub_key cv)) (ucast (cv_number cv)) ssid"
      and "push_task h f handle (update_proto (next_protocol s) (\<lambda>_. new_protocol) (sm_work s)) = (r, w)"
      and "s' = s\<lparr>ssid_history := (ssid_history s)(h \<mapsto> attempted (ucast (cv_number cv)) (view_sets x e cv b) (tracker_of h s)),
                  next_protocol := Suc (next_protocol s), sm_work := w\<rparr>"
  | (panic) "r = Panic"
      and "s' = s\<lparr>ssid_history := (ssid_history s)(h \<mapsto> attempted (ucast (cv_number cv)) (view_sets x e cv b) (tracker_of h s)),
                  next_protocol := Suc (next_protocol s),
                  sm_work := update_proto (next_protocol s) (\<lambda>_. new_protocol) (sm_work s)\<rparr>"
proof -
  obtain ssid t1 where ch: "choose_ssid (view_sets x e cv b) (tracker_of h s) = (ssid, t1)" by fastforce
  note ins = choose_ssid_inserted [OF ch]
  show thesis
  proof (cases "unat ssid < length (tracked_sets t1)")
    case False
    then show thesis
      using idle assms ch by (simp add: attempt_batch_def Let_def attempted_def)
  next
    case True
    define this_set where "this_set = tracked_sets t1 ! unat ssid"
    define t2 where "t2 = t1\<lparr>tracked_sets := (tracked_sets t1)
      [unat ssid := this_set\<lparr>locally_started_at := Some (ucast (cv_number cv))\<rparr>]\<rparr>"
    have att: "attempted (ucast (cv_number cv)) (view_sets x e cv b) (tracker_of h s) = t2"
      using ch True by (simp add: attempted_def t2_def this_set_def)
    have same: "t2\<lparr>ssids_attempted := insert ssid (ssids_attempted t2)\<rparr> = t2"
      using ins by (simp add: t2_def insert_absorb)
    show thesis
    proof (cases "p \<in> set (signing_set this_set)")
      case False
      with True show thesis
        using idle assms ch att same
        by (simp add: attempt_batch_def Let_def this_set_def t2_def)
    next
      case inset: True
      show thesis
      proof (cases "cv_signature_threshold cv + 1 = of_nat (length (signing_set this_set))")
        case False
        with True inset show thesis
          using panic assms ch
          by (simp add: attempt_batch_def Let_def this_set_def [symmetric] t2_def [symmetric] att
              initialize_signing_protocol_def setup_signing_def)
      next
        case eq: True
        obtain r' w where pt: "push_task h f (remote_new (next_protocol s) (cv_latest cv) (fst (cv_dkg_pub_key cv))
            (ucast (cv_number cv)) ssid) (update_proto (next_protocol s) (\<lambda>_. new_protocol) (sm_work s)) = (r', w)"
          by fastforce
        have "attempt_batch x e cv p b f h s =
            (r', s\<lparr>ssid_history := (ssid_history s)(h \<mapsto> t2), next_protocol := Suc (next_protocol s), sm_work := w\<rparr>)"
          using True inset eq ch pt by (simp add: attempt_batch_def Let_def this_set_def [symmetric]
              t2_def [symmetric] initialize_signing_protocol_def setup_signing_def)
        with assms pt show thesis
          by (intro pushed [OF ch True inset [unfolded this_set_def] refl]) (auto simp: att)
      qed
    qed
  qed
qed

lemma attempt_batch_panics:
  assumes "choose_ssid (view_sets x e cv b) (tracker_of h s) = (ssid, t1)"
    and "unat ssid < length (tracked_sets t1)" and "p \<in> set (signing_set (tracked_sets t1 ! unat ssid))"
    and "cv_signature_threshold cv + 1 \<noteq> of_nat (length (signing_set (tracked_sets t1 ! unat ssid)))"
  shows "fst (attempt_batch x e cv p b f h s) = Panic"
  using assms by (simp add: attempt_batch_def Let_def initialize_signing_protocol_def setup_signing_def)


section \<open>The order of the attempts\<close>

text \<open>The numbers \<open>0\<close> to \<open>k\<close> have been attempted.\<close>

definition upto_ssid :: "nat \<Rightarrow> u16 set" where
  "upto_ssid k = of_nat ` {..k}"

lemma next_ssid_upto:
  assumes "ssids_attempted t = upto_ssid k" and "k < 65535"
  shows "next_ssid t = of_nat (Suc k)"
proof -
  have "Max (upto_ssid k) = of_nat k"
  proof (rule Max_eqI)
    show "i \<le> of_nat k" if "i \<in> upto_ssid k" for i
      using that assms(2) by (auto simp: upto_ssid_def word_le_nat_alt unat_of_nat)
  qed (auto simp: upto_ssid_def)
  then show ?thesis
    using assms(1) by (auto simp: next_ssid_def upto_ssid_def)
qed

lemma upto_ssid_Suc: "insert (of_nat (Suc k)) (upto_ssid k) = upto_ssid (Suc k)"
  by (simp add: upto_ssid_def atMost_Suc)

lemma upto_ssid_0: "upto_ssid 0 = {0}"
  by (simp add: upto_ssid_def)

text \<open>The first attempt takes set zero of the generated ones; later ones go round.\<close>

lemma choose_first:
  assumes "ssids_attempted t = {}" and "g \<noteq> []"
  shows "choose_ssid g t = (0, t\<lparr>tracked_sets := g, ssids_attempted := upto_ssid 0\<rparr>)"
  using assms by (simp add: choose_ssid_def Let_def next_ssid_def upto_ssid_0)

lemma choose_next:
  assumes "ssids_attempted t = upto_ssid k" and "k < length (tracked_sets t)" and "length (tracked_sets t) \<le> 256"
  shows "choose_ssid g t = (of_nat (Suc k mod length (tracked_sets t)),
           t\<lparr>ssids_attempted := upto_ssid (Suc k mod length (tracked_sets t))\<rparr>)"
proof -
  have n: "next_ssid t = of_nat (Suc k)" and u: "unat (of_nat (Suc k) :: u16) = Suc k"
    using next_ssid_upto [OF assms(1)] assms(2,3) by (simp_all add: unat_of_nat del: of_nat_Suc)
  then have nz: "(of_nat (Suc k) :: u16) \<noteq> 0"
    by (metis Zero_not_Suc unat_0)
  show ?thesis
  proof (cases "Suc k = length (tracked_sets t)")
    case True
    then show ?thesis
      using n u nz by (simp add: choose_ssid_def Let_def upto_ssid_0 del: of_nat_Suc)
  next
    case False
    then show ?thesis
      using n u nz assms(1,2) by (simp add: choose_ssid_def Let_def upto_ssid_Suc del: of_nat_Suc)
  qed
qed

text \<open>
  A tracker in which \<open>k + 1\<close> attempts at \<open>n\<close> sets have been made, the last at block \<open>now\<close>.
\<close>

definition in_turn :: "proposed_signing_set list \<Rightarrow> nat \<Rightarrow> u64 \<Rightarrow> signing_set_history_tracker \<Rightarrow> bool" where
  "in_turn g k now t \<longleftrightarrow>
     ssids_attempted t = upto_ssid (k mod length g) \<and> length (tracked_sets t) = length g \<and>
     (\<forall>i < length g. signing_set (tracked_sets t ! i) = signing_set (g ! i)) \<and>
     locally_started_at (tracked_sets t ! (k mod length g)) = Some now \<and>
     (\<forall>i < length g. \<forall>b. locally_started_at (tracked_sets t ! i) = Some b \<longrightarrow> b \<le> now)"

lemma set_map_filter: "set (List.map_filter f xs) = {b. \<exists>a \<in> set xs. f a = Some b}"
  by (induction xs) (auto simp: List.map_filter_simps split: option.splits)

lemma latest_attempt_eq:
  assumes "a \<in> set (tracked_sets t)" and "locally_started_at a = Some now"
    and "\<And>a b. a \<in> set (tracked_sets t) \<Longrightarrow> locally_started_at a = Some b \<Longrightarrow> b \<le> now"
  shows "latest_attempt t = Some now"
proof -
  let ?ts = "List.map_filter locally_started_at (tracked_sets t)"
  have mem: "now \<in> set ?ts" and le: "\<And>b. b \<in> set ?ts \<Longrightarrow> b \<le> now"
    using assms by (auto simp: set_map_filter)
  from mem have "Max (set ?ts) = now"
    by (intro Max_eqI) (use le in auto)
  then show ?thesis
    using mem by (cases ?ts) (auto simp: latest_attempt_def)
qed

lemma latest_attempt_None:
  "latest_attempt t = None \<longleftrightarrow> (\<forall>a \<in> set (tracked_sets t). locally_started_at a = None)"
proof -
  let ?ts = "List.map_filter locally_started_at (tracked_sets t)"
  have "latest_attempt t = None \<longleftrightarrow> set ?ts = {}"
    by (cases ?ts) (auto simp: latest_attempt_def)
  then show ?thesis
    by (auto simp: set_map_filter) (metis not_Some_eq)
qed

lemma in_turn_latest:
  assumes "in_turn g k now t" and "g \<noteq> []"
  shows "latest_attempt t = Some now"
proof (rule latest_attempt_eq)
  have k: "k mod length g < length g"
    using assms(2) by simp
  then show "tracked_sets t ! (k mod length g) \<in> set (tracked_sets t)"
    using assms(1) by (simp add: in_turn_def)
  show "locally_started_at (tracked_sets t ! (k mod length g)) = Some now"
    using assms(1) by (simp add: in_turn_def)
  show "b \<le> now" if "a \<in> set (tracked_sets t)" "locally_started_at a = Some b" for a b
    using that assms(1) by (auto simp: in_turn_def in_set_conv_nth)
qed

lemma first_attempt_in_turn:
  assumes "g \<noteq> []" and "\<And>i. i < length g \<Longrightarrow> locally_started_at (g ! i) = None"
  shows "in_turn g 0 now (attempted now g empty_tracker)"
  using assms by (auto simp: in_turn_def attempted_def choose_first empty_tracker_def nth_list_update)

lemma next_attempt_in_turn:
  assumes "in_turn g k old t" and "g \<noteq> []" and "length g \<le> 256" and "old \<le> now"
  shows "in_turn g (Suc k) now (attempted now g' t)"
proof -
  let ?n = "length g" and ?t = "attempted now g' t"
  have len: "length (tracked_sets t) = ?n"
    using assms(1) by (simp add: in_turn_def)
  have m: "Suc (k mod ?n) mod ?n = Suc k mod ?n" "Suc k mod ?n < ?n"
    using assms(2) by (simp_all add: mod_Suc_eq)
  then have u: "unat (of_nat (Suc k mod ?n) :: u16) = Suc k mod ?n"
    using assms(3) by (simp add: unat_of_nat)
  have "choose_ssid g' t = (of_nat (Suc k mod ?n), t\<lparr>ssids_attempted := upto_ssid (Suc k mod ?n)\<rparr>)"
    using choose_next [of t "k mod ?n" g'] assms len m(1) by (simp add: in_turn_def)
  then have att: "?t = t\<lparr>ssids_attempted := upto_ssid (Suc k mod ?n),
      tracked_sets := (tracked_sets t)[Suc k mod ?n := (tracked_sets t ! (Suc k mod ?n))\<lparr>locally_started_at := Some now\<rparr>]\<rparr>"
    using u m(2) len by (simp add: attempted_def)
  show ?thesis
    using assms(1,4) m(2) unfolding att in_turn_def
    by (auto simp: nth_list_update intro: order_trans)
qed

end
