(* ===== verification/Signing_Runs.thy ===== *)
theory Signing_Runs
  imports Signing_Correct
begin

text \<open>
  Runs of the signing manager: the events that change it, the invariant they keep, and the proposals
  that no event brings back.
\<close>

section \<open>Events\<close>

datatype sm_event =
    SmBlock chain_view
  | SmPoll block_number
  | SmDeliver signed_dkg_message
  | SmClear
  | SmLock
  | SmUnlock
  | SmDone hash256 u16 "(dkg_error, unit) result"
  | SmProgress nat "protocol_state \<Rightarrow> protocol_state"

fun sm_step :: "ext \<Rightarrow> sampling \<Rightarrow> dkg_id \<Rightarrow> sm_event \<Rightarrow> signing_manager \<Rightarrow> signing_manager" where
  "sm_step x e public (SmBlock cv) s = snd (sm_on_block_finalized x e public cv s)"
| "sm_step x e public (SmPoll now) s = s\<lparr>sm_work := poll now (sm_work s)\<rparr>"
| "sm_step x e public (SmDeliver m) s = snd (sm_deliver_message m s)"
| "sm_step x e public SmClear s = clear_enqueued_proposal_tasks s"
| "sm_step x e public SmLock s = keygen_lock s"
| "sm_step x e public SmUnlock s = keygen_unlock s"
| "sm_step x e public (SmDone h ssid r) s = signing_task_done h ssid r s"
| "sm_step x e public (SmProgress a f) s = s\<lparr>sm_work := update_proto a f (sm_work s)\<rparr>"

definition sm_run :: "ext \<Rightarrow> sampling \<Rightarrow> dkg_id \<Rightarrow> sm_event list \<Rightarrow> signing_manager \<Rightarrow> signing_manager" where
  "sm_run x e public evs s = fold (sm_step x e public) evs s"

lemma sm_run_induct:
  assumes "P s" and "\<And>ev s. ev \<in> set evs \<Longrightarrow> P s \<Longrightarrow> P (sm_step x e public ev s)"
  shows "P (sm_run x e public evs s)"
  using assms by (induction evs arbitrary: s) (simp_all add: sm_run_def)

section \<open>The loop over the batches\<close>

text \<open>
  To show that a finalized block keeps a property of the manager it is enough to show it of one
  attempt; \<open>todo\<close> are the batches that are looked at, all of them in the list of the chain.
\<close>

lemma sign_batches_induct:
  assumes "P s" and "set todo \<subseteq> set full"
    and "\<And>b h s. b \<in> set todo \<Longrightarrow> unsigned_batch_hash x b = Some h \<Longrightarrow> P s \<Longrightarrow>
           P (s\<lparr>ssid_history := (ssid_history s)(h \<mapsto> tracker_of h s)\<rparr>)"
    and "\<And>b h f s. b \<in> set todo \<Longrightarrow> unsigned_batch_hash x b = Some h \<Longrightarrow> P s \<Longrightarrow>
           ssid_history s h \<noteq> None \<Longrightarrow> can_submit_more_tasks (sm_work s) \<Longrightarrow>
           (\<And>i. latest_attempt (tracker_of h s) = Some i \<Longrightarrow> i + ucast SIGN_TIMEOUT \<le> ucast (cv_number cv)) \<Longrightarrow>
           P (snd (attempt_batch x e cv p b f h s))"
  shows "P (snd (sign_batches x e cv p full todo s))"
  using assms
proof (induction todo arbitrary: s)
  case (Cons b todo)
  show ?case
  proof (cases "ub_proposals b")
    case Nil
    with Cons.prems(1) show ?thesis by simp
  next
    case (Cons fp more)
    show ?thesis
    proof (cases "can_submit_more_tasks (sm_work s)")
      case False
      with Cons \<open>P s\<close> show ?thesis by simp
    next
      case True
      obtain h where h: "unsigned_batch_hash x b = Some h"
        by (simp add: unsigned_batch_hash_def)
      let ?f = "up_typed_chain_id fp = ChainNone"
      define s1 where "s1 = s\<lparr>ssid_history := (ssid_history s)(h \<mapsto> tracker_of h s)\<rparr>"
      have tr: "tracker_of h s1 = tracker_of h s"
        by (simp add: s1_def tracker_of_def)
      have "P s1"
        unfolding s1_def by (rule Cons.prems(3) [of b]) (use h \<open>P s\<close> in simp_all)
      have att: "P (snd (attempt_batch x e cv p b ?f h s1))"
        if "\<And>i. latest_attempt (tracker_of h s) = Some i \<Longrightarrow> i + ucast SIGN_TIMEOUT \<le> ucast (cv_number cv)"
        by (rule Cons.prems(4)) (use h \<open>P s1\<close> True that tr in \<open>simp_all add: s1_def\<close>)
      have "b \<in> set full"
        using Cons.prems(2) by simp
      then have "P (snd (sign_batch x e cv p full b ?f h s))"
        using h \<open>P s1\<close> att unfolding sign_batch_def s1_def [symmetric] Let_def
        by (auto split: option.splits)
      then have step: "P (snd (sign_batches x e cv p full todo s'))" if "sign_batch x e cv p full b ?f h s = (Ok (), s')" for s'
        using Cons.IH [of s'] Cons.prems that by (metis (no_types, lifting) insert_subset list.set_intros(2) list.simps(15) snd_conv)
      obtain r s' where rs: "sign_batch x e cv p full b ?f h s = (r, s')" by fastforce
      show ?thesis
        using \<open>P (snd (sign_batch x e cv p full b ?f h s))\<close> step [of s'] rs True h
        by (cases r) (simp_all add: \<open>ub_proposals b = fp # more\<close>)
    qed
  qed
qed simp

lemma block_induct:
  assumes "P s"
    and "\<And>b h s. unsigned_batch_hash x b = Some h \<Longrightarrow> P s \<Longrightarrow>
           P (s\<lparr>ssid_history := (ssid_history s)(h \<mapsto> tracker_of h s)\<rparr>)"
    and "\<And>p b h f s'. unsigned_batch_hash x b = Some h \<Longrightarrow> \<not> job_exists h (sm_work s) \<Longrightarrow> P s' \<Longrightarrow>
           ssid_history s' h \<noteq> None \<Longrightarrow> can_submit_more_tasks (sm_work s') \<Longrightarrow>
           (\<And>i. latest_attempt (tracker_of h s') = Some i \<Longrightarrow> i + ucast SIGN_TIMEOUT \<le> ucast (cv_number cv)) \<Longrightarrow>
           P (snd (attempt_batch x e cv p b f h s'))"
  shows "P (snd (sm_on_block_finalized x e public cv s))"
proof -
  have "P (snd (sign_batches x e cv p full todo s))"
    if gu: "get_unsigned_proposals x cv (sm_work s) = Ok (todo, full)" for p todo full
  proof (rule sign_batches_induct)
    show "set todo \<subseteq> set full"
      using gu by (auto simp: get_unsigned_proposals_def Let_def split: option.splits)
    have new: "\<not> job_exists h (sm_work s)" if "b \<in> set todo" "unsigned_batch_hash x b = Some h" for b h
      using gu that by (auto simp: get_unsigned_proposals_def Let_def split: option.splits)
    show "P (snd (attempt_batch x e cv p b f h s'))"
      if "b \<in> set todo" "unsigned_batch_hash x b = Some h" "P s'" "ssid_history s' h \<noteq> None" "can_submit_more_tasks (sm_work s')"
        "\<And>i. latest_attempt (tracker_of h s') = Some i \<Longrightarrow> i + ucast SIGN_TIMEOUT \<le> ucast (cv_number cv)" for b h f s'
      by (rule assms(3) [OF that(2) new [OF that(1,2)] that(3-6)])
  qed (use assms(1,2) in auto)
  with assms(1) show ?thesis
    by (auto simp: sm_on_block_finalized_def split: option.splits result.splits)
qed

section \<open>The invariant\<close>

lemma choose_ssid_sets: "choose_ssid g t = (n, t1) \<Longrightarrow> tracked_sets t1 = g \<or> tracked_sets t1 = tracked_sets t"
  by (auto simp: choose_ssid_def Let_def split: if_splits)

lemma attempted_started:
  assumes "a \<in> set (tracked_sets (attempted now g t))" and "locally_started_at a = Some b"
  shows "b = now \<or> (\<exists>a' \<in> set (tracked_sets t) \<union> set g. locally_started_at a' = Some b)"
proof -
  obtain n t1 where ch: "choose_ssid g t = (n, t1)" by fastforce
  have "b = now \<or> (\<exists>a' \<in> set (tracked_sets t1). locally_started_at a' = Some b)"
    using assms ch set_update_subset_insert [of "tracked_sets t1"]
    by (fastforce simp: attempted_def split: if_splits)
  with choose_ssid_sets [OF ch] show ?thesis by auto
qed

lemma attempted_now:
  assumes "choose_ssid g t = (n, t1)" and "unat n < length (tracked_sets t1)"
  shows "\<exists>a \<in> set (tracked_sets (attempted now g t)). locally_started_at a = Some now"
  using assms by (auto simp: attempted_def intro!: bexI [OF _ set_update_memI])

lemma generated_not_started:
  "a \<in> set (generate_signing_sets x e key bytes auths threshold) \<Longrightarrow> locally_started_at a = None"
  by (auto simp: generate_signing_sets_def Let_def)

lemma unat_ucast_block [simp]: "unat (ucast (n :: block_number) :: u64) = unat n"
  using unat_bound [of n] by (simp add: unsigned_ucast_eq take_bit_eq_mod)

definition started_bound :: "signing_manager \<Rightarrow> bool" where
  "started_bound s \<longleftrightarrow>
     (\<forall>h t a b. ssid_history s h = Some t \<longrightarrow> a \<in> set (tracked_sets t) \<longrightarrow> locally_started_at a = Some b \<longrightarrow> unat b < 2 ^ 32)"

lemma started_bound_attempted:
  assumes "started_bound s" and "\<And>a. a \<in> set g \<Longrightarrow> locally_started_at a = None"
  shows "started_bound (s\<lparr>ssid_history := (ssid_history s)(h \<mapsto> attempted (ucast (n :: block_number)) g (tracker_of h s))\<rparr>)"
proof -
  have old: "unat b < 2 ^ 32" if "a \<in> set (tracked_sets (tracker_of h s))" "locally_started_at a = Some b" for a b
    using assms(1) that unfolding started_bound_def
    by (cases "ssid_history s h") (auto simp: tracker_of_def empty_tracker_def)
  have "unat b < 2 ^ 32" if "a \<in> set (tracked_sets (attempted (ucast n) g (tracker_of h s)))" "locally_started_at a = Some b" for a b
    using attempted_started [OF that] old assms(2) unat_bound [of n] by auto
  with assms(1) show ?thesis
    by (auto simp: started_bound_def split: if_splits)
qed

text \<open>A proposal a set of which was started at this block.\<close>

definition recent :: "u64 \<Rightarrow> hash256 \<Rightarrow> signing_manager \<Rightarrow> bool" where
  "recent now h s \<longleftrightarrow> (\<exists>a \<in> set (tracked_sets (tracker_of h s)). locally_started_at a = Some now)"

lemma recent_not_stalled:
  assumes "recent (ucast (n :: block_number)) h s" and "started_bound s" and "ssid_history s h \<noteq> None"
  shows "\<exists>i. latest_attempt (tracker_of h s) = Some i \<and> \<not> i + ucast SIGN_TIMEOUT \<le> ucast n"
proof -
  let ?t = "tracker_of h s"
  let ?ts = "List.map_filter locally_started_at (tracked_sets ?t)"
  have mem: "ucast n \<in> set ?ts"
    using assms(1) by (auto simp: recent_def set_map_filter)
  then have la: "latest_attempt ?t = Some (Max (set ?ts))"
    by (cases ?ts) (auto simp: latest_attempt_def)
  have "Max (set ?ts) \<in> set ?ts"
    using mem by (intro Max_in) auto
  then obtain a where "a \<in> set (tracked_sets ?t)" "locally_started_at a = Some (Max (set ?ts))"
    by (auto simp: set_map_filter)
  with assms(2,3) have b: "unat (Max (set ?ts)) < 2 ^ 32"
    by (auto simp: started_bound_def tracker_of_def)
  have "unat n \<le> unat (Max (set ?ts))"
    using Max_ge [OF _ mem] by (simp add: word_le_nat_alt)
  moreover have "unat (Max (set ?ts) + ucast SIGN_TIMEOUT) = unat (Max (set ?ts)) + 10"
    using b by (simp add: unat_word_ariths SIGN_TIMEOUT_def)
  ultimately have "\<not> Max (set ?ts) + ucast SIGN_TIMEOUT \<le> ucast n"
    by (simp add: word_le_nat_alt)
  with la show ?thesis by blast
qed

lemma job_exists_push:
  "job_exists h' (snd (push_task h f handle w)) \<longrightarrow> job_exists h' w \<or> h' = h"
  by (auto simp: push_task_def Let_def job_exists_def start_job_released split: if_splits)

lemma push_task_frame:
  assumes "\<not> job_exists h w"
  shows "set (active_tasks (snd (push_task h f handle w)) @ enqueued_tasks (snd (push_task h f handle w)))
           = insert \<lparr>task_hash = h, job_handle = set_as_primary handle\<rparr> (set (active_tasks w @ enqueued_tasks w))"
    and "length (enqueued_tasks (snd (push_task h f handle w))) \<le> Suc (length (enqueued_tasks w))"
proof -
  have "task_hash \<lparr>task_hash = h, job_handle = set_as_primary handle\<rparr> \<notin> set (map task_hash (active_tasks w))"
    using assms by (auto simp: job_exists_def)
  note st = start_job_simps [OF this]
  show "set (active_tasks (snd (push_task h f handle w)) @ enqueued_tasks (snd (push_task h f handle w)))
           = insert \<lparr>task_hash = h, job_handle = set_as_primary handle\<rparr> (set (active_tasks w @ enqueued_tasks w))"
    "length (enqueued_tasks (snd (push_task h f handle w))) \<le> Suc (length (enqueued_tasks w))"
    by (auto simp: push_task_def Let_def st)
qed


text \<open>
  The jobs of the manager are distinct in hash and protocol, no more wait than may, the next address
  is new, and the times of the trackers are block numbers.
\<close>

definition sm_inv :: "signing_manager \<Rightarrow> bool" where
  "sm_inv s \<longleftrightarrow>
     wm_inv (sm_work s) \<and>
     (\<forall>j \<in> set (active_tasks (sm_work s) @ enqueued_tasks (sm_work s)). addr j < next_protocol s) \<and>
     length (enqueued_tasks (sm_work s)) \<le> max_enqueued_tasks (sm_work s) \<and> started_bound s"

lemmas push_max_enqueued [simp] = wm_config_eq(2) [OF wm_config_push]

lemma attempt_keeps_inv:
  assumes "sm_inv s" and "\<not> job_exists h (sm_work s)" and "can_submit_more_tasks (sm_work s)"
  shows "sm_inv (snd (attempt_batch x e cv p b f h s))"
proof -
  obtain r s' where rs: "attempt_batch x e cv p b f h s = (r, s')" by fastforce
  let ?t = "attempted (ucast (cv_number cv)) (view_sets x e cv b) (tracker_of h s)"
  have sb: "started_bound (s\<lparr>ssid_history := (ssid_history s)(h \<mapsto> ?t)\<rparr>)"
    by (rule started_bound_attempted) (use assms(1) generated_not_started in \<open>auto simp: sm_inv_def\<close>)
  show ?thesis
    using rs
  proof (cases rule: attempt_batch_cases)
    case idle
    with rs sb assms(1) show ?thesis by (simp add: sm_inv_def)
  next
    case (pushed ssid t1 handle w)
    let ?w = "update_proto (next_protocol s) (\<lambda>_. new_protocol) (sm_work s)"
    have w: "w = snd (push_task h f handle ?w)"
      using pushed(5) by (metis snd_conv)
    have nj: "\<not> job_exists h ?w"
      using assms(2) by (simp add: job_exists_def)
    have inv: "wm_inv ?w"
      using assms(1) wm_inv_cong [of ?w "sm_work s"] by (simp add: sm_inv_def)
    have fresh: "protocol handle \<notin> addr ` set (active_tasks ?w @ enqueued_tasks ?w)"
      using assms(1) pushed(4) by (auto simp: sm_inv_def remote_new_def)
    have "wm_inv w"
      unfolding w by (rule push_inv [OF inv nj fresh])
    moreover have "\<forall>j \<in> set (active_tasks w @ enqueued_tasks w). addr j < Suc (next_protocol s)"
      using assms(1) pushed(4) unfolding w push_task_frame(1) [OF nj]
      by (auto simp: sm_inv_def remote_new_def less_Suc_eq)
    moreover have "length (enqueued_tasks w) \<le> max_enqueued_tasks w"
      using push_task_frame(2) [OF nj, of f handle] assms(3) by (simp add: w can_submit_more_tasks_def)
    moreover have "started_bound s'"
      using sb by (simp add: pushed(6) started_bound_def)
    ultimately show ?thesis
      by (simp add: rs pushed(6) sm_inv_def)
  next
    case panic
    moreover have "started_bound s'"
      using sb by (simp add: panic(2) started_bound_def)
    ultimately show ?thesis
      using rs assms(1) wm_inv_cong [of "sm_work s'" "sm_work s"] by (auto simp: sm_inv_def less_Suc_eq)
  qed
qed

lemma tracker_of_update: "tracker_of h (s\<lparr>ssid_history := (ssid_history s)(h' \<mapsto> t)\<rparr>) = (if h = h' then t else tracker_of h s)"
  by (simp add: tracker_of_def)

lemma attempt_recent:
  assumes "job_exists h' (sm_work (snd (attempt_batch x e cv p b f h s)))" and "\<not> job_exists h (sm_work s)"
  shows "job_exists h' (sm_work s) \<and> tracker_of h' (snd (attempt_batch x e cv p b f h s)) = tracker_of h' s \<or>
         recent (ucast (cv_number cv)) h' (snd (attempt_batch x e cv p b f h s))"
proof -
  obtain r s' where rs: "attempt_batch x e cv p b f h s = (r, s')" by fastforce
  show ?thesis
    using rs
  proof (cases rule: attempt_batch_cases)
    case idle
    with rs assms show ?thesis by (auto simp: tracker_of_def)
  next
    case (pushed ssid t1 handle w)
    let ?w = "update_proto (next_protocol s) (\<lambda>_. new_protocol) (sm_work s)"
    have w: "w = snd (push_task h f handle ?w)"
      using pushed(5) by (metis snd_conv)
    have "job_exists h' ?w \<or> h' = h"
      using assms(1) job_exists_push [of h' h f handle ?w] by (simp add: rs pushed(6) w)
    then have "job_exists h' (sm_work s) \<and> h' \<noteq> h \<or> h' = h"
      by (auto simp: job_exists_def)
    then show ?thesis
      using attempted_now [OF pushed(1,2)] by (auto simp: rs pushed(6) recent_def tracker_of_def)
  next
    case panic
    with rs assms show ?thesis by (auto simp: tracker_of_def job_exists_def)
  qed
qed

lemma block_keeps_inv:
  assumes "sm_inv s"
  shows "sm_inv (snd (sm_on_block_finalized x e public cv s))"
proof -
  let ?now = "ucast (cv_number cv) :: u64"
  let ?P = "\<lambda>s'. sm_inv s' \<and> (\<forall>h. job_exists h (sm_work s') \<longrightarrow> job_exists h (sm_work s) \<or> recent ?now h s')"
  have "?P (snd (sm_on_block_finalized x e public cv s))"
  proof (rule block_induct)
    show "?P s" using assms by simp
    show "?P (s\<lparr>ssid_history := (ssid_history s)(h \<mapsto> tracker_of h s)\<rparr>)" if "?P s" for h s
      using that by (auto simp: sm_inv_def recent_def tracker_of_def started_bound_def empty_tracker_def split: if_splits option.splits)
    show "?P (snd (attempt_batch x e cv p b f h s'))"
      if new: "\<not> job_exists h (sm_work s)" and P: "?P s'" and "ssid_history s' h \<noteq> None" "can_submit_more_tasks (sm_work s')"
        and stalled: "\<And>i. latest_attempt (tracker_of h s') = Some i \<Longrightarrow> i + ucast SIGN_TIMEOUT \<le> ucast (cv_number cv)"
      for p b h f s'
    proof -
      have nj: "\<not> job_exists h (sm_work s')"
        using P new recent_not_stalled [of "cv_number cv" h s'] stalled that(3) by (auto simp: sm_inv_def)
      have "job_exists h' (sm_work s) \<or> recent ?now h' (snd (attempt_batch x e cv p b f h s'))"
        if "job_exists h' (sm_work (snd (attempt_batch x e cv p b f h s')))" for h'
        using attempt_recent [OF that nj] P by (auto simp: recent_def)
      with attempt_keeps_inv [OF _ nj that(4)] P show ?thesis by blast
    qed
  qed
  then show ?thesis ..
qed


lemma sm_step_inv:
  assumes "sm_inv s"
  shows "sm_inv (sm_step x e public ev s)"
proof (cases ev)
  case (SmBlock cv)
  with block_keeps_inv [OF assms] show ?thesis by simp
next
  case (SmPoll now)
  have w: "wm_inv (sm_work s)"
    using assms by (simp add: sm_inv_def)
  have "\<forall>j \<in> set (active_tasks (poll now (sm_work s)) @ enqueued_tasks (poll now (sm_work s))). addr j < next_protocol s"
    using assms by (auto simp: sm_inv_def poll_tasks [OF w] dest: in_set_takeD in_set_dropD)
  moreover have "length (enqueued_tasks (poll now (sm_work s))) \<le> max_enqueued_tasks (poll now (sm_work s))"
    using assms wm_config_eq(2) [OF wm_config_ops(1)] by (simp add: sm_inv_def poll_tasks [OF w] le_diff_conv trans_le_add1)
  moreover have "started_bound (s\<lparr>sm_work := poll now (sm_work s)\<rparr>)"
    using assms by (simp add: sm_inv_def started_bound_def)
  ultimately show ?thesis
    using SmPoll poll_inv [OF w] by (simp add: sm_inv_def)
next
  case (SmDeliver m)
  have "wm_inv (deliver_message m h (sm_work s)) = wm_inv (sm_work s)" for h
    by (rule wm_inv_cong) simp_all
  with SmDeliver assms wm_config_eq(2) [OF wm_config_ops(2)] show ?thesis
    by (auto simp: sm_deliver_message_def sm_inv_def started_bound_def split: option.splits)
next
  case SmClear
  with assms show ?thesis
    by (auto simp: clear_enqueued_proposal_tasks_def clear_enqueued_tasks_def sm_inv_def started_bound_def wm_inv_def)
next
  case SmLock
  with assms show ?thesis by (simp add: keygen_lock_def sm_inv_def started_bound_def)
next
  case SmUnlock
  with assms show ?thesis by (simp add: keygen_unlock_def sm_inv_def started_bound_def)
next
  case (SmDone h ssid r)
  have "started_bound (signing_task_done h ssid r s)"
    using assms unfolding sm_inv_def started_bound_def
    by (cases r) (auto simp: signing_task_done_def update_local_signing_set_state_def Let_def tracker_of_def
        empty_tracker_def split: if_splits option.splits)
  with SmDone assms show ?thesis
    by (cases r) (simp_all add: signing_task_done_def update_local_signing_set_state_def Let_def sm_inv_def)
next
  case (SmProgress a f)
  have "wm_inv (update_proto a f (sm_work s)) = wm_inv (sm_work s)"
    by (rule wm_inv_cong) simp_all
  with SmProgress assms show ?thesis
    by (simp add: sm_inv_def started_bound_def)
qed

lemma attempt_config: "wm_config (sm_work (snd (attempt_batch x e cv p b f h s))) = wm_config (sm_work s)"
proof -
  obtain r s' where rs: "attempt_batch x e cv p b f h s = (r, s')" by fastforce
  then have "wm_config (sm_work s') = wm_config (sm_work s)"
  proof (cases rule: attempt_batch_cases)
    case (pushed ssid t1 handle w)
    then have "w = snd (push_task h f handle (update_proto (next_protocol s) (\<lambda>_. new_protocol) (sm_work s)))"
      by (metis snd_conv)
    then show ?thesis by (simp add: pushed(6))
  qed simp_all
  with rs show ?thesis by simp
qed

lemma sm_step_config: "wm_config (sm_work (sm_step x e public ev s)) = wm_config (sm_work s)"
proof (cases ev)
  case (SmBlock cv)
  have "wm_config (sm_work (snd (sm_on_block_finalized x e public cv s))) = wm_config (sm_work s)"
    by (rule block_induct) (simp_all add: attempt_config)
  with SmBlock show ?thesis by simp
next
  case (SmDone h ssid r)
  then show ?thesis
    by (cases r) (simp_all add: signing_task_done_def update_local_signing_set_state_def Let_def)
qed (simp_all add: sm_deliver_message_def clear_enqueued_proposal_tasks_def keygen_lock_def keygen_unlock_def split: option.splits)

lemma sm_new_inv: "sm_inv signing_manager_new"
  by (simp add: sm_inv_def signing_manager_new_def work_manager_new_def wm_inv_def started_bound_def)

section \<open>Proposals that are never attempted again\<close>

text \<open>A tracker with attempts but without sets; its sets are never generated again.\<close>

definition stuck :: "hash256 \<Rightarrow> signing_manager \<Rightarrow> bool" where
  "stuck h s \<longleftrightarrow> tracked_sets (tracker_of h s) = [] \<and> ssids_attempted (tracker_of h s) \<noteq> {} \<and>
     65535 \<notin> ssids_attempted (tracker_of h s)"

lemma max_ssid_next: "(n :: u16) \<noteq> 65535 \<Longrightarrow> n + 1 \<noteq> 0"
proof -
  have "- 1 = (65535 :: u16)" by simp
  then show "n \<noteq> 65535 \<Longrightarrow> n + 1 \<noteq> 0"
    using eq_neg_iff_add_eq_0 [of n 1] by metis
qed

lemma stuck_attempt:
  assumes "stuck h s"
  shows "stuck h (snd (attempt_batch x e cv p b f h s))" and "sm_work (snd (attempt_batch x e cv p b f h s)) = sm_work s"
proof -
  let ?t = "tracker_of h s"
  have "Max (ssids_attempted ?t) \<in> ssids_attempted ?t"
    using assms by (intro Max_in) (auto simp: stuck_def)
  then have "Max (ssids_attempted ?t) \<noteq> 65535"
    using assms by (metis stuck_def)
  from max_ssid_next [OF this] have "next_ssid ?t \<noteq> 0"
    using assms by (simp add: next_ssid_def stuck_def)
  with assms have "choose_ssid g ?t = (0, ?t\<lparr>ssids_attempted := {0}\<rparr>)" for g
    by (simp add: choose_ssid_def Let_def stuck_def)
  with assms have "attempt_batch x e cv p b f h s =
      (Ok (), s\<lparr>ssid_history := (ssid_history s)(h \<mapsto> ?t\<lparr>ssids_attempted := {0}\<rparr>)\<rparr>)"
    by (simp add: attempt_batch_def Let_def stuck_def)
  with assms show "stuck h (snd (attempt_batch x e cv p b f h s))" "sm_work (snd (attempt_batch x e cv p b f h s)) = sm_work s"
    by (simp_all add: stuck_def tracker_of_def)
qed

lemma other_attempt:
  assumes "h' \<noteq> h"
  shows "tracker_of h (snd (attempt_batch x e cv p b f h' s)) = tracker_of h s"
    and "job_exists h (sm_work (snd (attempt_batch x e cv p b f h' s))) \<longrightarrow> job_exists h (sm_work s)"
proof -
  obtain r s' where rs: "attempt_batch x e cv p b f h' s = (r, s')" by fastforce
  have "tracker_of h s' = tracker_of h s \<and> (job_exists h (sm_work s') \<longrightarrow> job_exists h (sm_work s))"
    using rs
  proof (cases rule: attempt_batch_cases)
    case idle
    with assms show ?thesis by (simp add: tracker_of_def)
  next
    case (pushed ssid t1 handle w)
    let ?w = "update_proto (next_protocol s) (\<lambda>_. new_protocol) (sm_work s)"
    have "w = snd (push_task h' f handle ?w)"
      using pushed(5) by (metis snd_conv)
    then have "job_exists h w \<longrightarrow> job_exists h ?w"
      using job_exists_push [of h h' f handle ?w] assms by simp
    with assms show ?thesis
      by (simp add: pushed(6) tracker_of_def job_exists_def)
  next
    case panic
    with assms show ?thesis by (simp add: tracker_of_def job_exists_def)
  qed
  with rs show "tracker_of h (snd (attempt_batch x e cv p b f h' s)) = tracker_of h s"
    "job_exists h (sm_work (snd (attempt_batch x e cv p b f h' s))) \<longrightarrow> job_exists h (sm_work s)"
    by simp_all
qed

text \<open>The events that do not report the success of proposal \<open>h\<close>, nor a failure of the last number.\<close>

fun no_success :: "hash256 \<Rightarrow> sm_event \<Rightarrow> bool" where
  "no_success h (SmDone h' ssid r) \<longleftrightarrow> h' = h \<longrightarrow> r \<noteq> Ok () \<and> ssid \<noteq> 65535"
| "no_success h _ \<longleftrightarrow> True"

lemma stuck_block:
  assumes "stuck h s" and "\<not> job_exists h (sm_work s)"
  shows "stuck h (snd (sm_on_block_finalized x e public cv s)) \<and> \<not> job_exists h (sm_work (snd (sm_on_block_finalized x e public cv s)))"
proof (rule block_induct)
  show "stuck h (s\<lparr>ssid_history := (ssid_history s)(h' \<mapsto> tracker_of h' s)\<rparr>) \<and>
      \<not> job_exists h (sm_work (s\<lparr>ssid_history := (ssid_history s)(h' \<mapsto> tracker_of h' s)\<rparr>))"
    if "stuck h s \<and> \<not> job_exists h (sm_work s)" for h' s
    using that by (auto simp: stuck_def tracker_of_update)
  show "stuck h (snd (attempt_batch x e cv p b f h' s')) \<and> \<not> job_exists h (sm_work (snd (attempt_batch x e cv p b f h' s')))"
    if "stuck h s' \<and> \<not> job_exists h (sm_work s')" for p b h' f s'
    using that stuck_attempt [of h s'] other_attempt [of h' h] by (cases "h' = h") (auto simp: stuck_def)
qed (use assms in simp_all)

lemma job_exists_poll:
  assumes "wm_inv w"
  shows "job_exists h (poll now w) \<longrightarrow> job_exists h w"
  by (auto simp: job_exists_def poll_tasks [OF assms] dest: in_set_takeD in_set_dropD)

lemma stuck_step:
  assumes "sm_inv s" and "stuck h s" and "\<not> job_exists h (sm_work s)" and "no_success h ev"
  shows "stuck h (sm_step x e public ev s) \<and> \<not> job_exists h (sm_work (sm_step x e public ev s))"
proof (cases ev)
  case (SmBlock cv)
  with stuck_block [OF assms(2,3)] show ?thesis by simp
next
  case (SmPoll now)
  moreover have "wm_inv (sm_work s)"
    using assms(1) by (simp add: sm_inv_def)
  ultimately show ?thesis
    using assms(2,3) job_exists_poll by (auto simp: stuck_def tracker_of_def)
next
  case (SmDeliver m)
  with assms(2,3) show ?thesis
    by (auto simp: sm_deliver_message_def stuck_def tracker_of_def job_exists_def split: option.splits)
next
  case SmClear
  with assms(2,3) show ?thesis
    by (auto simp: clear_enqueued_proposal_tasks_def clear_enqueued_tasks_def stuck_def tracker_of_def job_exists_def)
next
  case SmLock
  with assms(2,3) show ?thesis by (simp add: keygen_lock_def stuck_def tracker_of_def)
next
  case SmUnlock
  with assms(2,3) show ?thesis by (simp add: keygen_unlock_def stuck_def tracker_of_def)
next
  case (SmDone h' ssid r)
  with assms(2,3,4) show ?thesis
    by (cases r; cases "h' = h")
      (auto simp: signing_task_done_def update_local_signing_set_state_def Let_def stuck_def tracker_of_def)
next
  case (SmProgress a f)
  with assms(2,3) show ?thesis by (simp add: stuck_def tracker_of_def job_exists_def)
qed

lemma stuck_for_ever:
  assumes "sm_inv s" and "stuck h s" and "\<not> job_exists h (sm_work s)" and "list_all (no_success h) evs"
  shows "\<not> job_exists h (sm_work (sm_run x e public evs s))"
proof -
  have "sm_inv (sm_run x e public evs s) \<and> stuck h (sm_run x e public evs s) \<and> \<not> job_exists h (sm_work (sm_run x e public evs s))"
    by (rule sm_run_induct) (use assms sm_step_inv stuck_step in \<open>auto simp: list_all_iff\<close>)
  then show ?thesis by simp
qed


section \<open>Rounds\<close>

text \<open>
  A round at block \<open>n\<close>: the work manager polls, the block is handled, and the work manager polls again.
  The views of a session differ in the number of the block.
\<close>

definition at_block :: "chain_view \<Rightarrow> block_number \<Rightarrow> chain_view" where
  "at_block cv n = cv\<lparr>cv_number := n, cv_latest := n\<rparr>"

definition sm_round :: "ext \<Rightarrow> sampling \<Rightarrow> dkg_id \<Rightarrow> chain_view \<Rightarrow> block_number \<Rightarrow> signing_manager \<Rightarrow> signing_manager" where
  "sm_round x e public cv n s = sm_run x e public [SmPoll n, SmBlock (at_block cv n), SmPoll n] s"

text \<open>The manager before a round: nothing waits, and what runs has stalled.\<close>

definition idle_at :: "block_number \<Rightarrow> signing_manager \<Rightarrow> bool" where
  "idle_at n s \<longleftrightarrow> sm_inv s \<and> \<not> sm_lock s \<and> enqueued_tasks (sm_work s) = [] \<and>
     wm_config (sm_work s) = (1, 20, Interval 500, True) \<and> filter (alive n (sm_work s)) (active_tasks (sm_work s)) = []"

text \<open>The node is party \<open>p\<close>, and the only unsigned batch, with hash \<open>h\<close>, is for a chain.\<close>

definition signing_batch :: "ext \<Rightarrow> dkg_id \<Rightarrow> chain_view \<Rightarrow> u16 \<Rightarrow> stored_unsigned_proposal_batch \<Rightarrow> hash256 \<Rightarrow> bool" where
  "signing_batch x public cv p b h \<longleftrightarrow>
     find_party public (cv_best_authorities cv) = Some p \<and> p \<noteq> 0 \<and> cv_unsigned_proposal_batches cv = Some [b] \<and>
     unsigned_batch_hash x b = Some h \<and> (\<exists>fp more. ub_proposals b = fp # more \<and> up_typed_chain_id fp \<noteq> ChainNone)"

lemma poll_idle:
  assumes "idle_at n s"
  defines "w \<equiv> poll n (sm_work s)"
  shows "active_tasks w = []" and "enqueued_tasks w = []" and "wm_config w = (1, 20, Interval 500, True)" and "wm_inv w"
proof -
  have w: "wm_inv (sm_work s)"
    using assms(1) by (simp add: idle_at_def sm_inv_def)
  show "active_tasks w = []" "enqueued_tasks w = []" "wm_config w = (1, 20, Interval 500, True)" "wm_inv w"
    using assms poll_inv [OF w] by (simp_all add: idle_at_def poll_tasks [OF w])
qed

lemma block_attempts:
  assumes "signing_batch x public cv p b h" and "\<not> sm_lock s" and "active_tasks (sm_work s) = []" and "enqueued_tasks (sm_work s) = []"
    and "max_enqueued_tasks (sm_work s) = 20"
    and "\<And>i. latest_attempt (tracker_of h s) = Some i \<Longrightarrow> i + ucast SIGN_TIMEOUT \<le> ucast n"
  shows "sm_on_block_finalized x e public (at_block cv n) s =
     attempt_batch x e (at_block cv n) p b False h (s\<lparr>ssid_history := (ssid_history s)(h \<mapsto> tracker_of h s)\<rparr>)"
proof -
  let ?s = "s\<lparr>ssid_history := (ssid_history s)(h \<mapsto> tracker_of h s)\<rparr>" and ?cv = "at_block cv n"
  obtain fp more where fp: "ub_proposals b = fp # more" "up_typed_chain_id fp \<noteq> ChainNone" and h: "unsigned_batch_hash x b = Some h"
    using assms(1) by (auto simp: signing_batch_def)
  have gu: "get_unsigned_proposals x ?cv (sm_work s) = Ok ([b], [b])"
    using assms(1,3,4) by (simp add: get_unsigned_proposals_def signing_batch_def at_block_def job_exists_def Let_def)
  have sb: "sign_batch x e ?cv p [b] b False h s = attempt_batch x e ?cv p b False h ?s"
    using h assms(6) by (auto simp: sign_batch_def Let_def at_block_def split: option.splits)
  have "can_submit_more_tasks (sm_work s)"
    using assms(4,5) by (simp add: can_submit_more_tasks_def)
  then have "sign_batches x e ?cv p [b] [b] s = attempt_batch x e ?cv p b False h ?s"
    using fp h by (cases "attempt_batch x e ?cv p b False h ?s"; cases "fst (attempt_batch x e ?cv p b False h ?s)")
      (simp_all add: sb)
  then show ?thesis
    using assms(1,2) gu by (simp add: sm_on_block_finalized_def signing_batch_def get_party_index_def at_block_def
        keygen_party_id_try_from_def)
qed

lemma attempt_size_ok:
  assumes "choose_ssid (view_sets x e cv b) (tracker_of h s) = (ssid, t1)"
    and "cv_signature_threshold cv + 1 = of_nat (length (signing_set (tracked_sets t1 ! unat ssid)))"
  shows "fst (attempt_batch x e cv p b False h s) \<noteq> Panic"
  using assms by (simp add: attempt_batch_def Let_def initialize_signing_protocol_def setup_signing_def push_task_def
      split: prod.splits)

lemma round_effect:
  fixes x e public n s cv b
  defines "s' \<equiv> sm_round x e public cv n s" and "g \<equiv> view_sets x e cv b"
  assumes "signing_batch x public cv p b h" and "idle_at n s"
    and "\<forall>i. latest_attempt (tracker_of h s) = Some i \<longrightarrow> i + ucast SIGN_TIMEOUT \<le> ucast n"
    and "choose_ssid g (tracker_of h s) = (ssid, t1)" and "unat ssid < length (tracked_sets t1)"
    and "cv_signature_threshold cv + 1 = of_nat (length (signing_set (tracked_sets t1 ! unat ssid)))"
  shows "ssid_history s' h = Some (attempted (ucast n) g (tracker_of h s))" and "\<not> sm_lock s'"
    and "enqueued_tasks (sm_work s') = []" and "wm_config (sm_work s') = (1, 20, Interval 500, True)"
    and "\<exists>a. active_tasks (sm_work s') =
           (if p \<in> set (signing_set (tracked_sets t1 ! unat ssid))
            then [\<lparr>task_hash = h, job_handle = set_as_primary (remote_new a n (fst (cv_dkg_pub_key cv)) (ucast n) ssid)\<rparr>] else [])"
proof -
  let ?cv = "at_block cv n"
  define s1 where "s1 = s\<lparr>sm_work := poll n (sm_work s)\<rparr>"
  define s2 where "s2 = s1\<lparr>ssid_history := (ssid_history s1)(h \<mapsto> tracker_of h s1)\<rparr>"
  obtain r s3 where s3: "attempt_batch x e ?cv p b False h s2 = (r, s3)" by fastforce
  note pi = poll_idle [OF assms(4), folded s1_def]
  have tr: "tracker_of h s1 = tracker_of h s" "tracker_of h s2 = tracker_of h s"
    by (simp_all add: s1_def s2_def tracker_of_def)
  have w2: "active_tasks (sm_work s2) = []" "enqueued_tasks (sm_work s2) = []" "wm_config (sm_work s2) = (1, 20, Interval 500, True)"
    using pi by (simp_all add: s1_def s2_def)
  have lock: "\<not> sm_lock s1"
    using assms(4) by (simp add: idle_at_def s1_def)
  have "snd (sm_on_block_finalized x e public ?cv s1) = s3"
    using block_attempts [OF assms(3) lock, where n = n and e = e] pi wm_config_eq(2) [of "sm_work s1"] assms(5) tr(1) s3
    by (simp add: s1_def s2_def wm_config_def)
  then have run: "s' = s3\<lparr>sm_work := poll n (sm_work s3)\<rparr>"
    by (simp add: s'_def sm_round_def sm_run_def s1_def)
  have inv1: "sm_inv s1"
    using sm_step_inv [of s x e public "SmPoll n"] assms(4) by (simp add: idle_at_def s1_def)
  have inv2: "sm_inv s2"
    using inv1 by (auto simp: sm_inv_def s2_def started_bound_def tracker_of_def empty_tracker_def split: if_splits option.splits)
  have inv3: "sm_inv s3"
    using attempt_keeps_inv [OF inv2, of h x e ?cv p b False] w2 s3
    by (simp add: job_exists_def can_submit_more_tasks_def wm_config_def)
  have vs: "view_sets x e ?cv b = g"
    by (simp add: g_def at_block_def)
  have np: "r \<noteq> Panic"
    using attempt_size_ok [of x e ?cv b h s2 ssid t1 p] assms(6,8) s3 tr vs by (simp add: at_block_def)
  have eff: "ssid_history s3 h = Some (attempted (ucast n) g (tracker_of h s)) \<and> sm_lock s3 = sm_lock s2 \<and>
      active_tasks (sm_work s3) = [] \<and> wm_config (sm_work s3) = (1, 20, Interval 500, True) \<and>
      (\<exists>a. enqueued_tasks (sm_work s3) =
         (if p \<in> set (signing_set (tracked_sets t1 ! unat ssid))
          then [\<lparr>task_hash = h, job_handle = set_as_primary (remote_new a n (fst (cv_dkg_pub_key cv)) (ucast n) ssid)\<rparr>] else []))"
    using s3
  proof (cases rule: attempt_batch_cases)
    case idle
    have "p \<notin> set (signing_set (tracked_sets t1 ! unat ssid))"
      using idle(3) assms(6,7) by (simp add: vs tr)
    with idle w2 show ?thesis by (simp add: g_def tr at_block_def)
  next
    case (pushed ssid' t1' handle w)
    have [simp]: "ssid' = ssid" "t1' = t1"
      using pushed(1) assms(6) by (simp_all add: vs tr)
    have "w = snd (push_task h False handle (update_proto (next_protocol s2) (\<lambda>_. new_protocol) (sm_work s2)))"
      using pushed(5) by (metis snd_conv)
    with w2 pushed(3,4) show ?thesis
      by (auto simp: pushed(6) push_task_queued g_def tr at_block_def wm_config_def)
  next
    case panic
    with np show ?thesis by simp
  qed
  have wi: "wm_inv (sm_work s3)"
    using inv3 by (simp add: sm_inv_def)
  have mt: "max_tasks (sm_work s3) = 1"
    using eff by (simp add: wm_config_def)
  show "ssid_history s' h = Some (attempted (ucast n) g (tracker_of h s))"
    using eff run by simp
  show "\<not> sm_lock s'"
    using eff run lock by (simp add: s2_def)
  show "wm_config (sm_work s') = (1, 20, Interval 500, True)"
    using eff run by simp
  show "enqueued_tasks (sm_work s') = []"
    "\<exists>a. active_tasks (sm_work s') =
           (if p \<in> set (signing_set (tracked_sets t1 ! unat ssid))
            then [\<lparr>task_hash = h, job_handle = set_as_primary (remote_new a n (fst (cv_dkg_pub_key cv)) (ucast n) ssid)\<rparr>] else [])"
    using eff mt by (auto simp: run poll_tasks [OF wi])
qed

end
