(* ===== verification/Signing_Properties.thy ===== *)
theory Signing_Properties
  imports Signing_Runs
begin

text \<open>
  The properties of the work manager and of the signing manager of a node.
\<close>

section \<open>Sample data\<close>

definition sample_gadget_ext :: ext where
  "sample_gadget_ext =
     \<lparr>keccak_256 = take 32, secp256k1_ecdsa_recover = (\<lambda>s h. Some (take 64 s)), secp256k1_decompress = (\<lambda>k. None),
      nonce_to_bytes = (\<lambda>n. [0, 0, 0, 0]), nonce_from_bytes = (\<lambda>b. 0), header_resource_id = take 32, header_nonce = (\<lambda>b. 0),
      resource_typed_chain_id = (\<lambda>r. ChainNone), typed_chain_id_from_bytes = (\<lambda>b. ChainNone), proposal_length = (\<lambda>k. 0),
      from_slice = (\<lambda>k b. Inr 0), decode_transaction_v2 = (\<lambda>b. None), u256_as_u32 = (\<lambda>w. None),
      ethabi_encode_array = concat\<rparr>"

definition sample_sampling :: sampling where
  "sample_sampling =
     \<lparr>combinations = (\<lambda>k xs. filter (\<lambda>ys. length ys = k) (subseqs xs)), choose_multiple = (\<lambda>seed n xss. take n xss),
      encode_batch = (\<lambda>b. [])\<rparr>"

lemma sample_sampling_ok: "sampling_ok sample_sampling"
  by (simp add: sampling_ok_def sample_sampling_def)

definition sample_unsigned_batch :: stored_unsigned_proposal_batch where
  "sample_unsigned_batch =
     \<lparr>ub_batch_id = 1, ub_proposals = [\<lparr>up_typed_chain_id = Evm 1, up_key = AnchorUpdateProposal 1,
        up_proposal = UnsignedProposal AnchorUpdate [7]\<rparr>], ub_timestamp = 1\<rparr>"

text \<open>Three best authorities, of which two sign; the node is the first.\<close>

definition sample_view :: chain_view where
  "sample_view =
     \<lparr>cv_number = 1, cv_latest = 1, cv_sets = None, cv_dkg_pub_key = (0, [1]), cv_next_dkg_pub_key = None,
      cv_best_authorities = [(1, [11]), (2, [12]), (3, [13])], cv_next_best_authorities = [],
      cv_signature_threshold = 1, cv_next_signature_threshold = 1,
      cv_unsigned_proposal_batches = Some [sample_unsigned_batch], cv_execute = False, cv_force_execute = False\<rparr>"

lemma sample_hash [simp]: "unsigned_batch_hash sample_gadget_ext sample_unsigned_batch = Some [7]"
  by (simp add: unsigned_batch_hash_def unsigned_batch_data_def sample_gadget_ext_def sample_unsigned_batch_def)

lemma sample_signing_batch: "signing_batch sample_gadget_ext [11] sample_view 1 sample_unsigned_batch [7]"
  by (simp add: signing_batch_def sample_view_def) (simp add: sample_unsigned_batch_def)

lemma sample_sets: "view_sets sample_gadget_ext sample_sampling sample_view sample_unsigned_batch =
    [\<lparr>ps_ssid = 0, locally_started_at = None, signing_set = [1, 2]\<rparr>,
     \<lparr>ps_ssid = 1, locally_started_at = None, signing_set = [1, 3]\<rparr>,
     \<lparr>ps_ssid = 2, locally_started_at = None, signing_set = [2, 3]\<rparr>]"
  by (simp add: generate_signing_sets_def Let_def sample_sampling_def sample_view_def keygen_parties_def
      keygen_party_id_try_from_def upt_rec enumerate_eq_zip)

section \<open>Signing sets\<close>

text \<open>
  The signing sets of a proposal: at most 256, numbered by their position, each with one party
  more than the threshold, all of them different parties with the numbers of best authorities.
\<close>

theorem signing_sets_are_well_formed:
  assumes "sampling_ok e" and "length auths < 65536"
    and "gs = generate_signing_sets x e key bytes auths threshold" and "i < length gs"
  shows "length gs \<le> 256 \<and> ps_ssid (gs ! i) = of_nat i \<and> length (signing_set (gs ! i)) = unat threshold + 1 \<and>
    distinct (signing_set (gs ! i)) \<and> set (signing_set (gs ! i)) \<subseteq> {p. \<exists>r < length auths. p = of_nat r + 1}"
proof -
  have "signing_set (gs ! i) \<in> set (map signing_set gs)"
    using assms(4) by simp
  with generated_sets(2) [OF assms(1)] have
    "signing_set (gs ! i) \<in> set (subseqs (map (\<lambda>r. of_nat r + 1) [0..<length auths]))"
    "length (signing_set (gs ! i)) = unat threshold + 1"
    unfolding assms(3) by (metis (mono_tags, lifting) mem_Collect_eq subsetD)+
  with subseqs_member(2,3) [OF this(1)] party_numbers [OF assms(2)]
    generated_sets(1,3) [OF assms(1), where x = x and key = key and bytes = bytes and auths = auths and threshold = threshold] assms(3,4)
  show ?thesis by auto
qed

theorem signing_sets_are_well_formed_witness:
  "length (view_sets sample_gadget_ext sample_sampling sample_view sample_unsigned_batch) \<le> 256 \<and>
   distinct (signing_set (view_sets sample_gadget_ext sample_sampling sample_view sample_unsigned_batch ! 1)) \<and>
   signing_set (view_sets sample_gadget_ext sample_sampling sample_view sample_unsigned_batch ! 1) = [1, 3]"
  using signing_sets_are_well_formed [OF sample_sampling_ok _ refl, of "keygen_parties (cv_best_authorities sample_view)" 1
      sample_gadget_ext "snd (cv_dkg_pub_key sample_view)" "encode_batch sample_sampling sample_unsigned_batch"
      "cv_signature_threshold sample_view"]
  by (simp add: sample_sets)

section \<open>Attempts\<close>

text \<open>The state after \<open>k + 1\<close> rounds, the last one at block \<open>n\<close>.\<close>

definition took_turn :: "chain_view \<Rightarrow> u16 \<Rightarrow> hash256 \<Rightarrow> proposed_signing_set list \<Rightarrow> nat \<Rightarrow> block_number \<Rightarrow> signing_manager \<Rightarrow> bool" where
  "took_turn cv p h g k n s \<longleftrightarrow>
     (\<exists>t. ssid_history s h = Some t \<and> in_turn g k (ucast n) t) \<and>
     (\<exists>a. active_tasks (sm_work s) =
        (if p \<in> set (signing_set (g ! (k mod length g)))
         then [\<lparr>task_hash = h, job_handle =
                  set_as_primary (remote_new a n (fst (cv_dkg_pub_key cv)) (ucast n) (of_nat (k mod length g)))\<rparr>]
         else [])) \<and>
     enqueued_tasks (sm_work s) = []"

lemma stalls_after_timeout:
  assumes "unat m + 10 \<le> unat n" and "active_tasks w = [] \<or> active_tasks w = [\<lparr>task_hash = h, job_handle = set_as_primary (remote_new a m c d f)\<rparr>]"
  shows "filter (alive n w) (active_tasks w) = []"
proof -
  have "unat m + 10 < 2 ^ 32"
    using assms(1) unat_bound [of n] by simp
  then have "m + SIGN_TIMEOUT \<le> n"
    using assms(1) by (simp add: word_le_nat_alt unat_word_ariths SIGN_TIMEOUT_def)
  with assms(2) show ?thesis
    by (auto simp: alive_def signing_has_stalled_def has_stalled_def set_as_primary_def remote_new_def)
qed

lemma timeout_passed:
  assumes "unat m + 10 \<le> unat n"
  shows "(ucast (m :: block_number) :: u64) + ucast SIGN_TIMEOUT \<le> ucast (n :: block_number)"
  using assms unat_bound [of m] by (simp add: word_le_nat_alt unat_word_ariths SIGN_TIMEOUT_def)

text \<open>The state before round \<open>k\<close> at block \<open>n\<close>.\<close>

definition turn_ready :: "chain_view \<Rightarrow> u16 \<Rightarrow> hash256 \<Rightarrow> proposed_signing_set list \<Rightarrow> nat \<Rightarrow> block_number \<Rightarrow> signing_manager \<Rightarrow> bool" where
  "turn_ready cv p h g k n s \<longleftrightarrow>
     k = 0 \<and> ssid_history s h = None \<and> active_tasks (sm_work s) = [] \<and> enqueued_tasks (sm_work s) = [] \<or>
     (\<exists>j m. k = Suc j \<and> unat m + 10 \<le> unat n \<and> took_turn cv p h g j m s)"

lemma turn_ready_idle:
  assumes "turn_ready cv p h g k n s" and "sm_inv s" and "\<not> sm_lock s" and "wm_config (sm_work s) = (1, 20, Interval 500, True)"
  shows "idle_at n s"
  using assms(1) unfolding turn_ready_def
proof (elim disjE exE conjE)
  fix j m
  assume le: "unat m + 10 \<le> unat n" and tt: "took_turn cv p h g j m s"
  then obtain a where "active_tasks (sm_work s) = [] \<or> active_tasks (sm_work s) =
      [\<lparr>task_hash = h, job_handle = set_as_primary (remote_new a m (fst (cv_dkg_pub_key cv)) (ucast m) (of_nat (j mod length g)))\<rparr>]"
    unfolding took_turn_def by metis
  from stalls_after_timeout [OF le this] tt assms(2-4) show ?thesis
    by (simp add: idle_at_def took_turn_def)
qed (use assms(2-4) in \<open>simp add: idle_at_def\<close>)

lemma turn_ready_choice:
  assumes "turn_ready cv p h g k n s" and "g \<noteq> []" and "length g \<le> 256" and "\<And>i. i < length g \<Longrightarrow> locally_started_at (g ! i) = None"
  shows "in_turn g k (ucast n) (attempted (ucast n) g (tracker_of h s)) \<and>
    (\<forall>i. latest_attempt (tracker_of h s) = Some i \<longrightarrow> i + ucast SIGN_TIMEOUT \<le> ucast n) \<and>
    (\<exists>t1. choose_ssid g (tracker_of h s) = (of_nat (k mod length g), t1) \<and> length (tracked_sets t1) = length g \<and>
       (\<forall>i < length g. signing_set (tracked_sets t1 ! i) = signing_set (g ! i)))"
  using assms(1) unfolding turn_ready_def
proof (elim disjE exE conjE)
  assume k0: "k = 0" and "ssid_history s h = None"
  then have tr: "tracker_of h s = empty_tracker"
    by (simp add: tracker_of_def)
  have "in_turn g 0 (ucast n) (attempted (ucast n) g empty_tracker)"
    by (rule first_attempt_in_turn) (use assms(2,4) in auto)
  moreover have "latest_attempt empty_tracker = None"
    by (simp add: latest_attempt_None empty_tracker_def)
  moreover have "choose_ssid g empty_tracker = (0, empty_tracker\<lparr>tracked_sets := g, ssids_attempted := upto_ssid 0\<rparr>)"
    by (rule choose_first) (use assms(2) in \<open>simp_all add: empty_tracker_def\<close>)
  ultimately show ?thesis
    by (simp add: tr k0)
next
  fix j m
  assume kj: "k = Suc j" and le: "unat m + 10 \<le> unat n" and "took_turn cv p h g j m s"
  then obtain t where it: "in_turn g j (ucast m) t" and tr: "tracker_of h s = t"
    by (auto simp: took_turn_def tracker_of_def)
  have "ucast m \<le> (ucast n :: u64)"
    using le by (simp add: word_le_nat_alt)
  from next_attempt_in_turn [OF it assms(2,3) this, of g] in_turn_latest [OF it assms(2)] timeout_passed [OF le]
    choose_next [of t "j mod length g" g] it assms(2,3)
  show ?thesis
    by (simp add: tr kj in_turn_def mod_Suc_eq)
qed

lemma round_takes_turn:
  assumes "sampling_ok e" and "signing_batch x public cv p b h" and "g = view_sets x e cv b" and "g \<noteq> []"
    and "turn_ready cv p h g k n s"
    and "sm_inv s" and "\<not> sm_lock s" and "wm_config (sm_work s) = (1, 20, Interval 500, True)"
  shows "took_turn cv p h g k n (sm_round x e public cv n s) \<and> \<not> sm_lock (sm_round x e public cv n s) \<and>
    wm_config (sm_work (sm_round x e public cv n s)) = (1, 20, Interval 500, True)"
proof -
  let ?k = "k mod length g"
  note gen = generated_sets [OF assms(1), where x = x and key = "snd (cv_dkg_pub_key cv)" and bytes = "encode_batch e b"
      and auths = "keygen_parties (cv_best_authorities cv)" and threshold = "cv_signature_threshold cv", folded assms(3)]
  have k: "?k < length g"
    using assms(4) by simp
  then have uk: "unat (of_nat ?k :: u16) = ?k"
    using gen(1) by (simp add: unat_of_nat)
  note choice = turn_ready_choice [OF assms(5,4) gen(1) gen(3) [THEN conjunct2]]
  obtain t1 where t1: "choose_ssid g (tracker_of h s) = (of_nat ?k, t1)" "length (tracked_sets t1) = length g"
    "\<forall>i < length g. signing_set (tracked_sets t1 ! i) = signing_set (g ! i)"
    using choice by blast
  have "signing_set (g ! ?k) \<in> set (map signing_set g)"
    using k by simp
  with gen(2) have "length (signing_set (g ! ?k)) = unat (cv_signature_threshold cv) + 1" by blast
  then have size: "cv_signature_threshold cv + 1 = of_nat (length (signing_set (tracked_sets t1 ! unat (of_nat ?k :: u16))))"
    using t1(3) k uk by simp
  have "unat (of_nat ?k :: u16) < length (tracked_sets t1)"
    using k uk t1(2) by simp
  note eff = round_effect [where x = x and e = e and cv = cv and b = b, folded assms(3),
      OF assms(2) turn_ready_idle [OF assms(5-8)] choice [THEN conjunct2, THEN conjunct1] t1(1) this size]
  show ?thesis
    unfolding took_turn_def using eff choice t1(3) k uk by simp
qed

lemma turn_run:
  fixes ns
  assumes "sampling_ok e" and "signing_batch x public cv p b h" and "view_sets x e cv b \<noteq> []"
    and "sorted_wrt (\<lambda>m n. unat m + 10 \<le> unat n) ns" and "k < length ns"
  shows "took_turn cv p h (view_sets x e cv b) k (ns ! k) (fold (sm_round x e public cv) (take (Suc k) ns) signing_manager_new)"
    and "sm_inv (fold (sm_round x e public cv) (take (Suc k) ns) signing_manager_new)"
    and "\<not> sm_lock (fold (sm_round x e public cv) (take (Suc k) ns) signing_manager_new)"
    and "wm_config (sm_work (fold (sm_round x e public cv) (take (Suc k) ns) signing_manager_new)) = (1, 20, Interval 500, True)"
proof -
  let ?g = "view_sets x e cv b" and ?S = "\<lambda>k. fold (sm_round x e public cv) (take k ns) signing_manager_new"
  have inv: "sm_inv (?S i)" for i
    by (rule fold_invariant [where Q = "\<lambda>_. True"])
      (simp_all add: sm_new_inv sm_round_def sm_run_def sm_step_inv del: sm_step.simps)
  have "took_turn cv p h ?g k (ns ! k) (?S (Suc k)) \<and> \<not> sm_lock (?S (Suc k)) \<and>
      wm_config (sm_work (?S (Suc k))) = (1, 20, Interval 500, True)"
    using assms(5)
  proof (induction k)
    case 0
    have "turn_ready cv p h ?g 0 (ns ! 0) signing_manager_new"
      by (simp add: turn_ready_def signing_manager_new_def work_manager_new_def)
    from round_takes_turn [OF assms(1,2) refl assms(3) this sm_new_inv] 0 show ?case
      by (simp add: take_Suc_conv_app_nth signing_manager_new_def work_manager_new_def wm_config_def SM_MAX_RUNNING_TASKS_def
          SM_MAX_ENQUEUED_TASKS_def JOB_POLL_INTERVAL_IN_MILLISECONDS_def)
  next
    case (Suc k)
    then have ih: "took_turn cv p h ?g k (ns ! k) (?S (Suc k))" "\<not> sm_lock (?S (Suc k))"
      "wm_config (sm_work (?S (Suc k))) = (1, 20, Interval 500, True)" by simp_all
    have "unat (ns ! k) + 10 \<le> unat (ns ! Suc k)"
      using sorted_wrt_nth_less [OF assms(4), of k "Suc k"] Suc.prems by simp
    with ih(1) have "turn_ready cv p h ?g (Suc k) (ns ! Suc k) (?S (Suc k))"
      by (auto simp: turn_ready_def)
    from round_takes_turn [OF assms(1,2) refl assms(3) this inv ih(2,3)] Suc.prems show ?case
      by (simp add: take_Suc_conv_app_nth)
  qed
  with inv [of "Suc k"] show "took_turn cv p h ?g k (ns ! k) (?S (Suc k))" "sm_inv (?S (Suc k))" "\<not> sm_lock (?S (Suc k))"
    "wm_config (sm_work (?S (Suc k))) = (1, 20, Interval 500, True)" by blast+
qed


text \<open>
  C23. Every signing set gets its turn. While a batch for a chain is the only unsigned one of a session and
  nobody signs it, the node, once per block given at least ten blocks apart, ends the stalled attempt
  and makes the next: at the \<open>k\<close>-th of these blocks it marks set \<open>k\<close> modulo the number of sets
  as started, and precisely if it belongs to that set the one job that runs is the signing of
  this batch with that set. So the sets are tried in turn, all of them, by every node alike.
\<close>

theorem signing_sets_take_turns:
  assumes "sampling_ok e" and "signing_batch x public cv p b h" and "view_sets x e cv b \<noteq> []"
    and "sorted_wrt (\<lambda>m n. unat m + 10 \<le> unat n) ns" and "k < length ns"
  shows "took_turn cv p h (view_sets x e cv b) k (ns ! k) (fold (sm_round x e public cv) (take (Suc k) ns) signing_manager_new)"
  by (rule turn_run(1) [OF assms])

lemma sample_spacing: "sorted_wrt (\<lambda>m n. unat m + 10 \<le> unat n) [1, 11, 30, 45 :: block_number]"
  by simp

theorem signing_sets_take_turns_witness:
  "took_turn sample_view 1 [7] (view_sets sample_gadget_ext sample_sampling sample_view sample_unsigned_batch) 3 45
     (fold (sm_round sample_gadget_ext sample_sampling [11] sample_view) [1, 11, 30, 45] signing_manager_new)"
  using signing_sets_take_turns [OF sample_sampling_ok sample_signing_batch _ sample_spacing, of 3]
  by (simp add: sample_sets)

text \<open>
  The sets of a proposal outlive the threshold they were made for. When the threshold of the chain has
  changed between two attempts, the next attempt whose set contains the node fails the assertion on
  the size of the signing set, and the node panics.
\<close>

theorem threshold_change_panics:
  assumes "sampling_ok e" and "signing_batch x public cv p b h" and "view_sets x e cv b \<noteq> []"
    and "sorted_wrt (\<lambda>m n. unat m + 10 \<le> unat n) ns" and "k < length ns"
    and "s = fold (sm_round x e public cv) (take (Suc k) ns) signing_manager_new"
    and "signing_batch x public cv' p b h" and "cv_signature_threshold cv' \<noteq> cv_signature_threshold cv"
    and "p \<in> set (signing_set (view_sets x e cv b ! (Suc k mod length (view_sets x e cv b))))" and "unat (ns ! k) + 10 \<le> unat n"
  shows "fst (sm_on_block_finalized x e public (at_block cv' n) (sm_step x e public (SmPoll n) s)) = Panic"
proof -
  let ?g = "view_sets x e cv b" and ?k = "Suc k mod length (view_sets x e cv b)"
  note run = turn_run [OF assms(1-5), folded assms(6)]
  note gen = generated_sets [OF assms(1), where x = x and key = "snd (cv_dkg_pub_key cv)" and bytes = "encode_batch e b"
      and auths = "keygen_parties (cv_best_authorities cv)" and threshold = "cv_signature_threshold cv"]
  define s1 where "s1 = sm_step x e public (SmPoll n) s"
  define s2 where "s2 = s1\<lparr>ssid_history := (ssid_history s1)(h \<mapsto> tracker_of h s1)\<rparr>"
  have ready: "turn_ready cv p h ?g (Suc k) n s"
    using run(1) assms(10) by (auto simp: turn_ready_def)
  note pi = poll_idle [OF turn_ready_idle [OF ready run(2-4)]]
  note choice = turn_ready_choice [OF ready assms(3) gen(1) gen(3) [THEN conjunct2]]
  have tr: "tracker_of h s1 = tracker_of h s" "tracker_of h s2 = tracker_of h s"
    by (simp_all add: s1_def s2_def tracker_of_def)
  have k: "?k < length ?g"
    using assms(3) by simp
  then have uk: "unat (of_nat ?k :: u16) = ?k"
    using gen(1) by (simp add: unat_of_nat)
  obtain t where t: "tracker_of h s = t" "in_turn ?g k (ucast (ns ! k)) t"
    using run(1) by (auto simp: took_turn_def tracker_of_def)
  have ch: "choose_ssid g' t = (of_nat ?k, t\<lparr>ssids_attempted := upto_ssid ?k\<rparr>)" for g'
    using choose_next [of t "k mod length ?g" g'] t(2) assms(3) gen(1) by (simp add: in_turn_def mod_Suc_eq)
  have sets: "length (tracked_sets t) = length ?g" "signing_set (tracked_sets t ! ?k) = signing_set (?g ! ?k)"
    using t(2) k by (auto simp: in_turn_def)
  have "signing_set (?g ! ?k) \<in> set (map signing_set ?g)"
    using k by simp
  with gen(2) have "length (signing_set (?g ! ?k)) = unat (cv_signature_threshold cv) + 1" by blast
  then have "cv_signature_threshold cv' + 1 \<noteq> of_nat (length (signing_set (tracked_sets t ! ?k)))"
    using sets(2) assms(8) by simp
  then have "fst (attempt_batch x e (at_block cv' n) p b False h s2) = Panic"
    by (intro attempt_batch_panics [of x e "at_block cv' n" b h s2 "of_nat ?k" "t\<lparr>ssids_attempted := upto_ssid ?k\<rparr>"])
      (use ch tr t k uk sets assms(9) in \<open>simp_all add: at_block_def\<close>)
  moreover have "\<And>i. latest_attempt (tracker_of h s1) = Some i \<Longrightarrow> i + ucast SIGN_TIMEOUT \<le> ucast n"
    using choice tr(1) by simp
  ultimately show ?thesis
    using block_attempts [OF assms(7), of s1 n e] pi run(3) unfolding s1_def [symmetric] s2_def
    by (simp add: s1_def wm_config_def)
qed


theorem threshold_change_panics_witness:
  "fst (sm_on_block_finalized sample_gadget_ext sample_sampling [11]
     (at_block (sample_view\<lparr>cv_signature_threshold := 2\<rparr>) 11)
     (sm_step sample_gadget_ext sample_sampling [11] (SmPoll 11)
       (fold (sm_round sample_gadget_ext sample_sampling [11] sample_view) [1] signing_manager_new))) = Panic"
  using threshold_change_panics [OF sample_sampling_ok sample_signing_batch _ sample_spacing, of 0 _
      "sample_view\<lparr>cv_signature_threshold := 2\<rparr>" 11] sample_signing_batch
  by (simp add: sample_sets signing_batch_def) (simp add: sample_view_def)

text \<open>
  A failure that is reported after the success of the same proposal, by an attempt that was already
  replaced, leaves a history without signing sets: whatever happens afterwards, short of another
  success, the node never signs the proposal again, even if it stays on the chain.
\<close>

theorem late_failure_blocks_a_proposal:
  assumes "s = sm_run x e public before signing_manager_new" and "\<not> job_exists h (sm_work s)" and "late \<noteq> 65535"
    and "list_all (no_success h) after"
  shows "\<not> job_exists h (sm_work (sm_run x e public after
           (sm_run x e public [SmDone h ssid (Ok ()), SmDone h late (Err er)] s)))"
proof (rule stuck_for_ever)
  let ?s = "sm_run x e public [SmDone h ssid (Ok ()), SmDone h late (Err er)] s"
  have inv: "sm_inv s"
    unfolding assms(1) by (rule sm_run_induct) (use sm_new_inv sm_step_inv in auto)
  show "sm_inv ?s"
    by (rule sm_run_induct) (use inv sm_step_inv in auto)
  show "stuck h ?s"
    using assms(3) by (simp add: sm_run_def signing_task_done_def update_local_signing_set_state_def stuck_def
        tracker_of_def empty_tracker_def Let_def)
  show "\<not> job_exists h (sm_work ?s)"
    using assms(2) by (simp add: sm_run_def signing_task_done_def update_local_signing_set_state_def Let_def)
qed (fact assms(4))

theorem late_failure_blocks_a_proposal_witness:
  "\<not> job_exists [7] (sm_work (sm_run sample_gadget_ext sample_sampling [11] [SmBlock sample_view, SmBlock (at_block sample_view 20)]
     (sm_run sample_gadget_ext sample_sampling [11] [SmDone [7] 1 (Ok ()), SmDone [7] 0 (Err CannotSign)] signing_manager_new)))"
  by (rule late_failure_blocks_a_proposal [where before = "[]"])
    (simp_all add: sm_run_def job_exists_def signing_manager_new_def work_manager_new_def)

section \<open>The invariant\<close>

text \<open>
  C24. In every state the signing manager reaches, through blocks, polls, messages, results of its tasks and the
  progress of its protocols, no proposal has two jobs, no two jobs share a protocol, and at most twenty
  jobs wait.
\<close>

theorem signing_jobs_are_unique:
  assumes "s = sm_run x e public evs signing_manager_new"
  shows "distinct (map task_hash (active_tasks (sm_work s) @ enqueued_tasks (sm_work s))) \<and>
    distinct (map (\<lambda>j. protocol (job_handle j)) (active_tasks (sm_work s) @ enqueued_tasks (sm_work s))) \<and>
    length (enqueued_tasks (sm_work s)) \<le> 20"
proof -
  have "sm_inv s \<and> wm_config (sm_work s) = wm_config (sm_work signing_manager_new)"
    unfolding assms by (rule sm_run_induct) (use sm_new_inv sm_step_inv sm_step_config in auto)
  then show ?thesis
    by (simp add: sm_inv_def wm_inv_def wm_config_def signing_manager_new_def work_manager_new_def SM_MAX_ENQUEUED_TASKS_def)
qed

theorem signing_jobs_are_unique_witness:
  "distinct (map task_hash
     (active_tasks (sm_work (sm_run sample_gadget_ext sample_sampling [11] [SmBlock sample_view, SmPoll 1] signing_manager_new)) @
      enqueued_tasks (sm_work (sm_run sample_gadget_ext sample_sampling [11] [SmBlock sample_view, SmPoll 1] signing_manager_new))))"
  using signing_jobs_are_unique [OF refl, of sample_gadget_ext sample_sampling "[11]" "[SmBlock sample_view, SmPoll 1]"] by blast

section \<open>The work manager\<close>

text \<open>
  What a poll does, exactly, in every state a work manager reaches. The jobs that are neither stalled nor
  done stay; the others leave, are ended and never run again as active, and a stalled one whose task
  still listens is told that it stalled. The free places go to the waiting jobs in the order in
  which they came, no more jobs run than may, and as many wait as there is no place for.
\<close>

theorem poll_is_exact:
  assumes "wm_reachable w" and "kept = filter (\<lambda>j. \<not> signing_has_stalled (proto_of w j) (job_handle j) now \<and> \<not> is_done (proto_of w j)) (active_tasks w)"
  shows "active_tasks (poll now w) = kept @ take (max_tasks w - length kept) (enqueued_tasks w) \<and>
    enqueued_tasks (poll now w) = drop (max_tasks w - length kept) (enqueued_tasks w) \<and>
    spawned (poll now w) = spawned w @ map (\<lambda>j. protocol (job_handle j)) (take (max_tasks w - length kept) (enqueued_tasks w)) \<and>
    length (active_tasks (poll now w)) \<le> max_tasks w \<and>
    (\<forall>j \<in> set (active_tasks w). if j \<in> set kept then proto_of (poll now w) j = proto_of w j
       else is_done (proto_of (poll now w) j) \<and>
         (signing_has_stalled (proto_of w j) (job_handle j) now \<and> stop_tx (proto_of w j) \<and> stop_rx_open (proto_of w j)
          \<longrightarrow> stop_signal (proto_of (poll now w) j) = Some Stalled))"
proof -
  note inv = wm_reachable_inv [OF assms(1)]
  have kept: "kept = filter (alive now w) (active_tasks w)"
    unfolding assms(2) by (rule filter_cong) (simp_all add: alive_def)
  have len: "length kept \<le> max_tasks w"
    using inv(2) length_filter_le [of "alive now w" "active_tasks w"] unfolding kept by linarith
  have jobs: "if j \<in> set kept then proto_of (poll now w) j = proto_of w j
       else is_done (proto_of (poll now w) j) \<and>
         (signing_has_stalled (proto_of w j) (job_handle j) now \<and> stop_tx (proto_of w j) \<and> stop_rx_open (proto_of w j)
          \<longrightarrow> stop_signal (proto_of (poll now w) j) = Some Stalled)" if j: "j \<in> set (active_tasks w)" for j
  proof -
    have "is_primary_remote (job_handle j)"
      using inv(1) j by (simp add: wm_inv_def)
    from ended_status [OF this, of now w] ended_signal [of w j now] poll_ended [OF inv(1) j, of now] j show ?thesis
      by (simp add: kept is_done_def is_terminated_def is_completed_def)
  qed
  show ?thesis
    using poll_tasks [OF inv(1), of now, folded kept] len jobs by simp
qed

definition sample_handle :: "nat \<Rightarrow> block_number \<Rightarrow> remote" where
  "sample_handle a n = remote_new a n 3 (ucast n) 0"

text \<open>Two jobs, pushed and polled: the first runs, the second waits.\<close>

definition sample_work :: work_manager where
  "sample_work = poll 1 (snd (push_task [2] False (sample_handle 1 1) (snd (push_task [1] False (sample_handle 0 1)
     (work_manager_new (\<lambda>_. new_protocol) 1 20 Manual)))))"

lemma sample_work_eq:
  "sample_work = (work_manager_new ((\<lambda>_. new_protocol)(0 := new_protocol\<lparr>start_tx := False, start_signal := True\<rparr>)) 1 20 Manual)
     \<lparr>active_tasks := [\<lparr>task_hash = [1], job_handle = set_as_primary (sample_handle 0 1)\<rparr>],
      enqueued_tasks := [\<lparr>task_hash = [2], job_handle = set_as_primary (sample_handle 1 1)\<rparr>], spawned := [0]\<rparr>"
  by (simp add: sample_work_def push_task_def Let_def work_manager_new_def poll_def start_job_unconditional_def sample_handle_def
      remote_new_def set_as_primary_def remote_start_def new_protocol_def update_proto_def prune_messages_def fun_upd_def)

lemma sample_work_reachable: "wm_reachable sample_work"
proof -
  let ?w0 = "work_manager_new (\<lambda>_. new_protocol) 1 20 Manual"
  let ?w1 = "snd (push_task [1] False (sample_handle 0 1) ?w0)"
  have "wm_reachable ?w1"
    by (rule wm_next [OF wm_start], rule wm_push) (simp_all add: job_exists_def work_manager_new_def)
  then have "wm_reachable (snd (push_task [2] False (sample_handle 1 1) ?w1))"
    by (rule wm_next, intro wm_push)
      (simp_all add: job_exists_def work_manager_new_def push_task_def sample_handle_def remote_new_def set_as_primary_def)
  then show ?thesis
    unfolding sample_work_def by (rule wm_next [OF _ wm_poll])
qed

theorem poll_is_exact_witness:
  "map task_hash (active_tasks (poll 11 sample_work)) = [[2]] \<and> enqueued_tasks (poll 11 sample_work) = []"
proof -
  have kept: "filter (\<lambda>j. \<not> signing_has_stalled (proto_of sample_work j) (job_handle j) 11 \<and> \<not> is_done (proto_of sample_work j))
      (active_tasks sample_work) = []"
    by (simp add: sample_work_eq signing_has_stalled_def has_stalled_def sample_handle_def remote_new_def set_as_primary_def SIGN_TIMEOUT_def)
  show ?thesis
    using poll_is_exact [OF sample_work_reachable kept [symmetric]] by (simp add: sample_work_eq work_manager_new_def)
qed

text \<open>
  No message is lost because it came early. A message for a job the node does not have yet is kept; when the
  job is then pushed with a new protocol and there is a place for it, the next poll runs the job and
  its protocol has the message.
\<close>

theorem early_messages_reach_their_job:
  assumes "wm_reachable w" and "\<not> job_exists h w"
    and "protocol handle \<notin> (\<lambda>j. protocol (job_handle j)) ` set (active_tasks w @ enqueued_tasks w)" and "protos w (protocol handle) = new_protocol"
    and "length (enqueued_tasks w) + length (active_tasks w) < max_tasks w"
    and "j = \<lparr>task_hash = h, job_handle = set_as_primary handle\<rparr>" and "should_deliver j m h"
    and "w' = poll now (snd (push_task h False handle (deliver_message m h w)))"
  shows "j \<in> set (active_tasks w') \<and> m \<in> set (rx_voting (proto_of w' j)) \<union> set (rx_keygen_signing (proto_of w' j))"
proof -
  have "length (enqueued_tasks w) < max_tasks w - length (filter (alive now w) (active_tasks w))"
    using assms(5) length_filter_le [of "alive now w" "active_tasks w"] by linarith
  from early_message_delivered [OF wm_reachable_inv(1) [OF assms(1)] assms(2-4) this assms(7) [unfolded assms(6)]]
  show ?thesis
    by (simp add: assms(6,8) inbox_def)
qed


definition sample_offline_message :: signed_dkg_message where
  "sample_offline_message =
     \<lparr>sd_msg = \<lparr>sender_id = [11], recipient_id = None, msg_payload = OfflinePayload
        \<lparr>om_key = [], om_signer_set_id = 1, offline_msg = [5], om_proposal_hash = [1]\<rparr>,
        msg_session_id = 3, msg_block_id = 4, msg_ssid = 0\<rparr>, sd_signature = None\<rparr>"

theorem early_messages_reach_their_job_witness:
  "sample_offline_message \<in> set (rx_keygen_signing (protos (poll 2 (snd (push_task [1] False (sample_handle 0 2)
     (deliver_message sample_offline_message [1] (work_manager_new (\<lambda>_. new_protocol) 1 20 Manual))))) 0))"
proof -
  let ?w = "work_manager_new (\<lambda>_. new_protocol) 1 20 Manual"
  let ?w' = "poll 2 (snd (push_task [1] False (sample_handle 0 2) (deliver_message sample_offline_message [1] ?w)))"
  have "should_deliver \<lparr>task_hash = [1], job_handle = set_as_primary (sample_handle 0 2)\<rparr> sample_offline_message [1]"
    by (simp add: should_deliver_def sample_offline_message_def sample_handle_def remote_new_def set_as_primary_def acceptable_distance)
  from early_messages_reach_their_job [OF wm_start _ _ _ _ refl this refl, of "\<lambda>_. new_protocol" 1 20 Manual 2]
  have "sample_offline_message \<in> set (rx_voting (protos ?w' 0)) \<union> set (rx_keygen_signing (protos ?w' 0))"
    by (simp add: job_exists_def work_manager_new_def sample_handle_def remote_new_def)
  moreover have "rx_voting (protos ?w' 0) = []"
    by (simp add: push_task_def Let_def work_manager_new_def poll_def start_job_unconditional_def sample_handle_def
        remote_new_def set_as_primary_def remote_start_def new_protocol_def update_proto_def deliver_message_def
        store_message_def sample_offline_message_def remote_deliver_message_def)
  ultimately show ?thesis by simp
qed

end
