(* ===== verification/Keygen_Manager.thy ===== *)
theory Keygen_Manager
  imports Signing_Manager
begin

text \<open>
  The keygen manager of a node (\<open>dkg-gadget/src/keygen_manager/mod.rs\<close>) and the setup of the ECDSA
  key generation (\<open>dkg_modules/mp_ecdsa.rs\<close>, \<open>async_protocols/ecdsa/keygen/handler.rs\<close>). A key
  generation locks and unlocks the signing manager, so the operations act on both managers.
\<close>

section \<open>State\<close>

datatype keygen_state =
    Uninitialized
  | RunningKeygen
  | RunningGenesisKeygen
  | KeygenCompleted u64
  | KeygenFailed u64

datatype keygen_round = GenesisRound | NextRound

record keygen_manager =
  km_work :: work_manager
  active_keygen_retry_id :: u64
  keygen_state_of :: keygen_state
  latest_executed_session_id :: "u64 option"
  finished_count :: u64
  km_next_protocol :: nat
  km_reported :: "dkg_error list"

record managers =
  keygen :: keygen_manager
  signing :: signing_manager

definition GENESIS_AUTHORITY_SET_ID :: u64 where
  "GENESIS_AUTHORITY_SET_ID = 0"

definition KM_MAX_RUNNING_TASKS :: nat where
  "KM_MAX_RUNNING_TASKS = 1"

definition KM_MAX_ENQUEUED_TASKS :: nat where
  "KM_MAX_ENQUEUED_TASKS = 0"

definition keygen_manager_new :: keygen_manager where
  "keygen_manager_new =
     \<lparr>km_work = work_manager_new (\<lambda>_. new_protocol) KM_MAX_RUNNING_TASKS KM_MAX_ENQUEUED_TASKS Manual,
      active_keygen_retry_id = 0, keygen_state_of = Uninitialized, latest_executed_session_id = None,
      finished_count = 0, km_next_protocol = 0, km_reported = []\<rparr>"

definition get_keygen_protocol_hash :: "ext \<Rightarrow> u64 \<Rightarrow> u64 \<Rightarrow> hash256" where
  "get_keygen_protocol_hash x session retry_id = keccak_256 x (to_be_bytes session @ to_be_bytes retry_id)"

definition km_deliver_message :: "signed_dkg_message \<Rightarrow> keygen_manager \<Rightarrow> (dkg_error, unit) result \<times> keygen_manager" where
  "km_deliver_message m k =
     (case keygen_protocol_hash (msg_payload (sd_msg m)) of
        None \<Rightarrow> (Panic, k)
      | Some h \<Rightarrow> (Ok (), k\<lparr>km_work := deliver_message m h (km_work k)\<rparr>))"

definition session_id_of_active_keygen :: "block_number \<Rightarrow> keygen_manager \<Rightarrow> job_metadata option" where
  "session_id_of_active_keygen now k =
     (case get_active_sessions_metadata now (km_work k) of [] \<Rightarrow> None | ms \<Rightarrow> Some (last ms))"

definition set_keygen_state :: "keygen_state \<Rightarrow> keygen_manager \<Rightarrow> keygen_manager" where
  "set_keygen_state st k = k\<lparr>keygen_state_of := st\<rparr>"

section \<open>Starting a key generation\<close>

text \<open>
  A new handle has both of its receivers, so its setup succeeds. The task of the protocol is the outcome
  of a later section.
\<close>

definition initialize_keygen_protocol :: "chain_view \<Rightarrow> u64 \<Rightarrow> keygen_manager \<Rightarrow> remote option \<times> keygen_manager" where
  "initialize_keygen_protocol cv session k =
     (let a = km_next_protocol k;
          handle = remote_new a (cv_latest cv) session (ucast (cv_number cv)) 0
      in (Some handle, k\<lparr>km_next_protocol := Suc a, km_work := update_proto a (\<lambda>_. new_protocol) (km_work k)\<rparr>))"

definition km_push_task :: "ext \<Rightarrow> block_number \<Rightarrow> remote \<Rightarrow> keygen_manager \<Rightarrow> (dkg_error, unit) result \<times> keygen_manager" where
  "km_push_task x now handle k =
     (case push_task (get_keygen_protocol_hash x (remote_session_id handle) (active_keygen_retry_id k)) False handle (km_work k) of
        (Ok _, w) \<Rightarrow> (Ok (), k\<lparr>km_work := poll now w\<rparr>)
      | (Err er, w) \<Rightarrow> (Err er, k\<lparr>km_work := w\<rparr>)
      | (Panic, w) \<Rightarrow> (Panic, k\<lparr>km_work := w\<rparr>))"

definition start_keygen :: "ext \<Rightarrow> keygen_round \<Rightarrow> chain_view \<Rightarrow> u64 \<Rightarrow> managers \<Rightarrow> managers" where
  "start_keygen x stage cv session n =
     (let n1 = (if cv_force_execute cv then n\<lparr>signing := clear_enqueued_proposal_tasks (signing n)\<rparr> else n)
      in case initialize_keygen_protocol cv session (keygen n1) of
           (None, k) \<Rightarrow> n1\<lparr>keygen := k\<rparr>
         | (Some handle, k) \<Rightarrow>
             (let k1 = (if cv_force_execute cv then k\<lparr>km_work := force_shutdown_all (km_work k)\<rparr> else k);
                  s1 = keygen_lock (signing n1)
              in case km_push_task x (cv_latest cv) handle k1 of
                   (Ok _, k2) \<Rightarrow>
                     n1\<lparr>signing := s1, keygen :=
                       (set_keygen_state (if stage = GenesisRound then RunningGenesisKeygen else RunningKeygen) k2)
                         \<lparr>latest_executed_session_id := Some session\<rparr>\<rparr>
                 | (Err er, k2) \<Rightarrow> n1\<lparr>signing := s1, keygen := k2\<lparr>km_reported := km_reported k2 @ [er]\<rparr>\<rparr>
                 | (Panic, k2) \<Rightarrow> n1\<lparr>signing := s1, keygen := k2\<rparr>))"

text \<open>\<open>public\<close> is the key of the node, \<open>cv\<close> its view of the chain.\<close>

definition maybe_start_keygen_for_stage :: "ext \<Rightarrow> dkg_id \<Rightarrow> keygen_round \<Rightarrow> chain_view \<Rightarrow> managers \<Rightarrow> managers" where
  "maybe_start_keygen_for_stage x public stage cv n =
     (case cv_sets cv of
        None \<Rightarrow> n
      | Some (active, queued) \<Rightarrow>
          let session = set_id (if stage = GenesisRound then active else queued)
          in if stage \<noteq> GenesisRound \<and> \<not> cv_execute cv \<and> \<not> cv_force_execute cv then n
             else if stage \<noteq> GenesisRound \<and> cv_next_dkg_pub_key cv \<noteq> None \<and> \<not> cv_force_execute cv then n
             else if stage = GenesisRound \<and> \<not> dkg_pub_key_is_unset cv then n
             else case (if stage = GenesisRound then get_party_index public cv else get_next_party_index public cv) of
                    None \<Rightarrow> n
                  | Some party_index \<Rightarrow>
                      (case keygen_party_id_try_from party_index of
                         Ok party_i \<Rightarrow> start_keygen x stage cv session n
                       | _ \<Rightarrow> n))"

section \<open>A finalized block\<close>

text \<open>The flag says that nothing more is to be done at this block.\<close>

definition pre_checks ::
  "ext \<Rightarrow> dkg_id \<Rightarrow> u64 \<Rightarrow> keygen_state \<Rightarrow> chain_view \<Rightarrow> job_metadata option \<Rightarrow> managers \<Rightarrow> bool \<times> managers" where
  "pre_checks x public session st cv current_protocol n =
     (if cv_force_execute cv
      then (True, maybe_start_keygen_for_stage x public
              (if session = GENESIS_AUTHORITY_SET_ID \<and> finished_count (keygen n) = 0 then GenesisRound else NextRound) cv n)
      else if session = GENESIS_AUTHORITY_SET_ID \<and> st = KeygenFailed 0 \<and> dkg_pub_key_is_unset cv
      then (True, maybe_start_keygen_for_stage x public GenesisRound cv n)
      else case current_protocol of
             Some p \<Rightarrow> (jm_is_active p \<and> \<not> jm_is_stalled p, n)
           | None \<Rightarrow> (False, n))"

definition genesis_checks :: "ext \<Rightarrow> dkg_id \<Rightarrow> keygen_state \<Rightarrow> chain_view \<Rightarrow> managers \<Rightarrow> managers" where
  "genesis_checks x public st cv n =
     (if st = Uninitialized then maybe_start_keygen_for_stage x public GenesisRound cv n
      else if st = RunningGenesisKeygen then n
      else if st = RunningKeygen then n
      else if st = KeygenCompleted 0 then maybe_start_keygen_for_stage x public NextRound cv n
      else if st = KeygenFailed 1 then maybe_start_keygen_for_stage x public NextRound cv n
      else n)"

definition next_checks :: "ext \<Rightarrow> dkg_id \<Rightarrow> keygen_state \<Rightarrow> chain_view \<Rightarrow> managers \<Rightarrow> managers" where
  "next_checks x public st cv n =
     (case st of
        RunningGenesisKeygen \<Rightarrow> n
      | Uninitialized \<Rightarrow> if cv_next_dkg_pub_key cv = None then maybe_start_keygen_for_stage x public NextRound cv n else n
      | RunningKeygen \<Rightarrow> n
      | KeygenCompleted _ \<Rightarrow> maybe_start_keygen_for_stage x public NextRound cv n
      | KeygenFailed _ \<Rightarrow> maybe_start_keygen_for_stage x public NextRound cv n)"

definition km_on_block_finalized :: "ext \<Rightarrow> dkg_id \<Rightarrow> chain_view \<Rightarrow> managers \<Rightarrow> managers" where
  "km_on_block_finalized x public cv n =
     (case cv_sets cv of
        None \<Rightarrow> n
      | Some (active, queued) \<Rightarrow>
          let n1 = n\<lparr>keygen := (keygen n)\<lparr>km_work := poll (cv_latest cv) (km_work (keygen n))\<rparr>\<rparr>;
              session = set_id active;
              current_protocol = session_id_of_active_keygen (cv_number cv) (keygen n1);
              st = keygen_state_of (keygen n1)
          in case pre_checks x public session st cv current_protocol n1 of
               (True, n2) \<Rightarrow> n2
             | (False, n2) \<Rightarrow>
                 if session = GENESIS_AUTHORITY_SET_ID then genesis_checks x public st cv n2
                 else next_checks x public st cv n2)"

section \<open>The end of a key generation\<close>

text \<open>The protocol marks its handle complete when it succeeds; after an error the handle stays as it is.\<close>

definition keygen_concluded :: "nat \<Rightarrow> (dkg_error, unit) result \<Rightarrow> managers \<Rightarrow> managers" where
  "keygen_concluded a r n =
     (case r of
        Ok _ \<Rightarrow> n\<lparr>keygen := (keygen n)\<lparr>km_work := update_proto a (set_status Complete) (km_work (keygen n))\<rparr>\<rparr>
      | _ \<Rightarrow> n)"

definition keygen_stopped :: "shutdown_reason option \<Rightarrow> u64 \<Rightarrow> dkg_id list \<Rightarrow> (dkg_error, unit) result" where
  "keygen_stopped signal session bad_actors =
     (case signal of
        Some DropCode \<Rightarrow> Ok ()
      | Some Stalled \<Rightarrow> Err (KeygenTimeout session bad_actors)
      | None \<Rightarrow> Ok ())"

definition keygen_task_done :: "u64 \<Rightarrow> (dkg_error, unit) result \<Rightarrow> managers \<Rightarrow> managers" where
  "keygen_task_done session r n =
     (case r of
        Ok _ \<Rightarrow>
          (let k = set_keygen_state (KeygenCompleted session) (keygen n)
           in n\<lparr>keygen := k\<lparr>finished_count := finished_count k + 1\<rparr>, signing := keygen_unlock (signing n)\<rparr>)
      | Err er \<Rightarrow>
          (let k = set_keygen_state (KeygenFailed session) (keygen n)
           in n\<lparr>keygen := k\<lparr>km_reported := km_reported k @ [er]\<rparr>, signing := keygen_unlock (signing n)\<rparr>)
      | Panic \<Rightarrow> n)"

end
