(* ===== verification/Keygen_Properties.thy ===== *)
theory Keygen_Properties
  imports Keygen_Manager Signing_Properties
begin

text \<open>
  The properties of the keygen manager: when a key generation is started and when not, and what happens
  to one that a forced key generation replaces.
\<close>

section \<open>Lemmas\<close>

lemma force_shutdown_simps [simp]:
  "active_tasks (force_shutdown_all w) = []" "enqueued_tasks (force_shutdown_all w) = []"
  "enqueued_messages (force_shutdown_all w) = []"
  by (simp_all add: force_shutdown_all_def Let_def)

lemma drop_jobs_protos: "a \<notin> addr ` set js \<Longrightarrow> protos (drop_jobs js w) a = protos w a"
  by (induction js arbitrary: w) (simp_all add: drop_job_protos)

lemma drop_jobs_signals:
  assumes "distinct (map addr js)" and "j \<in> set js" and "stop_tx (proto_of w j)" and "stop_rx_open (proto_of w j)"
  shows "stop_signal (proto_of (drop_jobs js w) j) = Some DropCode"
  using assms
proof (induction js arbitrary: w)
  case (Cons i js)
  show ?case
  proof (cases "i = j")
    case True
    then have "addr j \<notin> addr ` set js"
      using Cons.prems(1) by simp
    then show ?thesis
      using True Cons.prems(3,4) by (simp add: drop_jobs_protos drop_job_def shutdown_first_reason drop_remote_def)
  next
    case False
    then have "j \<in> set js" "addr j \<noteq> addr i"
      using Cons.prems(1,2) by (auto simp: rev_image_eqI)
    with Cons show ?thesis
      by (simp add: drop_job_protos)
  qed
qed simp

lemma force_shutdown_signals:
  assumes "wm_inv w" and "j \<in> set (active_tasks w)" and "stop_tx (proto_of w j)" and "stop_rx_open (proto_of w j)"
  shows "stop_signal (proto_of (force_shutdown_all w) j) = Some DropCode"
proof -
  have d: "distinct (map addr (active_tasks w))" "addr j \<notin> addr ` set (enqueued_tasks w)"
    using assms(1,2) by (auto simp: wm_inv_def)
  show ?thesis
    using drop_jobs_signals [OF d(1) assms(2), of "w\<lparr>active_tasks := []\<rparr>"] assms(3,4) d(2)
    by (simp add: force_shutdown_all_def Let_def drop_jobs_protos)
qed

text \<open>Pushing a key generation into an empty manager runs it.\<close>

lemma km_push_runs:
  fixes x handle k
  assumes "active_tasks (km_work k) = []" and "enqueued_tasks (km_work k) = []" and "0 < max_tasks (km_work k)"
    and "wm_poll_method (km_work k) = Manual"
  defines "j \<equiv> \<lparr>task_hash = get_keygen_protocol_hash x (remote_session_id handle) (active_keygen_retry_id k),
                 job_handle = set_as_primary handle\<rparr>"
  shows "\<exists>w. km_push_task x now handle k = (Ok (), k\<lparr>km_work := w\<rparr>) \<and> active_tasks w = [j] \<and> enqueued_tasks w = [] \<and>
    spawned w = spawned (km_work k) @ [protocol handle] \<and> wm_config w = wm_config (km_work k) \<and>
    (\<forall>a. a \<noteq> protocol handle \<longrightarrow> protos w a = protos (km_work k) a)"
proof -
  let ?w = "(km_work k)\<lparr>enqueued_tasks := [j]\<rparr>"
  have pt: "push_task (task_hash j) False handle (km_work k) = (Ok (), ?w)"
    using assms(2,4) by (simp add: push_task_def j_def)
  have inv: "wm_inv ?w"
    using assms(1) by (simp add: wm_inv_def j_def)
  have "protos (poll now ?w) a = protos (km_work k) a" if "a \<noteq> protocol handle" for a
  proof -
    have "protos (start_jobs n (?w\<lparr>active_tasks := []\<rparr>)) a = protos (?w\<lparr>active_tasks := []\<rparr>) a" for n
      by (rule start_jobs_protos) (use that assms(1) in \<open>simp_all add: j_def\<close>)
    then show ?thesis
      using assms(1) by (simp add: poll_def Let_def)
  qed
  moreover have "km_push_task x now handle k = (Ok (), k\<lparr>km_work := poll now ?w\<rparr>)"
    using pt by (simp add: km_push_task_def j_def)
  moreover have "take (max_tasks (km_work k)) [j] = [j]" "drop (max_tasks (km_work k)) [j] = []"
    using assms(3) by (auto simp: take_Cons' drop_Cons')
  ultimately show ?thesis
    using poll_tasks [OF inv, of now] assms(1) by (auto simp: j_def)
qed

text \<open>A manager without a running key generation, and its state.\<close>

definition km_free :: "block_number \<Rightarrow> keygen_manager \<Rightarrow> bool" where
  "km_free now k \<longleftrightarrow>
     wm_inv (km_work k) \<and> wm_config (km_work k) = (1, 0, Manual, True) \<and> enqueued_tasks (km_work k) = [] \<and>
     filter (alive now (km_work k)) (active_tasks (km_work k)) = []"

lemma poll_free:
  assumes "km_free now k"
  shows "active_tasks (poll now (km_work k)) = []" and "enqueued_tasks (poll now (km_work k)) = []"
    and "wm_config (poll now (km_work k)) = (1, 0, Manual, True)"
proof -
  have inv: "wm_inv (km_work k)"
    using assms by (simp add: km_free_def)
  show "active_tasks (poll now (km_work k)) = []" "enqueued_tasks (poll now (km_work k)) = []"
    "wm_config (poll now (km_work k)) = (1, 0, Manual, True)"
    using assms by (simp_all add: km_free_def poll_tasks [OF inv])
qed

section \<open>Starting\<close>

text \<open>
  A key generation starts when it is due. After genesis, when the chain asks for a key, has none for the
  next session, the node is among the next best authorities, its last key generation ended, well or
  not, and none is running: the handling of the block leaves exactly one job, the key generation of
  the queued session, running; the state says so, and the signing manager is locked.
\<close>

theorem keygen_starts_when_due:
  assumes "cv_sets cv = Some (active, queued)" and "set_id active \<noteq> 0" and "cv_execute cv" and "\<not> cv_force_execute cv"
    and "cv_next_dkg_pub_key cv = None" and "find_party public (cv_next_best_authorities cv) = Some i" and "i \<noteq> 0"
    and "keygen_state_of (keygen n) = KeygenCompleted c \<or> keygen_state_of (keygen n) = KeygenFailed c"
    and "km_free (cv_latest cv) (keygen n)"
  shows "active_tasks (km_work (keygen (km_on_block_finalized x public cv n))) =
      [\<lparr>task_hash = get_keygen_protocol_hash x (set_id queued) (active_keygen_retry_id (keygen n)),
        job_handle = set_as_primary (remote_new (km_next_protocol (keygen n)) (cv_latest cv) (set_id queued) (ucast (cv_number cv)) 0)\<rparr>] \<and>
    keygen_state_of (keygen (km_on_block_finalized x public cv n)) = RunningKeygen \<and>
    latest_executed_session_id (keygen (km_on_block_finalized x public cv n)) = Some (set_id queued) \<and>
    sm_lock (signing (km_on_block_finalized x public cv n)) \<and>
    sm_work (signing (km_on_block_finalized x public cv n)) = sm_work (signing n)"
proof -
  define k where "k = (keygen n)\<lparr>km_work := poll (cv_latest cv) (km_work (keygen n))\<rparr>"
  define n1 where "n1 = n\<lparr>keygen := k\<rparr>"
  note pf = poll_free [OF assms(9)]
  have none: "session_id_of_active_keygen (cv_number cv) k = None"
    by (simp add: session_id_of_active_keygen_def get_active_sessions_metadata_def k_def pf(1))
  have run: "km_on_block_finalized x public cv n = maybe_start_keygen_for_stage x public NextRound cv n1"
    using assms(1,2,4,8) none unfolding k_def n1_def
    by (auto simp: km_on_block_finalized_def Let_def pre_checks_def GENESIS_AUTHORITY_SET_ID_def next_checks_def)
  have start: "maybe_start_keygen_for_stage x public NextRound cv n1 = start_keygen x NextRound cv (set_id queued) n1"
    using assms(1,3-7) by (simp add: maybe_start_keygen_for_stage_def Let_def get_next_party_index_def keygen_party_id_try_from_def)
  define handle where "handle = remote_new (km_next_protocol k) (cv_latest cv) (set_id queued) (ucast (cv_number cv)) 0"
  define k2 where "k2 = k\<lparr>km_next_protocol := Suc (km_next_protocol k),
    km_work := update_proto (km_next_protocol k) (\<lambda>_. new_protocol) (km_work k)\<rparr>"
  have "active_tasks (km_work k2) = []" "enqueued_tasks (km_work k2) = []" "0 < max_tasks (km_work k2)" "wm_poll_method (km_work k2) = Manual"
    using pf by (simp_all add: k2_def k_def wm_config_def)
  from km_push_runs [OF this, of x "cv_latest cv" handle] obtain w where
    w: "km_push_task x (cv_latest cv) handle k2 = (Ok (), k2\<lparr>km_work := w\<rparr>)"
    "active_tasks w = [\<lparr>task_hash = get_keygen_protocol_hash x (remote_session_id handle) (active_keygen_retry_id k2),
       job_handle = set_as_primary handle\<rparr>]" by blast
  have "initialize_keygen_protocol cv (set_id queued) k = (Some handle, k2)"
    by (simp add: initialize_keygen_protocol_def Let_def handle_def k2_def)
  then have "km_on_block_finalized x public cv n = n1\<lparr>signing := keygen_lock (signing n1),
      keygen := (set_keygen_state RunningKeygen (k2\<lparr>km_work := w\<rparr>))\<lparr>latest_executed_session_id := Some (set_id queued)\<rparr>\<rparr>"
    unfolding run start using assms(4) w(1) by (simp add: start_keygen_def Let_def n1_def)
  then show ?thesis
    using w(2) by (simp add: set_keygen_state_def keygen_lock_def handle_def remote_new_def k2_def n1_def k_def)
qed


definition sample_managers :: "keygen_state \<Rightarrow> managers" where
  "sample_managers st = \<lparr>keygen = keygen_manager_new\<lparr>keygen_state_of := st\<rparr>, signing = signing_manager_new\<rparr>"

definition sample_keygen_view :: chain_view where
  "sample_keygen_view = sample_view\<lparr>cv_sets := Some (\<lparr>set_authorities = [[11]], set_id = 4\<rparr>, \<lparr>set_authorities = [[11]], set_id = 5\<rparr>),
     cv_next_best_authorities := [(1, [11])], cv_execute := True\<rparr>"

lemma sample_keygen_view_simps [simp]:
  "cv_sets sample_keygen_view = Some (\<lparr>set_authorities = [[11]], set_id = 4\<rparr>, \<lparr>set_authorities = [[11]], set_id = 5\<rparr>)"
  "cv_execute sample_keygen_view" "\<not> cv_force_execute sample_keygen_view" "cv_next_dkg_pub_key sample_keygen_view = None"
  "cv_next_best_authorities sample_keygen_view = [(1, [11])]" "cv_latest sample_keygen_view = 1" "cv_number sample_keygen_view = 1"
  by (simp_all add: sample_keygen_view_def sample_view_def)

lemma sample_managers_free: "km_free now (keygen (sample_managers st))"
  by (simp add: km_free_def sample_managers_def keygen_manager_new_def work_manager_new_def wm_inv_def wm_config_def
      KM_MAX_RUNNING_TASKS_def KM_MAX_ENQUEUED_TASKS_def)

theorem keygen_starts_when_due_witness:
  "keygen_state_of (keygen (km_on_block_finalized sample_gadget_ext [11] sample_keygen_view (sample_managers (KeygenCompleted 3)))) = RunningKeygen \<and>
   sm_lock (signing (km_on_block_finalized sample_gadget_ext [11] sample_keygen_view (sample_managers (KeygenCompleted 3))))"
  using keygen_starts_when_due [OF _ _ _ _ _ _ _ _ sample_managers_free, of sample_keygen_view _ _ "[11]" 1 "KeygenCompleted 3" 3 sample_gadget_ext]
  by (simp add: sample_managers_def)

section \<open>Key generations that end unnoticed\<close>

text \<open>
  A key generation that is replaced counts as completed. When the chain forces a key generation while another
  one runs, the handling of the block ends the running one and starts the new one, locking the
  signing manager. The task of the ended one then returns success: the manager takes it for
  completed, counts it, and unlocks the signing manager although the new key generation runs.
\<close>

theorem replaced_keygen_unlocks_signing:
  assumes "cv_sets cv = Some (active, queued)" and "set_id active \<noteq> 0" and "cv_force_execute cv"
    and "find_party public (cv_next_best_authorities cv) = Some i" and "i \<noteq> 0"
    and "wm_inv (km_work (keygen n))" and "wm_config (km_work (keygen n)) = (1, 0, Manual, True)"
    and "active_tasks (km_work (keygen n)) = [j]" and "enqueued_tasks (km_work (keygen n)) = []"
    and "\<not> signing_has_stalled (proto_of (km_work (keygen n)) j) (job_handle j) (cv_latest cv)" and "\<not> is_done (proto_of (km_work (keygen n)) j)"
    and "stop_tx (proto_of (km_work (keygen n)) j)" and "stop_rx_open (proto_of (km_work (keygen n)) j)"
    and "protocol (job_handle j) < km_next_protocol (keygen n)"
    and "n1 = km_on_block_finalized x public cv n"
    and "n2 = keygen_task_done old (keygen_stopped (stop_signal (proto_of (km_work (keygen n1)) j)) old bad_actors) n1"
  shows "keygen_state_of (keygen n1) = RunningKeygen \<and> sm_lock (signing n1) \<and>
    active_tasks (km_work (keygen n2)) =
      [\<lparr>task_hash = get_keygen_protocol_hash x (set_id queued) (active_keygen_retry_id (keygen n)),
        job_handle = set_as_primary (remote_new (km_next_protocol (keygen n)) (cv_latest cv) (set_id queued) (ucast (cv_number cv)) 0)\<rparr>] \<and>
    keygen_state_of (keygen n2) = KeygenCompleted old \<and> finished_count (keygen n2) = finished_count (keygen n) + 1 \<and>
    \<not> sm_lock (signing n2)"
proof -
  define k where "k = (keygen n)\<lparr>km_work := poll (cv_latest cv) (km_work (keygen n))\<rparr>"
  define m where "m = n\<lparr>keygen := k\<rparr>"
  define handle where "handle = remote_new (km_next_protocol k) (cv_latest cv) (set_id queued) (ucast (cv_number cv)) 0"
  define k1 where "k1 = k\<lparr>km_next_protocol := Suc (km_next_protocol k),
    km_work := update_proto (km_next_protocol k) (\<lambda>_. new_protocol) (km_work k)\<rparr>"
  define k2 where "k2 = k1\<lparr>km_work := force_shutdown_all (km_work k1)\<rparr>"
  have al: "alive (cv_latest cv) (km_work (keygen n)) j"
    using assms(10,11) by (simp add: alive_def)
  have act: "active_tasks (km_work k) = [j]" "enqueued_tasks (km_work k) = []" "wm_inv (km_work k)"
    using assms(8,9) al poll_inv [OF assms(6)] by (simp_all add: k_def poll_tasks [OF assms(6)])
  have pj: "proto_of (km_work k) j = proto_of (km_work (keygen n)) j"
    using poll_ended [OF assms(6), of j "cv_latest cv"] assms(8) al by (simp add: k_def)
  have ne: "addr j \<noteq> protocol handle"
    using assms(14) by (simp add: handle_def remote_new_def k_def)
  have sig: "stop_signal (proto_of (km_work k2) j) = Some DropCode"
    using force_shutdown_signals [of "km_work k1" j] act assms(12,13,14) pj wm_inv_cong [of "km_work k1" "km_work k"]
    by (simp add: k2_def k1_def k_def)
  have "active_tasks (km_work k2) = []" "enqueued_tasks (km_work k2) = []" "0 < max_tasks (km_work k2)" "wm_poll_method (km_work k2) = Manual"
    using assms(7) wm_config_eq [OF wm_config_ops(4), of "km_work k1"] wm_config_eq [OF wm_config_ops(1), of "cv_latest cv" "km_work (keygen n)"]
    by (simp_all add: k2_def k1_def k_def wm_config_def)
  from km_push_runs [OF this, of x "cv_latest cv" handle] obtain w where
    w: "km_push_task x (cv_latest cv) handle k2 = (Ok (), k2\<lparr>km_work := w\<rparr>)"
    "active_tasks w = [\<lparr>task_hash = get_keygen_protocol_hash x (remote_session_id handle) (active_keygen_retry_id k2),
       job_handle = set_as_primary handle\<rparr>]" "protos w (addr j) = protos (km_work k2) (addr j)"
    using ne by metis
  have "km_on_block_finalized x public cv n = start_keygen x NextRound cv (set_id queued) m"
    using assms(1-5) by (simp add: km_on_block_finalized_def Let_def pre_checks_def GENESIS_AUTHORITY_SET_ID_def m_def k_def
        maybe_start_keygen_for_stage_def get_next_party_index_def keygen_party_id_try_from_def)
  also have "\<dots> = m\<lparr>signing := keygen_lock (clear_enqueued_proposal_tasks (signing m)),
      keygen := (set_keygen_state RunningKeygen (k2\<lparr>km_work := w\<rparr>))\<lparr>latest_executed_session_id := Some (set_id queued)\<rparr>\<rparr>"
    using assms(3) w(1) by (simp add: start_keygen_def Let_def m_def initialize_keygen_protocol_def handle_def k1_def k2_def)
  finally have n1: "n1 = \<dots>" by (simp add: assms(15))
  have "keygen_stopped (stop_signal (proto_of (km_work (keygen n1)) j)) old bad_actors = Ok ()"
    using sig w(3) by (simp add: n1 set_keygen_state_def keygen_stopped_def)
  then show ?thesis
    using w(2) by (simp add: assms(16) keygen_task_done_def Let_def)
      (simp add: n1 set_keygen_state_def keygen_lock_def keygen_unlock_def handle_def remote_new_def k2_def k1_def k_def)
qed

definition sample_keygen_job :: job where
  "sample_keygen_job = \<lparr>task_hash = [3], job_handle = set_as_primary (remote_new 0 1 5 1 0)\<rparr>"

definition sample_running :: managers where
  "sample_running = (sample_managers RunningKeygen)\<lparr>keygen := keygen_manager_new\<lparr>keygen_state_of := RunningKeygen, km_next_protocol := 1,
     km_work := (km_work keygen_manager_new)\<lparr>active_tasks := [sample_keygen_job]\<rparr>\<rparr>\<rparr>"

lemma sample_running_facts:
  "wm_inv (km_work (keygen sample_running))" "wm_config (km_work (keygen sample_running)) = (1, 0, Manual, True)"
  "active_tasks (km_work (keygen sample_running)) = [sample_keygen_job]" "enqueued_tasks (km_work (keygen sample_running)) = []"
  "\<not> signing_has_stalled (proto_of (km_work (keygen sample_running)) sample_keygen_job) (job_handle sample_keygen_job)
     (cv_latest (sample_keygen_view\<lparr>cv_force_execute := True\<rparr>))"
  "\<not> is_done (proto_of (km_work (keygen sample_running)) sample_keygen_job)"
  "stop_tx (proto_of (km_work (keygen sample_running)) sample_keygen_job)"
  "stop_rx_open (proto_of (km_work (keygen sample_running)) sample_keygen_job)"
  "protocol (job_handle sample_keygen_job) < km_next_protocol (keygen sample_running)"
  by (simp_all add: wm_inv_def wm_config_def sample_running_def sample_managers_def keygen_manager_new_def work_manager_new_def
      sample_keygen_job_def remote_new_def set_as_primary_def KM_MAX_RUNNING_TASKS_def KM_MAX_ENQUEUED_TASKS_def
      signing_has_stalled_def has_stalled_def SIGN_TIMEOUT_def new_protocol_def is_done_def is_terminated_def is_completed_def word_le_nat_alt)

theorem replaced_keygen_unlocks_signing_witness:
  "\<not> sm_lock (signing (keygen_task_done 5 (keygen_stopped (stop_signal (proto_of (km_work (keygen
       (km_on_block_finalized sample_gadget_ext [11] (sample_keygen_view\<lparr>cv_force_execute := True\<rparr>) sample_running))) sample_keygen_job)) 5 [])
     (km_on_block_finalized sample_gadget_ext [11] (sample_keygen_view\<lparr>cv_force_execute := True\<rparr>) sample_running)))"
  using replaced_keygen_unlocks_signing [of "sample_keygen_view\<lparr>cv_force_execute := True\<rparr>" "\<lparr>set_authorities = [[11]], set_id = 4\<rparr>"
      "\<lparr>set_authorities = [[11]], set_id = 5\<rparr>" "[11]" 1 sample_running sample_keygen_job _ sample_gadget_ext _ 5 "[]",
      OF _ _ _ _ _ sample_running_facts(1-9) refl refl]
  by simp

text \<open>
  In the first session a completed key generation for the second one is never repeated. As long as the chain
  stays in session zero and does not force it, a node whose state says that it completed the key
  generation of another session starts none, however often the chain asks and although no key
  arrived there.
\<close>

theorem genesis_session_never_retries:
  assumes "list_all (\<lambda>cv. \<not> cv_force_execute cv \<and> (\<exists>active queued. cv_sets cv = Some (active, queued) \<and> set_id active = 0)) cvs"
    and "keygen_state_of (keygen n) = KeygenCompleted c" and "c \<noteq> 0"
  shows "keygen_state_of (keygen (fold (km_on_block_finalized x public) cvs n)) = KeygenCompleted c \<and>
    km_next_protocol (keygen (fold (km_on_block_finalized x public) cvs n)) = km_next_protocol (keygen n) \<and>
    signing (fold (km_on_block_finalized x public) cvs n) = signing n"
  using assms(1,2)
proof (induction cvs arbitrary: n)
  case (Cons cv cvs)
  let ?n = "n\<lparr>keygen := (keygen n)\<lparr>km_work := poll (cv_latest cv) (km_work (keygen n))\<rparr>\<rparr>"
  have "km_on_block_finalized x public cv n = ?n"
    using Cons.prems assms(3) by (auto simp: km_on_block_finalized_def Let_def pre_checks_def GENESIS_AUTHORITY_SET_ID_def
        genesis_checks_def split: option.splits bool.splits)
  with Cons show ?case by simp
qed simp


theorem genesis_session_never_retries_witness:
  "keygen_state_of (keygen (fold (km_on_block_finalized sample_gadget_ext [11])
     [sample_keygen_view\<lparr>cv_sets := Some (\<lparr>set_authorities = [[11]], set_id = 0\<rparr>, \<lparr>set_authorities = [[11]], set_id = 1\<rparr>)\<rparr>]
     (sample_managers (KeygenCompleted 1)))) = KeygenCompleted 1"
  using genesis_session_never_retries [of "[sample_keygen_view\<lparr>cv_sets := Some (\<lparr>set_authorities = [[11]], set_id = 0\<rparr>,
      \<lparr>set_authorities = [[11]], set_id = 1\<rparr>)\<rparr>]" "sample_managers (KeygenCompleted 1)" 1 sample_gadget_ext "[11]"]
  by (simp add: sample_managers_def)

end
