(* ===== verification/Gossip_Engine.thy ===== *)
theory Gossip_Engine
  imports Dkg_Messages
begin

text \<open>
  The gossip engine of a node (\<open>dkg-gadget/src/gossip_engine/network.rs\<close> and \<open>mod.rs\<close>): the
  bounded maps, the handshake, the handler of network events and the forwarding of messages, with
  the part of the keystore it needs (\<open>keystore.rs\<close>). The network layer, the keystore backend and the
  verification of signatures are the record \<open>net\<close>. A handler keeps the notifications it wrote, the
  messages it passed on and the peers it reported, in their order.
\<close>

section \<open>Bounded maps\<close>

text \<open>The oldest entry is first. Inserting a present key moves it to the end.\<close>

record ('k, 'v) lru_hash_map =
  lru_inner :: "('k \<times> 'v) list"
  lru_limit :: nat

definition lru_new :: "nat \<Rightarrow> ('k, 'v) lru_hash_map" where
  "lru_new limit = \<lparr>lru_inner = [], lru_limit = limit\<rparr>"

definition lru_insert :: "'k \<Rightarrow> 'v \<Rightarrow> ('k, 'v) lru_hash_map \<Rightarrow> bool \<times> ('k, 'v) lru_hash_map" where
  "lru_insert k v m =
     (let is_new = (map_of (lru_inner m) k = None);
          inner = filter (\<lambda>e. fst e \<noteq> k) (lru_inner m) @ [(k, v)]
      in (is_new, m\<lparr>lru_inner := (if lru_limit m \<le> length inner then tl inner else inner)\<rparr>))"

definition lru_get :: "'k \<Rightarrow> ('k, 'v) lru_hash_map \<Rightarrow> 'v option" where
  "lru_get k m = map_of (lru_inner m) k"

type_synonym 'a lru_hash_set = "('a, unit) lru_hash_map"

definition lru_set_insert :: "'a \<Rightarrow> 'a lru_hash_set \<Rightarrow> bool \<times> 'a lru_hash_set" where
  "lru_set_insert a m = lru_insert a () m"

section \<open>Keystore and handshake\<close>

type_synonym peer_id = bytes

record handshake_message =
  hs_authority_id :: dkg_id
  hs_peer_id :: bytes
  hs_signature :: bytes

datatype dkg_network_message =
    Handshake handshake_message
  | NetworkDkgMessage signed_dkg_message

record net =
  net_wire :: wire
  net_keccak_256 :: "bytes \<Rightarrow> hash256"
  peer_id_from_bytes :: "bytes \<Rightarrow> peer_id option"
  verify_prehashed :: "bytes \<Rightarrow> hash256 \<Rightarrow> dkg_id \<Rightarrow> bool"
  store_public_keys :: "dkg_id list"
  store_has_key :: "dkg_id \<Rightarrow> bool"
  store_sign_prehashed :: "dkg_id \<Rightarrow> hash256 \<Rightarrow> bytes option"

fun unique :: "'a list \<Rightarrow> 'a list" where
  "unique [] = []"
| "unique (a # as) = a # filter (\<lambda>b. b \<noteq> a) (unique as)"

definition keystore_authority_id :: "net \<Rightarrow> dkg_id list \<Rightarrow> dkg_id option" where
  "keystore_authority_id y keys =
     (case unique (filter (store_has_key y) keys) of [] \<Rightarrow> None | public \<Rightarrow> Some (last public))"

definition keystore_sign :: "net \<Rightarrow> dkg_id \<Rightarrow> bytes \<Rightarrow> bytes option" where
  "keystore_sign y public m = store_sign_prehashed y public (net_keccak_256 y m)"

definition get_authority_public_key :: "net \<Rightarrow> (dkg_error, dkg_id) result" where
  "get_authority_public_key y =
     (case keystore_authority_id y (store_public_keys y) of None \<Rightarrow> Panic | Some k \<Rightarrow> Ok k)"

definition handshake_try_new :: "net \<Rightarrow> peer_id \<Rightarrow> (dkg_error, handshake_message) result" where
  "handshake_try_new y peer =
     (case get_authority_public_key y of
        Ok authority \<Rightarrow>
          (case keystore_sign y authority (peer @ authority) of
             None \<Rightarrow> Err (CriticalError ''Failed to sign handshake message'')
           | Some sig \<Rightarrow> Ok \<lparr>hs_authority_id = authority, hs_peer_id = peer, hs_signature = sig\<rparr>)
      | Err er \<Rightarrow> Err er
      | Panic \<Rightarrow> Panic)"

definition handshake_is_valid :: "net \<Rightarrow> peer_id \<Rightarrow> handshake_message \<Rightarrow> (dkg_error, bool) result" where
  "handshake_is_valid y sender m =
     (case peer_id_from_bytes y (hs_peer_id m) of
        None \<Rightarrow> Err InvalidPeerId
      | Some msg_peer_id \<Rightarrow>
          if msg_peer_id \<noteq> sender then Ok False
          else Ok (verify_prehashed y (hs_signature m)
                 (net_keccak_256 y (hs_peer_id m @ hs_authority_id m)) (hs_authority_id m)))"

section \<open>The handler\<close>

datatype reputation_change = GoodMessage | UnexpectedMessage | PeerImpersonated | DuplicateMessage

record peer =
  known_messages :: "hash256 lru_hash_set"
  message_counter :: "(hash256, nat) lru_hash_map"
  peer_authority_id :: "dkg_id option"

record gossip_handler =
  local_peer_id :: peer_id
  peers :: "(peer_id, peer) smap"
  pending_messages_peers :: "(hash256, peer_id set) lru_hash_map"
  authority_id_to_peer_id :: "dkg_id \<rightharpoonup> peer_id"
  gossip_enabled :: bool
  written :: "(peer_id \<times> dkg_network_message) list"
  to_receiver :: "signed_dkg_message list"
  reports :: "(peer_id \<times> reputation_change) list"

definition MAX_KNOWN_MESSAGES :: nat where
  "MAX_KNOWN_MESSAGES = 4096"

definition MAX_DUPLICATED_MESSAGES_PER_PEER :: nat where
  "MAX_DUPLICATED_MESSAGES_PER_PEER = 8"

definition build :: "peer_id \<Rightarrow> gossip_handler" where
  "build me =
     \<lparr>local_peer_id = me, peers = [], pending_messages_peers = lru_new MAX_KNOWN_MESSAGES, authority_id_to_peer_id = Map.empty,
      gossip_enabled = False, written = [], to_receiver = [], reports = []\<rparr>"

definition set_gossip_enabled :: "bool \<Rightarrow> gossip_handler \<Rightarrow> gossip_handler" where
  "set_gossip_enabled enabled g = g\<lparr>gossip_enabled := enabled\<rparr>"

definition write_notification :: "peer_id \<Rightarrow> dkg_network_message \<Rightarrow> gossip_handler \<Rightarrow> gossip_handler" where
  "write_notification to_who m g = g\<lparr>written := written g @ [(to_who, m)]\<rparr>"

definition report_peer :: "peer_id \<Rightarrow> reputation_change \<Rightarrow> gossip_handler \<Rightarrow> gossip_handler" where
  "report_peer who r g = g\<lparr>reports := reports g @ [(who, r)]\<rparr>"

definition send_signed_dkg_message :: "net \<Rightarrow> peer_id \<Rightarrow> signed_dkg_message \<Rightarrow> gossip_handler \<Rightarrow> gossip_handler" where
  "send_signed_dkg_message y to_who m g =
     (case map_of (peers g) to_who of
        None \<Rightarrow> g
      | Some p \<Rightarrow>
          (case lru_set_insert (message_hash (net_wire y) m) (known_messages p) of
             (new_to_them, known) \<Rightarrow>
               let g1 = g\<lparr>peers := AList.update to_who (p\<lparr>known_messages := known\<rparr>) (peers g)\<rparr>
               in if \<not> new_to_them then g1 else write_notification to_who (NetworkDkgMessage m) g1))"

text \<open>A message with a known recipient is sent there first, and then to all peers in any case.\<close>

definition gossip_dkg_signed_message :: "net \<Rightarrow> signed_dkg_message \<Rightarrow> gossip_handler \<Rightarrow> gossip_handler" where
  "gossip_dkg_signed_message y m g =
     (let maybe_peer_id = (case recipient_id (sd_msg m) of
             Some recipient \<Rightarrow> authority_id_to_peer_id g recipient
           | None \<Rightarrow> None);
          g1 = (case maybe_peer_id of Some p \<Rightarrow> send_signed_dkg_message y p m g | None \<Rightarrow> g);
          peer_ids = map fst (peers g1)
      in fold (\<lambda>p. send_signed_dkg_message y p m) peer_ids g1)"

text \<open>
  The pending messages are written through the inner map, so their limit is not looked at.
\<close>

definition note_signed_dkg_message :: "net \<Rightarrow> peer_id \<Rightarrow> signed_dkg_message \<Rightarrow> gossip_handler \<Rightarrow> gossip_handler" where
  "note_signed_dkg_message y who m g =
     (case map_of (peers g) who of
        None \<Rightarrow> g
      | Some p \<Rightarrow>
          let h = message_hash (net_wire y) m;
              p1 = p\<lparr>known_messages := snd (lru_set_insert h (known_messages p))\<rparr>;
              pending = pending_messages_peers g
          in case map_of (lru_inner pending) h of
               None \<Rightarrow>
                 report_peer who GoodMessage
                   (g\<lparr>peers := AList.update who p1 (peers g), to_receiver := to_receiver g @ [m],
                      pending_messages_peers := pending\<lparr>lru_inner := lru_inner pending @ [(h, {who})]\<rparr>\<rparr>)
             | Some senders \<Rightarrow>
                 let inserted = who \<notin> senders;
                     pending' = pending\<lparr>lru_inner := AList.update h (insert who senders) (lru_inner pending)\<rparr>;
                     old = (case lru_get h (message_counter p1) of Some n \<Rightarrow> n | None \<Rightarrow> 0);
                     p2 = (if inserted then p1
                           else p1\<lparr>message_counter := snd (lru_insert h (old + 1) (message_counter p1))\<rparr>);
                     g' = g\<lparr>peers := AList.update who p2 (peers g), pending_messages_peers := pending'\<rparr>;
                     g'' = (if \<not> inserted \<and> MAX_DUPLICATED_MESSAGES_PER_PEER \<le> old
                            then report_peer who DuplicateMessage g' else g')
                 in g''\<lparr>to_receiver := to_receiver g'' @ [m]\<rparr>)"

definition on_signed_dkg_message :: "net \<Rightarrow> peer_id \<Rightarrow> signed_dkg_message \<Rightarrow> gossip_handler \<Rightarrow> gossip_handler" where
  "on_signed_dkg_message y who m g =
     (let g1 = note_signed_dkg_message y who m g
      in if gossip_enabled g1 then gossip_dkg_signed_message y m g1 else g1)"

text \<open>An invalid handshake is reported, and recorded like a valid one.\<close>

definition on_handshake_message :: "net \<Rightarrow> peer_id \<Rightarrow> handshake_message \<Rightarrow> gossip_handler \<Rightarrow> gossip_handler" where
  "on_handshake_message y who m g =
     (let g1 = (case handshake_is_valid y who m of
              Ok True \<Rightarrow> g
            | Ok False \<Rightarrow> report_peer who PeerImpersonated g
            | _ \<Rightarrow> report_peer who UnexpectedMessage g);
          g2 = (case map_of (peers g1) who of
              None \<Rightarrow> g1
            | Some p \<Rightarrow> g1\<lparr>peers := AList.update who (p\<lparr>peer_authority_id := Some (hs_authority_id m)\<rparr>) (peers g1)\<rparr>)
      in g2\<lparr>authority_id_to_peer_id := (authority_id_to_peer_id g2)(hs_authority_id m \<mapsto> who)\<rparr>)"

definition send_handshake_message :: "net \<Rightarrow> peer_id \<Rightarrow> gossip_handler \<Rightarrow> (dkg_error, unit) result \<times> gossip_handler" where
  "send_handshake_message y to_who g =
     (case handshake_try_new y (local_peer_id g) of
        Ok m \<Rightarrow> (Ok (), write_notification to_who (Handshake m) g)
      | Err er \<Rightarrow> (Err er, g)
      | Panic \<Rightarrow> (Panic, g))"

section \<open>Network events\<close>

text \<open>A received notification of this protocol is a message, or bytes that do not decode.\<close>

datatype network_event =
    NotificationStreamOpened peer_id
  | NotificationStreamClosed peer_id
  | NotificationsReceived peer_id "dkg_network_message option list"

definition new_peer :: peer where
  "new_peer = \<lparr>known_messages = lru_new MAX_KNOWN_MESSAGES, message_counter = lru_new MAX_KNOWN_MESSAGES, peer_authority_id = None\<rparr>"

fun receive_notifications :: "net \<Rightarrow> peer_id \<Rightarrow> dkg_network_message option list \<Rightarrow> gossip_handler \<Rightarrow> gossip_handler" where
  "receive_notifications y remote [] g = g"
| "receive_notifications y remote (m # ms) g =
     (case m of
        None \<Rightarrow> report_peer remote UnexpectedMessage g
      | Some (Handshake h) \<Rightarrow> receive_notifications y remote ms (on_handshake_message y remote h g)
      | Some (NetworkDkgMessage s) \<Rightarrow> receive_notifications y remote ms (on_signed_dkg_message y remote s g))"

text \<open>An error of the handshake is logged; the peer is recorded in any case.\<close>

fun handle_network_event :: "net \<Rightarrow> network_event \<Rightarrow> gossip_handler \<Rightarrow> (dkg_error, unit) result \<times> gossip_handler" where
  "handle_network_event y (NotificationStreamOpened remote) g =
     (case send_handshake_message y remote g of
        (Panic, g1) \<Rightarrow> (Panic, g1)
      | (_, g1) \<Rightarrow> (Ok (), g1\<lparr>peers := AList.update remote new_peer (peers g1)\<rparr>))"
| "handle_network_event y (NotificationStreamClosed remote) g =
     (let g1 = g\<lparr>peers := AList.delete remote (peers g)\<rparr>
      in (Ok (), case map_of (peers g) remote of
            Some p \<Rightarrow>
              (case peer_authority_id p of
                 Some a \<Rightarrow> g1\<lparr>authority_id_to_peer_id := (authority_id_to_peer_id g1)(a := None)\<rparr>
               | None \<Rightarrow> g1)
          | None \<Rightarrow> g1))"
| "handle_network_event y (NotificationsReceived remote messages) g = (Ok (), receive_notifications y remote messages g)"

end
