(* ===== verification/Gossip_Correct.thy ===== *)
theory Gossip_Correct
  imports Gossip_Engine
begin

text \<open>
  What the gossip engine guarantees: the exact effect of sending, gossiping and receiving a message
  on one node, and the flooding of a network of nodes.
\<close>

section \<open>Bounded maps\<close>

definition lru_keys :: "('k, 'v) lru_hash_map \<Rightarrow> 'k set" where
  "lru_keys m = fst ` set (lru_inner m)"

definition lru_ok :: "('k, 'v) lru_hash_map \<Rightarrow> bool" where
  "lru_ok m \<longleftrightarrow> distinct (map fst (lru_inner m)) \<and> length (lru_inner m) < lru_limit m"

lemma lru_insert_ok:
  assumes "lru_ok m"
  shows "lru_ok (snd (lru_insert k v m))"
proof -
  let ?inner = "filter (\<lambda>e. fst e \<noteq> k) (lru_inner m) @ [(k, v)]"
  have d: "distinct (map fst ?inner)"
    using assms by (auto simp: lru_ok_def distinct_map_filter)
  have "length ?inner \<le> lru_limit m"
    using assms by (auto simp: lru_ok_def intro!: Suc_leI le_less_trans [OF length_filter_le])
  moreover have "distinct (map fst (tl ?inner))"
    using distinct_tl [OF d] by (simp add: map_tl)
  ultimately show ?thesis
    using d by (auto simp: lru_insert_def Let_def lru_ok_def)
qed

text \<open>There is room for the key \<open>k\<close>: inserting it evicts nothing.\<close>

definition lru_room :: "'k \<Rightarrow> ('k, 'v) lru_hash_map \<Rightarrow> bool" where
  "lru_room k m \<longleftrightarrow> Suc (length (filter (\<lambda>e. fst e \<noteq> k) (lru_inner m))) < lru_limit m"

lemma lru_insert_room:
  assumes "lru_room k m"
  shows "fst (lru_insert k v m) = (k \<notin> lru_keys m)" and "lru_keys (snd (lru_insert k v m)) = insert k (lru_keys m)"
    and "lru_room k (snd (lru_insert k v m))"
  using assms by (auto simp: lru_insert_def Let_def lru_keys_def lru_room_def map_of_eq_None_iff)

section \<open>One handler\<close>

definition connected :: "gossip_handler \<Rightarrow> peer_id set" where
  "connected g = fst ` set (peers g)"

text \<open>The peers that are known to have the message with hash \<open>h\<close>.\<close>

definition knowing :: "hash256 \<Rightarrow> gossip_handler \<Rightarrow> peer_id set" where
  "knowing h g = {p. \<exists>q. map_of (peers g) p = Some q \<and> h \<in> lru_keys (known_messages q)}"

definition room_for :: "hash256 \<Rightarrow> gossip_handler \<Rightarrow> bool" where
  "room_for h g \<longleftrightarrow> (\<forall>p q. map_of (peers g) p = Some q \<longrightarrow> lru_room h (known_messages q))"

lemma knowing_connected: "knowing h g \<subseteq> connected g"
  by (auto simp: knowing_def connected_def dest: map_of_SomeD intro: rev_image_eqI)

lemma connected_map_of: "p \<in> connected g \<longleftrightarrow> (\<exists>q. map_of (peers g) p = Some q)"
proof -
  have "map_of (peers g) p = None \<longleftrightarrow> p \<notin> fst ` set (peers g)"
    by (rule map_of_eq_None_iff)
  then show ?thesis
    by (cases "map_of (peers g) p") (auto simp: connected_def)
qed

lemma connected_update: "map_of l p = Some q \<Longrightarrow> map fst (AList.update p q' l) = map fst l"
  by (induction l) (auto split: if_splits)

text \<open>The fields that sending does not touch.\<close>

definition receiving :: "gossip_handler \<Rightarrow> signed_dkg_message list \<times> (hash256, peer_id set) lru_hash_map \<times> bool \<times> (dkg_id \<rightharpoonup> peer_id)" where
  "receiving g = (to_receiver g, pending_messages_peers g, gossip_enabled g, authority_id_to_peer_id g)"

lemma send_effect:
  fixes h y p m g
  assumes "room_for h g" and "h = message_hash (net_wire y) m"
  defines "g' \<equiv> send_signed_dkg_message y p m g"
  shows "map fst (peers g') = map fst (peers g)" and "knowing h g' = knowing h g \<union> ({p} \<inter> connected g)"
    and "written g' = written g @ (if p \<in> connected g - knowing h g then [(p, NetworkDkgMessage m)] else [])"
    and "room_for h g'" and "receiving g' = receiving g"
proof -
  have "map fst (peers g') = map fst (peers g) \<and> knowing h g' = knowing h g \<union> ({p} \<inter> connected g) \<and>
    written g' = written g @ (if p \<in> connected g - knowing h g then [(p, NetworkDkgMessage m)] else []) \<and>
    room_for h g' \<and> receiving g' = receiving g"
  proof (cases "map_of (peers g) p")
    case None
    then have "g' = g"
      by (simp add: g'_def send_signed_dkg_message_def)
    with None assms(1) show ?thesis
      by (auto simp: connected_map_of)
  next
    case (Some q)
    obtain b known where ins: "lru_insert h () (known_messages q) = (b, known)" by fastforce
    have "lru_room h (known_messages q)"
      using assms(1) Some by (simp add: room_for_def)
    from lru_insert_room [OF this, of "()"] ins
    have i: "b = (h \<notin> lru_keys (known_messages q))" "lru_keys known = insert h (lru_keys (known_messages q))" "lru_room h known"
      by simp_all
    have kn: "p \<in> knowing h g \<longleftrightarrow> h \<in> lru_keys (known_messages q)" and co: "p \<in> connected g"
      using Some by (auto simp: knowing_def connected_map_of)
    have peers: "peers g' = AList.update p (q\<lparr>known_messages := known\<rparr>) (peers g)" and rec: "receiving g' = receiving g"
      and wr: "written g' = written g @ (if b then [(p, NetworkDkgMessage m)] else [])"
      using Some ins assms(2)
      by (simp_all add: g'_def send_signed_dkg_message_def lru_set_insert_def Let_def write_notification_def receiving_def)
    have "map fst (peers g') = map fst (peers g)"
      using connected_update [OF Some] by (simp add: peers)
    moreover have "knowing h g' = knowing h g \<union> ({p} \<inter> connected g)"
      using i(2) co by (auto simp: knowing_def peers split: if_splits)
    moreover have "room_for h g'"
      using assms(1) i(3) by (auto simp: room_for_def peers)
    ultimately show ?thesis
      using wr rec i(1) kn co by simp
  qed
  then show "map fst (peers g') = map fst (peers g)" "knowing h g' = knowing h g \<union> ({p} \<inter> connected g)"
    "written g' = written g @ (if p \<in> connected g - knowing h g then [(p, NetworkDkgMessage m)] else [])"
    "room_for h g'" "receiving g' = receiving g"
    by blast+
qed

lemma connected_cong: "map fst (peers g') = map fst (peers g) \<Longrightarrow> connected g' = connected g"
  by (simp add: connected_def flip: set_map)

lemma send_all_effect:
  fixes h y ps m g
  assumes "room_for h g" and "h = message_hash (net_wire y) m" and "distinct ps"
  defines "g' \<equiv> fold (\<lambda>p. send_signed_dkg_message y p m) ps g"
  shows "map fst (peers g') = map fst (peers g)" and "knowing h g' = knowing h g \<union> (set ps \<inter> connected g)"
    and "written g' = written g @ map (\<lambda>p. (p, NetworkDkgMessage m)) (filter (\<lambda>p. p \<in> connected g - knowing h g) ps)"
    and "room_for h g'" and "receiving g' = receiving g"
proof -
  have "map fst (peers g') = map fst (peers g) \<and> knowing h g' = knowing h g \<union> (set ps \<inter> connected g) \<and>
    written g' = written g @ map (\<lambda>p. (p, NetworkDkgMessage m)) (filter (\<lambda>p. p \<in> connected g - knowing h g) ps) \<and>
    room_for h g' \<and> receiving g' = receiving g"
    using assms(1,3) unfolding g'_def
  proof (induction ps arbitrary: g)
    case (Cons p ps)
    let ?g = "send_signed_dkg_message y p m g"
    note se = send_effect [OF Cons.prems(1) assms(2), of p]
    note cc = connected_cong [OF se(1)]
    have "filter (\<lambda>q. q \<in> connected ?g - knowing h ?g) ps = filter (\<lambda>q. q \<in> connected g - knowing h g) ps"
      using Cons.prems(2) by (intro filter_cong) (auto simp: cc se(2))
    with Cons.IH [OF se(4)] Cons.prems(2) show ?case
      by (auto simp: se cc)
  qed simp
  then show "map fst (peers g') = map fst (peers g)" "knowing h g' = knowing h g \<union> (set ps \<inter> connected g)"
    "written g' = written g @ map (\<lambda>p. (p, NetworkDkgMessage m)) (filter (\<lambda>p. p \<in> connected g - knowing h g) ps)"
    "room_for h g'" "receiving g' = receiving g"
    by blast+
qed

text \<open>A gossiped message goes once to each peer that is not known to have it.\<close>

lemma gossip_effect:
  fixes h y m g
  assumes "room_for h g" and "h = message_hash (net_wire y) m" and "distinct (map fst (peers g))"
  defines "g' \<equiv> gossip_dkg_signed_message y m g"
  obtains L where "distinct L" and "set L = connected g - knowing h g"
    and "written g' = written g @ map (\<lambda>p. (p, NetworkDkgMessage m)) L"
    and "map fst (peers g') = map fst (peers g)" and "knowing h g' = connected g" and "room_for h g'" and "receiving g' = receiving g"
proof -
  define first where "first = (case (case recipient_id (sd_msg m) of Some r \<Rightarrow> authority_id_to_peer_id g r | None \<Rightarrow> None) of
    Some p \<Rightarrow> [p] | None \<Rightarrow> [])"
  define g1 where "g1 = fold (\<lambda>p. send_signed_dkg_message y p m) first g"
  have "distinct first"
    by (auto simp: first_def split: option.splits)
  note e1 = send_all_effect [OF assms(1,2) this, folded g1_def]
  have g': "g' = fold (\<lambda>p. send_signed_dkg_message y p m) (map fst (peers g)) g1"
  proof -
    have "(case (case recipient_id (sd_msg m) of Some r \<Rightarrow> authority_id_to_peer_id g r | None \<Rightarrow> None) of
        Some p \<Rightarrow> send_signed_dkg_message y p m g | None \<Rightarrow> g) = g1"
      by (simp add: g1_def first_def split: option.splits)
    then show ?thesis
      by (simp add: g'_def gossip_dkg_signed_message_def Let_def e1(1))
  qed
  note e2 = send_all_effect [OF e1(4) assms(2,3), folded g']
  note cc = connected_cong [OF e1(1)]
  define L where "L = filter (\<lambda>p. p \<in> connected g - knowing h g) first @ filter (\<lambda>p. p \<in> connected g1 - knowing h g1) (map fst (peers g))"
  have co: "connected g = set (map fst (peers g))"
    by (simp add: connected_def)
  show thesis
  proof (rule that)
    show "distinct L"
      using \<open>distinct first\<close> assms(3) by (auto simp: L_def e1(2) cc)
    show "set L = connected g - knowing h g"
      using co by (auto simp: L_def e1(2) cc)
    show "written g' = written g @ map (\<lambda>p. (p, NetworkDkgMessage m)) L"
      by (simp add: e2(3) e1(3) L_def)
    show "map fst (peers g') = map fst (peers g)" "room_for h g'" "receiving g' = receiving g"
      by (simp_all add: e2 e1)
    show "knowing h g' = connected g"
      using co knowing_connected [of h g] by (auto simp: e2(2) e1(2) cc)
  qed
qed

lemma noted_effect:
  assumes "room_for h g" and "h = message_hash (net_wire y) m" and "who \<in> connected g"
  shows "map fst (peers (note_signed_dkg_message y who m g)) = map fst (peers g)" and "knowing h (note_signed_dkg_message y who m g) = insert who (knowing h g)"
    and "room_for h (note_signed_dkg_message y who m g)" and "written (note_signed_dkg_message y who m g) = written g"
    and "to_receiver (note_signed_dkg_message y who m g) = to_receiver g @ [m]" and "gossip_enabled (note_signed_dkg_message y who m g) = gossip_enabled g"
    and "authority_id_to_peer_id (note_signed_dkg_message y who m g) = authority_id_to_peer_id g"
proof -
  obtain q where q: "map_of (peers g) who = Some q"
    using assms(3) by (auto simp: connected_map_of)
  have room: "lru_room h (known_messages q)"
    using assms(1) q by (simp add: room_for_def)
  have "\<exists>q'. peers (note_signed_dkg_message y who m g) = AList.update who q' (peers g) \<and>
      known_messages q' = snd (lru_insert h () (known_messages q))"
  proof (cases "map_of (lru_inner (pending_messages_peers g)) h")
    case None
    then show ?thesis
      using q assms(2)
      by (intro exI [of _ "q\<lparr>known_messages := snd (lru_insert h () (known_messages q))\<rparr>"])
        (simp add: note_signed_dkg_message_def Let_def report_peer_def lru_set_insert_def)
  next
    case (Some senders)
    let ?p = "q\<lparr>known_messages := snd (lru_insert h () (known_messages q))\<rparr>"
    let ?old = "case lru_get h (message_counter q) of Some n \<Rightarrow> n | None \<Rightarrow> 0"
    show ?thesis
      using q assms(2) Some
      by (intro exI [of _ "if who \<notin> senders then ?p else ?p\<lparr>message_counter := snd (lru_insert h (?old + 1) (message_counter q))\<rparr>"])
        (simp add: note_signed_dkg_message_def Let_def report_peer_def lru_set_insert_def)
  qed
  then obtain q' where q': "peers (note_signed_dkg_message y who m g) = AList.update who q' (peers g)"
    "known_messages q' = snd (lru_insert h () (known_messages q))" by blast
  show "map fst (peers (note_signed_dkg_message y who m g)) = map fst (peers g)"
    using connected_update [OF q] by (simp add: q')
  show "knowing h (note_signed_dkg_message y who m g) = insert who (knowing h g)"
    using q' lru_insert_room(2) [OF room, of "()"] by (auto simp: knowing_def split: if_splits)
  show "room_for h (note_signed_dkg_message y who m g)"
    using assms(1) q' lru_insert_room(3) [OF room, of "()"] by (auto simp: room_for_def)
  show "written (note_signed_dkg_message y who m g) = written g" "to_receiver (note_signed_dkg_message y who m g) = to_receiver g @ [m]"
    "gossip_enabled (note_signed_dkg_message y who m g) = gossip_enabled g" "authority_id_to_peer_id (note_signed_dkg_message y who m g) = authority_id_to_peer_id g"
    using q by (simp_all add: note_signed_dkg_message_def Let_def report_peer_def split: option.splits)
qed

lemma receive_effect:
  fixes h y who m g
  assumes "room_for h g" and "h = message_hash (net_wire y) m" and "distinct (map fst (peers g))" and "who \<in> connected g"
    and "gossip_enabled g"
  defines "g' \<equiv> on_signed_dkg_message y who m g"
  obtains L where "distinct L" and "set L = connected g - knowing h g - {who}"
    and "written g' = written g @ map (\<lambda>p. (p, NetworkDkgMessage m)) L" and "to_receiver g' = to_receiver g @ [m]"
    and "map fst (peers g') = map fst (peers g)" and "knowing h g' = connected g" and "room_for h g'" and "gossip_enabled g'"
proof -
  note ne = noted_effect [OF assms(1,2,4)]
  note cc = connected_cong [OF ne(1)]
  have "distinct (map fst (peers (note_signed_dkg_message y who m g)))"
    using assms(3) by (simp add: ne(1))
  note ge = gossip_effect [OF ne(3) assms(2) this]
  have g': "g' = gossip_dkg_signed_message y m (note_signed_dkg_message y who m g)"
    using assms(5) ne(6) by (simp add: g'_def on_signed_dkg_message_def)
  from ge obtain L where L: "distinct L"
    "set L = connected (note_signed_dkg_message y who m g) - knowing h (note_signed_dkg_message y who m g)"
    "written g' = written (note_signed_dkg_message y who m g) @ map (\<lambda>p. (p, NetworkDkgMessage m)) L"
    "map fst (peers g') = map fst (peers (note_signed_dkg_message y who m g))"
    "knowing h g' = connected (note_signed_dkg_message y who m g)" "room_for h g'"
    "receiving g' = receiving (note_signed_dkg_message y who m g)"
    unfolding g' by blast
  show thesis
    by (rule that [of L]) (use L ne cc assms(5) in \<open>auto simp: receiving_def\<close>)
qed

end
