(* ===== verification/Gossip_Network.thy ===== *)
theory Gossip_Network
  imports Gossip_Correct
begin

text \<open>
  A network of gossip handlers and the spreading of one message through it. The notifications a handler
  writes are in flight until the peer they are for handles them; any of them may be next.
\<close>

section \<open>The network\<close>

record flood =
  node :: "peer_id \<Rightarrow> gossip_handler"
  in_flight :: "(peer_id \<times> peer_id) list"

text \<open>The peers a handler wrote to between two states.\<close>

definition new_targets :: "gossip_handler \<Rightarrow> gossip_handler \<Rightarrow> peer_id list" where
  "new_targets g g' = map fst (drop (length (written g)) (written g'))"

definition flood_at :: "peer_id \<Rightarrow> gossip_handler \<Rightarrow> flood \<Rightarrow> flood" where
  "flood_at u g' N = \<lparr>node = (node N)(u := g'), in_flight = in_flight N @ map (\<lambda>v. (u, v)) (new_targets (node N u) g')\<rparr>"

definition flood_start :: "net \<Rightarrow> signed_dkg_message \<Rightarrow> peer_id \<Rightarrow> flood \<Rightarrow> flood" where
  "flood_start y m s N = flood_at s (gossip_dkg_signed_message y m (node N s)) N"

inductive flood_step :: "net \<Rightarrow> signed_dkg_message \<Rightarrow> flood \<Rightarrow> flood \<Rightarrow> bool" for y m where
  deliver: "(u, v) \<in> set (in_flight N) \<Longrightarrow>
    flood_step y m N (flood_at v (on_signed_dkg_message y u m (node N v)) (N\<lparr>in_flight := remove1 (u, v) (in_flight N)\<rparr>))"

inductive_cases flood_stepE: "flood_step y m N N'"

text \<open>
  The nodes \<open>V\<close> are connected to each other, in both directions, forward what they receive, have room
  for one more message, and do not know this one.
\<close>

definition quiet_network :: "peer_id set \<Rightarrow> hash256 \<Rightarrow> flood \<Rightarrow> bool" where
  "quiet_network V h N \<longleftrightarrow>
     finite V \<and> in_flight N = [] \<and>
     (\<forall>u \<in> V. distinct (map fst (peers (node N u))) \<and> connected (node N u) \<subseteq> V - {u} \<and>
        (\<forall>v \<in> connected (node N u). u \<in> connected (node N v)) \<and>
        gossip_enabled (node N u) \<and> room_for h (node N u) \<and> knowing h (node N u) = {} \<and> to_receiver (node N u) = [])"

section \<open>The invariant\<close>

definition informed :: "signed_dkg_message \<Rightarrow> peer_id \<Rightarrow> flood \<Rightarrow> peer_id \<Rightarrow> bool" where
  "informed m s N u \<longleftrightarrow> u = s \<or> m \<in> set (to_receiver (node N u))"

definition node_ok :: "peer_id set \<Rightarrow> hash256 \<Rightarrow> (peer_id \<Rightarrow> peer_id set) \<Rightarrow> signed_dkg_message \<Rightarrow> peer_id \<Rightarrow> flood \<Rightarrow> peer_id \<Rightarrow> bool" where
  "node_ok V h C m s N u \<longleftrightarrow>
     distinct (map fst (peers (node N u))) \<and> connected (node N u) = C u \<and> gossip_enabled (node N u) \<and> room_for h (node N u) \<and>
     knowing h (node N u) = (if informed m s N u then C u else {})"

definition flood_inv :: "peer_id set \<Rightarrow> hash256 \<Rightarrow> (peer_id \<Rightarrow> peer_id set) \<Rightarrow> signed_dkg_message \<Rightarrow> peer_id \<Rightarrow> flood \<Rightarrow> bool" where
  "flood_inv V h C m s N \<longleftrightarrow>
     (\<forall>u \<in> V. node_ok V h C m s N u) \<and>
     (\<forall>(u, v) \<in> set (in_flight N). u \<in> V \<and> v \<in> C u \<and> informed m s N u) \<and>
     (\<forall>u \<in> V. \<forall>v \<in> C u. informed m s N u \<longrightarrow> informed m s N v \<or> (u, v) \<in> set (in_flight N))"

definition links_ok :: "peer_id set \<Rightarrow> (peer_id \<Rightarrow> peer_id set) \<Rightarrow> bool" where
  "links_ok V C \<longleftrightarrow> finite V \<and> (\<forall>u \<in> V. C u \<subseteq> V - {u} \<and> (\<forall>v \<in> C u. u \<in> C v))"

text \<open>The deliveries that can still happen.\<close>

definition flood_measure :: "peer_id set \<Rightarrow> (peer_id \<Rightarrow> peer_id set) \<Rightarrow> signed_dkg_message \<Rightarrow> peer_id \<Rightarrow> flood \<Rightarrow> nat" where
  "flood_measure V C m s N = length (in_flight N) + (\<Sum>u \<in> {u \<in> V. \<not> informed m s N u}. card (C u))"

lemma flood_start_inv:
  assumes "quiet_network V h N" and "s \<in> V" and "h = message_hash (net_wire y) m"
  defines "C \<equiv> \<lambda>u. connected (node N u)"
  shows "flood_inv V h C m s (flood_start y m s N)" and "links_ok V C"
    and "flood_measure V C m s (flood_start y m s N) = (\<Sum>u \<in> V. card (C u))"
proof -
  let ?g = "node N s" and ?N = "flood_start y m s N"
  have q: "distinct (map fst (peers (node N u)))" "C u \<subseteq> V - {u}" "\<forall>v \<in> C u. u \<in> C v" "gossip_enabled (node N u)"
    "room_for h (node N u)" "knowing h (node N u) = {}" "to_receiver (node N u) = []" if "u \<in> V" for u
    using assms(1) that by (auto simp: quiet_network_def C_def)
  have fin: "finite V" and nf: "in_flight N = []"
    using assms(1) by (simp_all add: quiet_network_def)
  show "links_ok V C"
    using q fin by (auto simp: links_ok_def)
  obtain L where L: "distinct L" "set L = connected ?g - knowing h ?g"
    "written (gossip_dkg_signed_message y m ?g) = written ?g @ map (\<lambda>p. (p, NetworkDkgMessage m)) L"
    "map fst (peers (gossip_dkg_signed_message y m ?g)) = map fst (peers ?g)"
    "knowing h (gossip_dkg_signed_message y m ?g) = connected ?g" "room_for h (gossip_dkg_signed_message y m ?g)"
    "receiving (gossip_dkg_signed_message y m ?g) = receiving ?g"
    by (rule gossip_effect [OF q(5) [OF assms(2)] assms(3) q(1) [OF assms(2)]])
  have nt: "new_targets ?g (gossip_dkg_signed_message y m ?g) = L"
    by (simp add: new_targets_def L(3) comp_def)
  have fl: "in_flight ?N = map (\<lambda>v. (s, v)) L"
    by (simp add: flood_start_def flood_at_def nf nt)
  have nd: "node ?N = (node N)(s := gossip_dkg_signed_message y m ?g)"
    by (simp add: flood_start_def flood_at_def)
  have inf: "informed m s ?N u \<longleftrightarrow> u = s" if "u \<in> V" for u
    using q(7) [OF that] by (auto simp: informed_def nd)
  have setL: "set L = C s"
    using L(2) q(6) [OF assms(2)] by (simp add: C_def)
  have "node_ok V h C m s ?N u" if "u \<in> V" for u
  proof (cases "u = s")
    case True
    then show ?thesis
      using L(4-7) q [OF assms(2)] inf [OF that] connected_cong [OF L(4)] by (simp add: node_ok_def nd C_def receiving_def)
  next
    case False
    then show ?thesis
      using q [OF that] inf [OF that] by (simp add: node_ok_def nd C_def)
  qed
  moreover have "C s \<subseteq> V"
    using q(2) [OF assms(2)] by auto
  ultimately show "flood_inv V h C m s ?N"
    using inf assms(2) setL by (auto simp: flood_inv_def fl)
  have "{u \<in> V. \<not> informed m s ?N u} = V - {s}"
    using inf by auto
  moreover have "length L = card (C s)"
    using L(1) setL distinct_card by metis
  ultimately show "flood_measure V C m s ?N = (\<Sum>u \<in> V. card (C u))"
    using fin assms(2) by (simp add: flood_measure_def fl sum.remove)
qed

lemma flood_step_inv:
  assumes "flood_inv V h C m s N" and "links_ok V C" and "h = message_hash (net_wire y) m" and "flood_step y m N N'"
  shows "flood_inv V h C m s N' \<and> flood_measure V C m s N' < flood_measure V C m s N"
proof -
  obtain u v where uv: "(u, v) \<in> set (in_flight N)"
    and N': "N' = flood_at v (on_signed_dkg_message y u m (node N v)) (N\<lparr>in_flight := remove1 (u, v) (in_flight N)\<rparr>)"
    using assms(4) by (auto elim: flood_stepE)
  let ?g = "node N v" and ?g' = "on_signed_dkg_message y u m (node N v)"
  have u: "u \<in> V" "v \<in> C u" "informed m s N u"
    using assms(1) uv by (auto simp: flood_inv_def)
  then have v: "v \<in> V" "u \<in> C v" "u \<noteq> v"
    using assms(2) by (auto simp: links_ok_def)
  have ok: "node_ok V h C m s N w" if "w \<in> V" for w
    using assms(1) that by (simp add: flood_inv_def)
  from ok [OF v(1)] have g: "distinct (map fst (peers ?g))" "connected ?g = C v" "gossip_enabled ?g" "room_for h ?g"
    "knowing h ?g = (if informed m s N v then C v else {})" by (simp_all add: node_ok_def)
  obtain L where L: "distinct L" "set L = connected ?g - knowing h ?g - {u}"
    "written ?g' = written ?g @ map (\<lambda>p. (p, NetworkDkgMessage m)) L" "to_receiver ?g' = to_receiver ?g @ [m]"
    "map fst (peers ?g') = map fst (peers ?g)" "knowing h ?g' = connected ?g" "room_for h ?g'" "gossip_enabled ?g'"
    by (rule receive_effect [OF g(4) assms(3) g(1) _ g(3)]) (use g(2) v(2) in auto)
  have fl: "in_flight N' = remove1 (u, v) (in_flight N) @ map (\<lambda>w. (v, w)) L"
    by (simp add: N' flood_at_def new_targets_def L(3) comp_def)
  have nd: "node N' = (node N)(v := ?g')"
    by (simp add: N' flood_at_def)
  have inf: "informed m s N' w \<longleftrightarrow> informed m s N w \<or> w = v" for w
    by (auto simp: informed_def nd L(4))
  have "node_ok V h C m s N' w" if "w \<in> V" for w
    using ok [OF that] g L connected_cong [OF L(5)] inf by (cases "w = v") (simp_all add: node_ok_def nd)
  moreover have "a \<in> V \<and> b \<in> C a \<and> informed m s N' a" if "(a, b) \<in> set (in_flight N')" for a b
    using that assms(1) set_remove1_subset [of "(u, v)" "in_flight N"] L(2) g(2) v(1) inf by (auto simp: fl flood_inv_def)
  moreover have "informed m s N' b \<or> (a, b) \<in> set (in_flight N')" if ab: "a \<in> V" "b \<in> C a" "informed m s N' a" for a b
  proof (cases "informed m s N a")
    case True
    then have "informed m s N b \<or> (a, b) \<in> set (in_flight N)"
      using ab assms(1) by (auto simp: flood_inv_def)
    then show ?thesis
      using inf by (auto simp: fl in_set_remove1)
  next
    case False
    then have "a = v" "\<not> informed m s N v"
      using ab(3) inf by auto
    then show ?thesis
      using ab(2) L(2) g(2,5) u(3) inf by (auto simp: fl)
  qed
  ultimately have inv: "flood_inv V h C m s N'"
    by (auto simp: flood_inv_def)
  have len: "length (remove1 (u, v) (in_flight N)) = length (in_flight N) - 1" "0 < length (in_flight N)"
    using uv by (auto simp: length_remove1 intro: length_pos_if_in_set)
  have fin: "finite V" "finite (C v)"
    using assms(2) v(1) by (auto simp: links_ok_def intro: finite_subset)
  have "flood_measure V C m s N' < flood_measure V C m s N"
  proof (cases "informed m s N v")
    case True
    then have "{w \<in> V. \<not> informed m s N' w} = {w \<in> V. \<not> informed m s N w}" "L = []"
      using inf L(2) g(2,5) by auto
    then show ?thesis
      using len by (simp add: flood_measure_def fl)
  next
    case False
    then have eq: "{w \<in> V. \<not> informed m s N w} = insert v {w \<in> V. \<not> informed m s N' w}"
      using inf v(1) by auto
    have "length L = card (C v - {u})"
      using False L(1,2) g(2,5) distinct_card [OF L(1)] by simp
    then have "Suc (length L) = card (C v)"
      using v(2) fin(2) by (simp add: card_gt_0_iff) (metis card_gt_0_iff empty_iff Suc_pred)
    moreover have "(\<Sum>w \<in> {w \<in> V. \<not> informed m s N w}. card (C w)) = card (C v) + (\<Sum>w \<in> {w \<in> V. \<not> informed m s N' w}. card (C w))"
      unfolding eq by (rule sum.insert) (use fin inf in auto)
    ultimately show ?thesis
      using len by (simp add: flood_measure_def fl)
  qed
  with inv show ?thesis by blast
qed

lemma flood_run:
  assumes "flood_inv V h C m s N" and "links_ok V C" and "h = message_hash (net_wire y) m" and "(flood_step y m ^^ k) N N'"
  shows "flood_inv V h C m s N'" and "flood_measure V C m s N' + k \<le> flood_measure V C m s N"
proof -
  have "flood_inv V h C m s N' \<and> flood_measure V C m s N' + k \<le> flood_measure V C m s N"
    using assms(4)
  proof (induction k arbitrary: N')
    case 0
    with assms(1) show ?case by simp
  next
    case (Suc k)
    then obtain M where M: "(flood_step y m ^^ k) N M" "flood_step y m M N'" by auto
    with Suc.IH [OF M(1)] flood_step_inv [OF _ assms(2,3) M(2)] show ?case by fastforce
  qed
  then show "flood_inv V h C m s N'" "flood_measure V C m s N' + k \<le> flood_measure V C m s N" by auto
qed

lemma quiet_informed:
  assumes "flood_inv V h C m s N" and "links_ok V C" and "s \<in> V" and "in_flight N = []"
    and "(s, v) \<in> {(a, b). a \<in> V \<and> b \<in> C a}\<^sup>*"
  shows "v \<in> V \<and> informed m s N v"
  using assms(5)
proof induction
  case base
  show ?case using assms(3) by (simp add: informed_def)
next
  case (step a b)
  then show ?case
    using assms(1,2,4) by (auto simp: flood_inv_def links_ok_def)
qed

end
