(* ===== verification/Gossip_Properties.thy ===== *)
theory Gossip_Properties
  imports Gossip_Network
begin

text \<open>
  The properties of the gossip engine.
\<close>

section \<open>Sample data\<close>

definition sample_net :: net where
  "sample_net =
     \<lparr>net_wire = \<lparr>encode_message = (\<lambda>m. sender_id m), encode_vote = (\<lambda>v. partial_signature v), encode_public_key = (\<lambda>p. pk_pub_key p),
        encode_misbehaviour = (\<lambda>b. mm_offender b), hash_of = take 32\<rparr>,
      net_keccak_256 = take 32, peer_id_from_bytes = Some, verify_prehashed = (\<lambda>s h a. s = h),
      store_public_keys = [[11]], store_has_key = (\<lambda>k. k = [11]), store_sign_prehashed = (\<lambda>k h. Some h)\<rparr>"

definition sample_keygen_message :: "bytes \<Rightarrow> bytes option \<Rightarrow> signed_dkg_message" where
  "sample_keygen_message sender sig =
     \<lparr>sd_msg = \<lparr>sender_id = sender, recipient_id = None, msg_payload = KeygenPayload
        \<lparr>km_sender_id = 1, keygen_msg = [5], km_protocol_hash = [9]\<rparr>, msg_session_id = 3, msg_block_id = 4, msg_ssid = 0\<rparr>,
      sd_signature = sig\<rparr>"

definition sample_gossip_handler :: "peer_id \<Rightarrow> peer_id list \<Rightarrow> gossip_handler" where
  "sample_gossip_handler me others = (build me)\<lparr>peers := map (\<lambda>p. (p, new_peer)) others, gossip_enabled := True\<rparr>"

lemma sample_gossip_handler_simps [simp]:
  "connected (sample_gossip_handler me others) = set others" "gossip_enabled (sample_gossip_handler me others)"
  "knowing h (sample_gossip_handler me others) = {}" "room_for h (sample_gossip_handler me others)"
  "to_receiver (sample_gossip_handler me others) = []" "map fst (peers (sample_gossip_handler me others)) = others"
  "written (sample_gossip_handler me others) = []" "lru_inner (pending_messages_peers (sample_gossip_handler me others)) = []"
proof -
  have mo: "map_of (map (\<lambda>p. (p, c)) others) p = (if p \<in> set others then Some c else None)" for p :: peer_id and c :: peer
    by (induction others) auto
  show "connected (sample_gossip_handler me others) = set others" "gossip_enabled (sample_gossip_handler me others)"
    "knowing h (sample_gossip_handler me others) = {}" "room_for h (sample_gossip_handler me others)"
    "to_receiver (sample_gossip_handler me others) = []" "map fst (peers (sample_gossip_handler me others)) = others"
    "written (sample_gossip_handler me others) = []" "lru_inner (pending_messages_peers (sample_gossip_handler me others)) = []"
    by (auto simp: sample_gossip_handler_def build_def connected_def knowing_def room_for_def lru_keys_def lru_room_def
        new_peer_def lru_new_def MAX_KNOWN_MESSAGES_def comp_def image_image mo split: if_splits)
qed

lemma sample_message_hash [simp]: "message_hash (net_wire sample_net) (sample_keygen_message sender sig) = [5]"
  by (simp add: message_hash_def sample_keygen_message_def sample_net_def)

section \<open>Flooding\<close>

text \<open>
  C25. A gossiped message reaches the whole network, and the flood ends. In a network of nodes that forward
  what they receive, connected in both directions and with room for the message, a node gossips a
  message. However the deliveries are interleaved, there are at most as many as there are directed
  links, and when none is left every node that is linked to the first one, over any number of
  others, has the message.
\<close>

theorem gossip_floods_the_network:
  assumes "quiet_network V (message_hash (net_wire y) m) N" and "s \<in> V" and "(flood_step y m ^^ k) (flood_start y m s N) N'"
  shows "k \<le> (\<Sum>u \<in> V. card (connected (node N u))) \<and>
    (in_flight N' = [] \<longrightarrow> (\<forall>v. (s, v) \<in> {(a, b). a \<in> V \<and> b \<in> connected (node N a)}\<^sup>* \<longrightarrow> v \<noteq> s \<longrightarrow>
       m \<in> set (to_receiver (node N' v))))"
proof -
  note st = flood_start_inv [OF assms(1,2) refl]
  note run = flood_run [OF st(1,2) refl assms(3)]
  from run(2) st(3) have "k \<le> (\<Sum>u \<in> V. card (connected (node N u)))" by simp
  moreover have "m \<in> set (to_receiver (node N' v))"
    if "in_flight N' = []" "(s, v) \<in> {(a, b). a \<in> V \<and> b \<in> connected (node N a)}\<^sup>*" "v \<noteq> s" for v
    using quiet_informed [OF run(1) st(2) assms(2) that(1,2)] that(3) by (simp add: informed_def)
  ultimately show ?thesis by blast
qed

definition sample_network :: flood where
  "sample_network = \<lparr>node = (\<lambda>u. sample_gossip_handler u (if u = [1] then [[2]] else [[1]])), in_flight = []\<rparr>"

lemma sample_quiet: "quiet_network {[1], [2]} h sample_network"
  by (simp add: quiet_network_def sample_network_def)

lemmas gossip_eval = flood_start_def flood_at_def new_targets_def sample_network_def gossip_dkg_signed_message_def
  send_signed_dkg_message_def on_signed_dkg_message_def note_signed_dkg_message_def sample_gossip_handler_def build_def
  new_peer_def lru_new_def lru_set_insert_def lru_insert_def write_notification_def report_peer_def MAX_KNOWN_MESSAGES_def

theorem gossip_floods_the_network_witness:
  "sample_keygen_message [11] None \<in> set (to_receiver (node (flood_at [2]
     (on_signed_dkg_message sample_net [1] (sample_keygen_message [11] None)
       (node (flood_start sample_net (sample_keygen_message [11] None) [1] sample_network) [2]))
     ((flood_start sample_net (sample_keygen_message [11] None) [1] sample_network)\<lparr>in_flight := []\<rparr>)) [2]))"
proof -
  let ?m = "sample_keygen_message [11] None"
  let ?N = "flood_start sample_net ?m [1] sample_network"
  let ?N' = "flood_at [2] (on_signed_dkg_message sample_net [1] ?m (node ?N [2])) (?N\<lparr>in_flight := []\<rparr>)"
  have r: "recipient_id (sd_msg ?m) = None"
    by (simp add: sample_keygen_message_def)
  have fl: "in_flight ?N = [([1], [2])]"
    by (simp add: gossip_eval r Let_def)
  then have "flood_step sample_net ?m ?N (flood_at [2] (on_signed_dkg_message sample_net [1] ?m (node ?N [2]))
      (?N\<lparr>in_flight := remove1 ([1], [2]) (in_flight ?N)\<rparr>))"
    by (intro deliver) simp
  then have step: "(flood_step sample_net ?m ^^ 1) ?N ?N'"
    by (simp only: relpowp_1 fl) simp
  have "in_flight ?N' = []"
    by (simp add: gossip_eval r Let_def)
  moreover have "([1], [2]) \<in> {(a, b). a \<in> {[1], [2]} \<and> b \<in> connected (node sample_network a)}\<^sup>*"
    by (rule r_into_rtrancl) (simp add: sample_network_def)
  ultimately show ?thesis
    using gossip_floods_the_network [OF sample_quiet _ step] by simp
qed

section \<open>Forwarding\<close>

text \<open>
  A node that receives a message passes it on to the worker and forwards it, once, to precisely the peers
  that are not known to have it, and never back to the peer it came from.
\<close>

lemma forwarding_is_exact:
  assumes "room_for (message_hash (net_wire y) m) g" and "distinct (map fst (peers g))" and "who \<in> connected g" and "gossip_enabled g"
  shows "\<exists>L. distinct L \<and> set L = connected g - knowing (message_hash (net_wire y) m) g - {who} \<and>
    written (on_signed_dkg_message y who m g) = written g @ map (\<lambda>p. (p, NetworkDkgMessage m)) L \<and>
    to_receiver (on_signed_dkg_message y who m g) = to_receiver g @ [m]"
  using receive_effect [OF assms(1) refl assms(2-4)] by metis

text \<open>
  A forged copy stops the original. The hash by which a node remembers a key generation message covers the
  inner bytes only, not the sender, the session or the signature. When a node has forwarded a copy
  with another signature it forwards the original, when that arrives from another peer, to nobody,
  although no peer has been sent it: the peers behind this node never get it from there.
\<close>

theorem forged_copy_stops_the_original:
  assumes "msg_payload (sd_msg m) = KeygenPayload k" and "msg_payload (sd_msg forged) = KeygenPayload k'" and "keygen_msg k' = keygen_msg k"
    and "room_for (message_hash (net_wire y) m) g" and "distinct (map fst (peers g))" and "gossip_enabled g"
    and "w1 \<in> connected g" and "w2 \<in> connected g" and "forged \<noteq> m" and "p \<in> connected g" and "written g = []"
  shows "(p, NetworkDkgMessage m) \<notin> set (written (on_signed_dkg_message y w2 m (on_signed_dkg_message y w1 forged g)))"
proof -
  let ?h = "message_hash (net_wire y) m" and ?g = "on_signed_dkg_message y w1 forged g"
  have h: "?h = message_hash (net_wire y) forged"
    using assms(1-3) by (simp add: message_hash_def)
  obtain L where L: "written ?g = written g @ map (\<lambda>p. (p, NetworkDkgMessage forged)) L" "map fst (peers ?g) = map fst (peers g)"
    "knowing ?h ?g = connected g" "room_for ?h ?g" "gossip_enabled ?g"
    by (rule receive_effect [OF assms(4) h assms(5,7,6)]) blast
  have cc: "connected ?g = connected g"
    by (rule connected_cong [OF L(2)])
  have d: "distinct (map fst (peers ?g))"
    using assms(5) by (simp only: L(2))
  obtain L' where "set L' = connected ?g - knowing ?h ?g - {w2}"
    "written (on_signed_dkg_message y w2 m ?g) = written ?g @ map (\<lambda>p. (p, NetworkDkgMessage m)) L'"
    by (rule receive_effect [OF L(4) refl d _ L(5)]) (use assms(8) cc in auto)
  then show ?thesis
    using assms(9,11) by (auto simp: L cc)
qed

theorem forged_copy_stops_the_original_witness:
  "([4], NetworkDkgMessage (sample_keygen_message [11] (Some [1]))) \<notin>
     set (written (on_signed_dkg_message sample_net [3] (sample_keygen_message [11] (Some [1]))
       (on_signed_dkg_message sample_net [2] (sample_keygen_message [11] None) (sample_gossip_handler [1] [[2], [3], [4]]))))"
  by (rule forged_copy_stops_the_original [where k = "\<lparr>km_sender_id = 1, keygen_msg = [5], km_protocol_hash = [9]\<rparr>"
      and k' = "\<lparr>km_sender_id = 1, keygen_msg = [5], km_protocol_hash = [9]\<rparr>"])
    (simp_all, simp_all add: sample_keygen_message_def)

section \<open>Handshakes\<close>

text \<open>
  A refused handshake is recorded all the same. When a peer claims the identity of an authority with a
  handshake that is not valid, it is reported, and then the node maps the authority to this peer,
  in place of the peer that proved the identity before.
\<close>

theorem refused_handshake_is_recorded:
  assumes "handshake_is_valid y who m = Ok False \<or> handshake_is_valid y who m = Err InvalidPeerId"
  shows "authority_id_to_peer_id (on_handshake_message y who m g) (hs_authority_id m) = Some who \<and>
    (\<exists>r. r \<noteq> GoodMessage \<and> reports (on_handshake_message y who m g) = reports g @ [(who, r)])"
proof (cases "handshake_is_valid y who m")
  case (Ok b)
  with assms show ?thesis
    by (auto simp: on_handshake_message_def Let_def report_peer_def split: option.splits)
next
  case (Err e)
  with assms show ?thesis
    by (auto simp: on_handshake_message_def Let_def report_peer_def split: option.splits)
qed (use assms in simp)

theorem refused_handshake_is_recorded_witness:
  "authority_id_to_peer_id (on_handshake_message sample_net [66] \<lparr>hs_authority_id = [11], hs_peer_id = [66], hs_signature = []\<rparr>
     ((sample_gossip_handler [1] [[2], [66]])\<lparr>authority_id_to_peer_id := [[11] \<mapsto> [2]]\<rparr>)) [11] = Some [66]"
  using refused_handshake_is_recorded [of sample_net "[66]" "\<lparr>hs_authority_id = [11], hs_peer_id = [66], hs_signature = []\<rparr>"
      "(sample_gossip_handler [1] [[2], [66]])\<lparr>authority_id_to_peer_id := [[11] \<mapsto> [2]]\<rparr>"]
  by (simp add: handshake_is_valid_def sample_net_def)

section \<open>Bounds\<close>

text \<open>
  The memory for pending messages is not bounded. The map of pending messages is created with a limit, but
  receiving writes to the map inside it: after messages with different hashes from a connected peer
  it has an entry for each, however many there are.
\<close>

theorem pending_messages_are_not_bounded:
  assumes "distinct (map (message_hash (net_wire y)) ms)" and "who \<in> connected g" and "\<not> gossip_enabled g"
    and "set (map (message_hash (net_wire y)) ms) \<inter> fst ` set (lru_inner (pending_messages_peers g)) = {}"
  shows "length (lru_inner (pending_messages_peers (fold (on_signed_dkg_message y who) ms g))) =
    length (lru_inner (pending_messages_peers g)) + length ms"
  using assms
proof (induction ms arbitrary: g)
  case (Cons m ms)
  let ?h = "message_hash (net_wire y) m" and ?g = "on_signed_dkg_message y who m g"
  obtain q where q: "map_of (peers g) who = Some q"
    using Cons.prems(2) by (auto simp: connected_map_of)
  have "map_of (lru_inner (pending_messages_peers g)) ?h = None"
    using Cons.prems(4) by (auto simp: map_of_eq_None_iff)
  then have g: "lru_inner (pending_messages_peers ?g) = lru_inner (pending_messages_peers g) @ [(?h, {who})]"
    "gossip_enabled ?g = gossip_enabled g" "who \<in> connected ?g"
    using q Cons.prems(3) by (simp_all add: on_signed_dkg_message_def note_signed_dkg_message_def Let_def report_peer_def connected_map_of)
  have "length (lru_inner (pending_messages_peers (fold (on_signed_dkg_message y who) ms ?g))) =
      length (lru_inner (pending_messages_peers ?g)) + length ms"
    by (rule Cons.IH) (use Cons.prems g in auto)
  then show ?case
    by (simp add: g(1))
qed simp

theorem pending_messages_are_not_bounded_witness:
  "length (lru_inner (pending_messages_peers (fold (on_signed_dkg_message sample_net [2]) [sample_keygen_message [11] None]
     ((sample_gossip_handler [1] [[2]])\<lparr>gossip_enabled := False, pending_messages_peers := lru_new 1\<rparr>)))) = 1"
proof -
  have "[2] \<in> connected ((sample_gossip_handler [1] [[2]])\<lparr>gossip_enabled := False, pending_messages_peers := lru_new 1\<rparr>)"
    by (simp add: connected_def sample_gossip_handler_def)
  from pending_messages_are_not_bounded [OF _ this, of sample_net "[sample_keygen_message [11] None]"] show ?thesis
    by (simp add: lru_new_def)
qed

text \<open>The memory for the messages of a peer, on the other hand, keeps its limit.\<close>

definition bounded_peer :: "peer \<Rightarrow> bool" where
  "bounded_peer q \<longleftrightarrow> lru_ok (known_messages q) \<and> lru_limit (known_messages q) = MAX_KNOWN_MESSAGES \<and>
     lru_ok (message_counter q) \<and> lru_limit (message_counter q) = MAX_KNOWN_MESSAGES"

definition bounded_peers :: "gossip_handler \<Rightarrow> bool" where
  "bounded_peers g \<longleftrightarrow> (\<forall>e \<in> set (peers g). bounded_peer (snd e))"

lemma bounded_peers_lookup: "\<lbrakk>bounded_peers g; map_of (peers g) p = Some q\<rbrakk> \<Longrightarrow> bounded_peer q"
  by (auto simp: bounded_peers_def dest!: map_of_SomeD)

lemma set_AList_update: "set (AList.update k v l) \<subseteq> insert (k, v) (set l)"
  by (induction l) auto

lemma bounded_peers_update:
  "\<lbrakk>bounded_peers g; bounded_peer q; peers g' = AList.update p q (peers g)\<rbrakk> \<Longrightarrow> bounded_peers g'"
  using set_AList_update [of p q "peers g"] by (fastforce simp: bounded_peers_def)

lemma bounded_peers_report: "bounded_peers (report_peer who r g) = bounded_peers g"
  by (simp add: bounded_peers_def report_peer_def)

lemma bounded_peer_known: "bounded_peer q \<Longrightarrow> bounded_peer (q\<lparr>known_messages := snd (lru_insert k v (known_messages q))\<rparr>)"
  using lru_insert_ok [of "known_messages q" k v] by (simp add: bounded_peer_def) (simp add: lru_insert_def Let_def)

lemma bounded_peer_counter: "bounded_peer q \<Longrightarrow> bounded_peer (q\<lparr>message_counter := snd (lru_insert k v (message_counter q))\<rparr>)"
  using lru_insert_ok [of "message_counter q" k v] by (simp add: bounded_peer_def) (simp add: lru_insert_def Let_def)

lemma bounded_new_peer: "bounded_peer new_peer"
  by (simp add: bounded_peer_def new_peer_def lru_ok_def lru_new_def MAX_KNOWN_MESSAGES_def)

lemma send_bounded:
  assumes "bounded_peers g"
  shows "bounded_peers (send_signed_dkg_message y p m g)"
proof (cases "map_of (peers g) p")
  case None
  with assms show ?thesis by (simp add: send_signed_dkg_message_def)
next
  case (Some q)
  show ?thesis
    by (rule bounded_peers_update [OF assms bounded_peer_known [OF bounded_peers_lookup [OF assms Some],
          where k = "message_hash (net_wire y) m"], where p = p])
      (simp add: send_signed_dkg_message_def Some lru_set_insert_def Let_def write_notification_def split: prod.splits)
qed

lemma gossip_bounded:
  assumes "bounded_peers g"
  shows "bounded_peers (gossip_dkg_signed_message y m g)"
proof -
  have f: "bounded_peers (fold (\<lambda>p. send_signed_dkg_message y p m) ps g)" if "bounded_peers g" for ps g
    using that by (induction ps arbitrary: g) (simp_all add: send_bounded)
  show ?thesis
    using assms by (auto simp: gossip_dkg_signed_message_def Let_def f send_bounded split: option.splits)
qed

lemma note_bounded:
  assumes "bounded_peers g"
  shows "bounded_peers (note_signed_dkg_message y who m g)"
proof (cases "map_of (peers g) who")
  case None
  with assms show ?thesis by (simp add: note_signed_dkg_message_def)
next
  case (Some q)
  let ?h = "message_hash (net_wire y) m"
  let ?q = "q\<lparr>known_messages := snd (lru_insert ?h () (known_messages q))\<rparr>"
  let ?old = "case lru_get ?h (message_counter q) of Some n \<Rightarrow> n | None \<Rightarrow> 0"
  let ?c = "?q\<lparr>message_counter := snd (lru_insert ?h (?old + 1) (message_counter ?q))\<rparr>"
  have q: "bounded_peer ?q"
    by (rule bounded_peer_known [OF bounded_peers_lookup [OF assms Some]])
  have c: "bounded_peer ?c"
    by (rule bounded_peer_counter [OF q])
  have "peers (note_signed_dkg_message y who m g) = AList.update who ?q (peers g) \<or>
      peers (note_signed_dkg_message y who m g) = AList.update who ?c (peers g)"
    by (simp add: note_signed_dkg_message_def Some lru_set_insert_def Let_def report_peer_def split: option.split)
  then show ?thesis
    using bounded_peers_update [OF assms q] bounded_peers_update [OF assms c] by blast
qed

lemma receive_bounded: "bounded_peers g \<Longrightarrow> bounded_peers (on_signed_dkg_message y who m g)"
  by (simp add: on_signed_dkg_message_def Let_def gossip_bounded note_bounded)

lemma handshake_bounded:
  assumes "bounded_peers g"
  shows "bounded_peers (on_handshake_message y who m g)"
proof (cases "map_of (peers g) who")
  case None
  then have "peers (on_handshake_message y who m g) = peers g"
    by (simp add: on_handshake_message_def Let_def report_peer_def split: result.split bool.split option.split)
  with assms show ?thesis by (simp add: bounded_peers_def)
next
  case (Some q)
  have "bounded_peer (q\<lparr>peer_authority_id := Some (hs_authority_id m)\<rparr>)"
    using bounded_peers_lookup [OF assms Some] by (simp add: bounded_peer_def)
  then show ?thesis
    by (rule bounded_peers_update [OF assms, where p = who])
      (simp add: on_handshake_message_def Some Let_def report_peer_def split: result.split bool.split)
qed

lemma receive_notifications_bounded: "bounded_peers g \<Longrightarrow> bounded_peers (receive_notifications y who ms g)"
  by (induction y who ms g rule: receive_notifications.induct)
    (simp_all add: bounded_peers_report handshake_bounded receive_bounded split: option.split dkg_network_message.split)

lemma event_bounded:
  assumes "bounded_peers g"
  shows "bounded_peers (snd (handle_network_event y ev g))"
proof (cases ev)
  case (NotificationStreamOpened p)
  have pe: "peers (snd (send_handshake_message y p g)) = peers g"
    by (simp add: send_handshake_message_def write_notification_def split: result.split)
  then have "bounded_peers (snd (send_handshake_message y p g))"
    using assms by (simp add: bounded_peers_def)
  moreover from this have "bounded_peers ((snd (send_handshake_message y p g))\<lparr>peers := AList.update p new_peer (peers (snd (send_handshake_message y p g)))\<rparr>)"
    by (rule bounded_peers_update [OF _ bounded_new_peer]) simp
  ultimately show ?thesis
    by (auto simp: NotificationStreamOpened split: prod.split result.split)
next
  case (NotificationStreamClosed p)
  have "set (AList.delete p (peers g)) \<subseteq> set (peers g)"
    by (auto simp: AList.delete_eq)
  with assms show ?thesis
    by (auto simp: NotificationStreamClosed bounded_peers_def Let_def split: option.split)
next
  case (NotificationsReceived p ms)
  with assms show ?thesis by (simp add: receive_notifications_bounded)
qed

text \<open>
  C26. What a node remembers of a peer is bounded. Whatever events of the network a new node handles, in whatever
  order and with whatever messages of its own in between, it remembers fewer than \<open>MAX_KNOWN_MESSAGES\<close>
  messages and fewer than \<open>MAX_KNOWN_MESSAGES\<close> counters of each peer.
\<close>

theorem known_messages_are_bounded:
  assumes "(p, q) \<in> set (peers (fold (\<lambda>step g. case step of Inl ev \<Rightarrow> snd (handle_network_event y ev g)
             | Inr m \<Rightarrow> gossip_dkg_signed_message y m g) steps (build me)))"
  shows "length (lru_inner (known_messages q)) < MAX_KNOWN_MESSAGES \<and> length (lru_inner (message_counter q)) < MAX_KNOWN_MESSAGES"
proof -
  have run: "bounded_peers (fold (\<lambda>step g. case step of Inl ev \<Rightarrow> snd (handle_network_event y ev g)
      | Inr m \<Rightarrow> gossip_dkg_signed_message y m g) steps g)" if "bounded_peers g" for g
    using that by (induction steps arbitrary: g) (auto simp: event_bounded gossip_bounded split: sum.split)
  have "bounded_peers (build me)"
    by (simp add: bounded_peers_def build_def)
  from run [OF this] assms have "bounded_peer q"
    by (fastforce simp only: bounded_peers_def snd_conv)
  then show ?thesis
    by (simp add: bounded_peer_def lru_ok_def)
qed

theorem known_messages_are_bounded_witness:
  "length (lru_inner (known_messages new_peer)) < MAX_KNOWN_MESSAGES"
  using known_messages_are_bounded [of "[2]" new_peer sample_net "[Inl (NotificationStreamOpened [2])]" "[1]"]
  by (simp add: send_handshake_message_def handshake_try_new_def get_authority_public_key_def keystore_authority_id_def
      keystore_sign_def sample_net_def write_notification_def build_def)

end
