(* ===== verification/Dkg_Worker.thy ===== *)
theory Dkg_Worker
  imports Keygen_Manager Gossip_Engine Metadata_Offchain
begin

text \<open>
  The worker of a node (\<open>dkg-gadget/src/worker.rs\<close>): what it does at a finalized block, with a message of
  another node and with an error of a protocol, and the handlers it calls
  (\<open>gossip_messages/public_key_gossip.rs\<close>, \<open>gossip_messages/misbehaviour_report.rs\<close>,
  \<open>gossip_messages/dkg_message.rs\<close>, \<open>storage/public_keys.rs\<close>, \<open>storage/misbehaviour_reports.rs\<close>). The
  messages a worker hands to its gossip engine are kept in the order of the calls. The runtime at
  the latest header is a \<open>chain_view\<close>, the keystore and the encodings are the record \<open>net\<close>, and the
  number drawn for a delay is an argument.
\<close>

section \<open>Headers\<close>

text \<open>
  An item of a digest is a consensus log of the DKG, when it is one and decodes, or anything else.
\<close>

record dkg_header =
  hd_number :: block_number
  hd_digest :: "consensus_log option list"

fun match_consensus_log :: "consensus_log \<Rightarrow> (authority_set \<times> authority_set) option" where
  "match_consensus_log (AuthoritiesChange active queued) = Some (active, queued)"
| "match_consensus_log _ = None"

fun convert_first :: "('a \<Rightarrow> 'b option) \<Rightarrow> 'a list \<Rightarrow> 'b option" where
  "convert_first f [] = None"
| "convert_first f (a # as) = (case f a of Some b \<Rightarrow> Some b | None \<Rightarrow> convert_first f as)"

definition find_authorities_change :: "dkg_header \<Rightarrow> (authority_set \<times> authority_set) option" where
  "find_authorities_change h =
     convert_first (\<lambda>l. case l of Some c \<Rightarrow> match_consensus_log c | None \<Rightarrow> None) (hd_digest h)"

text \<open>The change that the header announces, else the sets of the runtime, \<open>None\<close> where a call fails.\<close>

definition validator_set_inner ::
  "dkg_header \<Rightarrow> authority_set option \<Rightarrow> authority_set option \<Rightarrow> (authority_set \<times> authority_set) option" where
  "validator_set_inner h current_set queued_set =
     (case find_authorities_change h of
        Some p \<Rightarrow> Some p
      | None \<Rightarrow>
          (case (current_set, queued_set) of
             (Some current, Some queued) \<Rightarrow> Some (current, queued)
           | _ \<Rightarrow> None))"

section \<open>State\<close>

record dkg_worker =
  w_latest_header :: "dkg_header option"
  w_best_authorities :: "(u16 \<times> dkg_id) list"
  w_next_best_authorities :: "(u16 \<times> dkg_id) list"
  w_current_validator_set :: authority_set
  w_queued_validator_set :: authority_set
  w_aggregated_public_keys :: "u64 \<rightharpoonup> aggregated_public_keys"
  w_aggregated_reports :: "misbehaviour_type \<times> u64 \<times> dkg_id \<rightharpoonup> aggregated_misbehaviour_reports"
  w_managers :: managers
  w_gossiped :: "signed_dkg_message list"
  w_offchain :: "offchain_storage option"

definition authority_set_empty :: authority_set where
  "authority_set_empty = \<lparr>set_authorities = [], set_id = 0\<rparr>"

definition worker_new :: "offchain_storage option \<Rightarrow> dkg_worker" where
  "worker_new os =
     \<lparr>w_latest_header = None, w_best_authorities = [], w_next_best_authorities = [],
      w_current_validator_set = authority_set_empty, w_queued_validator_set = authority_set_empty,
      w_aggregated_public_keys = Map.empty, w_aggregated_reports = Map.empty,
      w_managers = \<lparr>keygen = keygen_manager_new, signing = signing_manager_new\<rparr>, w_gossiped = [], w_offchain = os\<rparr>"

section \<open>A finalized block\<close>

definition maybe_enact_genesis_authorities :: "chain_view \<Rightarrow> dkg_worker \<Rightarrow> dkg_worker" where
  "maybe_enact_genesis_authorities cv w =
     (case cv_sets cv of
        Some (active, _) \<Rightarrow>
          if set_id active = GENESIS_AUTHORITY_SET_ID
          then w\<lparr>w_current_validator_set := active, w_best_authorities := cv_best_authorities cv,
                 w_next_best_authorities := cv_next_best_authorities cv\<rparr>
          else w
      | None \<Rightarrow> w)"

definition maybe_rotate_local_session :: "chain_view \<Rightarrow> dkg_worker \<Rightarrow> dkg_worker" where
  "maybe_rotate_local_session cv w =
     (case cv_sets cv of
        Some (active, queued) \<Rightarrow>
          if fst (cv_dkg_pub_key cv) \<noteq> set_id (w_queued_validator_set w) then w
          else w\<lparr>w_current_validator_set := active, w_queued_validator_set := queued,
                 w_best_authorities := w_next_best_authorities w, w_next_best_authorities := cv_next_best_authorities cv\<rparr>
      | None \<Rightarrow> w)"

text \<open>
  What the worker reads at the header it processes, which is its latest: the runtime, and the validator
  sets the header announces.
\<close>

definition view_at :: "dkg_header \<Rightarrow> chain_view \<Rightarrow> chain_view" where
  "view_at h cv = cv\<lparr>cv_number := hd_number h, cv_latest := hd_number h,
     cv_sets := validator_set_inner h (map_option fst (cv_sets cv)) (map_option snd (cv_sets cv))\<rparr>"

text \<open>\<open>syncing\<close> says that the node is in a major sync.\<close>

definition process_block_notification ::
  "ext \<Rightarrow> sampling \<Rightarrow> dkg_id \<Rightarrow> bool \<Rightarrow> chain_view \<Rightarrow> dkg_header \<Rightarrow> dkg_worker \<Rightarrow> (dkg_error, unit) result \<times> dkg_worker" where
  "process_block_notification x e public syncing cv0 h w =
     (if (case w_latest_header w of Some latest \<Rightarrow> hd_number h \<le> hd_number latest | None \<Rightarrow> False) then (Ok (), w)
      else let w1 = w\<lparr>w_latest_header := Some h\<rparr>; cv = view_at h cv0
           in if syncing then (Ok (), w1)
              else if dkg_pub_key_is_unset cv
              then let w2 = maybe_enact_genesis_authorities cv w1
                   in (Ok (), w2\<lparr>w_managers := km_on_block_finalized x public cv (w_managers w2)\<rparr>)
              else let w2 = maybe_rotate_local_session cv w1;
                       n = km_on_block_finalized x public cv (w_managers w2)
                   in case sm_on_block_finalized x e public cv (signing n) of
                        (r, s) \<Rightarrow> (if r = Panic then Panic else Ok (), w2\<lparr>w_managers := n\<lparr>signing := s\<rparr>\<rparr>))"

text \<open>The first header with validator sets ends the initialization.\<close>

definition initialization_step ::
  "ext \<Rightarrow> sampling \<Rightarrow> dkg_id \<Rightarrow> bool \<Rightarrow> chain_view \<Rightarrow> dkg_header \<Rightarrow> dkg_worker \<Rightarrow> ((dkg_error, unit) result \<times> dkg_worker) option" where
  "initialization_step x e public syncing cv h w =
     (case cv_sets (view_at h cv) of
        None \<Rightarrow> None
      | Some (active, queued) \<Rightarrow>
          Some (process_block_notification x e public syncing cv h
            (w\<lparr>w_best_authorities := cv_best_authorities cv, w_current_validator_set := active, w_queued_validator_set := queued\<rparr>)))"

section \<open>Public keys\<close>

definition MAX_SUBMISSION_DELAY :: u32 where
  "MAX_SUBMISSION_DELAY = 3"

text \<open>\<open>delay\<close> is the number drawn between zero and \<open>MAX_SUBMISSION_DELAY\<close>.\<close>

definition generate_delayed_submit_at :: "block_number \<Rightarrow> u32 \<Rightarrow> block_number option" where
  "generate_delayed_submit_at start delay = Some (start + delay)"

definition perform_storing_of_aggregated_public_keys ::
  "bool \<Rightarrow> aggregated_public_keys \<Rightarrow> block_number \<Rightarrow> u32 \<Rightarrow> offchain_storage \<Rightarrow> offchain_storage" where
  "perform_storing_of_aggregated_public_keys is_genesis_round keys current_block_number delay os =
     (let os1 = (if is_genesis_round then os\<lparr>aggregated_public_keys_at_genesis := Stored keys\<rparr>
                 else os\<lparr>aggregated_next_public_keys := Stored keys\<rparr>)
      in case generate_delayed_submit_at current_block_number delay of
           None \<Rightarrow> os1
         | Some submit_at \<Rightarrow>
             if is_genesis_round then os1\<lparr>submit_genesis_keys_at := Stored submit_at\<rparr>
             else os1\<lparr>submit_keys_at := Stored submit_at\<rparr>)"

text \<open>Stored keys are forgotten, with those of all sessions before.\<close>

definition store_aggregated_public_keys ::
  "bool \<Rightarrow> u64 \<Rightarrow> block_number \<Rightarrow> u32 \<Rightarrow> dkg_worker \<Rightarrow> (dkg_error, unit) result \<times> dkg_worker" where
  "store_aggregated_public_keys is_genesis_round session current_block_number delay w =
     (case w_offchain w of
        None \<Rightarrow> (Err (GenericError ''No offchain storage available''), w)
      | Some os \<Rightarrow>
          (case w_aggregated_public_keys w session of
             None \<Rightarrow> (Err (CriticalError ''Aggregated public key does not exist in map''), w)
           | Some keys \<Rightarrow>
               (Ok (), w\<lparr>w_offchain := Some (perform_storing_of_aggregated_public_keys is_genesis_round keys current_block_number delay os),
                         w_aggregated_public_keys := (w_aggregated_public_keys w) |` {k. session < k}\<rparr>)))"

definition collected_keys :: "u64 \<Rightarrow> dkg_worker \<Rightarrow> (bytes \<times> bytes) list" where
  "collected_keys session w =
     (case w_aggregated_public_keys w session of Some a \<Rightarrow> keys_and_signatures a | None \<Rightarrow> [])"

definition set_collected_keys :: "u64 \<Rightarrow> (bytes \<times> bytes) list \<Rightarrow> dkg_worker \<Rightarrow> dkg_worker" where
  "set_collected_keys session ks w =
     w\<lparr>w_aggregated_public_keys := (w_aggregated_public_keys w)(session \<mapsto> \<lparr>keys_and_signatures = ks\<rparr>)\<rparr>"

definition authority_lists :: "authority_set \<times> authority_set \<Rightarrow> dkg_id list \<times> dkg_id list" where
  "authority_lists p = (set_authorities (fst p), set_authorities (snd p))"

definition handle_public_key_broadcast ::
  "ext \<Rightarrow> u32 \<Rightarrow> chain_view \<Rightarrow> dkg_message \<Rightarrow> dkg_worker \<Rightarrow> (dkg_error, unit) result \<times> dkg_worker" where
  "handle_public_key_broadcast x delay cv m w =
     (case w_latest_header w of
        None \<Rightarrow> (Err NoHeader, w)
      | Some header \<Rightarrow>
          (case cv_sets cv of
             None \<Rightarrow> (Err NoAuthorityAccounts, w)
           | Some sets \<Rightarrow>
               (case msg_payload m of
                  PublicKeyBroadcast msg \<Rightarrow>
                    (let session = pk_session_id msg;
                         is_genesis_round = (session = 0);
                         is_main_round = (latest_executed_session_id (keygen (w_managers w)) = Some session)
                     in case authenticate_msg_origin x is_main_round (authority_lists sets) (pk_pub_key msg) (pk_signature msg) of
                          Panic \<Rightarrow> (Panic, w)
                        | Err er \<Rightarrow> (Err er, w)
                        | Ok _ \<Rightarrow>
                            let key_and_sig = (pk_pub_key msg, pk_signature msg);
                                threshold = unat (cv_next_signature_threshold cv);
                                old = collected_keys session w;
                                keys = (if key_and_sig \<in> set old then old else old @ [key_and_sig]);
                                w1 = set_collected_keys session keys w
                            in if threshold < length keys
                               then store_aggregated_public_keys is_genesis_round session (hd_number header) delay w1
                               else (Ok (), w1))
                | _ \<Rightarrow> (Ok (), w))))"

definition gossip :: "signed_dkg_message \<Rightarrow> dkg_worker \<Rightarrow> dkg_worker" where
  "gossip m w = w\<lparr>w_gossiped := w_gossiped w @ [m]\<rparr>"

text \<open>Signs a message with the key of the node and hands it over; a failure to sign is logged.\<close>

definition sign_and_gossip :: "net \<Rightarrow> dkg_id \<Rightarrow> dkg_message \<Rightarrow> dkg_worker \<Rightarrow> dkg_worker" where
  "sign_and_gossip y public m w =
     (case keystore_sign y public (encode_message (net_wire y) m) of
        Some sig \<Rightarrow> gossip \<lparr>sd_msg = m, sd_signature = Some sig\<rparr> w
      | None \<Rightarrow> w)"

definition sign_and_send_messages :: "net \<Rightarrow> dkg_message list \<Rightarrow> dkg_worker \<Rightarrow> (dkg_error, unit) result \<times> dkg_worker" where
  "sign_and_send_messages y ms w =
     (case get_authority_public_key y of
        Ok public \<Rightarrow> (Ok (), fold (sign_and_gossip y public) ms w)
      | Err er \<Rightarrow> (Err er, w)
      | Panic \<Rightarrow> (Panic, w))"

definition broadcast_message :: "dkg_id \<Rightarrow> u64 \<Rightarrow> network_msg_payload \<Rightarrow> dkg_message" where
  "broadcast_message public session p =
     \<lparr>sender_id = public, recipient_id = None, msg_payload = p, msg_session_id = session, msg_block_id = 0, msg_ssid = 0\<rparr>"

definition gossip_public_key :: "net \<Rightarrow> public_key_message \<Rightarrow> dkg_worker \<Rightarrow> (dkg_error, unit) result \<times> dkg_worker" where
  "gossip_public_key y msg w =
     (case get_authority_public_key y of
        Ok public \<Rightarrow>
          (case keystore_sign y public (pk_pub_key msg) of
             None \<Rightarrow> (Ok (), w)
           | Some sig \<Rightarrow>
               (let session = pk_session_id msg;
                    w1 = sign_and_gossip y public
                           (broadcast_message public session (PublicKeyBroadcast (msg\<lparr>pk_signature := sig\<rparr>))) w
                in (Ok (), set_collected_keys session (collected_keys session w1 @ [(pk_pub_key msg, sig)]) w1)))
      | Err er \<Rightarrow> (Err er, w)
      | Panic \<Rightarrow> (Panic, w))"

section \<open>Misbehaviour\<close>

definition MaxReporters :: nat where
  "MaxReporters = 128"

definition MaxSignatureLength :: nat where
  "MaxSignatureLength = 512"

definition misbehaviour_payload :: "misbehaviour_type \<Rightarrow> u64 \<Rightarrow> dkg_id \<Rightarrow> bytes" where
  "misbehaviour_payload ty session off = (case ty of Keygen \<Rightarrow> [1] | Sign \<Rightarrow> [2]) @ to_be_bytes session @ off"

definition store_aggregated_misbehaviour_reports ::
  "aggregated_misbehaviour_reports \<Rightarrow> dkg_worker \<Rightarrow> (dkg_error, unit) result \<times> dkg_worker" where
  "store_aggregated_misbehaviour_reports r w =
     (case w_offchain w of
        None \<Rightarrow> (Err (GenericError ''No offchain storage available''), w)
      | Some os \<Rightarrow> (Ok (), w\<lparr>w_offchain := Some (os\<lparr>aggregated_reports := Stored r\<rparr>)\<rparr>))"

definition try_store_offchain ::
  "chain_view \<Rightarrow> aggregated_misbehaviour_reports \<Rightarrow> dkg_worker \<Rightarrow> (dkg_error, bool) result \<times> dkg_worker" where
  "try_store_offchain cv r w =
     (case w_latest_header w of
        None \<Rightarrow> (Err NoHeader, w)
      | Some _ \<Rightarrow>
          if unat (cv_signature_threshold cv) < length (reporters r)
          then and_then (store_aggregated_misbehaviour_reports r w) (\<lambda>_ w. (Ok True, w))
          else (Ok False, w))"

definition reports_on :: "misbehaviour_message \<Rightarrow> dkg_worker \<Rightarrow> aggregated_misbehaviour_reports" where
  "reports_on msg w =
     (case w_aggregated_reports w (mm_type msg, mm_session_id msg, mm_offender msg) of
        Some r \<Rightarrow> r
      | None \<Rightarrow> \<lparr>misbehaviour = mm_type msg, report_session_id = mm_session_id msg, offender = mm_offender msg,
                  reporters = [], report_signatures = []\<rparr>)"

definition set_reports :: "misbehaviour_message \<Rightarrow> aggregated_misbehaviour_reports \<Rightarrow> dkg_worker \<Rightarrow> dkg_worker" where
  "set_reports msg r w =
     w\<lparr>w_aggregated_reports := (w_aggregated_reports w)((mm_type msg, mm_session_id msg, mm_offender msg) \<mapsto> r)\<rparr>"

text \<open>
  A report of \<open>reporter\<close> is added. The reporter is added before its signature is, and stays when that
  does not fit.
\<close>

definition push_report ::
  "misbehaviour_message \<Rightarrow> dkg_id \<Rightarrow> bytes \<Rightarrow> dkg_worker \<Rightarrow> (dkg_error, aggregated_misbehaviour_reports) result \<times> dkg_worker" where
  "push_report msg reporter sig w =
     (let r = reports_on msg w
      in case try_push MaxReporters reporter (reporters r) of
           None \<Rightarrow> (Err InputOutOfBounds, set_reports msg r w)
         | Some rs \<Rightarrow>
             let r1 = r\<lparr>reporters := rs\<rparr>
             in case try_bounded MaxSignatureLength sig of
                  None \<Rightarrow> (Err InputOutOfBounds, set_reports msg r1 w)
                | Some s \<Rightarrow>
                    (case try_push MaxReporters s (report_signatures r1) of
                       None \<Rightarrow> (Err InputOutOfBounds, set_reports msg r1 w)
                     | Some ss \<Rightarrow>
                         let r2 = r1\<lparr>report_signatures := ss\<rparr> in (Ok r2, set_reports msg r2 w)))"

definition handle_misbehaviour_report ::
  "ext \<Rightarrow> chain_view \<Rightarrow> dkg_message \<Rightarrow> dkg_worker \<Rightarrow> (dkg_error, unit) result \<times> dkg_worker" where
  "handle_misbehaviour_report x cv m w =
     (case w_latest_header w of
        None \<Rightarrow> (Err NoHeader, w)
      | Some _ \<Rightarrow>
          (case cv_sets cv of
             None \<Rightarrow> (Err NoAuthorityAccounts, w)
           | Some sets \<Rightarrow>
               (case msg_payload m of
                  MisbehaviourBroadcast msg \<Rightarrow>
                    if mm_type msg = Keygen
                    then let is_main_round = (latest_executed_session_id (keygen (w_managers w)) = Some (mm_session_id msg));
                             signed_payload = misbehaviour_payload (mm_type msg) (mm_session_id msg) (mm_offender msg)
                         in case authenticate_msg_origin x is_main_round (authority_lists sets) signed_payload (mm_signature msg) of
                              Panic \<Rightarrow> (Panic, w)
                            | Err er \<Rightarrow> (Err er, w)
                            | Ok reporter \<Rightarrow>
                                and_then (if reporter \<in> set (reporters (reports_on msg w))
                                          then (Ok (reports_on msg w), set_reports msg (reports_on msg w) w)
                                          else push_report msg reporter (mm_signature msg) w)
                                  (\<lambda>r w. and_then (try_store_offchain cv r w) (\<lambda>_ w. (Ok (), w)))
                    else (Ok (), w)
                | _ \<Rightarrow> (Ok (), w))))"

text \<open>
  The report is sent before it is recorded. When it is stored, it is forgotten with those of the sessions
  before.
\<close>

definition gossip_misbehaviour_report ::
  "net \<Rightarrow> chain_view \<Rightarrow> misbehaviour_message \<Rightarrow> dkg_worker \<Rightarrow> (dkg_error, unit) result \<times> dkg_worker" where
  "gossip_misbehaviour_report y cv report w =
     (if mm_type report = Sign then (Ok (), w)
      else case get_authority_public_key y of
        Panic \<Rightarrow> (Panic, w)
      | Err er \<Rightarrow> (Err er, w)
      | Ok public \<Rightarrow>
          (case keystore_sign y public (misbehaviour_payload (mm_type report) (mm_session_id report) (mm_offender report)) of
             None \<Rightarrow> (Err CannotSign, w)
           | Some sig \<Rightarrow>
               let w1 = sign_and_gossip y public (broadcast_message public (mm_session_id report)
                          (MisbehaviourBroadcast (report\<lparr>mm_signature := sig\<rparr>))) w
               in if public \<in> set (reporters (reports_on report w1)) then (Ok (), set_reports report (reports_on report w1) w1)
                  else and_then (push_report report public sig w1) (\<lambda>r w2.
                    and_then (try_store_offchain cv r w2) (\<lambda>stored w3.
                      (Ok (), if stored
                        then w3\<lparr>w_aggregated_reports := (w_aggregated_reports w3)
                               ((mm_type report, mm_session_id report, mm_offender report) := None)
                               |` {k. mm_session_id report \<le> fst (snd k)}\<rparr>
                        else w3)))))"

section \<open>Errors and messages\<close>

datatype dkg_report =
    ReportKeygenMisbehaviour u64 dkg_id
  | ReportSignMisbehaviour u64 dkg_id

text \<open>An error of the gossip is logged.\<close>

definition handle_dkg_report :: "net \<Rightarrow> chain_view \<Rightarrow> dkg_report \<Rightarrow> dkg_worker \<Rightarrow> (dkg_error, unit) result \<times> dkg_worker" where
  "handle_dkg_report y cv rep w =
     (case (case rep of
              ReportKeygenMisbehaviour session off \<Rightarrow> (off, session, Keygen)
            | ReportSignMisbehaviour session off \<Rightarrow> (off, session, Sign)) of
        (off, session, ty) \<Rightarrow>
          (case gossip_misbehaviour_report y cv \<lparr>mm_type = ty, mm_session_id = session, mm_offender = off, mm_signature = []\<rparr> w of
             (Panic, w1) \<Rightarrow> (Panic, w1)
           | (_, w1) \<Rightarrow> (Ok (), w1)))"

fun handle_dkg_reports :: "net \<Rightarrow> chain_view \<Rightarrow> dkg_report list \<Rightarrow> dkg_worker \<Rightarrow> (dkg_error, unit) result \<times> dkg_worker" where
  "handle_dkg_reports y cv [] w = (Ok (), w)"
| "handle_dkg_reports y cv (r # rs) w = and_then (handle_dkg_report y cv r w) (\<lambda>_. handle_dkg_reports y cv rs)"

definition handle_dkg_error :: "net \<Rightarrow> chain_view \<Rightarrow> dkg_error \<Rightarrow> dkg_worker \<Rightarrow> (dkg_error, unit) result \<times> dkg_worker" where
  "handle_dkg_error y cv er w =
     (case er of
        KeygenMisbehaviour _ bad_actors session \<Rightarrow> handle_dkg_reports y cv (map (ReportKeygenMisbehaviour session) bad_actors) w
      | KeygenTimeout session bad_actors \<Rightarrow> handle_dkg_reports y cv (map (ReportKeygenMisbehaviour session) bad_actors) w
      | SignMisbehaviour _ bad_actors session \<Rightarrow> handle_dkg_reports y cv (map (ReportSignMisbehaviour session) bad_actors) w
      | _ \<Rightarrow> (Ok (), w))"

text \<open>The errors of the handlers are logged. \<open>cv\<close> is read at the latest header, which may be absent.\<close>

definition logged :: "(dkg_error, unit) result \<times> dkg_worker \<Rightarrow> (dkg_error, unit) result \<times> dkg_worker" where
  "logged r = (case r of (Panic, w) \<Rightarrow> (Panic, w) | (_, w) \<Rightarrow> (Ok (), w))"

lemma snd_logged: "snd (logged r) = snd r"
  by (auto simp: logged_def split: prod.split result.split)

definition verify_signature_against_authorities ::
  "ext \<Rightarrow> net \<Rightarrow> chain_view \<Rightarrow> signed_dkg_message \<Rightarrow> dkg_worker \<Rightarrow> (dkg_error, dkg_message) result" where
  "verify_signature_against_authorities x y cv m w =
     verify_signature_against_authorities_inner x (net_wire y)
       (if w_latest_header w = None then None else map_option authority_lists (cv_sets cv)) m"

definition process_incoming_dkg_message ::
  "ext \<Rightarrow> net \<Rightarrow> u32 \<Rightarrow> chain_view \<Rightarrow> signed_dkg_message \<Rightarrow> dkg_worker \<Rightarrow> (dkg_error, unit) result \<times> dkg_worker" where
  "process_incoming_dkg_message x y delay cv m w =
     (let n = w_managers w
      in case msg_payload (sd_msg m) of
           KeygenPayload _ \<Rightarrow>
             (case km_deliver_message m (keygen n) of (r, k) \<Rightarrow> (r, w\<lparr>w_managers := n\<lparr>keygen := k\<rparr>\<rparr>))
         | OfflinePayload _ \<Rightarrow>
             (case sm_deliver_message m (signing n) of (r, s) \<Rightarrow> (r, w\<lparr>w_managers := n\<lparr>signing := s\<rparr>\<rparr>))
         | VotePayload _ \<Rightarrow>
             (case sm_deliver_message m (signing n) of (r, s) \<Rightarrow> (r, w\<lparr>w_managers := n\<lparr>signing := s\<rparr>\<rparr>))
         | PublicKeyBroadcast _ \<Rightarrow>
             (case verify_signature_against_authorities x y cv m w of
                Ok dkg_msg \<Rightarrow> logged (handle_public_key_broadcast x delay cv dkg_msg w)
              | Err _ \<Rightarrow> (Ok (), w)
              | Panic \<Rightarrow> (Panic, w))
         | MisbehaviourBroadcast _ \<Rightarrow>
             (case verify_signature_against_authorities x y cv m w of
                Ok dkg_msg \<Rightarrow> logged (handle_misbehaviour_report x cv dkg_msg w)
              | Err _ \<Rightarrow> (Ok (), w)
              | Panic \<Rightarrow> (Panic, w)))"

end
