(* ===== verification/Worker_Properties.thy ===== *)
theory Worker_Properties
  imports Dkg_Worker Voters_Correct
begin

text \<open>
  The properties of the worker of a node: a key that enough authorities broadcast reaches the chain,
  which broadcasts are refused, and how the worker follows the sessions of the chain.
\<close>

section \<open>Broadcasts of a key\<close>

definition key_broadcast :: "u64 \<Rightarrow> bytes \<Rightarrow> dkg_id \<Rightarrow> bytes \<Rightarrow> dkg_message" where
  "key_broadcast n k a sig = broadcast_message a n (PublicKeyBroadcast \<lparr>pk_session_id = n, pk_pub_key = k, pk_signature = sig\<rparr>)"

lemma authenticate_accepts:
  assumes "a \<in> set (if main then fst sets else snd sets)" and "\<forall>b \<in> set (if main then fst sets else snd sets). length b = 33"
    and "signed_by x a m sig"
  shows "\<exists>b. authenticate_msg_origin x main sets m sig = Ok b"
proof -
  let ?ids = "if main then fst sets else snd sets"
  have ks: "authority_keys ?ids = Some ?ids"
    using assms(2) by (simp add: authority_keys_Some)
  obtain c ok where v: "verify_signer_from_set_ecdsa x ?ids m sig = (c, ok)" by fastforce
  then have "ok"
    using verify_signer_flag [of x ?ids m sig] assms(1,3) by auto
  moreover from this v have "c \<noteq> None"
    using verify_signer_None [of x ?ids m sig ok] by auto
  ultimately show ?thesis
    using ks v by (auto simp: authenticate_msg_origin_def)
qed

lemma authenticate_refuses:
  assumes "\<forall>b \<in> set (if main then fst sets else snd sets). length b = 33 \<and> \<not> signed_by x b m sig"
  shows "\<exists>er. authenticate_msg_origin x main sets m sig = Err er"
proof -
  let ?ids = "if main then fst sets else snd sets"
  have ks: "authority_keys ?ids = Some ?ids"
    using assms by (simp add: authority_keys_Some)
  obtain c ok where v: "verify_signer_from_set_ecdsa x ?ids m sig = (c, ok)" by fastforce
  then have "\<not> ok"
    using verify_signer_flag [of x ?ids m sig] assms by auto
  then show ?thesis
    using ks v by (auto simp: authenticate_msg_origin_def)
qed

text \<open>The worker after the broadcasts of the authorities \<open>qs\<close>, too few of them to store the key.\<close>

definition collecting :: "u64 \<Rightarrow> (bytes \<times> bytes) list \<Rightarrow> dkg_worker \<Rightarrow> dkg_worker" where
  "collecting n ks w = (if ks = [] then w else set_collected_keys n ks w)"

lemma collecting_simps [simp]:
  "w_latest_header (collecting n ks w) = w_latest_header w" "w_managers (collecting n ks w) = w_managers w"
  "w_offchain (collecting n ks w) = w_offchain w"
  "w_aggregated_public_keys w n = None \<Longrightarrow> collected_keys n (collecting n ks w) = ks"
  by (simp_all add: collecting_def set_collected_keys_def collected_keys_def)

lemma set_collected_collecting [simp]: "set_collected_keys n ks (collecting n ks' w) = set_collected_keys n ks w"
  by (simp add: collecting_def set_collected_keys_def)

lemma broadcast_collected:
  assumes "w_latest_header w = Some h" and "w_aggregated_public_keys w n = None" and "cv_sets cv = Some (active, queued)"
    and "latest_executed_session_id (keygen (w_managers w)) = Some n"
    and "\<forall>b \<in> set (set_authorities active). length b = 33" and "a \<in> set (set_authorities active)"
    and "signed_by x a k sig" and "signed_by x a (encode_message (net_wire y) (key_broadcast n k a sig)) msig" and "(k, sig) \<notin> set ks"
  shows "process_incoming_dkg_message x y delay cv \<lparr>sd_msg = key_broadcast n k a sig, sd_signature = Some msig\<rparr> (collecting n ks w) =
    (let w1 = collecting n (ks @ [(k, sig)]) w
     in if unat (cv_next_signature_threshold cv) < Suc (length ks)
        then logged (store_aggregated_public_keys (n = 0) n (hd_number h) delay w1) else (Ok (), w1))"
proof -
  let ?m = "\<lparr>sd_msg = key_broadcast n k a sig, sd_signature = Some msig\<rparr>"
  have "verify_signature_against_authorities x y cv ?m (collecting n ks w) = Ok (key_broadcast n k a sig)"
    using verify_accepts_member [of a "set_authorities active" ?m msig x "net_wire y" "set_authorities queued"] assms(1,3,5,6,8)
    by (simp add: verify_signature_against_authorities_def authority_lists_def)
  moreover obtain b where "authenticate_msg_origin x True (authority_lists (active, queued)) k sig = Ok b"
    using authenticate_accepts [of a True "authority_lists (active, queued)" x k sig] assms(5-7) by (auto simp: authority_lists_def)
  ultimately show ?thesis
    using assms(1-4,9)
    by (simp add: process_incoming_dkg_message_def handle_public_key_broadcast_def key_broadcast_def broadcast_message_def
        logged_def Let_def collecting_def [of n "_ @ _"])
qed

lemma broadcasts_collected:
  assumes "w_latest_header w = Some h" and "w_aggregated_public_keys w n = None" and "cv_sets cv = Some (active, queued)"
    and "latest_executed_session_id (keygen (w_managers w)) = Some n"
    and "\<forall>b \<in> set (set_authorities active). length b = 33" and "set qs \<subseteq> set (set_authorities active)"
    and "\<forall>a \<in> set qs. signed_by x a k (sg a) \<and> signed_by x a (encode_message (net_wire y) (key_broadcast n k a (sg a))) (ms a)"
    and "distinct (map (\<lambda>a. (k, sg a)) qs)" and "length qs \<le> unat (cv_next_signature_threshold cv)"
  shows "fold (\<lambda>a w. snd (process_incoming_dkg_message x y delay cv \<lparr>sd_msg = key_broadcast n k a (sg a), sd_signature = Some (ms a)\<rparr> w)) qs w =
    collecting n (map (\<lambda>a. (k, sg a)) qs) w"
  using assms(6-9)
proof (induction qs rule: rev_induct)
  case Nil
  then show ?case by (simp add: collecting_def)
next
  case (snoc a qs)
  have "process_incoming_dkg_message x y delay cv \<lparr>sd_msg = key_broadcast n k a (sg a), sd_signature = Some (ms a)\<rparr>
      (collecting n (map (\<lambda>a. (k, sg a)) qs) w) = (Ok (), collecting n (map (\<lambda>a. (k, sg a)) qs @ [(k, sg a)]) w)"
    using snoc.prems by (subst broadcast_collected [OF assms(1-5)]) (auto simp: Let_def)
  with snoc show ?case by simp
qed

text \<open>One broadcast more than the threshold, and the keys are in the offchain storage.\<close>

lemma broadcasts_stored:
  assumes "w_latest_header w = Some h" and "w_aggregated_public_keys w n = None" and "cv_sets cv = Some (active, queued)"
    and "latest_executed_session_id (keygen (w_managers w)) = Some n"
    and "\<forall>b \<in> set (set_authorities active). length b = 33" and "set rs \<subseteq> set (set_authorities active)"
    and "\<forall>a \<in> set rs. signed_by x a k (sg a) \<and> signed_by x a (encode_message (net_wire y) (key_broadcast n k a (sg a))) (ms a)"
    and "distinct (map (\<lambda>a. (k, sg a)) rs)" and "length rs = Suc (unat (cv_next_signature_threshold cv))"
    and "w_offchain w = Some os" and "n \<noteq> 0"
  shows "w_offchain (fold (\<lambda>a w. snd (process_incoming_dkg_message x y delay cv
        \<lparr>sd_msg = key_broadcast n k a (sg a), sd_signature = Some (ms a)\<rparr> w)) rs w) =
    Some (os\<lparr>aggregated_next_public_keys := Stored \<lparr>keys_and_signatures = map (\<lambda>a. (k, sg a)) rs\<rparr>,
             submit_keys_at := Stored (hd_number h + delay)\<rparr>)"
proof -
  from assms(9) have "rs \<noteq> []" by auto
  then obtain qs a where rs: "rs = qs @ [a]" by (metis append_butlast_last_id)
  let ?ks = "map (\<lambda>a. (k, sg a)) qs"
  have "fold (\<lambda>a w. snd (process_incoming_dkg_message x y delay cv \<lparr>sd_msg = key_broadcast n k a (sg a), sd_signature = Some (ms a)\<rparr> w)) qs w =
      collecting n ?ks w"
    using assms(6-9) by (intro broadcasts_collected [OF assms(1-5)]) (auto simp: rs)
  moreover have "process_incoming_dkg_message x y delay cv \<lparr>sd_msg = key_broadcast n k a (sg a), sd_signature = Some (ms a)\<rparr> (collecting n ?ks w) =
      logged (store_aggregated_public_keys (n = 0) n (hd_number h) delay (collecting n (?ks @ [(k, sg a)]) w))"
    using assms(6-9) by (subst broadcast_collected [OF assms(1-5)]) (auto simp: Let_def rs)
  ultimately show ?thesis
    using assms(10,11)
    by (simp add: rs store_aggregated_public_keys_def collecting_def set_collected_keys_def logged_def
        perform_storing_of_aggregated_public_keys_def generate_delayed_submit_at_def)
qed

text \<open>A signature determines its signer among authorities with different x coordinates.\<close>

lemma signer_determined:
  assumes "signed_by x a m sig" and "signed_by x b m sig" and "inj_on tl S" and "a \<in> S" and "b \<in> S"
  shows "a = b"
proof -
  have "tl a = tl b" using assms(1,2) by (auto simp: signed_by_def)
  then show ?thesis using assms(3-5) by (auto dest: inj_onD)
qed

text \<open>
  C27. A key that enough authorities agree on reaches the chain. While a node takes part in the key generation of
  session \<open>n\<close>, one more than the threshold of the authorities, all of them active and chosen for the
  next key, broadcast the same key with their signatures. Then the node stores the signatures, its
  offchain worker submits them at the block drawn for it, and the call stores the key as the next
  key of the chain.
\<close>

theorem agreed_key_reaches_the_chain:
  assumes worker: "w_latest_header w = Some h" "w_aggregated_public_keys w n = None" "cv_sets cv = Some (active, queued)"
      "latest_executed_session_id (keygen (w_managers w)) = Some n" "w_offchain w = Some os" "n \<noteq> 0"
    and signers: "distinct rs" "length rs = Suc (unat (cv_next_signature_threshold cv))" "set rs \<subseteq> set (set_authorities active)"
      "\<forall>b \<in> set (set_authorities active). length b = 33"
      "\<forall>a \<in> set rs. signed_by x a k (sg a) \<and> signed_by x a (encode_message (net_wire y) (key_broadcast n k a (sg a))) (ms a)"
    and chain: "next_dkg_public_key s = None" "next_signature_threshold s = cv_next_signature_threshold cv"
      "set rs \<subseteq> set (map snd (next_best_authorities s))" "\<forall>a \<in> set (map snd (next_best_authorities s)). length a = 33"
      "inj_on tl (set (map snd (next_best_authorities s)))" "length k \<le> max_key_length cfg"
    and block: "next_unsigned_at s \<le> b" "hd_number h + delay \<le> b" "pool (SubmitNextPublicKey \<lparr>keys_and_signatures = map (\<lambda>a. (k, sg a)) rs\<rparr>)"
  shows "\<exists>os' os'' keys s'.
    w_offchain (fold (\<lambda>a w. snd (process_incoming_dkg_message x y delay cv
        \<lparr>sd_msg = key_broadcast n k a (sg a), sd_signature = Some (ms a)\<rparr> w)) rs w) = Some os' \<and>
    submit_next_public_key_onchain pool b s os' = (Inr (), [SubmitNextPublicKey keys], os'') \<and>
    submit_next_public_key cfg x b NoOrigin keys s = (Ok (), s') \<and>
    next_dkg_public_key s' = Some (next_authority_set_id s, k)"
proof -
  let ?keys = "\<lparr>keys_and_signatures = map (\<lambda>a. (k, sg a)) rs\<rparr>"
  let ?os = "os\<lparr>aggregated_next_public_keys := Stored ?keys, submit_keys_at := Stored (hd_number h + delay)\<rparr>"
  have "inj_on (\<lambda>a. (k, sg a)) (set rs)"
  proof (rule inj_onI)
    fix a c assume ac: "a \<in> set rs" "c \<in> set rs" "(k, sg a) = (k, sg c)"
    show "a = c"
      by (rule signer_determined [OF _ _ chain(5), of x a k "sg a"]) (use ac signers(5) chain(3) in auto)
  qed
  then have "distinct (map (\<lambda>a. (k, sg a)) rs)"
    using signers(1) by (simp add: distinct_map)
  note stored = broadcasts_stored [OF worker(1-4) signers(4,3,5) this signers(2) worker(5,6), of delay]
  have sub: "submit_next_public_key_onchain pool b s ?os =
      (Inr (), [SubmitNextPublicKey ?keys], ?os\<lparr>submit_keys_at := Absent, aggregated_next_public_keys := Absent\<rparr>)"
    using next_key_submitted [of s b ?os ?keys "hd_number h + delay" pool] block chain(1) by simp
  have "\<exists>s'. submit_next_public_key cfg x b NoOrigin ?keys s = (Ok (), s') \<and> next_dkg_public_key s' = Some (next_authority_set_id s, k)"
  proof (rule quorum_accepted [OF chain(1) _ chain(5) _ signers(1) _ chain(3) _ _ chain(6)])
    show "k' = k \<and> (\<exists>a \<in> set (map snd (next_best_authorities s)). signed_by x a k sig)" if "(k', sig) \<in> set (map (\<lambda>a. (k, sg a)) rs)" for k' sig
      using that signers(5) chain(3) by auto blast
  qed (use signers chain in auto)
  with stored sub show ?thesis by blast
qed

text \<open>
  C32. The authorities of the next set are not heard. A node that runs the key generation of the next session checks the
  signatures of the broadcast keys against the active authorities, not the queued ones. Broadcasts
  whose keys no active authority signed are dropped, however many there are: when the set of
  authorities is replaced, no node stores the next key.
\<close>

theorem next_authorities_are_not_heard:
  assumes "cv_sets cv = Some (active, queued)" and "latest_executed_session_id (keygen (w_managers w)) = Some n"
    and "\<forall>b \<in> set (set_authorities active) \<union> set (set_authorities queued). length b = 33"
    and "\<forall>(a, k, sig, msig) \<in> set ms. \<forall>b \<in> set (set_authorities active). \<not> signed_by x b k sig"
  shows "fold (\<lambda>(a, k, sig, msig) w. snd (process_incoming_dkg_message x y delay cv
      \<lparr>sd_msg = key_broadcast n k a sig, sd_signature = msig\<rparr> w)) ms w = w"
  using assms(4)
proof (induction ms)
  case (Cons m ms)
  obtain a k sig msig where m: "m = (a, k, sig, msig)" by (cases m)
  let ?d = "key_broadcast n k a sig"
  have no: "\<forall>b \<in> set (set_authorities active). \<not> signed_by x b k sig"
    using Cons.prems by (simp add: m)
  obtain er where "authenticate_msg_origin x True (authority_lists (active, queued)) k sig = Err er"
    using authenticate_refuses [of True "authority_lists (active, queued)" x k sig] no assms(3) by (auto simp: authority_lists_def)
  then have hd: "snd (handle_public_key_broadcast x delay cv ?d w) = w"
    using assms(1,2)
    by (auto simp: handle_public_key_broadcast_def key_broadcast_def broadcast_message_def Let_def split: option.split)
  have vf: "verify_signature_against_authorities x y cv \<lparr>sd_msg = ?d, sd_signature = msig\<rparr> w = Ok d' \<Longrightarrow> d' = ?d" for d'
    using verified_has_a_signer(1) [of x "net_wire y" "set_authorities active" "set_authorities queued" "\<lparr>sd_msg = ?d, sd_signature = msig\<rparr>" d'] assms(1)
    by (cases "w_latest_header w") (auto simp: verify_signature_against_authorities_def verify_signature_against_authorities_inner_def
        authority_lists_def Let_def split: option.splits)
  have pl: "msg_payload ?d = PublicKeyBroadcast \<lparr>pk_session_id = n, pk_pub_key = k, pk_signature = sig\<rparr>"
    by (simp add: key_broadcast_def broadcast_message_def)
  have "snd (process_incoming_dkg_message x y delay cv \<lparr>sd_msg = ?d, sd_signature = msig\<rparr> w) = w"
  proof (cases "verify_signature_against_authorities x y cv \<lparr>sd_msg = ?d, sd_signature = msig\<rparr> w")
    case (Ok d')
    with vf [OF Ok] hd pl show ?thesis by (simp add: process_incoming_dkg_message_def snd_logged)
  qed (simp_all add: process_incoming_dkg_message_def pl)
  with Cons show ?case by (simp add: m)
qed simp

section \<open>Concrete broadcasts\<close>

definition sample_worker_net :: net where
  "sample_worker_net =
     \<lparr>net_wire = \<lparr>encode_message = (\<lambda>m. sender_id m), encode_vote = (\<lambda>v. partial_signature v), encode_public_key = (\<lambda>p. pk_pub_key p),
        encode_misbehaviour = (\<lambda>b. mm_offender b), hash_of = take 32\<rparr>,
      net_keccak_256 = take 32, peer_id_from_bytes = Some, verify_prehashed = (\<lambda>s h a. s = h),
      store_public_keys = [[11]], store_has_key = (\<lambda>k. k = [11]), store_sign_prehashed = (\<lambda>k h. Some h)\<rparr>"

definition sample_header :: dkg_header where
  "sample_header = \<lparr>hd_number = 8, hd_digest = []\<rparr>"

definition sample_offchain :: offchain_storage where
  "sample_offchain = \<lparr>aggregated_public_keys_at_genesis = Absent, submit_genesis_keys_at = Absent, aggregated_next_public_keys = Absent,
     submit_keys_at = Absent, aggregated_reports = Absent\<rparr>"

definition sample_worker_view :: chain_view where
  "sample_worker_view =
     \<lparr>cv_number = 8, cv_latest = 8, cv_sets = Some (\<lparr>set_authorities = map sample_auth [1, 2, 3], set_id = 0\<rparr>, \<lparr>set_authorities = map sample_auth [4, 5], set_id = 1\<rparr>),
      cv_dkg_pub_key = (0, [1]), cv_next_dkg_pub_key = None, cv_best_authorities = [], cv_next_best_authorities = [],
      cv_signature_threshold = 1, cv_next_signature_threshold = 1, cv_unsigned_proposal_batches = Some [],
      cv_execute = False, cv_force_execute = False\<rparr>"

definition sample_worker :: dkg_worker where
  "sample_worker = (worker_new (Some sample_offchain))\<lparr>w_latest_header := Some sample_header,
     w_managers := \<lparr>keygen = keygen_manager_new\<lparr>latest_executed_session_id := Some 1\<rparr>, signing = signing_manager_new\<rparr>\<rparr>"

lemma sample_worker_simps [simp]:
  "w_latest_header sample_worker = Some sample_header" "w_aggregated_public_keys sample_worker n = None"
  "latest_executed_session_id (keygen (w_managers sample_worker)) = Some 1" "w_offchain sample_worker = Some sample_offchain"
  "hd_number sample_header = 8" "cv_sets sample_worker_view =
     Some (\<lparr>set_authorities = map sample_auth [1, 2, 3], set_id = 0\<rparr>, \<lparr>set_authorities = map sample_auth [4, 5], set_id = 1\<rparr>)"
  "cv_next_signature_threshold sample_worker_view = 1"
  by (simp_all add: sample_worker_def worker_new_def sample_header_def sample_worker_view_def)

theorem agreed_key_reaches_the_chain_witness:
  "\<exists>os' os'' keys s'.
    w_offchain (fold (\<lambda>a w. snd (process_incoming_dkg_message sample_ext sample_worker_net 2 sample_worker_view
        \<lparr>sd_msg = key_broadcast 1 sample_next_key a (sample_sig (a ! 1)), sd_signature = Some (sample_sig (a ! 1))\<rparr> w))
      [sample_auth 1, sample_auth 2] sample_worker) = Some os' \<and>
    submit_next_public_key_onchain (\<lambda>_. True) 12 sample_m0 os' = (Inr (), [SubmitNextPublicKey keys], os'') \<and>
    submit_next_public_key sample_mcfg sample_ext 12 NoOrigin keys sample_m0 = (Ok (), s') \<and>
    next_dkg_public_key s' = Some (1, sample_next_key)"
proof -
  have s0: "next_dkg_public_key sample_m0 = None" "next_best_authorities sample_m0 = sample_best"
    "next_signature_threshold sample_m0 = 1" "next_authority_set_id sample_m0 = 1" "next_unsigned_at sample_m0 = 0"
    by (simp_all add: sample_m0_def empty_metadata_state_def)
  have sg: "signed_by sample_ext a m (sample_sig (a ! 1))" if "a \<in> {sample_auth 1, sample_auth 2}" for a m
    using that sample_signed_by [of 1] sample_signed_by [of 2] by (auto simp: sample_auth_def)
  have inj: "inj_on tl (set (map snd (next_best_authorities sample_m0)))"
    by (simp add: s0 sample_best_def inj_on_def sample_auth_def)
  have "\<exists>os' os'' keys s'.
    w_offchain (fold (\<lambda>a w. snd (process_incoming_dkg_message sample_ext sample_worker_net 2 sample_worker_view
        \<lparr>sd_msg = key_broadcast 1 sample_next_key a (sample_sig (a ! 1)), sd_signature = Some (sample_sig (a ! 1))\<rparr> w))
      [sample_auth 1, sample_auth 2] sample_worker) = Some os' \<and>
    submit_next_public_key_onchain (\<lambda>_. True) 12 sample_m0 os' = (Inr (), [SubmitNextPublicKey keys], os'') \<and>
    submit_next_public_key sample_mcfg sample_ext 12 NoOrigin keys sample_m0 = (Ok (), s') \<and>
    next_dkg_public_key s' = Some (next_authority_set_id sample_m0, sample_next_key)"
    by (rule agreed_key_reaches_the_chain [OF sample_worker_simps(1,2,6,3,4)])
      (use sg inj in \<open>simp_all add: s0 sample_best_def sample_next_key_def\<close>)
  then show ?thesis by (simp only: s0(4))
qed

theorem next_authorities_are_not_heard_witness:
  "fold (\<lambda>(a, k, sig, msig) w. snd (process_incoming_dkg_message sample_ext sample_worker_net 2 sample_worker_view
      \<lparr>sd_msg = key_broadcast 1 k a sig, sd_signature = msig\<rparr> w))
    [(sample_auth 4, sample_next_key, sample_sig 4, Some (sample_sig 4)), (sample_auth 5, sample_next_key, sample_sig 5, Some (sample_sig 5))]
    sample_worker = sample_worker"
  by (rule next_authorities_are_not_heard [OF sample_worker_simps(6,3)])
    (auto simp: signed_by_def recover_ecdsa_pub_key_def SIGNATURE_LENGTH_def sample_ext_def sample_auth_def sample_sig_def)

section \<open>Following the sessions\<close>

text \<open>
  A block at which the chain has a key: the key is of the active set, and the queued set comes after it.
\<close>

definition live_block :: "dkg_header \<Rightarrow> chain_view \<Rightarrow> bool" where
  "live_block h cv \<longleftrightarrow> snd (cv_dkg_pub_key cv) \<noteq> [] \<and>
     (\<exists>a q. cv_sets (view_at h cv) = Some (a, q) \<and> fst (cv_dkg_pub_key cv) = set_id a \<and> set_id q = set_id a + 1)"

definition active_at :: "dkg_header \<Rightarrow> chain_view \<Rightarrow> authority_set" where
  "active_at h cv = fst (the (cv_sets (view_at h cv)))"

text \<open>The next block is of the same session, with the same active set, or of the session after it.\<close>

definition next_block :: "dkg_header \<times> chain_view \<Rightarrow> dkg_header \<times> chain_view \<Rightarrow> bool" where
  "next_block b b' \<longleftrightarrow> hd_number (fst b) < hd_number (fst b') \<and>
     (active_at (fst b') (snd b') = active_at (fst b) (snd b) \<or>
      set_id (active_at (fst b') (snd b')) = set_id (active_at (fst b) (snd b)) + 1)"

definition in_session :: "dkg_header \<times> chain_view \<Rightarrow> dkg_worker \<Rightarrow> bool" where
  "in_session b w \<longleftrightarrow> w_latest_header w = Some (fst b) \<and> w_current_validator_set w = active_at (fst b) (snd b) \<and>
     set_id (w_queued_validator_set w) = set_id (active_at (fst b) (snd b)) + 1"

text \<open>What a block does to the cached sets, whatever the managers do.\<close>

lemma block_sets:
  fixes x e public syncing cv h w
  defines "w' \<equiv> snd (process_block_notification x e public syncing cv h w)"
  assumes "snd (cv_dkg_pub_key cv) \<noteq> []"
  shows "w_current_validator_set w' =
      w_current_validator_set (if \<not> syncing \<and> w_latest_header w' \<noteq> w_latest_header w
        then maybe_rotate_local_session (view_at h cv) w else w)"
    and "w_queued_validator_set w' =
      w_queued_validator_set (if \<not> syncing \<and> w_latest_header w' \<noteq> w_latest_header w
        then maybe_rotate_local_session (view_at h cv) w else w)"
    and "w_latest_header w' = (if (\<exists>l. w_latest_header w = Some l \<and> hd_number h \<le> hd_number l) then w_latest_header w else Some h)"
proof -
  have unset: "\<not> dkg_pub_key_is_unset (view_at h cv)"
    using assms(2) by (simp add: dkg_pub_key_is_unset_def view_at_def)
  have rot: "w_current_validator_set (maybe_rotate_local_session c (w\<lparr>w_latest_header := l\<rparr>)) = w_current_validator_set (maybe_rotate_local_session c w)"
    "w_queued_validator_set (maybe_rotate_local_session c (w\<lparr>w_latest_header := l\<rparr>)) = w_queued_validator_set (maybe_rotate_local_session c w)"
    "w_latest_header (maybe_rotate_local_session c (w\<lparr>w_latest_header := l\<rparr>)) = l" for c l
    by (auto simp: maybe_rotate_local_session_def split: option.split)
  show "w_latest_header w' = (if (\<exists>l. w_latest_header w = Some l \<and> hd_number h \<le> hd_number l) then w_latest_header w else Some h)"
    unfolding w'_def process_block_notification_def
    by (auto simp: Let_def unset rot split: option.split prod.split)
  then show "w_current_validator_set w' =
      w_current_validator_set (if \<not> syncing \<and> w_latest_header w' \<noteq> w_latest_header w
        then maybe_rotate_local_session (view_at h cv) w else w)"
    "w_queued_validator_set w' =
      w_queued_validator_set (if \<not> syncing \<and> w_latest_header w' \<noteq> w_latest_header w
        then maybe_rotate_local_session (view_at h cv) w else w)"
    unfolding w'_def process_block_notification_def
    by (auto simp: Let_def unset rot split: option.split prod.split if_splits)
qed

lemma in_session_step:
  assumes "in_session b w" and "live_block (fst b') (snd b')" and "next_block b b'"
  shows "in_session b' (snd (process_block_notification x e public False (snd b') (fst b') w))"
proof -
  let ?w = "snd (process_block_notification x e public False (snd b') (fst b') w)"
  obtain a q where live: "cv_sets (view_at (fst b') (snd b')) = Some (a, q)" "fst (cv_dkg_pub_key (snd b')) = set_id a"
    "set_id q = set_id a + 1" "snd (cv_dkg_pub_key (snd b')) \<noteq> []"
    using assms(2) by (auto simp: live_block_def)
  note sets = block_sets [OF live(4), where x = x and e = e and public = public and syncing = False and h = "fst b'" and w = w]
  have new: "w_latest_header ?w = Some (fst b')" "w_latest_header ?w \<noteq> w_latest_header w"
    using assms(1,3) by (auto simp: sets(3) in_session_def next_block_def not_le)
  have act: "active_at (fst b') (snd b') = a"
    by (simp add: active_at_def live)
  have pk: "fst (cv_dkg_pub_key (view_at (fst b') (snd b'))) = set_id a"
    by (simp add: view_at_def live)
  have "active_at (fst b) (snd b) = a \<or> set_id a = set_id (active_at (fst b) (snd b)) + 1"
    using assms(3) by (auto simp: next_block_def act)
  then show ?thesis
    using assms(1) new sets(1,2) live(3)
    by (auto simp: in_session_def act maybe_rotate_local_session_def live(1) pk)
qed

lemma in_session_run:
  assumes "in_session b w" and "\<forall>c \<in> set bs. live_block (fst c) (snd c)" and "successively next_block (b # bs)"
  shows "in_session (last (b # bs)) (fold (\<lambda>c w. snd (process_block_notification x e public False (snd c) (fst c) w)) bs w)"
  using assms
proof (induction bs arbitrary: b w)
  case (Cons c bs)
  from Cons.prems have "in_session c (snd (process_block_notification x e public False (snd c) (fst c) w))"
    by (intro in_session_step) auto
  from Cons.IH [OF this] Cons.prems show ?case by auto
qed simp

text \<open>
  C30. A node follows the sessions of the chain. A new node is initialised at a block of the chain and then
  processes the blocks after it, none of them during a major sync and with no session between two
  of them left out. Then its current validator set is the active set of the last block, and the
  set it takes next is the one of the session after it.
\<close>

theorem node_follows_the_sessions:
  assumes "initialization_step x e public False (snd b) (fst b) (worker_new os) = Some (r, w)"
    and "\<forall>c \<in> set (b # bs). live_block (fst c) (snd c)" and "successively next_block (b # bs)"
  shows "let w' = fold (\<lambda>c w. snd (process_block_notification x e public False (snd c) (fst c) w)) bs w; c = last (b # bs)
    in w_current_validator_set w' = active_at (fst c) (snd c) \<and>
       set_id (w_queued_validator_set w') = set_id (active_at (fst c) (snd c)) + 1"
proof -
  obtain a q where live: "cv_sets (view_at (fst b) (snd b)) = Some (a, q)" "fst (cv_dkg_pub_key (snd b)) = set_id a"
    "set_id q = set_id a + 1" "snd (cv_dkg_pub_key (snd b)) \<noteq> []"
    using assms(2) by (auto simp: live_block_def)
  let ?w0 = "(worker_new os)\<lparr>w_best_authorities := cv_best_authorities (snd b), w_current_validator_set := a, w_queued_validator_set := q\<rparr>"
  have w: "w = snd (process_block_notification x e public False (snd b) (fst b) ?w0)"
    using assms(1) by (auto simp: initialization_step_def live(1))
  have act: "active_at (fst b) (snd b) = a"
    by (simp add: active_at_def live)
  have pk: "fst (cv_dkg_pub_key (view_at (fst b) (snd b))) = set_id a"
    by (simp add: view_at_def live)
  note sets = block_sets [OF live(4), where x = x and e = e and public = public and syncing = False and h = "fst b" and w = ?w0, folded w]
  have "in_session b w"
    using sets live(3) by (simp add: in_session_def act maybe_rotate_local_session_def live(1) pk worker_new_def)
  from in_session_run [OF this _ assms(3)] assms(2) show ?thesis
    by (auto simp: in_session_def Let_def)
qed

text \<open>
  C31. A node that missed a session never catches up. Once the chain is past the session of the queued
  set that a node has cached, because the change fell into a major sync or into blocks the node
  did not see, the node keeps its cached sets at every later block.
\<close>

theorem missed_session_is_never_caught_up:
  assumes "\<forall>(syncing, h, cv) \<in> set bs. snd (cv_dkg_pub_key cv) \<noteq> [] \<and> set_id (w_queued_validator_set w) < fst (cv_dkg_pub_key cv)"
  shows "let w' = fold (\<lambda>(syncing, h, cv) w. snd (process_block_notification x e public syncing cv h w)) bs w
    in w_current_validator_set w' = w_current_validator_set w \<and> w_queued_validator_set w' = w_queued_validator_set w"
  using assms unfolding Let_def
proof (induction bs arbitrary: w)
  case (Cons b bs)
  obtain syncing h cv where b: "b = (syncing, h, cv)" by (cases b)
  let ?w = "snd (process_block_notification x e public syncing cv h w)"
  from Cons.prems have pk: "snd (cv_dkg_pub_key cv) \<noteq> []" "set_id (w_queued_validator_set w) < fst (cv_dkg_pub_key (view_at h cv))"
    by (auto simp: b view_at_def)
  then have "maybe_rotate_local_session (view_at h cv) w = w"
    by (auto simp: maybe_rotate_local_session_def split: option.split)
  with block_sets(1,2) [OF pk(1), where x = x and e = e and public = public and syncing = syncing and h = h and w = w]
  have same: "w_current_validator_set ?w = w_current_validator_set w" "w_queued_validator_set ?w = w_queued_validator_set w"
    by simp_all
  have "\<forall>(syncing, h, cv) \<in> set bs. snd (cv_dkg_pub_key cv) \<noteq> [] \<and> set_id (w_queued_validator_set ?w) < fst (cv_dkg_pub_key cv)"
    using Cons.prems by (simp add: same)
  from Cons.IH [OF this] show ?case by (simp add: b same)
qed simp

definition sample_worker_sampling :: sampling where
  "sample_worker_sampling = \<lparr>combinations = (\<lambda>k xs. filter (\<lambda>ys. length ys = k) (subseqs xs)), choose_multiple = (\<lambda>seed n xss. take n xss),
     encode_batch = (\<lambda>b. [])\<rparr>"

definition sample_session_block :: "u32 \<Rightarrow> u64 \<Rightarrow> dkg_header \<times> chain_view" where
  "sample_session_block n i = (\<lparr>hd_number = n, hd_digest = []\<rparr>, sample_worker_view
     \<lparr>cv_sets := Some (\<lparr>set_authorities = [[ucast i]], set_id = i\<rparr>, \<lparr>set_authorities = [[ucast i + 1]], set_id = i + 1\<rparr>), cv_dkg_pub_key := (i, [1])\<rparr>)"

lemma sample_session_block_simps [simp]:
  "live_block (fst (sample_session_block n i)) (snd (sample_session_block n i))"
  "active_at (fst (sample_session_block n i)) (snd (sample_session_block n i)) = \<lparr>set_authorities = [[ucast i]], set_id = i\<rparr>"
  "hd_number (fst (sample_session_block n i)) = n" "cv_dkg_pub_key (snd (sample_session_block n i)) = (i, [1])"
  by (simp_all add: live_block_def active_at_def view_at_def validator_set_inner_def find_authorities_change_def sample_session_block_def)

theorem node_follows_the_sessions_witness:
  "\<exists>w. set_id (w_current_validator_set (fold (\<lambda>c w. snd (process_block_notification sample_ext sample_worker_sampling [11] False (snd c) (fst c) w))
     [sample_session_block 7 4, sample_session_block 8 5] w)) = 5"
proof -
  obtain r w where i: "initialization_step sample_ext sample_worker_sampling [11] False (snd (sample_session_block 6 4)) (fst (sample_session_block 6 4)) (worker_new None) = Some (r, w)"
    by (cases "initialization_step sample_ext sample_worker_sampling [11] False (snd (sample_session_block 6 4)) (fst (sample_session_block 6 4)) (worker_new None)")
      (auto simp: initialization_step_def view_at_def validator_set_inner_def find_authorities_change_def sample_session_block_def)
  have "successively next_block [sample_session_block 6 4, sample_session_block 7 4, sample_session_block 8 5]"
    by (simp add: next_block_def)
  with node_follows_the_sessions [OF i, of "[sample_session_block 7 4, sample_session_block 8 5]"]
  have "set_id (w_current_validator_set (fold (\<lambda>c w. snd (process_block_notification sample_ext sample_worker_sampling [11] False (snd c) (fst c) w))
     [sample_session_block 7 4, sample_session_block 8 5] w)) = 5"
    by (simp add: Let_def)
  then show ?thesis by blast
qed

theorem missed_session_is_never_caught_up_witness:
  "w_current_validator_set (fold (\<lambda>(syncing, h, cv) w. snd (process_block_notification sample_ext sample_worker_sampling [11] syncing cv h w))
     [(True, sample_session_block 7 5), (False, sample_session_block 8 6)]
     (sample_worker\<lparr>w_queued_validator_set := \<lparr>set_authorities = [], set_id = 4\<rparr>\<rparr>)) = authority_set_empty"
  using missed_session_is_never_caught_up [where w = "sample_worker\<lparr>w_queued_validator_set := \<lparr>set_authorities = [], set_id = 4\<rparr>\<rparr>"
      and bs = "[(True, sample_session_block 7 5), (False, sample_session_block 8 6)]" and x = sample_ext and e = sample_worker_sampling and public = "[11]"]
  by (simp add: sample_session_block_def sample_worker_def worker_new_def Let_def)

end
