(* ===== verification/Local_Keys.thy ===== *)
theory Local_Keys
  imports Dkg_Messages
begin

text \<open>
  The database in which a node keeps its share of a DKG key (\<open>dkg-gadget/src/db\<close>): the interface
  every backend offers, the backend in memory, which the test orchestrator uses, and the backend in the
  offchain storage, which no caller builds and which encrypts the shares with the key of the node
  (\<open>dkg-primitives/src/utils.rs\<close>). The backend of a node is the one in \<open>Sql_Storage\<close>. The keys of the
  cryptographic library are a type variable. The serializer, the cipher and the keystore are the
  record \<open>vault\<close>.
\<close>

section \<open>The interface\<close>

text \<open>
  What a client relies on: while the backend is ready, storing succeeds and reading gives what was
  stored last for a session.
\<close>

locale dkg_db_backend =
  fixes get_local_key :: "u64 \<Rightarrow> 's \<Rightarrow> (dkg_error, 'k option) result"
    and store_local_key :: "u64 \<Rightarrow> 'k \<Rightarrow> 's \<Rightarrow> (dkg_error, unit) result \<times> 's"
    and ready :: "'s \<Rightarrow> bool"
  assumes store_succeeds: "ready s \<Longrightarrow> fst (store_local_key n k s) = Ok ()"
    and store_ready: "ready s \<Longrightarrow> ready (snd (store_local_key n k s))"
    and get_succeeds: "ready s \<Longrightarrow> \<exists>r. get_local_key n s = Ok r"
    and get_stored: "ready s \<Longrightarrow> get_local_key m (snd (store_local_key n k s)) = (if m = n then Ok (Some k) else get_local_key m s)"

text \<open>An error of the backend counts as an absent key.\<close>

definition fetch_local_keys :: "(u64 \<Rightarrow> 's \<Rightarrow> (dkg_error, 'k option) result) \<Rightarrow> u64 \<Rightarrow> 's \<Rightarrow> 'k option \<times> 'k option" where
  "fetch_local_keys get current_session_id s =
     (let flatten = (\<lambda>r. case r of Ok k \<Rightarrow> k | _ \<Rightarrow> None)
      in (flatten (get current_session_id s), flatten (get (current_session_id + 1) s)))"

definition store_all :: "(u64 \<Rightarrow> 'k \<Rightarrow> 's \<Rightarrow> (dkg_error, unit) result \<times> 's) \<Rightarrow> (u64 \<times> 'k) list \<Rightarrow> 's \<Rightarrow> 's" where
  "store_all store ks s = fold (\<lambda>(n, k) s. snd (store n k s)) ks s"

context dkg_db_backend
begin

lemma store_all_ready: "ready s \<Longrightarrow> ready (store_all store_local_key ks s)"
  unfolding store_all_def by (induction ks arbitrary: s) (auto simp: store_ready)

lemma get_store_all:
  "ready s \<Longrightarrow> get_local_key m (store_all store_local_key ks s) =
     (case map_of (rev ks) m of Some k \<Rightarrow> Ok (Some k) | None \<Rightarrow> get_local_key m s)"
  unfolding store_all_def
  by (induction ks arbitrary: s) (auto simp: store_ready get_stored map_add_def split: option.splits)

text \<open>
  After any sequence of stored keys a node fetches, for the current and for the next session, the
  key stored last for it.
\<close>

lemma fetch_after_stores:
  assumes "ready s" and "\<And>n. get_local_key n s = Ok None"
  shows "fetch_local_keys get_local_key n (store_all store_local_key ks s) = (map_of (rev ks) n, map_of (rev ks) (n + 1))"
  using get_store_all [OF assms(1)] assms(2)
  by (simp add: fetch_local_keys_def Let_def split: option.splits)

end

section \<open>The backend in memory\<close>

text \<open>The lock is held for one operation on the map, so it is never poisoned.\<close>

type_synonym 'k mem_db = "u64 \<rightharpoonup> 'k"

definition mem_db_new :: "'k mem_db" where
  "mem_db_new = Map.empty"

definition mem_get_local_key :: "u64 \<Rightarrow> 'k mem_db \<Rightarrow> (dkg_error, 'k option) result" where
  "mem_get_local_key session db = Ok (db session)"

definition mem_store_local_key :: "u64 \<Rightarrow> 'k \<Rightarrow> 'k mem_db \<Rightarrow> (dkg_error, unit) result \<times> 'k mem_db" where
  "mem_store_local_key session k db = (Ok (), db(session \<mapsto> k))"

interpretation mem: dkg_db_backend mem_get_local_key mem_store_local_key "\<lambda>_. True"
  by unfold_locales (simp_all add: mem_get_local_key_def mem_store_local_key_def)

section \<open>Encryption\<close>

text \<open>
  The fields stand for the JSON serializer, the cipher, with its key, its nonce and the text, the
  \<open>sr25519\<close> keys of the keystore and the key pairs of the local keystore.
\<close>

record 'k vault =
  to_json :: "'k \<Rightarrow> bytes option"
  from_json :: "bytes \<Rightarrow> 'k option"
  cipher_encrypt :: "bytes \<Rightarrow> bytes \<Rightarrow> bytes \<Rightarrow> bytes option"
  cipher_decrypt :: "bytes \<Rightarrow> bytes \<Rightarrow> bytes \<Rightarrow> bytes option"
  sr25519_public_keys :: "bytes list option"
  has_account_key :: "bytes \<Rightarrow> bool"
  local_keystore :: "(bytes \<Rightarrow> bytes option option) option"
  has_keystore :: bool

definition encrypt_data :: "'k vault \<Rightarrow> bytes \<Rightarrow> bytes \<Rightarrow> (string, bytes) result" where
  "encrypt_data v d secret_key_bytes =
     (if length secret_key_bytes \<noteq> 64 then Err ''Secret key bytes must be 64bytes long''
      else case cipher_encrypt v (take 32 secret_key_bytes) (take 24 (drop 32 secret_key_bytes)) d of
             None \<Rightarrow> Err ''File encryption failed''
           | Some encrypted \<Rightarrow> Ok encrypted)"

definition decrypt_data :: "'k vault \<Rightarrow> bytes \<Rightarrow> bytes \<Rightarrow> (string, bytes) result" where
  "decrypt_data v d secret_key_bytes =
     (if length secret_key_bytes \<noteq> 64 then Err ''Secret key bytes must be 64-bytes long''
      else case cipher_decrypt v (take 32 secret_key_bytes) (take 24 (drop 32 secret_key_bytes)) d of
             None \<Rightarrow> Err ''File decryption failed''
           | Some decrypted \<Rightarrow> Ok decrypted)"

text \<open>The first of the keys that the keystore has.\<close>

definition sr25519_public_key :: "'k vault \<Rightarrow> bytes list \<Rightarrow> bytes option" where
  "sr25519_public_key v keys =
     (if \<not> has_keystore v then None
      else case filter (has_account_key v) keys of [] \<Rightarrow> None | k # _ \<Rightarrow> Some k)"

definition secret_key :: "'k vault \<Rightarrow> (dkg_error, bytes) result" where
  "secret_key v =
     (case sr25519_public_key v (case sr25519_public_keys v of Some ks \<Rightarrow> ks | None \<Rightarrow> []) of
        None \<Rightarrow> Err (CriticalError ''No sr25519 Keys in the Keystore!!'')
      | Some public_key \<Rightarrow>
          (case local_keystore v of
             None \<Rightarrow> Err (CriticalError ''No Local Keystore!!'')
           | Some key_pair \<Rightarrow>
               (case key_pair public_key of
                  None \<Rightarrow> Err (CriticalError ''Error getting key pair from local keystore'')
                | Some None \<Rightarrow> Err (CriticalError ''No Key Pair in the Local Keystore!!'')
                | Some (Some raw) \<Rightarrow> Ok raw)))"

section \<open>The backend in the offchain storage\<close>

text \<open>The entries under the prefix of the database, if the node has an offchain storage.\<close>

type_synonym offchain_db = "(bytes \<rightharpoonup> bytes) option"

definition ascii :: "string \<Rightarrow> bytes" where
  "ascii s = map of_char s"

text \<open>The SCALE encoding of the key: two fixed arrays and the session, lowest byte first.\<close>

definition local_key_db_key :: "u64 \<Rightarrow> bytes" where
  "local_key_db_key session_id = ascii ''dkg'' @ ascii ''local_key'' @ rev (to_be_bytes session_id)"

definition db_store :: "bytes \<Rightarrow> bytes \<Rightarrow> offchain_db \<Rightarrow> (dkg_error, unit) result \<times> offchain_db" where
  "db_store key v db =
     (case db of
        None \<Rightarrow> (Err (CriticalError ''No Offchain Storage available!!''), db)
      | Some m \<Rightarrow> (Ok (), Some (m(key \<mapsto> v))))"

definition db_load :: "bytes \<Rightarrow> offchain_db \<Rightarrow> (dkg_error, bytes option) result" where
  "db_load key db =
     (case db of
        None \<Rightarrow> Err (CriticalError ''No Offchain Storage available!!'')
      | Some m \<Rightarrow> Ok (m key))"

definition encrypt_and_store :: "'k vault \<Rightarrow> bytes \<Rightarrow> bytes \<Rightarrow> offchain_db \<Rightarrow> (dkg_error, unit) result \<times> offchain_db" where
  "encrypt_and_store v key d db =
     (case secret_key v of
        Ok sk \<Rightarrow>
          (case encrypt_data v d sk of
             Ok encrypted \<Rightarrow> db_store key encrypted db
           | Err er \<Rightarrow> (Err (CriticalError (''Error encrypting data: '' @ er)), db)
           | Panic \<Rightarrow> (Panic, db))
      | Err er \<Rightarrow> (Err er, db)
      | Panic \<Rightarrow> (Panic, db))"

definition load_and_decrypt :: "'k vault \<Rightarrow> bytes \<Rightarrow> offchain_db \<Rightarrow> (dkg_error, bytes option) result" where
  "load_and_decrypt v key db =
     (case secret_key v of
        Ok sk \<Rightarrow>
          (case db_load key db of
             Ok None \<Rightarrow> Ok None
           | Ok (Some encrypted) \<Rightarrow>
               (case decrypt_data v encrypted sk of
                  Ok d \<Rightarrow> Ok (Some d)
                | Err er \<Rightarrow> Err (CriticalError (''Error decrypting data: '' @ er))
                | Panic \<Rightarrow> Panic)
           | Err er \<Rightarrow> Err er
           | Panic \<Rightarrow> Panic)
      | Err er \<Rightarrow> Err er
      | Panic \<Rightarrow> Panic)"

definition offchain_get_local_key :: "'k vault \<Rightarrow> u64 \<Rightarrow> offchain_db \<Rightarrow> (dkg_error, 'k option) result" where
  "offchain_get_local_key v session_id db =
     (case load_and_decrypt v (local_key_db_key session_id) db of
        Ok (Some decrypted_bytes) \<Rightarrow>
          (case from_json v decrypted_bytes of
             Some local_key \<Rightarrow> Ok (Some local_key)
           | None \<Rightarrow> Err (CriticalError ''serde_json''))
      | Ok None \<Rightarrow> Ok None
      | Err er \<Rightarrow> Err er
      | Panic \<Rightarrow> Panic)"

definition offchain_store_local_key :: "'k vault \<Rightarrow> u64 \<Rightarrow> 'k \<Rightarrow> offchain_db \<Rightarrow> (dkg_error, unit) result \<times> offchain_db" where
  "offchain_store_local_key v session_id local_key db =
     (case to_json v local_key of
        None \<Rightarrow> (Err (CriticalError ''serde_json''), db)
      | Some d \<Rightarrow> encrypt_and_store v (local_key_db_key session_id) d db)"

section \<open>The backend keeps the contract\<close>

text \<open>
  What the libraries document, and what the node must have: decoding inverts encoding, decryption
  with the same key and nonce inverts encryption, and the keystore has a key pair of 64 bytes.
\<close>

definition vault_ok :: "'k vault \<Rightarrow> bool" where
  "vault_ok v \<longleftrightarrow>
     (\<forall>k. \<exists>d. to_json v k = Some d \<and> from_json v d = Some k) \<and>
     (\<forall>k n d. \<exists>c. cipher_encrypt v k n d = Some c \<and> cipher_decrypt v k n c = Some d) \<and>
     (\<exists>sk. secret_key v = Ok sk \<and> length sk = 64)"

text \<open>The database is there, and each entry of a session was written by this backend.\<close>

definition offchain_ready :: "'k vault \<Rightarrow> offchain_db \<Rightarrow> bool" where
  "offchain_ready v db \<longleftrightarrow> vault_ok v \<and> db \<noteq> None \<and> (\<forall>n. \<exists>r. offchain_get_local_key v n db = Ok r)"

lemma local_key_db_key_eq [simp]: "local_key_db_key m = local_key_db_key n \<longleftrightarrow> m = n"
proof
  assume "local_key_db_key m = local_key_db_key n"
  then have "to_be_bytes m = to_be_bytes n"
    by (simp add: local_key_db_key_def)
  then have "from_be_bytes (to_be_bytes m) = (from_be_bytes (to_be_bytes n) :: u64)" by simp
  then show "m = n" by simp
qed simp

lemma offchain_store_effect:
  assumes "offchain_ready v db"
  obtains db' where "offchain_store_local_key v n k db = (Ok (), db')"
    and "\<And>m. offchain_get_local_key v m db' = (if m = n then Ok (Some k) else offchain_get_local_key v m db)"
    and "offchain_ready v db'"
proof -
  obtain sk where sk: "secret_key v = Ok sk" "length sk = 64"
    using assms by (auto simp: offchain_ready_def vault_ok_def)
  obtain d where d: "to_json v k = Some d" "from_json v d = Some k"
    using assms unfolding offchain_ready_def vault_ok_def by blast
  let ?key = "take 32 sk" and ?nonce = "take 24 (drop 32 sk)"
  obtain c where c: "cipher_encrypt v ?key ?nonce d = Some c" "cipher_decrypt v ?key ?nonce c = Some d"
    using assms unfolding offchain_ready_def vault_ok_def by blast
  obtain m where m: "db = Some m"
    using assms by (auto simp: offchain_ready_def)
  let ?db = "Some (m(local_key_db_key n \<mapsto> c))"
  have st: "offchain_store_local_key v n k db = (Ok (), ?db)"
    by (simp add: offchain_store_local_key_def encrypt_and_store_def encrypt_data_def db_store_def sk d c m)
  have get: "offchain_get_local_key v i ?db = (if i = n then Ok (Some k) else offchain_get_local_key v i db)" for i
    by (simp add: offchain_get_local_key_def load_and_decrypt_def db_load_def decrypt_data_def sk d c m)
  have "offchain_ready v ?db"
    using assms by (auto simp: offchain_ready_def get)
  with st get show thesis by (rule that)
qed

interpretation offchain: dkg_db_backend "offchain_get_local_key v" "offchain_store_local_key v" "offchain_ready v" for v
proof
  fix db n k m
  assume r: "offchain_ready v db"
  obtain db' where db': "offchain_store_local_key v n k db = (Ok (), db')"
    "\<And>m. offchain_get_local_key v m db' = (if m = n then Ok (Some k) else offchain_get_local_key v m db)" "offchain_ready v db'"
    by (rule offchain_store_effect [OF r, where n = n and k = k]) (rule that)
  show "fst (offchain_store_local_key v n k db) = Ok ()" "offchain_ready v (snd (offchain_store_local_key v n k db))"
    "offchain_get_local_key v m (snd (offchain_store_local_key v n k db)) = (if m = n then Ok (Some k) else offchain_get_local_key v m db)"
    by (simp_all only: db' fst_conv snd_conv)
  show "\<exists>r. offchain_get_local_key v n db = Ok r"
    using r by (simp add: offchain_ready_def)
qed

lemma offchain_get_empty: "vault_ok v \<Longrightarrow> offchain_get_local_key v m (Some Map.empty) = Ok None"
  by (auto simp: vault_ok_def offchain_get_local_key_def load_and_decrypt_def db_load_def)

lemma offchain_ready_empty: "vault_ok v \<Longrightarrow> offchain_ready v (Some Map.empty)"
  by (simp add: offchain_ready_def offchain_get_empty)

section \<open>Properties\<close>

text \<open>
  The database in the offchain storage and the one in memory keep the contract. Whatever shares a node has stored in an
  empty database, for whatever sessions and in whatever order, it fetches the share it stored last for
  the current session, and the one it stored last for the next session, through the serializer and the
  cipher; and the database in memory gives the same answers.
\<close>

theorem stored_shares_are_found:
  assumes "vault_ok v"
  shows "fetch_local_keys (offchain_get_local_key v) n (store_all (offchain_store_local_key v) ks (Some Map.empty)) =
      (map_of (rev ks) n, map_of (rev ks) (n + 1)) \<and>
    fetch_local_keys mem_get_local_key n (store_all mem_store_local_key ks mem_db_new) =
      fetch_local_keys (offchain_get_local_key v) n (store_all (offchain_store_local_key v) ks (Some Map.empty))"
  using offchain.fetch_after_stores [OF offchain_ready_empty [OF assms] offchain_get_empty [OF assms]]
    mem.fetch_after_stores [of mem_db_new n ks]
  by (simp add: mem_get_local_key_def mem_db_new_def)

definition sample_vault :: "bytes vault" where
  "sample_vault = \<lparr>to_json = Some, from_json = Some, cipher_encrypt = (\<lambda>k n d. Some (map (\<lambda>b. b + 1) d)),
     cipher_decrypt = (\<lambda>k n d. Some (map (\<lambda>b. b - 1) d)), sr25519_public_keys = Some [[1]], has_account_key = (\<lambda>k. k = [1]),
     local_keystore = Some (\<lambda>k. Some (Some (replicate 64 7))), has_keystore = True\<rparr>"

theorem stored_shares_are_found_witness:
  "fetch_local_keys (offchain_get_local_key sample_vault) 4
     (store_all (offchain_store_local_key sample_vault) [(4, [9]), (5, [8]), (4, [6])] (Some Map.empty)) = (Some [6], Some [8])"
proof -
  have "vault_ok sample_vault"
    by (simp add: vault_ok_def sample_vault_def secret_key_def sr25519_public_key_def comp_def)
  from stored_shares_are_found [OF this, of 4 "[(4, [9]), (5, [8]), (4, [6])]"] show ?thesis
    by simp
qed

end
