(* ===== verification/Vote_Stage.thy ===== *)
theory Vote_Stage
  imports Dkg_Messages
begin

text \<open>
  The last stage of a signing protocol (\<open>async_protocols/ecdsa/sign/handler.rs\<close>): the parties exchange
  partial signatures, the node combines them, checks the signature and stores the signed batch for
  the chain (\<open>async_protocols/blockchain_interface.rs\<close>, \<open>storage/proposals.rs\<close>, the conversion of the
  signature in \<open>dkg-primitives/src/utils.rs\<close>). The threshold signature library is the record \<open>mpc\<close>.
\<close>

section \<open>Signatures\<close>

record signature_recid =
  sr_r :: nat
  sr_s :: nat
  sr_recid :: u8

text \<open>The bytes of a big integer, highest first, without leading zeros.\<close>

fun bigint_to_bytes :: "nat \<Rightarrow> bytes" where
  "bigint_to_bytes n = (if n = 0 then [] else bigint_to_bytes (n div 256) @ [of_nat (n mod 256)])"

declare bigint_to_bytes.simps [simp del]

text \<open>\<open>None\<close> is the panic of the subtraction for a part of more than 32 bytes; the inner option is the result.\<close>

definition convert_signature :: "signature_recid \<Rightarrow> bytes option option" where
  "convert_signature sig =
     (let r = bigint_to_bytes (sr_r sig); s = bigint_to_bytes (sr_s sig); v = sr_recid sig + 27
      in if 32 < length r \<or> 32 < length s then None
         else let sig_vec = replicate (32 - length r) 0 @ r @ replicate (32 - length s) 0 @ s @ [v]
              in Some (if length sig_vec \<noteq> 65 then None else Some sig_vec))"

section \<open>The library\<close>

record blame =
  error_type :: string
  blamed :: "u16 list"

datatype proceed_error =
    Round1 blame
  | Round2Stage4 blame
  | Round3 blame
  | Round5 blame
  | Round6VerifyProof blame
  | OtherRound string

datatype sign_error =
    LocalSigning proceed_error
  | CompleteSigning proceed_error
  | OtherSigning string

fun round_blame :: "proceed_error \<Rightarrow> blame option" where
  "round_blame (Round1 b) = Some b"
| "round_blame (Round2Stage4 b) = Some b"
| "round_blame (Round3 b) = Some b"
| "round_blame (Round5 b) = Some b"
| "round_blame (Round6VerifyProof b) = Some b"
| "round_blame (OtherRound _) = None"

fun sign_error_text :: "sign_error \<Rightarrow> string" where
  "sign_error_text (OtherSigning t) = t"
| "sign_error_text (LocalSigning p) = (case p of OtherRound t \<Rightarrow> t | _ \<Rightarrow> [])"
| "sign_error_text (CompleteSigning p) = (case p of OtherRound t \<Rightarrow> t | _ \<Rightarrow> [])"

definition convert_mpc_sign_error_to_dkg_error_signing :: "sign_error \<Rightarrow> u64 \<Rightarrow> (nat \<rightharpoonup> dkg_id) \<Rightarrow> dkg_error" where
  "convert_mpc_sign_error_to_dkg_error_signing er session mapping =
     (case (case er of LocalSigning p \<Rightarrow> round_blame p | CompleteSigning p \<Rightarrow> round_blame p | OtherSigning _ \<Rightarrow> None) of
        Some b \<Rightarrow> SignMisbehaviour (error_type b) (bad_actors_to_authorities (blamed b) mapping) session
      | None \<Rightarrow> SignMisbehaviour (sign_error_text er) [] session)"

text \<open>
  \<open>'o\<close> is a completed offline stage, \<open>'p\<close> a partial signature. Signing starts with the hash and the
  offline stage and gives the own partial signature; it is completed with those of the others.
\<close>

record ('o, 'p) mpc =
  offline_public_key :: "'o \<Rightarrow> bytes"
  sign_manual_new :: "hash256 \<Rightarrow> 'o \<Rightarrow> sign_error + 'p"
  partial_to_json :: "'p \<Rightarrow> bytes option"
  partial_from_json :: "bytes \<Rightarrow> 'p option"
  mpc_complete :: "hash256 \<Rightarrow> 'o \<Rightarrow> 'p list \<Rightarrow> sign_error + signature_recid"
  mpc_verify :: "signature_recid \<Rightarrow> bytes \<Rightarrow> hash256 \<Rightarrow> bool"

section \<open>Collecting votes\<close>

text \<open>
  The messages of the stream come with the party they claim to be from. The stream may end; a partial
  signature that does not decode ends the stage with an error.
\<close>

fun collect_votes ::
  "('o, 'p) mpc \<Rightarrow> hash256 \<Rightarrow> nat \<Rightarrow> (u16 \<times> dkg_message) list \<Rightarrow> u16 set \<Rightarrow> 'p list \<Rightarrow> (dkg_error, 'p list) result" where
  "collect_votes c h number_of_partial_sigs [] received_sigs sigs = Ok sigs"
| "collect_votes c h number_of_partial_sigs ((sender, body) # rest) received_sigs sigs =
     (case msg_payload body of
        VotePayload v \<Rightarrow>
          if round_key v = h
          then if sender \<in> received_sigs then collect_votes c h number_of_partial_sigs rest received_sigs sigs
               else (case partial_from_json c (partial_signature v) of
                       None \<Rightarrow> Err (GenericError ''partial signature'')
                     | Some partial \<Rightarrow>
                         let sigs' = sigs @ [partial]
                         in if length sigs' = number_of_partial_sigs then Ok sigs'
                            else collect_votes c h number_of_partial_sigs rest (insert sender received_sigs) sigs')
          else collect_votes c h number_of_partial_sigs rest received_sigs sigs
      | _ \<Rightarrow> collect_votes c h number_of_partial_sigs rest received_sigs sigs)"

definition vote_payload :: "u16 \<Rightarrow> hash256 \<Rightarrow> bytes \<Rightarrow> network_msg_payload" where
  "vote_payload offline_i h partial =
     VotePayload \<lparr>party_ind = offline_i, round_key = h, partial_signature = partial, vm_proposal_hash = h\<rparr>"

text \<open>The message with the own vote, which is signed and sent, and the signature, or an error.\<close>

definition new_voting ::
  "ext \<Rightarrow> ('o, 'p) mpc \<Rightarrow> (nat \<rightharpoonup> dkg_id) \<Rightarrow> dkg_id \<Rightarrow> u64 \<Rightarrow> u64 \<Rightarrow> u16 \<Rightarrow> 'o \<Rightarrow> stored_unsigned_proposal_batch \<Rightarrow> u16 \<Rightarrow> u16 \<Rightarrow>
   (u16 \<times> dkg_message) list \<Rightarrow> (dkg_error, bytes) result \<times> dkg_message list" where
  "new_voting x c mapping public session block_id ssid offline batch offline_i threshold stream =
     (case unsigned_batch_hash x batch of
        None \<Rightarrow> (Panic, [])
      | Some h \<Rightarrow>
          (case sign_manual_new c h offline of
             Inl er \<Rightarrow> (Err (convert_mpc_sign_error_to_dkg_error_signing er session mapping), [])
           | Inr partial \<Rightarrow>
               (case partial_to_json c partial of
                  None \<Rightarrow> (Err (GenericError ''Partial signature is invalid''), [])
                | Some partial_sig_bytes \<Rightarrow>
                    let own = \<lparr>sender_id = public, recipient_id = None, msg_payload = vote_payload offline_i h partial_sig_bytes,
                               msg_session_id = session, msg_block_id = block_id, msg_ssid = ssid\<rparr>
                    in (case collect_votes c h (unat threshold) stream {} [] of
                          Ok sigs \<Rightarrow>
                            if length sigs \<noteq> unat threshold then Err (VoteError ''Invalid number of received partial sigs'')
                            else (case mpc_complete c h offline sigs of
                                    Inl er \<Rightarrow> Err (convert_mpc_sign_error_to_dkg_error_signing er session mapping)
                                  | Inr sr \<Rightarrow>
                                      if \<not> mpc_verify c sr (offline_public_key c offline) h
                                      then Err (VoteError ''Verification of voting stage failed'')
                                      else (case convert_signature sr of
                                              None \<Rightarrow> Panic
                                            | Some None \<Rightarrow> Err (CriticalError ''Unable to serialize signature'')
                                            | Some (Some sig) \<Rightarrow> Ok sig))
                        | Err er \<Rightarrow> Err er
                        | Panic \<Rightarrow> Panic, [own]))))"

section \<open>Storing the signed batch\<close>

definition STORAGE_SET_RETRY_NUM :: nat where
  "STORAGE_SET_RETRY_NUM = 5"

definition find_index :: "'a list \<Rightarrow> 'a \<Rightarrow> nat option" where
  "find_index queue v = position (\<lambda>a. v = a) queue"

definition compare_and_set :: "'v option \<Rightarrow> 'v \<Rightarrow> 'v option \<Rightarrow> bool \<times> 'v option" where
  "compare_and_set old v stored = (if stored = old then (True, Some v) else (False, stored))"

fun set_attempts :: "nat \<Rightarrow> 'v option \<Rightarrow> 'v \<Rightarrow> 'v option \<Rightarrow> 'v option" where
  "set_attempts 0 old v stored = stored"
| "set_attempts (Suc n) old v stored =
     (case compare_and_set old v stored of
        (True, stored') \<Rightarrow> stored'
      | (False, stored') \<Rightarrow> set_attempts n old v stored')"

text \<open>The value of the storage, if the node has one. The new value does not contain the old one.\<close>

type_synonym signed_store = "signed_proposal_batch list option option"

definition save_signed_proposals_in_storage ::
  "dkg_id \<Rightarrow> authority_set \<Rightarrow> bool \<Rightarrow> signed_proposal_batch list \<Rightarrow> signed_store \<Rightarrow> signed_store" where
  "save_signed_proposals_in_storage authority_public_key current_validator_set has_header proposals store =
     (if proposals = [] then store
      else if find_index (set_authorities current_validator_set) authority_public_key = None then store
      else if \<not> has_header then store
      else case store of
             None \<Rightarrow> None
           | Some old_val \<Rightarrow> Some (set_attempts (STORAGE_SET_RETRY_NUM - 1) old_val proposals old_val))"

record batch_key =
  bk_len :: nat
  bk_id :: u64

definition get_next_batch_key :: "u64 \<Rightarrow> batch_key \<times> u64" where
  "get_next_batch_key batch_id_gen = (\<lparr>bk_len = 1, bk_id = batch_id_gen\<rparr>, batch_id_gen + 1)"

record vote_engine =
  vote_results :: "batch_key \<rightharpoonup> signed_proposal_batch list"
  ve_store :: signed_store

definition signed_batch_of :: "stored_unsigned_proposal_batch \<Rightarrow> bytes \<Rightarrow> signed_proposal_batch" where
  "signed_batch_of batch sig =
     \<lparr>sb_batch_id = ub_batch_id batch,
      sb_proposals = map (\<lambda>u. SignedProposal (kind (up_proposal u)) (data (up_proposal u)) sig) (ub_proposals batch),
      sb_signature = sig\<rparr>"

text \<open>
  The proposals of the batch fit the bounds of a signed batch, which are those of an unsigned one; a signature
  beyond its bound panics.
\<close>

definition process_vote_result ::
  "nat \<Rightarrow> dkg_id \<Rightarrow> authority_set \<Rightarrow> bool \<Rightarrow> bytes \<Rightarrow> stored_unsigned_proposal_batch \<Rightarrow> batch_key \<Rightarrow> vote_engine \<Rightarrow>
   (dkg_error, unit) result \<times> vote_engine" where
  "process_vote_result max_signature public current_validator_set has_header encoded batch key g =
     (if max_signature < length encoded then (Panic, g)
      else let signed = signed_batch_of batch encoded;
               so_far = (case vote_results g key of Some bs \<Rightarrow> bs | None \<Rightarrow> []) @ [signed]
           in if length so_far = bk_len key
              then (Ok (), g\<lparr>vote_results := (vote_results g)(key := None),
                             ve_store := save_signed_proposals_in_storage public current_validator_set has_header so_far (ve_store g)\<rparr>)
              else (Ok (), g\<lparr>vote_results := (vote_results g)(key \<mapsto> so_far)\<rparr>))"

section \<open>Facts\<close>

lemma set_attempts_fresh: "0 < n \<Longrightarrow> set_attempts n old v old = Some v"
  by (cases n) (simp_all add: compare_and_set_def)

lemma find_index_None: "find_index as a = None \<longleftrightarrow> a \<notin> set as"
  by (auto simp: find_index_def position_None)

lemma save_effect:
  assumes "public \<in> set (set_authorities v)" and "ps \<noteq> []"
  shows "save_signed_proposals_in_storage public v True ps (Some old) = Some (Some ps)"
proof -
  have "find_index (set_authorities v) public \<noteq> None"
    using assms(1) by (simp add: find_index_None)
  then show ?thesis
    using assms(2) by (auto simp: save_signed_proposals_in_storage_def set_attempts_fresh STORAGE_SET_RETRY_NUM_def)
qed

lemma save_outsider: "public \<notin> set (set_authorities v) \<Longrightarrow> save_signed_proposals_in_storage public v hh ps st = st"
  by (simp add: save_signed_proposals_in_storage_def find_index_None)

text \<open>The converted signature holds the two numbers in 32 bytes each.\<close>

lemma bigint_length: "n < 256 ^ k \<Longrightarrow> length (bigint_to_bytes n) \<le> k"
proof (induction n arbitrary: k rule: bigint_to_bytes.induct)
  case (1 n)
  show ?case
  proof (cases "n = 0")
    case True
    then show ?thesis by (simp add: bigint_to_bytes.simps)
  next
    case False
    with 1(2) obtain j where j: "k = Suc j" by (cases k) auto
    have "n div 256 < 256 ^ j"
      using 1(2) by (simp add: j less_mult_imp_div_less mult.commute)
    with 1(1) [OF False] j False show ?thesis
      by (simp add: bigint_to_bytes.simps [of n])
  qed
qed

lemma bigint_padded: "n < 256 ^ k \<Longrightarrow> replicate (k - length (bigint_to_bytes n)) 0 @ bigint_to_bytes n = nat_to_be k n"
proof (induction k arbitrary: n)
  case 0
  then show ?case by (simp add: bigint_to_bytes.simps)
next
  case (Suc k)
  have d: "n div 256 < 256 ^ k"
    using Suc.prems by (simp add: less_mult_imp_div_less mult.commute)
  show ?case
  proof (cases "n = 0")
    case True
    have "nat_to_be j 0 = replicate j 0" for j
      by (induction j) (simp_all add: replicate_append_same)
    with True show ?thesis by (simp add: bigint_to_bytes.simps del: nat_to_be.simps)
  next
    case False
    then have "bigint_to_bytes n = bigint_to_bytes (n div 256) @ [of_nat (n mod 256)]"
      by (simp add: bigint_to_bytes.simps [of n])
    with Suc.IH [OF d] bigint_length [OF d] show ?thesis by (simp add: Suc_diff_le)
  qed
qed

lemma convert_signature_layout:
  assumes "sr_r sig < 256 ^ 32" and "sr_s sig < 256 ^ 32"
  shows "convert_signature sig = Some (Some (nat_to_be 32 (sr_r sig) @ nat_to_be 32 (sr_s sig) @ [sr_recid sig + 27]))"
proof -
  note l = bigint_length [OF assms(1)] bigint_length [OF assms(2)]
  have "replicate (32 - length (bigint_to_bytes (sr_r sig))) 0 @ bigint_to_bytes (sr_r sig) @
      replicate (32 - length (bigint_to_bytes (sr_s sig))) 0 @ bigint_to_bytes (sr_s sig) @ [sr_recid sig + 27] =
      nat_to_be 32 (sr_r sig) @ nat_to_be 32 (sr_s sig) @ [sr_recid sig + 27]"
    using bigint_padded [OF assms(1)] bigint_padded [OF assms(2)] by (metis append.assoc)
  with l show ?thesis by (simp add: convert_signature_def Let_def)
qed

lemma signed_batch_of_data: "signed_batch_data x (signed_batch_of batch sig) = unsigned_batch_data x batch"
  by (rule signed_data_of_unsigned) (simp add: signed_batch_of_def)

text \<open>A completed stage leaves a signature that was checked.\<close>

lemma new_voting_Ok:
  assumes "fst (new_voting x c mapping public session block_id ssid offline batch offline_i threshold stream) = Ok sig"
  obtains ps s where "mpc_complete c (keccak_256 x (unsigned_batch_data x batch)) offline ps = Inr s"
    and "mpc_verify c s (offline_public_key c offline) (keccak_256 x (unsigned_batch_data x batch))"
    and "convert_signature s = Some (Some sig)"
  using assms
  by (auto simp: new_voting_def unsigned_batch_hash_def Let_def split: sum.splits option.splits result.splits if_splits)

text \<open>Votes of different parties that all decode are collected in their order.\<close>

lemma collect_votes_all:
  assumes "\<forall>m \<in> set ms. \<exists>v. msg_payload (snd m) = VotePayload v \<and> round_key v = h \<and> partial_from_json c (partial_signature v) \<noteq> None"
    and "distinct (map fst ms)" and "set (map fst ms) \<inter> R = {}" and "length sigs + length ms = n" and "ms \<noteq> []"
  shows "collect_votes c h n (ms @ rest) R sigs =
    Ok (sigs @ map (\<lambda>m. case msg_payload (snd m) of VotePayload v \<Rightarrow> the (partial_from_json c (partial_signature v))) ms)"
  using assms
proof (induction ms arbitrary: R sigs)
  case (Cons m ms)
  obtain sender body where m: "m = (sender, body)" by (cases m)
  from Cons.prems(1) obtain v p where v: "msg_payload body = VotePayload v" "round_key v = h" "partial_from_json c (partial_signature v) = Some p"
    by (auto simp: m)
  have fresh: "sender \<notin> R" using Cons.prems(3) by (simp add: m)
  show ?case
  proof (cases "ms = []")
    case True
    with Cons.prems(4) v fresh show ?thesis by (simp add: m)
  next
    case False
    have "collect_votes c h n (ms @ rest) (insert sender R) (sigs @ [p]) =
        Ok ((sigs @ [p]) @ map (\<lambda>m. case msg_payload (snd m) of VotePayload v \<Rightarrow> the (partial_from_json c (partial_signature v))) ms)"
      using Cons.prems False by (intro Cons.IH) (auto simp: m)
    moreover have "Suc (length sigs) \<noteq> n"
      using Cons.prems(4) False by (cases ms) auto
    ultimately show ?thesis
      using v fresh by (simp add: m)
  qed
qed simp

end
