(* ===== verification/Protocol_Wire.thy ===== *)
theory Protocol_Wire
  imports Local_Keys Vote_Stage Dkg_Worker
begin

text \<open>
  Between a running protocol and the network (\<open>async_protocols/mod.rs\<close>, \<open>state_machine_wrapper.rs\<close>, the two
  implementations of \<open>state_machine.rs\<close> and the keygen part of \<open>ecdsa/keygen/handler.rs\<close>): the messages of
  the state machine are signed and sent, the messages of the others are handed to the state machine, its
  errors become errors of the node, and its output is stored, announced or voted on.

  The state machines and the runtime that drives them are a third-party library, the records
  \<open>party_codec\<close> and \<open>state_machine\<close> and the results of its runs.
\<close>

section \<open>Protocols\<close>

record 'b party_msg =
  pm_sender :: u16
  pm_receiver :: "u16 option"
  pm_body :: 'b

text \<open>JSON for the network, and the binary form that tells messages apart.\<close>

record 'b party_codec =
  msg_to_json :: "'b party_msg \<Rightarrow> bytes option"
  msg_from_json :: "bytes \<Rightarrow> 'b party_msg option"
  msg_bincode :: "'b party_msg \<Rightarrow> bytes option"
  round_id :: "'b \<Rightarrow> u16"

datatype protocol_channel =
    KeygenChannel keygen_round u16 u16 u16 u64 hash256
  | OfflineChannel stored_unsigned_proposal_batch u16 "u16 list" u64
  | VotingChannel stored_unsigned_proposal_batch u16 u64

fun get_associated_block_id :: "protocol_channel \<Rightarrow> u64" where
  "get_associated_block_id (KeygenChannel _ _ _ _ b _) = b"
| "get_associated_block_id (OfflineChannel _ _ _ b) = b"
| "get_associated_block_id (VotingChannel _ _ b) = b"

fun get_i :: "protocol_channel \<Rightarrow> u16" where
  "get_i (KeygenChannel _ i _ _ _ _) = i"
| "get_i (OfflineChannel _ i _ _) = i"
| "get_i (VotingChannel _ i _) = i"

fun get_unsigned_proposal :: "protocol_channel \<Rightarrow> stored_unsigned_proposal_batch option" where
  "get_unsigned_proposal (OfflineChannel batch _ _ _) = Some batch"
| "get_unsigned_proposal (VotingChannel batch _ _) = Some batch"
| "get_unsigned_proposal _ = None"

definition get_unsigned_proposal_hash :: "ext \<Rightarrow> protocol_channel \<Rightarrow> hash256 option" where
  "get_unsigned_proposal_hash x c = Option.bind (get_unsigned_proposal c) (unsigned_batch_hash x)"

fun get_keygen_hash :: "protocol_channel \<Rightarrow> hash256 option" where
  "get_keygen_hash (KeygenChannel _ _ _ _ _ h) = Some h"
| "get_keygen_hash _ = None"

text \<open>What the filter in front of the protocol reads of it.\<close>

definition protocol_type_of :: "protocol_channel \<Rightarrow> protocol_type" where
  "protocol_type_of c =
     \<lparr>pt_kind = (case c of KeygenChannel _ _ _ _ _ _ \<Rightarrow> KeygenProtocol | OfflineChannel _ _ _ _ \<Rightarrow> OfflineProtocol
                         | VotingChannel _ _ _ \<Rightarrow> VotingProtocol),
      pt_i = get_i c, pt_block_id = get_associated_block_id c\<rparr>"

section \<open>Parameters of a protocol\<close>

record 'k async_protocol_parameters =
  ap_session_id :: u64
  ap_block_id :: u64
  ap_best_authorities :: "(u16 \<times> dkg_id) list"
  ap_authority_public_key :: dkg_id
  ap_party_i :: u16
  ap_batch_id_gen :: u64
  ap_ssid :: u16
  ap_mapping :: "nat \<rightharpoonup> dkg_id"
  ap_local_key :: "'k option"

text \<open>
  \<open>get\<close> reads the database \<open>db\<close> of key shares. The handle of the protocol is \<open>remote_new\<close>, made by the
  manager that starts it.
\<close>

definition generate_async_proto_params ::
  "(u64 \<Rightarrow> 's \<Rightarrow> (dkg_error, 'k option) result) \<Rightarrow> 's \<Rightarrow> (u16 \<times> dkg_id) list \<Rightarrow> dkg_id \<Rightarrow> u16 \<Rightarrow> u64 \<Rightarrow> proto_stage_type \<Rightarrow>
   block_number \<Rightarrow> u16 \<Rightarrow> 'k async_protocol_parameters" where
  "generate_async_proto_params get db best public party_i session stage associated_block ssid =
     \<lparr>ap_session_id = session, ap_block_id = ucast associated_block, ap_best_authorities = best,
      ap_authority_public_key = public, ap_party_i = party_i, ap_batch_id_gen = 0, ap_ssid = ssid,
      ap_mapping = generate_authority_mapping best stage,
      ap_local_key = (case stage of Signing _ \<Rightarrow> fst (fetch_local_keys get session db) | _ \<Rightarrow> None)\<rparr>"

section \<open>Outgoing messages\<close>

text \<open>The authority that the receiver of a message has among the parties; zero is no party and panics.\<close>

definition recipient_of :: "(u16 \<times> dkg_id) list \<Rightarrow> u16 option \<Rightarrow> (dkg_error, dkg_id option) result" where
  "recipient_of best receiver =
     (case receiver of
        None \<Rightarrow> Ok None
      | Some party_i \<Rightarrow>
          (case keygen_party_id_try_from party_i of
             Ok keygen_party_id \<Rightarrow> Ok (map_of best keygen_party_id)
           | _ \<Rightarrow> Panic))"

definition outgoing_payload :: "ext \<Rightarrow> protocol_channel \<Rightarrow> u16 \<Rightarrow> bytes \<Rightarrow> (dkg_error, network_msg_payload) result" where
  "outgoing_payload x c party_id serialized_body =
     (case c of
        KeygenChannel _ _ _ _ _ h \<Rightarrow>
          Ok (KeygenPayload \<lparr>km_sender_id = party_id, keygen_msg = serialized_body, km_protocol_hash = h\<rparr>)
      | OfflineChannel batch _ _ _ \<Rightarrow>
          (case unsigned_batch_hash x batch of
             None \<Rightarrow> Panic
           | Some h \<Rightarrow> Ok (OfflinePayload \<lparr>om_key = h, om_signer_set_id = ucast party_id, offline_msg = serialized_body,
                                           om_proposal_hash = h\<rparr>))
      | VotingChannel _ _ _ \<Rightarrow> Panic)"

definition outgoing_message ::
  "ext \<Rightarrow> 'k async_protocol_parameters \<Rightarrow> protocol_channel \<Rightarrow> 'b party_msg \<Rightarrow> bytes \<Rightarrow> (dkg_error, dkg_message) result" where
  "outgoing_message x p c msg serialized_body =
     (case recipient_of (ap_best_authorities p) (pm_receiver msg) of
        Ok maybe_recipient_id \<Rightarrow>
          (case outgoing_payload x c (pm_sender msg) serialized_body of
             Ok payload \<Rightarrow>
               Ok \<lparr>sender_id = ap_authority_public_key p, recipient_id = maybe_recipient_id, msg_payload = payload,
                   msg_session_id = ap_session_id p, msg_block_id = ap_block_id p, msg_ssid = ap_ssid p\<rparr>
           | Err er \<Rightarrow> Err er
           | Panic \<Rightarrow> Panic)
      | Err er \<Rightarrow> Err er
      | Panic \<Rightarrow> Panic)"

text \<open>
  The messages come with the state of the protocol right after they were sent. A message that does not
  serialize is skipped; a failure to send is logged; the loop ends with the protocol.
\<close>

fun outgoing_to_wire ::
  "ext \<Rightarrow> net \<Rightarrow> 'b party_codec \<Rightarrow> 'k async_protocol_parameters \<Rightarrow> protocol_channel \<Rightarrow> ('b party_msg \<times> protocol_state) list \<Rightarrow>
   dkg_worker \<Rightarrow> (dkg_error, unit) result \<times> dkg_worker" where
  "outgoing_to_wire x y d p c [] w = (Ok (), w)"
| "outgoing_to_wire x y d p c ((msg, st) # rest) w =
     (case msg_to_json d msg of
        None \<Rightarrow> outgoing_to_wire x y d p c rest w
      | Some serialized_body \<Rightarrow>
          (case outgoing_message x p c msg serialized_body of
             Ok m \<Rightarrow>
               (case sign_and_send_messages y [m] w of
                  (Panic, w1) \<Rightarrow> (Panic, w1)
                | (_, w1) \<Rightarrow> if is_completed st \<or> is_terminated st then (Ok (), w1)
                             else outgoing_to_wire x y d p c rest w1)
           | Err er \<Rightarrow> (Err er, w)
           | Panic \<Rightarrow> (Panic, w)))"

section \<open>Incoming messages\<close>

definition for_local :: "protocol_channel \<Rightarrow> 'b party_msg \<Rightarrow> bool" where
  "for_local c m = (case pm_receiver m of Some recv \<Rightarrow> recv = get_i c | None \<Rightarrow> True)"

text \<open>The message for the state machine, if there is one; other messages are skipped.\<close>

definition keygen_handle_unsigned_message :: "'b party_codec \<Rightarrow> protocol_channel \<Rightarrow> dkg_message \<Rightarrow> (dkg_error, 'b party_msg option) result" where
  "keygen_handle_unsigned_message d c m =
     (case msg_payload m of
        KeygenPayload k \<Rightarrow>
          (case msg_from_json d (keygen_msg k) of
             None \<Rightarrow> Ok None
           | Some message \<Rightarrow> Ok (if for_local c message then Some message else None))
      | _ \<Rightarrow> Ok None)"

definition offline_handle_unsigned_message ::
  "ext \<Rightarrow> 'b party_codec \<Rightarrow> protocol_channel \<Rightarrow> dkg_message \<Rightarrow> (dkg_error, 'b party_msg option) result" where
  "offline_handle_unsigned_message x d c m =
     (case msg_payload m of
        OfflinePayload f \<Rightarrow>
          (case msg_from_json d (offline_msg f) of
             None \<Rightarrow> Ok None
           | Some message \<Rightarrow>
               if \<not> for_local c message then Ok None
               else (case get_unsigned_proposal_hash x c of
                       None \<Rightarrow> Panic
                     | Some h \<Rightarrow> Ok (if h \<noteq> om_key f then None else Some message)))
      | _ \<Rightarrow> Ok None)"

text \<open>The state machine of the channel; the voting stage has none.\<close>

definition handle_unsigned_message ::
  "ext \<Rightarrow> 'b party_codec \<Rightarrow> protocol_channel \<Rightarrow> dkg_message \<Rightarrow> (dkg_error, 'b party_msg option) result" where
  "handle_unsigned_message x d c m =
     (case c of
        KeygenChannel _ _ _ _ _ _ \<Rightarrow> keygen_handle_unsigned_message d c m
      | _ \<Rightarrow> offline_handle_unsigned_message x d c m)"

text \<open>The messages of the stream come with the state of the protocol after they were handled.\<close>

fun inbound_receiver ::
  "ext \<Rightarrow> wire \<Rightarrow> (dkg_id list \<times> dkg_id list) option \<Rightarrow> 'b party_codec \<Rightarrow> 'k async_protocol_parameters \<Rightarrow> protocol_channel \<Rightarrow>
   (signed_dkg_message \<times> protocol_state) list \<Rightarrow> (dkg_error, unit) result \<times> 'b party_msg list" where
  "inbound_receiver x y sets d p c [] = (Ok (), [])"
| "inbound_receiver x y sets d p c ((m, st) # rest) =
     (case transform x y sets (protocol_type_of c) (ap_session_id p) m of
        Panic \<Rightarrow> (Panic, [])
      | Ok (Some (sender, body)) \<Rightarrow>
          (case handle_unsigned_message x d c body of
             Panic \<Rightarrow> (Panic, [])
           | Err er \<Rightarrow> (Ok (), [])
           | Ok r \<Rightarrow>
               let passed = (case r of Some msg \<Rightarrow> [msg] | None \<Rightarrow> [])
               in if is_completed st \<or> is_terminated st then (Ok (), passed)
                  else (case inbound_receiver x y sets d p c rest of (e, ms) \<Rightarrow> (e, passed @ ms)))
      | _ \<Rightarrow> inbound_receiver x y sets d p c rest)"

section \<open>Around the state machine\<close>

record ('s, 'b, 'e) state_machine =
  sm_handle_incoming :: "'b party_msg \<Rightarrow> 's \<Rightarrow> ('e, unit) result \<times> 's"
  sm_proceed :: "'s \<Rightarrow> ('e, unit) result \<times> 's"
  sm_current_round :: "'s \<Rightarrow> u16"
  sm_round_blame :: "'s \<Rightarrow> u16 \<times> u16 list"

text \<open>The last field is what the node reads when the protocol stalls.\<close>

record 's state_machine_wrapper =
  wr_sm :: 's
  received_messages :: "bytes set"
  current_round_blame :: "u16 \<times> u16 list"

definition wrapper_new :: "'s \<Rightarrow> 's state_machine_wrapper" where
  "wrapper_new s = \<lparr>wr_sm = s, received_messages = {}, current_round_blame = (0, [])\<rparr>"

definition wrapper_handle_incoming ::
  "('s, 'b, 'e) state_machine \<Rightarrow> 'b party_codec \<Rightarrow> 'b party_msg \<Rightarrow> 's state_machine_wrapper \<Rightarrow> ('e, unit) result \<times> 's state_machine_wrapper" where
  "wrapper_handle_incoming M d msg w =
     (if round_id d (pm_body msg) < sm_current_round M (wr_sm w) then (Ok (), w)
      else case msg_bincode d msg of
             None \<Rightarrow> (Panic, w)
           | Some msg_serde \<Rightarrow>
               if msg_serde \<in> received_messages w then (Ok (), w)
               else (case sm_handle_incoming M msg (wr_sm w) of
                       (r, s) \<Rightarrow> (r, \<lparr>wr_sm = s, received_messages = insert msg_serde (received_messages w),
                                     current_round_blame = sm_round_blame M s\<rparr>)))"

definition wrapper_proceed ::
  "('s, 'b, 'e) state_machine \<Rightarrow> 's state_machine_wrapper \<Rightarrow> ('e, unit) result \<times> 's state_machine_wrapper" where
  "wrapper_proceed M w =
     (case sm_proceed M (wr_sm w) of
        (r, s) \<Rightarrow> (r, w\<lparr>wr_sm := s, current_round_blame := sm_round_blame M s\<rparr>))"

section \<open>The end of a protocol\<close>

text \<open>The errors of a run; those of the state machine may be critical.\<close>

datatype 'e async_error =
    RecvError 'e
  | ProceedError 'e
  | HandleIncomingError 'e
  | HandleIncomingTimeout 'e
  | FinishError 'e
  | SendError string
  | ProceedPanicked string
  | InternalError string
  | Exhausted
  | RecvEof
  | BadStateMachine string

fun fatal_error :: "('e \<Rightarrow> bool) \<Rightarrow> ('e \<Rightarrow> string) \<Rightarrow> 'e async_error \<Rightarrow> dkg_error option" where
  "fatal_error critical error_text (RecvError e) = (if critical e then Some (GenericError (error_text e)) else None)"
| "fatal_error critical error_text (ProceedError e) = (if critical e then Some (GenericError (error_text e)) else None)"
| "fatal_error critical error_text (HandleIncomingError e) = (if critical e then Some (GenericError (error_text e)) else None)"
| "fatal_error critical error_text (HandleIncomingTimeout e) = (if critical e then Some (GenericError (error_text e)) else None)"
| "fatal_error critical error_text (FinishError e) = (if critical e then Some (GenericError (error_text e)) else None)"
| "fatal_error critical error_text (SendError t) = Some (GenericError t)"
| "fatal_error critical error_text (ProceedPanicked t) = Some (GenericError t)"
| "fatal_error critical error_text (InternalError t) = Some (GenericError t)"
| "fatal_error critical error_text Exhausted = Some (GenericError ''Exhausted'')"
| "fatal_error critical error_text RecvEof = Some (GenericError ''RecvEof: Incomming channel closed'')"
| "fatal_error critical error_text (BadStateMachine t) = Some (GenericError t)"

text \<open>
  The protocol is run until it ends or an error is fatal. \<open>runs\<close> are the results of the runs so far;
  \<open>None\<close> says that the protocol is still running.
\<close>

fun protocol_loop :: "('e \<Rightarrow> bool) \<Rightarrow> ('e \<Rightarrow> string) \<Rightarrow> ('e async_error + 'v) list \<Rightarrow> (dkg_error, 'v) result option" where
  "protocol_loop critical error_text [] = None"
| "protocol_loop critical error_text (Inr v # runs) = Some (Ok v)"
| "protocol_loop critical error_text (Inl e # runs) =
     (case fatal_error critical error_text e of
        Some er \<Rightarrow> Some (Err er)
      | None \<Rightarrow> protocol_loop critical error_text runs)"

text \<open>
  The share is stored first, then the key is announced; \<open>share_key\<close> is the public key of the share. A
  failure to sign the announcement is logged.
\<close>

definition keygen_on_finish ::
  "net \<Rightarrow> (u64 \<Rightarrow> 'k \<Rightarrow> 's \<Rightarrow> (dkg_error, unit) result \<times> 's) \<Rightarrow> ('k \<Rightarrow> bytes) \<Rightarrow> u64 \<Rightarrow> 'k \<Rightarrow> 's \<Rightarrow> dkg_worker \<Rightarrow>
   (dkg_error, 'k) result \<times> 's \<times> dkg_worker" where
  "keygen_on_finish y store share_key session local_key db w =
     (case store session local_key db of
        (Ok _, db1) \<Rightarrow>
          (case gossip_public_key y \<lparr>pk_session_id = session, pk_pub_key = share_key local_key, pk_signature = []\<rparr> w of
             (Panic, w1) \<Rightarrow> (Panic, db1, w1)
           | (_, w1) \<Rightarrow> (Ok local_key, db1, w1))
      | (Err er, db1) \<Rightarrow> (Err er, db1, w)
      | (Panic, db1) \<Rightarrow> (Panic, db1, w))"

datatype keygen_error =
    Round2VerifyCommitments blame
  | Round3VerifyVssConstruct blame
  | Round4VerifyDLogProof blame
  | OtherKeygen string

fun map_keygen_error_to_dkg_error_keygen :: "keygen_error \<Rightarrow> u64 \<Rightarrow> (nat \<rightharpoonup> dkg_id) \<Rightarrow> dkg_error" where
  "map_keygen_error_to_dkg_error_keygen (Round2VerifyCommitments e) session mapping =
     KeygenMisbehaviour (error_type e) (bad_actors_to_authorities (blamed e) mapping) session"
| "map_keygen_error_to_dkg_error_keygen (Round3VerifyVssConstruct e) session mapping =
     KeygenMisbehaviour (error_type e) (bad_actors_to_authorities (blamed e) mapping) session"
| "map_keygen_error_to_dkg_error_keygen (Round4VerifyDLogProof e) session mapping =
     KeygenMisbehaviour (error_type e) (bad_actors_to_authorities (blamed e) mapping) session"
| "map_keygen_error_to_dkg_error_keygen (OtherKeygen t) session mapping = KeygenMisbehaviour t [] session"

section \<open>A key generation\<close>

text \<open>
  \<open>keygen_new\<close> makes the state machine, or fails; \<open>started\<close> says that the start signal came; \<open>runs\<close> are the
  runs of the protocol. A failure leaves the status as it is.
\<close>

definition keygen_protocol ::
  "net \<Rightarrow> (u64 \<Rightarrow> 'k \<Rightarrow> 's \<Rightarrow> (dkg_error, unit) result \<times> 's) \<Rightarrow> ('k \<Rightarrow> bytes) \<Rightarrow> ('e \<Rightarrow> bool) \<Rightarrow> ('e \<Rightarrow> string) \<Rightarrow>
   (u16 \<Rightarrow> u16 \<Rightarrow> u16 \<Rightarrow> keygen_error option) \<Rightarrow> 'k async_protocol_parameters \<Rightarrow> u16 \<Rightarrow> bool \<Rightarrow> ('e async_error + 'k) list \<Rightarrow>
   's \<times> dkg_worker \<times> protocol_state \<Rightarrow> (dkg_error, unit) result option \<times> 's \<times> dkg_worker \<times> protocol_state" where
  "keygen_protocol y store share_key critical error_text keygen_new p threshold started runs =
     (\<lambda>(db, w, st).
        if \<not> started then (Some (Err (StartKeygen ''start signal'')), db, w, st)
        else let st1 = set_status KeygenStatus st; n = of_nat (length (ap_best_authorities p))
             in case keygen_new (ap_party_i p) threshold n of
                  Some er \<Rightarrow> (Some (Err (map_keygen_error_to_dkg_error_keygen er (ap_session_id p) (ap_mapping p))), db, w, st1)
                | None \<Rightarrow>
                    (case protocol_loop critical error_text runs of
                       None \<Rightarrow> (None, db, w, st1)
                     | Some (Err er) \<Rightarrow> (Some (Err er), db, w, st1)
                     | Some Panic \<Rightarrow> (Some Panic, db, w, st1)
                     | Some (Ok local_key) \<Rightarrow>
                         (case keygen_on_finish y store share_key (ap_session_id p) local_key db w of
                            (Ok _, db1, w1) \<Rightarrow> (Some (Ok ()), db1, w1, set_status Complete st1)
                          | (Err er, db1, w1) \<Rightarrow> (Some (Err er), db1, w1, st1)
                          | (Panic, db1, w1) \<Rightarrow> (Some Panic, db1, w1, st1))))"

section \<open>A signing\<close>

text \<open>
  The end of the offline stage starts the voting stage, whose own vote is sent first. \<open>stream\<close> are the
  messages that pass the filter of the voting stage.
\<close>

definition offline_on_finish ::
  "ext \<Rightarrow> net \<Rightarrow> ('o, 'p) mpc \<Rightarrow> nat \<Rightarrow> authority_set \<Rightarrow> bool \<Rightarrow> 'k async_protocol_parameters \<Rightarrow> stored_unsigned_proposal_batch \<Rightarrow> u16 \<Rightarrow> u16 \<Rightarrow>
   batch_key \<Rightarrow> (u16 \<times> dkg_message) list \<Rightarrow> 'o \<Rightarrow> vote_engine \<Rightarrow> dkg_worker \<Rightarrow> (dkg_error, unit) result \<times> vote_engine \<times> dkg_worker" where
  "offline_on_finish x y c max_signature current has_header p batch offline_i threshold key stream offline g w =
     (case new_voting x c (ap_mapping p) (ap_authority_public_key p) (ap_session_id p) (ap_block_id p) (ap_ssid p) offline batch offline_i threshold stream of
        (r, own) \<Rightarrow>
          (case sign_and_send_messages y own w of
             (Panic, w1) \<Rightarrow> (Panic, g, w1)
           | (_, w1) \<Rightarrow>
               (case r of
                  Ok sig \<Rightarrow> (case process_vote_result max_signature (ap_authority_public_key p) current has_header sig batch key g of (r1, g1) \<Rightarrow> (r1, g1, w1))
                | Err er \<Rightarrow> (Err er, g, w1)
                | Panic \<Rightarrow> (Panic, g, w1))))"

text \<open>
  \<open>offline_new\<close> makes the state machine, or fails with a reason. The first component is \<open>None\<close> while the
  offline stage runs.
\<close>

definition signing_stages ::
  "ext \<Rightarrow> net \<Rightarrow> ('o, 'p) mpc \<Rightarrow> nat \<Rightarrow> authority_set \<Rightarrow> bool \<Rightarrow> (u16 \<Rightarrow> u16 list \<Rightarrow> 'k \<Rightarrow> string option) \<Rightarrow> ('e \<Rightarrow> bool) \<Rightarrow> ('e \<Rightarrow> string) \<Rightarrow>
   'k async_protocol_parameters \<Rightarrow> u16 \<Rightarrow> stored_unsigned_proposal_batch \<Rightarrow> u16 list \<Rightarrow> ('e async_error + 'o) list \<Rightarrow> (u16 \<times> dkg_message) list \<Rightarrow> 'k \<Rightarrow>
   vote_engine \<Rightarrow> dkg_worker \<Rightarrow> (dkg_error, unit) result option \<times> vote_engine \<times> dkg_worker" where
  "signing_stages x y c max_signature current has_header offline_new critical error_text p threshold batch s_l runs stream local_key g w =
     (let key = fst (get_next_batch_key (ap_batch_id_gen p))
      in case try_to_offline_party_id (ap_party_i p) s_l of
           Ok offline_i \<Rightarrow>
             (case offline_new offline_i s_l local_key of
                Some reason \<Rightarrow> (Some (Err (CriticalError reason)), g, w)
              | None \<Rightarrow>
                  (case protocol_loop critical error_text runs of
                     None \<Rightarrow> (None, g, w)
                   | Some (Err er) \<Rightarrow> (Some (Err er), g, w)
                   | Some Panic \<Rightarrow> (Some Panic, g, w)
                   | Some (Ok offline) \<Rightarrow>
                       (case offline_on_finish x y c max_signature current has_header p batch offline_i threshold key stream offline g w of
                          (r, g1, w1) \<Rightarrow> (Some r, g1, w1))))
         | _ \<Rightarrow> (Some (Err (GenericError ''We are not among signers, skipping'')), g, w))"

text \<open>Whatever the result, the protocol is complete afterwards.\<close>

definition signing_protocol ::
  "ext \<Rightarrow> net \<Rightarrow> ('o, 'p) mpc \<Rightarrow> nat \<Rightarrow> authority_set \<Rightarrow> bool \<Rightarrow> (u16 \<Rightarrow> u16 list \<Rightarrow> 'k \<Rightarrow> string option) \<Rightarrow> ('e \<Rightarrow> bool) \<Rightarrow> ('e \<Rightarrow> string) \<Rightarrow>
   'k async_protocol_parameters \<Rightarrow> u16 \<Rightarrow> stored_unsigned_proposal_batch \<Rightarrow> u16 list \<Rightarrow> bool \<Rightarrow> ('e async_error + 'o) list \<Rightarrow> (u16 \<times> dkg_message) list \<Rightarrow>
   vote_engine \<times> dkg_worker \<times> protocol_state \<Rightarrow> (dkg_error, unit) result option \<times> vote_engine \<times> dkg_worker \<times> protocol_state" where
  "signing_protocol x y c max_signature current has_header offline_new critical error_text p threshold batch s_l started runs stream =
     (\<lambda>(g, w, st).
        case (case ap_local_key p of
                None \<Rightarrow> (Some (Err (GenericError ''Will skip signing since local key does not exist'')), g, w, st)
              | Some local_key \<Rightarrow>
                  if \<not> started then (Some (Err (StartOffline ''start signal'')), g, w, st)
                  else (case signing_stages x y c max_signature current has_header offline_new critical error_text p threshold batch s_l runs stream local_key g w of
                          (r, g1, w1) \<Rightarrow> (r, g1, w1, set_status OfflineAndVoting st))) of
          (r, g1, w1, st1) \<Rightarrow> (r, g1, w1, if r = None \<or> r = Some Panic then st1 else set_status Complete st1))"

end
