(* ===== verification/Worker_Reports.thy ===== *)
theory Worker_Reports
  imports Dkg_Worker Sample_Metadata
begin

text \<open>
  The misbehaviour reports of a node: whatever its worker handles, the reports it stores for the chain are
  made of the signatures of different authorities, and the chain counts them all.
\<close>

section \<open>Genuine reports\<close>

definition genuine :: "ext \<Rightarrow> aggregated_misbehaviour_reports \<Rightarrow> bool" where
  "genuine x r \<longleftrightarrow> distinct (reporters r) \<and> length (report_signatures r) = length (reporters r) \<and>
     (\<forall>i < length (reporters r). signed_by x (reporters r ! i) (report_payload r) (report_signatures r ! i))"

definition reports_inv :: "ext \<Rightarrow> nat \<Rightarrow> dkg_worker \<Rightarrow> bool" where
  "reports_inv x t w \<longleftrightarrow>
     (\<forall>ty n off r. w_aggregated_reports w (ty, n, off) = Some r \<longrightarrow>
        genuine x r \<and> misbehaviour r = ty \<and> report_session_id r = n \<and> offender r = off) \<and>
     (\<forall>os r. w_offchain w = Some os \<longrightarrow> aggregated_reports os = Stored r \<longrightarrow> genuine x r \<and> t < length (reporters r))"

lemma reports_inv_cong:
  "\<lbrakk>w_aggregated_reports w' = w_aggregated_reports w; w_offchain w' = w_offchain w\<rbrakk> \<Longrightarrow> reports_inv x t w' = reports_inv x t w"
  by (simp add: reports_inv_def)

text \<open>Only the reports of the offchain storage matter.\<close>

lemma reports_inv_offchain:
  assumes "reports_inv x t w" and "w_aggregated_reports w' = w_aggregated_reports w" and "w_offchain w = Some os"
    and "w_offchain w' = Some os'" and "aggregated_reports os' = aggregated_reports os \<or> aggregated_reports os' = Absent"
  shows "reports_inv x t w'"
  using assms by (auto simp: reports_inv_def)

lemma misbehaviour_payload_report: "misbehaviour_payload (misbehaviour r) (report_session_id r) (offender r) = report_payload r"
  by (simp add: misbehaviour_payload_def report_payload_def)

lemma signed_by_length: "signed_by x a m sig \<Longrightarrow> length sig = 65"
  by (auto simp: signed_by_def recover_ecdsa_pub_key_def SIGNATURE_LENGTH_def split: if_splits)

lemma genuine_push:
  assumes "genuine x r" and "a \<notin> set (reporters r)" and "signed_by x a (report_payload r) sig"
  shows "genuine x (r\<lparr>reporters := reporters r @ [a], report_signatures := report_signatures r @ [sig]\<rparr>)"
proof -
  have "report_payload (r\<lparr>reporters := reporters r @ [a], report_signatures := report_signatures r @ [sig]\<rparr>) = report_payload r"
    by (simp add: report_payload_def)
  then show ?thesis
    using assms by (auto simp: genuine_def nth_append less_Suc_eq)
qed

lemma reports_on_genuine:
  assumes "reports_inv x t w"
  shows "genuine x (reports_on msg w)" and "misbehaviour (reports_on msg w) = mm_type msg"
    and "report_session_id (reports_on msg w) = mm_session_id msg" and "offender (reports_on msg w) = mm_offender msg"
  using assms by (auto simp: reports_on_def reports_inv_def genuine_def split: option.split)

lemma set_reports_inv:
  assumes "reports_inv x t w" and "genuine x r" and "misbehaviour r = mm_type msg" and "report_session_id r = mm_session_id msg"
    and "offender r = mm_offender msg"
  shows "reports_inv x t (set_reports msg r w)"
  using assms by (auto simp: reports_inv_def set_reports_def)

lemma push_report_inv:
  assumes "reports_inv x t w" and "a \<notin> set (reporters (reports_on msg w))"
    and "signed_by x a (misbehaviour_payload (mm_type msg) (mm_session_id msg) (mm_offender msg)) sig"
  shows "reports_inv x t (snd (push_report msg a sig w))"
    and "fst (push_report msg a sig w) = Ok r \<Longrightarrow> genuine x r"
proof -
  let ?r = "reports_on msg w"
  note on = reports_on_genuine [OF assms(1), of msg]
  have sig: "signed_by x a (report_payload ?r) sig"
    using assms(3) misbehaviour_payload_report [of ?r] on by simp
  have len: "length (report_signatures ?r) = length (reporters ?r)"
    using on(1) by (simp add: genuine_def)
  have res: "push_report msg a sig w =
      (if length (reporters ?r) < MaxReporters
       then let r2 = ?r\<lparr>reporters := reporters ?r @ [a], report_signatures := report_signatures ?r @ [sig]\<rparr> in (Ok r2, set_reports msg r2 w)
       else (Err InputOutOfBounds, set_reports msg ?r w))"
    using signed_by_length [OF assms(3)] len
    by (auto simp: push_report_def Let_def MaxSignatureLength_def try_push_def try_bounded_def)
  note g = genuine_push [OF on(1) assms(2) sig]
  show "reports_inv x t (snd (push_report msg a sig w))"
    using set_reports_inv [OF assms(1) g, of msg] set_reports_inv [OF assms(1) on(1), of msg] on by (simp add: res Let_def)
  show "fst (push_report msg a sig w) = Ok r \<Longrightarrow> genuine x r"
    using g by (auto simp: res Let_def split: if_splits)
qed

lemma try_store_inv:
  assumes "reports_inv x t w" and "genuine x r" and "t \<le> unat (cv_signature_threshold cv)"
  shows "reports_inv x t (snd (try_store_offchain cv r w))"
  using assms
  by (auto simp: try_store_offchain_def store_aggregated_misbehaviour_reports_def reports_inv_def split: option.splits)

section \<open>The operations keep the reports genuine\<close>

lemma snd_and_then:
  "P (snd q) \<Longrightarrow> (\<And>a. fst q = Ok a \<Longrightarrow> P (snd (k a (snd q)))) \<Longrightarrow> P (snd (and_then q k))"
  by (cases q; cases "fst q") auto

lemma snd_and_then_unit: "snd (and_then q (\<lambda>_ w. (Ok (), w))) = snd q"
  by (cases q; cases "fst q") auto

lemma handle_report_inv:
  assumes "reports_inv x t w" and "t \<le> unat (cv_signature_threshold cv)"
  shows "reports_inv x t (snd (handle_misbehaviour_report x cv m w))"
proof -
  have main: "reports_inv x t (snd (and_then (if a \<in> set (reporters (reports_on msg w))
          then (Ok (reports_on msg w), set_reports msg (reports_on msg w) w) else push_report msg a (mm_signature msg) w)
        (\<lambda>r w. and_then (try_store_offchain cv r w) (\<lambda>_ w. (Ok (), w)))))"
    if "signed_by x a (misbehaviour_payload (mm_type msg) (mm_session_id msg) (mm_offender msg)) (mm_signature msg)" for a msg
  proof (rule snd_and_then)
    note on = reports_on_genuine [OF assms(1), of msg]
    let ?q = "if a \<in> set (reporters (reports_on msg w)) then (Ok (reports_on msg w), set_reports msg (reports_on msg w) w)
      else push_report msg a (mm_signature msg) w"
    show q: "reports_inv x t (snd ?q)"
      using push_report_inv(1) [OF assms(1) _ that] set_reports_inv [OF assms(1) on(1)] on by simp
    fix r assume r: "fst ?q = Ok r"
    then have "genuine x r"
      using push_report_inv(2) [OF assms(1) _ that] on(1) by (auto split: if_splits)
    then have "reports_inv x t (snd (try_store_offchain cv r (snd ?q)))"
      by (rule try_store_inv [OF q _ assms(2)])
    then show "reports_inv x t (snd (and_then (try_store_offchain cv r (snd ?q)) (\<lambda>_ w. (Ok (), w))))"
      by (simp only: snd_and_then_unit)
  qed
  show ?thesis
    using assms(1) main
    by (auto simp: handle_misbehaviour_report_def Let_def authenticate_Ok(2)
        split: option.split network_msg_payload.split result.split)
qed

text \<open>What the keystore documents: its signatures are signatures of its key.\<close>

definition keystore_signs :: "ext \<Rightarrow> net \<Rightarrow> bool" where
  "keystore_signs x y \<longleftrightarrow> (\<forall>p m s. keystore_sign y p m = Some s \<longrightarrow> signed_by x p m s)"

lemma sign_and_gossip_simps [simp]:
  "w_aggregated_reports (sign_and_gossip y p m w) = w_aggregated_reports w" "w_offchain (sign_and_gossip y p m w) = w_offchain w"
  by (simp_all add: sign_and_gossip_def gossip_def split: option.split)

lemma gossip_report_inv:
  assumes "reports_inv x t w" and "t \<le> unat (cv_signature_threshold cv)" and "keystore_signs x y"
  shows "reports_inv x t (snd (gossip_misbehaviour_report y cv report w))"
proof (cases "mm_type report = Sign")
  case False
  show ?thesis
  proof (cases "get_authority_public_key y")
    case (Ok public)
    let ?pl = "misbehaviour_payload (mm_type report) (mm_session_id report) (mm_offender report)"
    show ?thesis
    proof (cases "keystore_sign y public ?pl")
      case (Some sig)
      let ?w1 = "sign_and_gossip y public (broadcast_message public (mm_session_id report)
        (MisbehaviourBroadcast (report\<lparr>mm_signature := sig\<rparr>))) w"
      have w1: "reports_inv x t ?w1"
        using assms(1) by (simp add: reports_inv_cong [of ?w1 w])
      have sg: "signed_by x public ?pl sig"
        using assms(3) Some by (simp add: keystore_signs_def)
      note on = reports_on_genuine [OF w1, of report]
      have drop: "reports_inv x t (w3\<lparr>w_aggregated_reports := (w_aggregated_reports w3)(k := None) |` S\<rparr>)" if "reports_inv x t w3" for w3 k S
        using that by (auto simp: reports_inv_def restrict_map_def split: if_splits)
      have "reports_inv x t (snd (and_then (push_report report public sig ?w1) (\<lambda>r w2. and_then (try_store_offchain cv r w2) (\<lambda>stored w3.
          (Ok (), if stored then w3\<lparr>w_aggregated_reports := (w_aggregated_reports w3)
             ((mm_type report, mm_session_id report, mm_offender report) := None) |` {k. mm_session_id report \<le> fst (snd k)}\<rparr> else w3)))))"
        if new: "public \<notin> set (reporters (reports_on report ?w1))"
      proof (rule snd_and_then)
        show p: "reports_inv x t (snd (push_report report public sig ?w1))"
          by (rule push_report_inv(1) [OF w1 new sg])
        fix r assume "fst (push_report report public sig ?w1) = Ok r"
        then have "genuine x r"
          by (rule push_report_inv(2) [OF w1 new sg])
        from try_store_inv [OF p this assms(2)] show "reports_inv x t (snd (and_then (try_store_offchain cv r (snd (push_report report public sig ?w1)))
            (\<lambda>stored w3. (Ok (), if stored then w3\<lparr>w_aggregated_reports := (w_aggregated_reports w3)
             ((mm_type report, mm_session_id report, mm_offender report) := None) |` {k. mm_session_id report \<le> fst (snd k)}\<rparr> else w3))))"
          by (rule snd_and_then) (simp only: snd_conv split: if_split, blast intro: drop try_store_inv [OF p \<open>genuine x r\<close> assms(2)])
      qed
      then show ?thesis
        using False Ok Some set_reports_inv [OF w1 on] by (simp add: gossip_misbehaviour_report_def Let_def)
    qed (use assms(1) False Ok in \<open>simp add: gossip_misbehaviour_report_def\<close>)
  qed (use assms(1) False in \<open>simp_all add: gossip_misbehaviour_report_def\<close>)
qed (use assms(1) in \<open>simp add: gossip_misbehaviour_report_def\<close>)

lemma handle_dkg_reports_inv:
  assumes "t \<le> unat (cv_signature_threshold cv)" and "keystore_signs x y"
  shows "reports_inv x t w \<Longrightarrow> reports_inv x t (snd (handle_dkg_reports y cv rs w))"
proof (induction rs arbitrary: w)
  case (Cons r rs)
  have "reports_inv x t (snd (handle_dkg_report y cv r w))"
    using gossip_report_inv [OF Cons.prems assms]
    by (auto simp: handle_dkg_report_def split: prod.split result.split dkg_report.split) (metis snd_conv)+
  then show ?case
    using Cons.IH by (auto intro!: snd_and_then [where P = "reports_inv x t"])
qed simp

section \<open>Runs of a worker\<close>

text \<open>
  A worker handles blocks, messages, errors and the end of its own key generations; its managers change by
  the tasks they run; and the offchain worker of the pallet takes what is stored. The thresholds it
  reads from the chain are at least \<open>t\<close>.
\<close>

inductive worker_step :: "ext \<Rightarrow> net \<Rightarrow> sampling \<Rightarrow> dkg_id \<Rightarrow> nat \<Rightarrow> dkg_worker \<Rightarrow> dkg_worker \<Rightarrow> bool"
  for x y e public t where
  block: "worker_step x y e public t w (snd (process_block_notification x e public syncing cv h w))"
| incoming: "t \<le> unat (cv_signature_threshold cv) \<Longrightarrow>
    worker_step x y e public t w (snd (process_incoming_dkg_message x y delay cv m w))"
| error: "t \<le> unat (cv_signature_threshold cv) \<Longrightarrow> worker_step x y e public t w (snd (handle_dkg_error y cv er w))"
| own_key: "worker_step x y e public t w (snd (gossip_public_key y msg w))"
| tasks: "worker_step x y e public t w (w\<lparr>w_managers := n\<rparr>)"
| submission: "w_offchain w = Some os \<Longrightarrow>
    worker_step x y e public t w (w\<lparr>w_offchain := Some (snd (metadata_offchain_worker pool can_sign b s os))\<rparr>)"

lemma block_keeps:
  fixes x e public syncing cv h w
  defines "w' \<equiv> snd (process_block_notification x e public syncing cv h w)"
  shows "w_aggregated_reports w' = w_aggregated_reports w" and "w_offchain w' = w_offchain w"
  by (simp_all add: w'_def process_block_notification_def maybe_rotate_local_session_def maybe_enact_genesis_authorities_def Let_def
      split: option.split prod.split)

lemma key_broadcast_keeps:
  assumes "reports_inv x t w"
  shows "reports_inv x t (snd (handle_public_key_broadcast x' delay cv m w))"
proof -
  have st: "reports_inv x t (snd (store_aggregated_public_keys g n b delay w1))"
    if "reports_inv x t w1" for g n b w1
    using that
    by (auto simp: store_aggregated_public_keys_def perform_storing_of_aggregated_public_keys_def Let_def reports_inv_def
        split: option.splits if_splits)
  have "reports_inv x t (set_collected_keys n ks w)" for n ks
    using assms by (simp add: reports_inv_def set_collected_keys_def)
  with st assms show ?thesis
    by (auto simp: handle_public_key_broadcast_def Let_def split: option.split network_msg_payload.split result.split)
qed

lemma offchain_worker_reports:
  "aggregated_reports (snd (metadata_offchain_worker pool can_sign b s os)) = aggregated_reports os \<or>
   aggregated_reports (snd (metadata_offchain_worker pool can_sign b s os)) = Absent"
proof -
  have g: "aggregated_reports (snd (snd (submit_genesis_public_key_onchain pool b s os))) = aggregated_reports os" for os
    by (auto simp: submit_genesis_public_key_onchain_def Let_def split: stored_value.split)
  have n: "aggregated_reports (snd (snd (submit_next_public_key_onchain pool b s os))) = aggregated_reports os" for os
    by (auto simp: submit_next_public_key_onchain_def Let_def split: stored_value.split)
  have r: "aggregated_reports (snd (snd (submit_misbehaviour_reports_onchain pool can_sign b s os))) = aggregated_reports os \<or>
      aggregated_reports (snd (snd (submit_misbehaviour_reports_onchain pool can_sign b s os))) = Absent" for os
    by (auto simp: submit_misbehaviour_reports_onchain_def Let_def split: stored_value.split)
  show ?thesis
    using g [of os] n [of "snd (snd (submit_genesis_public_key_onchain pool b s os))"]
      r [of "snd (snd (submit_next_public_key_onchain pool b s (snd (snd (submit_genesis_public_key_onchain pool b s os)))))"]
    by (simp add: metadata_offchain_worker_def case_prod_beta)
qed

lemma logged_inv: "reports_inv x t (snd r) \<Longrightarrow> reports_inv x t (snd (logged r))"
  by (simp add: snd_logged)

lemma worker_step_inv:
  assumes "worker_step x y e public t w w'" and "reports_inv x t w" and "keystore_signs x y"
  shows "reports_inv x t w'"
  using assms
proof cases
  case (block syncing cv h)
  then show ?thesis
    using assms(2) block_keeps [of x e public syncing cv h w] by (simp add: reports_inv_def)
next
  case (incoming cv delay m)
  have up: "reports_inv x t (w\<lparr>w_managers := n\<rparr>)" for n
    using assms(2) by (simp add: reports_inv_def)
  show ?thesis
    unfolding incoming(1)
    using assms(2) up logged_inv [OF key_broadcast_keeps [OF assms(2)]] logged_inv [OF handle_report_inv [OF assms(2) incoming(2)]]
    by (auto simp: process_incoming_dkg_message_def Let_def split: network_msg_payload.split prod.split result.split)
next
  case (error cv er)
  then show ?thesis
    using handle_dkg_reports_inv [OF error(2) assms(3,2)] assms(2) by (auto simp: handle_dkg_error_def split: dkg_error.split)
next
  case (own_key msg)
  have "reports_inv x t (set_collected_keys n ks (sign_and_gossip y p m w))" for n ks p m
    using assms(2) by (simp add: reports_inv_def set_collected_keys_def)
  then show ?thesis
    using assms(2) by (simp add: own_key gossip_public_key_def Let_def split: result.split option.split)
next
  case (tasks n)
  then show ?thesis using assms(2) by (simp add: reports_inv_def)
next
  case (submission os pool can_sign b s)
  show ?thesis
    by (rule reports_inv_offchain [OF assms(2) _ submission(2)]) (use offchain_worker_reports in \<open>simp_all add: submission(1)\<close>)
qed

section \<open>The chain counts them all\<close>

lemma verifying_keys_all: "(\<And>a. a \<in> set ids \<Longrightarrow> length a = 33 \<and> a \<noteq> replicate 33 0) \<Longrightarrow> verifying_keys ids = ids"
  by (induction ids) (auto simp: verifying_keys_def to_slice_33_def ECDSA_KEY_LENGTH_def)

lemma collect_all:
  assumes "genuine x r" and "set (reporters r) \<subseteq> set keys"
  shows "n \<le> length (reporters r) \<Longrightarrow> collect_reporters x r keys n (drop n (report_signatures r)) (take n (reporters r)) = Some (reporters r)"
proof (induction "length (reporters r) - n" arbitrary: n)
  case 0
  with assms(1) show ?case by (simp add: genuine_def)
next
  case (Suc k)
  then have n: "n < length (reporters r)" "n < length (report_signatures r)"
    using assms(1) by (simp_all add: genuine_def)
  have sg: "signed_by x (reporters r ! n) (report_payload r) (report_signatures r ! n)"
    using assms(1) n by (simp add: genuine_def)
  have "snd (verify_signer_from_set_ecdsa x keys (report_payload r) (report_signatures r ! n))"
    using sg assms(2) nth_mem [OF n(1)] by (auto simp: verify_signer_flag)
  moreover have "reporters r ! n \<notin> set (take n (reporters r))"
    using assms(1) n(1) by (auto simp: genuine_def in_set_conv_nth distinct_conv_nth)
  ultimately have "collect_reporters x r keys n (drop n (report_signatures r)) (take n (reporters r)) =
      collect_reporters x r keys (Suc n) (drop (Suc n) (report_signatures r)) (take (Suc n) (reporters r))"
    using n by (simp add: Cons_nth_drop_Suc [symmetric] take_Suc_conv_app_nth)
  with Suc n(1) show ?case by simp
qed

text \<open>
  C29. What a node reports is genuine. Whatever blocks, messages and errors a new node handles, the misbehaviour
  reports it leaves for the chain name more than a threshold of different authorities, each with
  its own signature on the offence, and the pallet counts every one of them when they are all
  in the set it verifies against.
\<close>

theorem stored_reports_are_genuine:
  assumes "(worker_step x y e public t)\<^sup>*\<^sup>* (worker_new (Some os0)) w" and "aggregated_reports os0 = Absent" and "keystore_signs x y"
    and "w_offchain w = Some os" and "aggregated_reports os = Stored r"
    and "\<forall>a \<in> set ids. length a = 33 \<and> a \<noteq> replicate 33 0" and "set (reporters r) \<subseteq> set ids"
  shows "distinct (reporters r) \<and> t < length (reporters r) \<and>
    (\<forall>i < length (reporters r). signed_by x (reporters r ! i) (report_payload r) (report_signatures r ! i)) \<and>
    process_misbehaviour_reports x r ids = Some (reporters r)"
proof -
  have "reports_inv x t w"
    using assms(1)
  proof (induction rule: rtranclp_induct)
    case base
    with assms(2) show ?case by (auto simp: reports_inv_def worker_new_def)
  next
    case (step v w)
    from worker_step_inv [OF step(2,3) assms(3)] show ?case .
  qed
  then have g: "genuine x r" "t < length (reporters r)"
    using assms(4,5) by (auto simp: reports_inv_def)
  have "process_misbehaviour_reports x r ids = Some (reporters r)"
    using collect_all [OF g(1) assms(7), of 0] assms(6) by (simp add: process_misbehaviour_reports_def verifying_keys_all)
  with g show ?thesis by (simp add: genuine_def)
qed

definition sample_report_net :: net where
  "sample_report_net =
     \<lparr>net_wire = \<lparr>encode_message = (\<lambda>m. sender_id m), encode_vote = (\<lambda>v. partial_signature v), encode_public_key = (\<lambda>p. pk_pub_key p),
        encode_misbehaviour = (\<lambda>b. mm_offender b), hash_of = take 32\<rparr>,
      net_keccak_256 = take 32, peer_id_from_bytes = Some, verify_prehashed = (\<lambda>s h a. s = h),
      store_public_keys = [sample_auth 1], store_has_key = (\<lambda>k. k = sample_auth 1),
      store_sign_prehashed = (\<lambda>k h. if k = sample_auth 1 then Some (sample_sig 1) else None)\<rparr>"

definition sample_report_view :: chain_view where
  "sample_report_view =
     \<lparr>cv_number = 8, cv_latest = 8, cv_sets = Some (\<lparr>set_authorities = map sample_auth [1, 2, 3], set_id = 2\<rparr>, \<lparr>set_authorities = map sample_auth [1, 2, 3], set_id = 3\<rparr>),
      cv_dkg_pub_key = (0, [1]), cv_next_dkg_pub_key = None, cv_best_authorities = [], cv_next_best_authorities = [],
      cv_signature_threshold = 1, cv_next_signature_threshold = 1, cv_unsigned_proposal_batches = Some [],
      cv_execute = False, cv_force_execute = False\<rparr>"

definition sample_report_sampling :: sampling where
  "sample_report_sampling = \<lparr>combinations = (\<lambda>k xs. filter (\<lambda>ys. length ys = k) (subseqs xs)), choose_multiple = (\<lambda>seed n xss. take n xss),
     encode_batch = (\<lambda>b. [])\<rparr>"

definition sample_report_offchain :: offchain_storage where
  "sample_report_offchain = \<lparr>aggregated_public_keys_at_genesis = Absent, submit_genesis_keys_at = Absent, aggregated_next_public_keys = Absent,
     submit_keys_at = Absent, aggregated_reports = Absent\<rparr>"

definition sample_reports :: aggregated_misbehaviour_reports where
  "sample_reports = \<lparr>misbehaviour = Keygen, report_session_id = 3, offender = sample_auth 3,
     reporters = [sample_auth 1, sample_auth 2], report_signatures = [sample_sig 1, sample_sig 2]\<rparr>"

definition sample_report_message :: signed_dkg_message where
  "sample_report_message = \<lparr>sd_msg = broadcast_message (sample_auth 2) 3 (MisbehaviourBroadcast
      \<lparr>mm_type = Keygen, mm_session_id = 3, mm_offender = sample_auth 3, mm_signature = sample_sig 2\<rparr>), sd_signature = Some (sample_sig 2)\<rparr>"

text \<open>A block, a key generation in which the third authority timed out, and the report of the second authority.\<close>

definition sample_report_run :: dkg_worker where
  "sample_report_run = snd (process_incoming_dkg_message sample_ext sample_report_net 0 sample_report_view sample_report_message
     (snd (handle_dkg_error sample_report_net sample_report_view (KeygenTimeout 3 [sample_auth 3])
       (snd (process_block_notification sample_ext sample_report_sampling (sample_auth 1) True sample_report_view \<lparr>hd_number = 8, hd_digest = []\<rparr>
         (worker_new (Some sample_report_offchain)))))))"

lemma sample_keystore_signs: "keystore_signs sample_ext sample_report_net"
  by (auto simp: keystore_signs_def keystore_sign_def sample_report_net_def sample_signed_by split: if_splits)

lemma sample_report_steps:
  "(worker_step sample_ext sample_report_net sample_report_sampling (sample_auth 1) 1)\<^sup>*\<^sup>* (worker_new (Some sample_report_offchain)) sample_report_run"
proof -
  have t: "1 \<le> unat (cv_signature_threshold sample_report_view)"
    by (simp add: sample_report_view_def)
  show ?thesis
    unfolding sample_report_run_def
    by (rule rtranclp.rtrancl_into_rtrancl, rule rtranclp.rtrancl_into_rtrancl, rule rtranclp.rtrancl_into_rtrancl, rule rtranclp.rtrancl_refl,
        rule worker_step.block, rule worker_step.error [OF t], rule worker_step.incoming [OF t])
qed

lemma sample_authenticate:
  "authenticate_msg_origin sample_ext main (map sample_auth [1, 2, 3], map sample_auth [1, 2, 3]) m (sample_sig 2) = Ok (sample_auth 2)"
proof -
  have "authority_keys (map sample_auth [1, 2, 3]) = Some (map sample_auth [1, 2, 3])"
    by (simp add: to_slice_33_def ECDSA_KEY_LENGTH_def)
  then show ?thesis
    by (simp add: authenticate_msg_origin_def verify_sample_sig del: verify_signer_from_set_ecdsa.simps)
qed

lemma sample_report_stored: "\<exists>os. w_offchain sample_report_run = Some os \<and> aggregated_reports os = Stored sample_reports"
proof -
  let ?w1 = "(worker_new (Some sample_report_offchain))\<lparr>w_latest_header := Some \<lparr>hd_number = 8, hd_digest = []\<rparr>\<rparr>"
  let ?msg = "\<lparr>mm_type = Keygen, mm_session_id = 3, mm_offender = sample_auth 3, mm_signature = []\<rparr>"
  let ?r = "\<lparr>misbehaviour = Keygen, report_session_id = 3, offender = sample_auth 3, reporters = [sample_auth 1], report_signatures = [sample_sig 1]\<rparr>"
  have w1: "snd (process_block_notification sample_ext sample_report_sampling (sample_auth 1) True sample_report_view \<lparr>hd_number = 8, hd_digest = []\<rparr>
      (worker_new (Some sample_report_offchain))) = ?w1"
    by (simp add: process_block_notification_def worker_new_def)
  have "length (sample_sig 1) = 65"
    by (simp add: sample_sig_def)
  then obtain w2 where w2: "snd (handle_dkg_error sample_report_net sample_report_view (KeygenTimeout 3 [sample_auth 3]) ?w1) = w2"
    "w_offchain w2 = Some sample_report_offchain" "w_latest_header w2 = Some \<lparr>hd_number = 8, hd_digest = []\<rparr>"
    "w_aggregated_reports w2 = [(Keygen, 3, sample_auth 3) \<mapsto> ?r]" "w_managers w2 = w_managers ?w1"
    by (simp add: handle_dkg_error_def handle_dkg_report_def gossip_misbehaviour_report_def get_authority_public_key_def keystore_authority_id_def
        keystore_sign_def sample_report_net_def sign_and_gossip_def gossip_def reports_on_def push_report_def set_reports_def try_store_offchain_def
        sample_report_view_def worker_new_def MaxReporters_def MaxSignatureLength_def try_push_def try_bounded_def Let_def)
  have s2: "signed_by sample_ext (sample_auth 2) m (sample_sig 2)" for m
    by (rule sample_signed_by) simp
  have in33: "length b = 33" if "b \<in> set (map sample_auth [1, 2, 3])" for b
    using that by auto
  have "verify_signature_against_authorities_inner sample_ext (net_wire sample_report_net) (Some (map sample_auth [1, 2, 3], map sample_auth [1, 2, 3]))
      sample_report_message = Ok (sd_msg sample_report_message)"
    by (rule verify_accepts_member [OF _ in33 _ s2]) (simp_all add: sample_report_message_def)
  then have vf: "verify_signature_against_authorities sample_ext sample_report_net sample_report_view sample_report_message w2 =
      Ok (sd_msg sample_report_message)"
    by (simp add: verify_signature_against_authorities_def w2(3) sample_report_view_def authority_lists_def)
  have len: "length (sample_sig 2) = 65"
    by (simp add: sample_sig_def)
  have pl: "msg_payload (sd_msg sample_report_message) = MisbehaviourBroadcast
      \<lparr>mm_type = Keygen, mm_session_id = 3, mm_offender = sample_auth 3, mm_signature = sample_sig 2\<rparr>"
    by (simp add: sample_report_message_def broadcast_message_def)
  have run: "sample_report_run = snd (handle_misbehaviour_report sample_ext sample_report_view (sd_msg sample_report_message) w2)"
    by (simp add: sample_report_run_def w1 w2(1) process_incoming_dkg_message_def vf pl snd_logged)
  have "latest_executed_session_id (keygen (w_managers w2)) = None" "cv_signature_threshold sample_report_view = 1"
    "cv_sets sample_report_view = Some (\<lparr>set_authorities = map sample_auth [1, 2, 3], set_id = 2\<rparr>, \<lparr>set_authorities = map sample_auth [1, 2, 3], set_id = 3\<rparr>)"
    by (simp_all add: w2 worker_new_def keygen_manager_new_def sample_report_view_def)
  with sample_authenticate len show ?thesis
    unfolding run
    by (simp add: handle_misbehaviour_report_def pl w2(2-4) authority_lists_def Let_def reports_on_def push_report_def set_reports_def
        try_store_offchain_def store_aggregated_misbehaviour_reports_def MaxReporters_def MaxSignatureLength_def try_push_def try_bounded_def
        sample_reports_def)
qed

theorem stored_reports_are_genuine_witness:
  "process_misbehaviour_reports sample_ext sample_reports [sample_auth 1, sample_auth 2] = Some [sample_auth 1, sample_auth 2]"
proof -
  obtain os where os: "w_offchain sample_report_run = Some os" "aggregated_reports os = Stored sample_reports"
    using sample_report_stored by blast
  have "aggregated_reports sample_report_offchain = Absent"
    by (simp add: sample_report_offchain_def)
  note genuine = stored_reports_are_genuine [OF sample_report_steps this sample_keystore_signs os, of "[sample_auth 1, sample_auth 2]"]
  have "\<forall>a \<in> set [sample_auth 1, sample_auth 2]. length a = 33 \<and> a \<noteq> replicate 33 0"
    by (simp add: sample_auth_def numeral_eq_Suc)
  with genuine have "process_misbehaviour_reports sample_ext sample_reports [sample_auth 1, sample_auth 2] = Some (reporters sample_reports)"
    by (simp add: sample_reports_def)
  then show ?thesis by (simp add: sample_reports_def)
qed

end
