(* ===== verification/Wire_Properties.thy ===== *)
theory Wire_Properties
  imports Protocol_Wire Worker_Reports "HOL-Library.Sublist"
begin

text \<open>
  What the code between a protocol and the network shows: the messages of a party arrive at the state
  machines they are for, each once; a generated share is the one later signings use; and two places where
  the numbering of a signing set is taken for the numbering of the key generation.
\<close>

section \<open>From one party to another\<close>

text \<open>Two nodes take part in the same protocol: the same key generation stage, or the same batch.\<close>

fun same_protocol :: "protocol_channel \<Rightarrow> protocol_channel \<Rightarrow> bool" where
  "same_protocol (KeygenChannel _ _ _ _ _ _) (KeygenChannel _ _ _ _ _ _) = True"
| "same_protocol (OfflineChannel b _ _ _) (OfflineChannel b' _ _ _) = (b = b')"
| "same_protocol _ _ = False"

text \<open>The node \<open>a\<close> signs with its key, and decoding inverts the encoding of its messages.\<close>

definition sends :: "ext \<Rightarrow> net \<Rightarrow> 'b party_codec \<Rightarrow> dkg_id \<Rightarrow> bool" where
  "sends x y d a \<longleftrightarrow> get_authority_public_key y = Ok a \<and> (\<forall>m. \<exists>sig. keystore_sign y a m = Some sig \<and> signed_by x a m sig) \<and>
     (\<forall>msg. \<exists>b. msg_to_json d msg = Some b \<and> msg_from_json d b = Some msg)"

text \<open>A message as it goes over the wire.\<close>

definition on_the_wire :: "ext \<Rightarrow> net \<Rightarrow> 'b party_codec \<Rightarrow> 'k async_protocol_parameters \<Rightarrow> protocol_channel \<Rightarrow> 'b party_msg \<Rightarrow> signed_dkg_message" where
  "on_the_wire x y d p c msg =
     (case outgoing_message x p c msg (the (msg_to_json d msg)) of
        Ok m \<Rightarrow> \<lparr>sd_msg = m, sd_signature = keystore_sign y (case get_authority_public_key y of Ok a \<Rightarrow> a | _ \<Rightarrow> []) (encode_message (net_wire y) m)\<rparr>)"

lemma party_number_round_trip: "ucast (ucast (i :: u16) :: u64) = i"
  by transfer simp

lemma recipient_Ok: "r \<noteq> Some 0 \<Longrightarrow> recipient_of best r = Ok (Option.bind r (map_of best))"
  by (cases r) (auto simp: recipient_of_def keygen_party_id_try_from_def)

lemma outgoing_message_Ok:
  assumes "same_protocol c c'" and "pm_receiver msg \<noteq> Some 0"
  obtains m where "outgoing_message x p c msg b = Ok m" and "outgoing_payload x c (pm_sender msg) b = Ok (msg_payload m)"
    and "recipient_id m = Option.bind (pm_receiver msg) (map_of (ap_best_authorities p))"
    and "msg_session_id m = ap_session_id p" and "msg_block_id m = ap_block_id p"
proof -
  obtain pl where pl: "outgoing_payload x c (pm_sender msg) b = Ok pl"
    using assms(1) by (cases c) (auto simp: outgoing_payload_def unsigned_batch_hash_def)
  show ?thesis
    by (rule that, simp add: outgoing_message_def recipient_Ok [OF assms(2)] pl) (simp_all add: pl)
qed

lemma step_outgoing:
  assumes "sends x y d a" and "same_protocol c c'" and "pm_receiver msg \<noteq> Some 0"
  shows "outgoing_to_wire x y d p c ((msg, st) # rest) w =
    (if is_completed st \<or> is_terminated st then (Ok (), gossip (on_the_wire x y d p c msg) w)
     else outgoing_to_wire x y d p c rest (gossip (on_the_wire x y d p c msg) w))"
proof -
  obtain b where b: "msg_to_json d msg = Some b"
    using assms(1) by (auto simp: sends_def)
  obtain m where m: "outgoing_message x p c msg b = Ok m"
    by (rule outgoing_message_Ok [OF assms(2,3), where x = x and p = p and b = b])
  obtain sig where a: "get_authority_public_key y = Ok a" "keystore_sign y a (encode_message (net_wire y) m) = Some sig"
    using assms(1) unfolding sends_def by blast
  have "sign_and_send_messages y [m] w = (Ok (), gossip (on_the_wire x y d p c msg) w)"
    by (simp add: sign_and_send_messages_def a sign_and_gossip_def on_the_wire_def b m)
  with b m show ?thesis by simp
qed

text \<open>The other node passes the message on exactly when it is for its party.\<close>

lemma step_inbound:
  assumes "sends x y d a" and "same_protocol c c'" and "pm_receiver msg \<noteq> Some 0"
    and "pm_sender msg \<noteq> get_i c'" and "ap_session_id p = ap_session_id p'"
    and "associated_block_id_acceptable (get_associated_block_id c') (ap_block_id p)"
    and "a \<in> set active" and "\<And>b. b \<in> set active \<Longrightarrow> length b = 33"
  shows "inbound_receiver x (net_wire y) (Some (active, queued)) d p' c' ((on_the_wire x y d p c msg, st) # rest) =
    (let passed = (if for_local c' msg then [msg] else [])
     in if is_completed st \<or> is_terminated st then (Ok (), passed)
        else case inbound_receiver x (net_wire y) (Some (active, queued)) d p' c' rest of (e, ms) \<Rightarrow> (e, passed @ ms))"
proof -
  obtain b where b: "msg_to_json d msg = Some b" "msg_from_json d b = Some msg"
    using assms(1) unfolding sends_def by blast
  obtain m where pl: "outgoing_payload x c (pm_sender msg) b = Ok (msg_payload m)"
    and m: "outgoing_message x p c msg b = Ok m" "msg_session_id m = ap_session_id p" "msg_block_id m = ap_block_id p"
    by (rule outgoing_message_Ok [OF assms(2,3), where x = x and p = p and b = b])
  obtain sig where a: "get_authority_public_key y = Ok a" "keystore_sign y a (encode_message (net_wire y) m) = Some sig"
    "signed_by x a (encode_message (net_wire y) m) sig"
    using assms(1) unfolding sends_def by blast
  have w: "on_the_wire x y d p c msg = \<lparr>sd_msg = m, sd_signature = Some sig\<rparr>"
    by (simp add: on_the_wire_def b m a)
  have v: "verify_signature_against_authorities_inner x (net_wire y) (Some (active, queued)) (on_the_wire x y d p c msg) = Ok m"
    using verify_accepts_member [OF assms(7,8), of "on_the_wire x y d p c msg" sig x "net_wire y" queued] a by (simp add: w)
  have "same_stage (pt_kind (protocol_type_of c')) (msg_payload m)" "async_proto_only_get_sender_id (msg_payload m) = Some (pm_sender msg)"
    using pl [symmetric] assms(2)
    by (auto simp: outgoing_payload_def protocol_type_of_def unsigned_batch_hash_def party_number_round_trip elim!: same_protocol.elims)
  then have t: "transform x (net_wire y) (Some (active, queued)) (protocol_type_of c') (ap_session_id p') (on_the_wire x y d p c msg) =
      Ok (Some (pm_sender msg, m))"
    using assms(4,5,6) m v by (simp add: transform_def w Let_def protocol_type_of_def)
  have "handle_unsigned_message x d c' m = Ok (if for_local c' msg then Some msg else None)"
    using pl [symmetric] assms(2) b(2)
    by (auto simp: outgoing_payload_def unsigned_batch_hash_def handle_unsigned_message_def keygen_handle_unsigned_message_def
        offline_handle_unsigned_message_def get_unsigned_proposal_hash_def elim!: same_protocol.elims)
  with t show ?thesis
    by (simp add: Let_def split: prod.split)
qed

text \<open>
  C36. The messages that a party of a key generation or of an offline stage sends while the protocol runs are
  all signed and gossiped in their order, each addressed to the authority with the number of its
  receiver, and every other party of the same protocol, as long as it runs, hands to its state machine
  exactly those that are for all or for it, unchanged and in the same order.
\<close>

theorem party_messages_arrive:
  assumes "sends x y d a" and "same_protocol c c'"
    and "\<forall>(msg, st) \<in> set out. pm_receiver msg \<noteq> Some 0 \<and> pm_sender msg \<noteq> get_i c' \<and> \<not> is_completed st \<and> \<not> is_terminated st"
    and "ap_session_id p = ap_session_id p'" and "associated_block_id_acceptable (get_associated_block_id c') (ap_block_id p)"
    and "a \<in> set active" and "\<forall>b \<in> set active. length b = 33"
  shows "\<exists>ms. outgoing_to_wire x y d p c out w = (Ok (), w\<lparr>w_gossiped := w_gossiped w @ ms\<rparr>) \<and>
    map (\<lambda>m. recipient_id (sd_msg m)) ms = map (\<lambda>(msg, st). Option.bind (pm_receiver msg) (map_of (ap_best_authorities p))) out \<and>
    inbound_receiver x (net_wire y) (Some (active, queued)) d p' c' (zip ms (map snd out)) =
      (Ok (), filter (\<lambda>msg. pm_receiver msg = None \<or> pm_receiver msg = Some (get_i c')) (map fst out))"
proof -
  let ?wire = "on_the_wire x y d p c"
  have out: "outgoing_to_wire x y d p c out w = (Ok (), w\<lparr>w_gossiped := w_gossiped w @ map (\<lambda>(msg, st). ?wire msg) out\<rparr>)" for w
    using assms(3) by (induction out arbitrary: w) (auto simp: step_outgoing [OF assms(1,2)] gossip_def simp del: outgoing_to_wire.simps(2))
  have to: "recipient_id (sd_msg (?wire msg)) = Option.bind (pm_receiver msg) (map_of (ap_best_authorities p))" if "pm_receiver msg \<noteq> Some 0" for msg
    by (rule outgoing_message_Ok [OF assms(2) that, where x = x and p = p and b = "the (msg_to_json d msg)"]) (simp add: on_the_wire_def)
  have passes: "for_local c' = (\<lambda>msg. pm_receiver msg = None \<or> pm_receiver msg = Some (get_i c'))"
    by (auto simp: for_local_def fun_eq_iff split: option.split)
  have len: "length b = 33" if "b \<in> set active" for b using assms(7) that by blast
  have inb: "inbound_receiver x (net_wire y) (Some (active, queued)) d p' c' (zip (map (\<lambda>(msg, st). ?wire msg) out) (map snd out)) =
      (Ok (), filter (for_local c') (map fst out))"
    using assms(3)
  proof (induction out)
    case (Cons o' out)
    obtain msg st where o': "o' = (msg, st)" by (cases o')
    from Cons show ?case
      by (auto simp: o' step_inbound [OF assms(1,2) _ _ assms(4,5,6) len] Let_def simp del: inbound_receiver.simps(2))
  qed simp
  show ?thesis
    using out [of w] inb to assms(3) by (intro exI [of _ "map (\<lambda>(msg, st). ?wire msg) out"]) (auto simp: passes)
qed

section \<open>Each message once\<close>

datatype 'b party_event = Incoming "'b party_msg" | Proceed

fun wrapper_event :: "('s, 'b, 'e) state_machine \<Rightarrow> 'b party_codec \<Rightarrow> 'b party_event \<Rightarrow> 's state_machine_wrapper \<Rightarrow> 's state_machine_wrapper" where
  "wrapper_event M d (Incoming m) w = snd (wrapper_handle_incoming M d m w)"
| "wrapper_event M d Proceed w = snd (wrapper_proceed M w)"

fun machine_event :: "('s, 'b, 'e) state_machine \<Rightarrow> 'b party_event \<Rightarrow> 's \<Rightarrow> 's" where
  "machine_event M (Incoming m) s = snd (sm_handle_incoming M m s)"
| "machine_event M Proceed s = snd (sm_proceed M s)"

definition incoming :: "'b party_event list \<Rightarrow> 'b party_msg list" where
  "incoming es = List.map_filter (\<lambda>e. case e of Incoming m \<Rightarrow> Some m | Proceed \<Rightarrow> None) es"

lemma incoming_simps [simp]: "incoming [] = []" "incoming (es @ es') = incoming es @ incoming es'"
  "incoming [Incoming m] = [m]" "incoming [Proceed] = []"
  by (simp_all add: incoming_def List.map_filter_def)

text \<open>
  C37. Whatever messages arrive at a protocol, repeated and out of order, and whenever it proceeds: its state
  machine is in the state that it reaches with some of these events in the same order, among which no
  message occurs twice and, as long as rounds do not go back, every message of the current or a later
  round occurs; and the parties that are blamed when the protocol stalls are those that the machine names.
\<close>

theorem machine_sees_each_message_once:
  assumes "\<forall>m. msg_bincode d m \<noteq> None" and "inj (msg_bincode d)"
    and "\<forall>e s. sm_current_round M s \<le> sm_current_round M (machine_event M e s)"
  shows "\<exists>kept. let w = fold (wrapper_event M d) es (wrapper_new s)
    in subseq kept es \<and> distinct (incoming kept) \<and> wr_sm w = fold (machine_event M) kept s \<and>
       (\<forall>m \<in> set (incoming es). sm_current_round M (wr_sm w) \<le> round_id d (pm_body m) \<longrightarrow> m \<in> set (incoming kept)) \<and>
       current_round_blame w = (if kept = [] then (0, []) else sm_round_blame M (wr_sm w))"
proof -
  have "\<exists>kept. let w = fold (wrapper_event M d) es (wrapper_new s)
    in subseq kept es \<and> distinct (incoming kept) \<and> wr_sm w = fold (machine_event M) kept s \<and>
       Some ` received_messages w = msg_bincode d ` set (incoming kept) \<and>
       (\<forall>m \<in> set (incoming es). sm_current_round M (wr_sm w) \<le> round_id d (pm_body m) \<longrightarrow> m \<in> set (incoming kept)) \<and>
       current_round_blame w = (if kept = [] then (0, []) else sm_round_blame M (wr_sm w))"
    unfolding Let_def
  proof (induction es rule: rev_induct)
    case Nil
    show ?case by (rule exI [of _ "[]"]) (simp add: wrapper_new_def)
  next
    case (snoc e es)
    let ?w = "fold (wrapper_event M d) es (wrapper_new s)"
    from snoc obtain kept where k: "subseq kept es" "distinct (incoming kept)" "wr_sm ?w = fold (machine_event M) kept s"
      "Some ` received_messages ?w = msg_bincode d ` set (incoming kept)"
      "\<forall>m \<in> set (incoming es). sm_current_round M (wr_sm ?w) \<le> round_id d (pm_body m) \<longrightarrow> m \<in> set (incoming kept)"
      "current_round_blame ?w = (if kept = [] then (0, []) else sm_round_blame M (wr_sm ?w))"
      by blast
    have sub: "subseq (kept @ [e]) (es @ [e])" "subseq kept (es @ [e])"
      using k(1) by (auto intro: subseq_rev_drop_many)
    have mono: "sm_current_round M (wr_sm ?w) \<le> sm_current_round M (machine_event M e (wr_sm ?w))"
      using assms(3) by blast
    show ?case
    proof (cases e)
      case Proceed
      show ?thesis
        by (rule exI [of _ "kept @ [e]"])
          (use k sub mono in \<open>auto simp: Proceed wrapper_proceed_def split: prod.splits\<close>)
    next
      case (Incoming m)
      obtain b where b: "msg_bincode d m = Some b" using assms(1) by blast
      have seen: "b \<in> received_messages ?w \<longleftrightarrow> m \<in> set (incoming kept)"
      proof -
        have "b \<in> received_messages ?w \<longleftrightarrow> msg_bincode d m \<in> Some ` received_messages ?w" by (auto simp: b)
        also have "\<dots> \<longleftrightarrow> m \<in> set (incoming kept)" by (simp add: k(4) inj_image_mem_iff [OF assms(2)])
        finally show ?thesis .
      qed
      show ?thesis
      proof (cases "round_id d (pm_body m) < sm_current_round M (wr_sm ?w) \<or> m \<in> set (incoming kept)")
        case True
        then have "wrapper_event M d e ?w = ?w" by (auto simp: Incoming wrapper_handle_incoming_def b seen)
        with k sub True show ?thesis by (intro exI [of _ kept]) (auto simp: Incoming)
      next
        case False
        show ?thesis
          by (rule exI [of _ "kept @ [e]"])
            (use False k sub mono b in \<open>auto simp: Incoming wrapper_handle_incoming_def seen split: prod.splits\<close>)
      qed
    qed
  qed
  then show ?thesis unfolding Let_def by blast
qed

section \<open>The generated share\<close>

lemma protocol_loop_finishes:
  "\<forall>e \<in> set es. fatal_error critical error_text e = None \<Longrightarrow> protocol_loop critical error_text (map Inl es @ Inr k # runs) = Some (Ok k)"
  by (induction es) auto

text \<open>What the announcement of a key leaves behind.\<close>

lemma gossip_public_key_effect:
  assumes "get_authority_public_key y = Ok a" and "\<forall>m. keystore_sign y a m \<noteq> None" and "keystore_sign y a k = Some sig"
  obtains w' m where "gossip_public_key y \<lparr>pk_session_id = n, pk_pub_key = k, pk_signature = []\<rparr> w = (Ok (), w')"
    and "w_gossiped w' = w_gossiped w @ [m]"
    and "msg_payload (sd_msg m) = PublicKeyBroadcast \<lparr>pk_session_id = n, pk_pub_key = k, pk_signature = sig\<rparr>"
    and "collected_keys n w' = collected_keys n w @ [(k, sig)]"
proof -
  let ?m = "broadcast_message a n (PublicKeyBroadcast \<lparr>pk_session_id = n, pk_pub_key = k, pk_signature = sig\<rparr>)"
  obtain s where s: "keystore_sign y a (encode_message (net_wire y) ?m) = Some s"
    using assms(2) by blast
  show ?thesis
    by (rule that [of _ "\<lparr>sd_msg = ?m, sd_signature = Some s\<rparr>"], simp add: gossip_public_key_def assms Let_def sign_and_gossip_def s gossip_def)
      (simp_all add: set_collected_keys_def collected_keys_def broadcast_message_def)
qed

context dkg_db_backend
begin

lemma keygen_protocol_finishes:
  assumes "ready db" and "get_authority_public_key y = Ok a" and "\<forall>m. keystore_sign y a m \<noteq> None" and "keystore_sign y a (share_key k) = Some sig"
    and "keygen_new (ap_party_i p) threshold (of_nat (length (ap_best_authorities p))) = None"
    and "\<forall>e \<in> set es. fatal_error critical error_text e = None"
  shows "\<exists>db' w' st' m. keygen_protocol y store_local_key share_key critical error_text keygen_new p threshold True (map Inl es @ Inr k # runs) (db, w, st) =
      (Some (Ok ()), db', w', st') \<and> is_completed st' \<and>
    w_gossiped w' = w_gossiped w @ [m] \<and>
    msg_payload (sd_msg m) = PublicKeyBroadcast \<lparr>pk_session_id = ap_session_id p, pk_pub_key = share_key k, pk_signature = sig\<rparr> \<and>
    (share_key k, sig) \<in> set (collected_keys (ap_session_id p) w') \<and>
    (\<forall>n. get_local_key n db' = (if n = ap_session_id p then Ok (Some k) else get_local_key n db))"
proof -
  obtain db' where db': "store_local_key (ap_session_id p) k db = (Ok (), db')"
    using store_succeeds [OF assms(1), of "ap_session_id p" k] by (cases "store_local_key (ap_session_id p) k db") auto
  obtain w' m where w': "gossip_public_key y \<lparr>pk_session_id = ap_session_id p, pk_pub_key = share_key k, pk_signature = []\<rparr> w = (Ok (), w')"
    "w_gossiped w' = w_gossiped w @ [m]"
    "msg_payload (sd_msg m) = PublicKeyBroadcast \<lparr>pk_session_id = ap_session_id p, pk_pub_key = share_key k, pk_signature = sig\<rparr>"
    "collected_keys (ap_session_id p) w' = collected_keys (ap_session_id p) w @ [(share_key k, sig)]"
    by (rule gossip_public_key_effect [OF assms(2,3,4), where n = "ap_session_id p" and w = w]) (rule that)
  have "is_completed (set_status Complete s)" for s
    by (simp add: is_completed_def set_status_def)
  with w' db' get_stored [OF assms(1), of _ "ap_session_id p" k] show ?thesis
    by (auto simp: keygen_protocol_def assms(5) protocol_loop_finishes [OF assms(6)] keygen_on_finish_def Let_def)
qed

end

text \<open>
  C35. With the database in memory, the one that the test orchestrator gives its nodes, a key generation that is started
  and whose state machine ends with a share, after any errors that are not critical, completes: the node
  announces the public key of the share with its signature, counts it, and a signing protocol that it
  starts later for that session has that share; the shares of the other sessions stay as they were.
\<close>

theorem generated_share_is_announced_and_used:
  fixes k :: 'k
  assumes "get_authority_public_key y = Ok a" and "\<forall>m. keystore_sign y a m \<noteq> None"
    and "keystore_sign y a (share_key k) = Some sig"
    and "keygen_new (ap_party_i p) threshold (of_nat (length (ap_best_authorities p))) = None"
    and "\<forall>e \<in> set es. fatal_error critical error_text e = None"
  shows "\<exists>db' w' st' m.
    keygen_protocol y mem_store_local_key share_key critical error_text keygen_new p threshold True (map Inl es @ Inr k # runs) (db, w, st) =
      (Some (Ok ()), db', w', st') \<and> is_completed st' \<and>
    w_gossiped w' = w_gossiped w @ [m] \<and>
    msg_payload (sd_msg m) = PublicKeyBroadcast \<lparr>pk_session_id = ap_session_id p, pk_pub_key = share_key k, pk_signature = sig\<rparr> \<and>
    (share_key k, sig) \<in> set (collected_keys (ap_session_id p) w') \<and>
    (\<forall>n. ap_local_key (generate_async_proto_params mem_get_local_key db' best public i n (Signing h) b ssid) =
       (if n = ap_session_id p then Some k
        else ap_local_key (generate_async_proto_params mem_get_local_key db best public i n (Signing h) b ssid)))"
proof -
  have "ap_local_key (generate_async_proto_params mem_get_local_key s best public i n (Signing h) b ssid) =
      (case mem_get_local_key n s of Ok r \<Rightarrow> r | _ \<Rightarrow> None)" for n and s :: "'k mem_db"
    by (simp add: generate_async_proto_params_def fetch_local_keys_def Let_def)
  with mem.keygen_protocol_finishes [where db = db and y = y and a = a and share_key = share_key and k = k and sig = sig
      and keygen_new = keygen_new and p = p and threshold = threshold and es = es and critical = critical and error_text = error_text
      and runs = runs and w = w and st = st, OF TrueI assms]
  show ?thesis by auto
qed

section \<open>Two numberings\<close>

text \<open>The mapping of a signing protocol numbers all parties of the key generation.\<close>

lemma position_nth: "distinct as \<Longrightarrow> n < length as \<Longrightarrow> position (\<lambda>p. p = as ! n) as = Some n"
proof (induction as arbitrary: n)
  case (Cons a as)
  then show ?case by (cases n) auto
qed simp

lemma signing_mapping:
  assumes "distinct (map fst best)" and "length best < 65535" and "0 < j" and "unat j \<le> length best"
  shows "generate_authority_mapping best (Signing h) (unat j) = Some (snd (best ! to_index j))"
proof -
  let ?f = "\<lambda>(i, a) m. case try_to_offline_party_id i (map fst best) of Ok j \<Rightarrow> m(unat j \<mapsto> a) | _ \<Rightarrow> m"
  have id: "try_to_offline_party_id (fst (best ! n)) (map fst best) = Ok (of_nat n + 1)" if "n < length best" for n
    using position_nth [OF assms(1), of n] that by (simp add: try_to_offline_party_id_def try_from_keygen_party_id_def)
  have un: "unat (of_nat n + 1 :: u16) = Suc n" if "n < length best" for n
    using that assms(2) by (simp add: unat_word_ariths unat_of_nat)
  have "fold ?f (take n best) Map.empty q = (if 0 < q \<and> q \<le> n then Some (snd (best ! (q - 1))) else None)" if "n \<le> length best" for n q
    using that
  proof (induction n)
    case (Suc n)
    then have n: "n < length best" by simp
    obtain i a where ia: "best ! n = (i, a)" by (cases "best ! n")
    have "try_to_offline_party_id i (map fst best) = Ok (of_nat n + 1)"
      using id [OF n] by (simp add: ia)
    with Suc n un [OF n] show ?case
      by (auto simp: take_Suc_conv_app_nth ia le_Suc_eq)
  qed (cases q, simp_all)
  from this [of "length best" "unat j"] assms(3,4) show ?thesis
    by (simp add: generate_authority_mapping_def to_index_def unat_gt_0 word_neq_0_conv [symmetric])
qed

text \<open>
  C38. The authority that is blamed for a signing is not the one that failed. The parties of a signing are numbered
  by their position in the signing set, but a node looks the numbers up among all parties of the key
  generation: when the party with number \<open>j\<close> in the set stalls the protocol or is blamed by the library,
  and the set does not have the \<open>j\<close>-th party of the key generation in this place, the node names that other party.
\<close>

theorem signing_blames_another_authority:
  assumes "distinct (map fst best)" and "distinct (map snd best)" and "length best < 65535" and "0 < j" and "unat j \<le> length best"
    and "try_to_keygen_party_id j s_l = Ok culprit" and "map_of best culprit = Some failed" and "fst (best ! to_index j) \<noteq> culprit"
  shows "let mapping = ap_mapping (generate_async_proto_params get db best public i session (Signing h) b ssid); other = snd (best ! to_index j)
    in other \<noteq> failed \<and>
       signing_stopped (Some Stalled) session (bad_actors_to_authorities [j] mapping) =
         Err (SignMisbehaviour ''Signing has stalled!'' [other] session) \<and>
       convert_mpc_sign_error_to_dkg_error_signing (LocalSigning (Round1 \<lparr>error_type = t, blamed = [j]\<rparr>)) session mapping =
         SignMisbehaviour t [other] session"
proof -
  let ?n = "to_index j"
  have "0 < unat j"
    using assms(4) by (simp add: word_less_nat_alt)
  with assms(5) have n: "?n < length best"
    by (simp add: to_index_def)
  obtain m where m: "m < length best" "best ! m = (culprit, failed)"
    using map_of_SomeD [OF assms(7)] by (auto simp: in_set_conv_nth)
  have "snd (best ! ?n) \<noteq> failed"
  proof
    assume "snd (best ! ?n) = failed"
    then have "map snd best ! ?n = map snd best ! m" using n m by simp
    then have "?n = m" using nth_eq_iff_index_eq [OF assms(2)] n m(1) by (metis length_map)
    with m(2) assms(8) show False by simp
  qed
  with signing_mapping [OF assms(1,3,4,5), of h] show ?thesis
    by (simp add: generate_async_proto_params_def signing_stopped_def bad_actors_to_authorities_def List.map_filter_def
        convert_mpc_sign_error_to_dkg_error_signing_def)
qed

text \<open>
  C40. A message of the offline stage is addressed to the wrong authority. The receiver is numbered by its place in
  the signing set, but the sender looks the number up among the parties of the key generation: when the
  two numbers of the receiver differ, the message is addressed to another authority, namely the one that has the
  number of the receiver's place in the key generation, although only the protocol of the receiver passes
  the message on.
\<close>

theorem offline_messages_are_misaddressed:
  assumes "sends x y d a" and "distinct (map snd (ap_best_authorities p))"
    and "map_of (ap_best_authorities p) k = Some receiver" and "try_to_offline_party_id k s_l = Ok j" and "j \<noteq> k" and "j \<noteq> 0"
    and "pm_receiver msg = Some j" and "pm_sender msg = i" and "map_of (ap_best_authorities p) j = Some other"
  shows "\<exists>m. outgoing_to_wire x y d p (OfflineChannel batch i s_l block) [(msg, st)] w = (Ok (), gossip m w) \<and>
    recipient_id (sd_msg m) = Some other \<and> other \<noteq> receiver \<and>
    (\<forall>j'. offline_handle_unsigned_message x d (OfflineChannel batch j' s_l block) (sd_msg m) = Ok (if j' = j then Some msg else None))"
proof -
  let ?c = "OfflineChannel batch i s_l block"
  have c: "same_protocol ?c ?c" and r: "pm_receiver msg \<noteq> Some 0" using assms(6,7) by simp_all
  obtain b where b: "msg_to_json d msg = Some b" "msg_from_json d b = Some msg"
    using assms(1) unfolding sends_def by blast
  obtain m where m: "outgoing_message x p ?c msg b = Ok m" "outgoing_payload x ?c (pm_sender msg) b = Ok (msg_payload m)"
    "recipient_id m = Option.bind (pm_receiver msg) (map_of (ap_best_authorities p))"
    by (rule outgoing_message_Ok [OF c r, where x = x and p = p and b = b])
  have w: "sd_msg (on_the_wire x y d p ?c msg) = m"
    by (simp add: on_the_wire_def b m)
  have "other \<noteq> receiver"
  proof
    assume "other = receiver"
    with assms(9) have "(j, receiver) \<in> set (ap_best_authorities p)" "(k, receiver) \<in> set (ap_best_authorities p)"
      using assms(3) by (auto dest: map_of_SomeD)
    then show False using assms(2,5) by (fastforce simp: distinct_map inj_on_def)
  qed
  moreover have "offline_handle_unsigned_message x d (OfflineChannel batch j' s_l block) m = Ok (if j' = j then Some msg else None)" for j'
    using m(2) [symmetric] b(2) assms(7)
    by (simp add: outgoing_payload_def unsigned_batch_hash_def offline_handle_unsigned_message_def for_local_def get_unsigned_proposal_hash_def)
  ultimately show ?thesis
    using step_outgoing [OF assms(1) c r, of p st "[]" w] m(3) assms(7,9)
    by (intro exI [of _ "on_the_wire x y d p ?c msg"]) (auto simp: w simp del: outgoing_to_wire.simps(2))
qed

section \<open>Concrete runs\<close>

lemma from_to_be_bytes_u16: "from_be_bytes (to_be_bytes (w :: u16)) = w" "length (to_be_bytes (w :: u16)) = 2"
  using unat_bound [of w] by (simp_all add: from_be_bytes_def to_be_bytes_def nat_of_be_nat_to_be)

lemma to_be_bytes_u16_not_empty: "to_be_bytes (w :: u16) \<noteq> []"
  using from_to_be_bytes_u16(2) [of w] by (cases "to_be_bytes w") simp_all

definition sample_party_codec :: "unit party_codec" where
  "sample_party_codec =
     \<lparr>msg_to_json = (\<lambda>m. Some (to_be_bytes (pm_sender m) @ (case pm_receiver m of Some r \<Rightarrow> to_be_bytes r | None \<Rightarrow> []))),
      msg_from_json = (\<lambda>b. Some \<lparr>pm_sender = from_be_bytes (take 2 b),
         pm_receiver = (if length b \<le> 2 then None else Some (from_be_bytes (drop 2 b))), pm_body = ()\<rparr>),
      msg_bincode = (\<lambda>m. Some (to_be_bytes (pm_sender m) @ (case pm_receiver m of Some r \<Rightarrow> to_be_bytes r | None \<Rightarrow> []))),
      round_id = (\<lambda>_. 1)\<rparr>"

lemma sample_party_codec_ok:
  "\<exists>b. msg_to_json sample_party_codec m = Some b \<and> msg_bincode sample_party_codec m = Some b \<and> msg_from_json sample_party_codec b = Some m"
  by (cases m) (auto simp: sample_party_codec_def from_to_be_bytes_u16 to_be_bytes_u16_not_empty split: option.split)

lemma sample_sends: "sends sample_ext sample_report_net sample_party_codec (sample_auth 1)"
proof -
  have "get_authority_public_key sample_report_net = Ok (sample_auth 1)"
    by (simp add: get_authority_public_key_def keystore_authority_id_def sample_report_net_def)
  moreover have "keystore_sign sample_report_net (sample_auth 1) m = Some (sample_sig 1)" for m
    by (simp add: keystore_sign_def sample_report_net_def)
  ultimately show ?thesis
    using sample_party_codec_ok by (auto simp: sends_def intro: sample_signed_by)
qed

definition sample_async_parameters :: "bytes async_protocol_parameters" where
  "sample_async_parameters =
     \<lparr>ap_session_id = 3, ap_block_id = 8, ap_best_authorities = sample_best, ap_authority_public_key = sample_auth 1, ap_party_i = 1,
      ap_batch_id_gen = 0, ap_ssid = 0, ap_mapping = Map.empty, ap_local_key = None\<rparr>"

definition sample_party_msg :: "u16 option \<Rightarrow> unit party_msg" where
  "sample_party_msg r = \<lparr>pm_sender = 1, pm_receiver = r, pm_body = ()\<rparr>"

lemma sample_party_simps [simp]:
  "ap_session_id sample_async_parameters = 3" "ap_block_id sample_async_parameters = 8" "ap_best_authorities sample_async_parameters = sample_best"
  "pm_sender (sample_party_msg r) = 1" "pm_receiver (sample_party_msg r) = r"
  "\<not> is_completed new_protocol" "\<not> is_terminated new_protocol"
  by (simp_all add: sample_async_parameters_def sample_party_msg_def new_protocol_def is_completed_def is_terminated_def)

theorem party_messages_arrive_witness:
  "\<exists>ms. map (\<lambda>m. recipient_id (sd_msg m)) ms = [None, Some (sample_auth 3)] \<and>
     inbound_receiver sample_ext (net_wire sample_report_net) (Some (map sample_auth [1, 2, 3], [])) sample_party_codec sample_async_parameters
       (KeygenChannel NextRound 2 1 3 9 []) (zip ms [new_protocol, new_protocol]) = (Ok (), [sample_party_msg None])"
proof -
  let ?c = "KeygenChannel NextRound 1 1 3 8 []" and ?c' = "KeygenChannel NextRound 2 1 3 9 []"
  let ?out = "[(sample_party_msg None, new_protocol), (sample_party_msg (Some 3), new_protocol)]"
  have h: "same_protocol ?c ?c'"
    "\<forall>(msg, st) \<in> set ?out. pm_receiver msg \<noteq> Some 0 \<and> pm_sender msg \<noteq> get_i ?c' \<and> \<not> is_completed st \<and> \<not> is_terminated st"
    "ap_session_id sample_async_parameters = ap_session_id sample_async_parameters"
    "associated_block_id_acceptable (get_associated_block_id ?c') (ap_block_id sample_async_parameters)"
    "sample_auth 1 \<in> set (map sample_auth [1, 2, 3])" "\<forall>b \<in> set (map sample_auth [1, 2, 3]). length b = 33"
    by (simp_all add: acceptable_distance)
  from party_messages_arrive [OF sample_sends h, of "worker_new None" "[]"]
  obtain ms where ms: "map (\<lambda>m. recipient_id (sd_msg m)) ms = map (\<lambda>(msg, st). Option.bind (pm_receiver msg) (map_of (ap_best_authorities sample_async_parameters))) ?out"
    "inbound_receiver sample_ext (net_wire sample_report_net) (Some (map sample_auth [1, 2, 3], [])) sample_party_codec sample_async_parameters ?c'
      (zip ms (map snd ?out)) = (Ok (), filter (\<lambda>msg. pm_receiver msg = None \<or> pm_receiver msg = Some (get_i ?c')) (map fst ?out))"
    by blast
  show ?thesis
    using ms by (intro exI [of _ ms]) (simp add: sample_best_def del: inbound_receiver.simps)
qed

definition sample_machine :: "(nat, unit, string) state_machine" where
  "sample_machine = \<lparr>sm_handle_incoming = (\<lambda>m s. (Ok (), Suc s)), sm_proceed = (\<lambda>s. (Ok (), s)), sm_current_round = (\<lambda>s. 1),
     sm_round_blame = (\<lambda>s. (1, [2]))\<rparr>"

theorem machine_sees_each_message_once_witness:
  "\<exists>kept. subseq kept [Incoming (sample_party_msg None), Incoming (sample_party_msg None), Proceed] \<and> distinct (incoming kept) \<and>
     wr_sm (fold (wrapper_event sample_machine sample_party_codec)
       [Incoming (sample_party_msg None), Incoming (sample_party_msg None), Proceed] (wrapper_new 0)) = fold (machine_event sample_machine) kept 0"
proof -
  have "inj (msg_bincode sample_party_codec)"
    using sample_party_codec_ok by (intro injI) (metis option.inject)
  moreover have "\<forall>m. msg_bincode sample_party_codec m \<noteq> None"
    using sample_party_codec_ok by (metis option.distinct(1))
  moreover have "\<forall>e s. sm_current_round sample_machine s \<le> sm_current_round sample_machine (machine_event sample_machine e s)"
    by (simp add: sample_machine_def)
  ultimately show ?thesis
    using machine_sees_each_message_once [where M = sample_machine and d = sample_party_codec
        and es = "[Incoming (sample_party_msg None), Incoming (sample_party_msg None), Proceed]" and s = 0]
    unfolding Let_def by blast
qed

theorem generated_share_is_announced_and_used_witness:
  "\<exists>db' w' st'. keygen_protocol sample_report_net mem_store_local_key (\<lambda>k. k) (\<lambda>e. e) (\<lambda>e. []) (\<lambda>i t n. None)
       sample_async_parameters 1 True [Inl (RecvError False), Inr [9]] (mem_db_new, worker_new None, new_protocol) = (Some (Ok ()), db', w', st') \<and>
     ap_local_key (generate_async_proto_params mem_get_local_key db' [] [] 1 3 (Signing []) 8 0) = Some [9]"
proof -
  have a: "get_authority_public_key sample_report_net = Ok (sample_auth 1)"
    using sample_sends by (simp add: sends_def)
  have s: "keystore_sign sample_report_net (sample_auth 1) m = Some (sample_sig 1)" for m
    by (simp add: keystore_sign_def sample_report_net_def)
  from generated_share_is_announced_and_used [OF a, where share_key = "\<lambda>k. k" and k = "[9]" and sig = "sample_sig 1"
      and keygen_new = "\<lambda>i t n. None" and p = sample_async_parameters and threshold = 1 and es = "[RecvError False]" and critical = "\<lambda>e. e"
      and error_text = "\<lambda>e. []" and runs = "[]" and db = mem_db_new and w = "worker_new None" and st = new_protocol and best = "[]" and public = "[]" and i = 1
      and h = "[]" and b = 8 and ssid = 0] s
  obtain db' w' st' where "keygen_protocol sample_report_net mem_store_local_key (\<lambda>k. k) (\<lambda>e. e) (\<lambda>e. []) (\<lambda>i t n. None)
       sample_async_parameters 1 True [Inl (RecvError False), Inr [9]] (mem_db_new, worker_new None, new_protocol) = (Some (Ok ()), db', w', st')"
    and "ap_local_key (generate_async_proto_params mem_get_local_key db' [] [] 1 (ap_session_id sample_async_parameters) (Signing []) 8 0) = Some [9]"
    by auto
  then show ?thesis by auto
qed

theorem signing_blames_another_authority_witness:
  "signing_stopped (Some Stalled) 3 (bad_actors_to_authorities [2]
     (ap_mapping (generate_async_proto_params mem_get_local_key (mem_db_new :: bytes mem_db) [(1, [1]), (2, [2]), (3, [3])] [1] 1 3 (Signing []) 8 0))) =
     Err (SignMisbehaviour ''Signing has stalled!'' [[2]] 3) \<and> try_to_keygen_party_id 2 [1, 3] = Ok 3"
  using signing_blames_another_authority [where best = "[(1, [1]), (2, [2]), (3, [3])]" and j = 2 and s_l = "[1, 3]" and culprit = 3 and failed = "[3]"
      and get = mem_get_local_key and db = "mem_db_new :: bytes mem_db" and t = "[]" and public = "[1]" and i = 1 and session = 3 and h = "[]" and b = 8 and ssid = 0]
  by (simp add: try_to_keygen_party_id_def to_index_def Let_def)

theorem offline_messages_are_misaddressed_witness:
  "\<exists>m. snd (outgoing_to_wire sample_ext sample_report_net sample_party_codec sample_async_parameters
       (OfflineChannel \<lparr>ub_batch_id = 0, ub_proposals = [], ub_timestamp = 1\<rparr> 1 [1, 3] 8) [(sample_party_msg (Some 2), new_protocol)] (worker_new None)) = gossip m (worker_new None) \<and>
     recipient_id (sd_msg m) = Some (sample_auth 2)"
proof -
  have "map_of (ap_best_authorities sample_async_parameters) 3 = Some (sample_auth 3)"
    "map_of (ap_best_authorities sample_async_parameters) 2 = Some (sample_auth 2)" "distinct (map snd (ap_best_authorities sample_async_parameters))"
    by (simp_all add: sample_best_def)
  moreover have "try_to_offline_party_id 3 [1, 3] = Ok 2"
    by (simp add: try_to_offline_party_id_def try_from_keygen_party_id_def)
  ultimately show ?thesis
    using offline_messages_are_misaddressed [OF sample_sends, where p = sample_async_parameters and k = 3 and receiver = "sample_auth 3" and s_l = "[1, 3]"
        and j = 2 and msg = "sample_party_msg (Some 2)" and i = 1 and batch = "\<lparr>ub_batch_id = 0, ub_proposals = [], ub_timestamp = 1\<rparr>" and block = 8
        and st = new_protocol and w = "worker_new None" and other = "sample_auth 2"]
    by (auto simp del: outgoing_to_wire.simps(2))
qed

end
