(* ===== verification/Vote_Properties.thy ===== *)
theory Vote_Properties
  imports Vote_Stage Handler_Properties
begin

text \<open>
  The properties of the voting stage, from the votes of the parties to the batch on the chain, and what
  stops it.
\<close>

section \<open>From the votes to the chain\<close>

text \<open>
  What the threshold signature library documents of the signatures it completes: they carry a recovery
  identifier, with which the key is recovered from a valid one. The check of a signature does not look
  at the identifier, so nothing is assumed of other signatures that pass it.
\<close>

definition completes_with_recid :: "ext \<Rightarrow> ('o, 'p) mpc \<Rightarrow> bool" where
  "completes_with_recid x c \<longleftrightarrow>
     (\<forall>h offline ps sr sig. mpc_complete c h offline ps = Inr sr \<longrightarrow> mpc_verify c sr (offline_public_key c offline) h \<longrightarrow>
        convert_signature sr = Some (Some sig) \<longrightarrow>
        (\<exists>d. secp256k1_ecdsa_recover x sig h = Some d \<and> take 32 d = tl (offline_public_key c offline)))"

definition vote_of :: "('o, 'p) mpc \<Rightarrow> hash256 \<Rightarrow> dkg_message \<Rightarrow> 'p option" where
  "vote_of c h m =
     (case msg_payload m of VotePayload v \<Rightarrow> if round_key v = h then partial_from_json c (partial_signature v) else None | _ \<Rightarrow> None)"

lemma vote_of_Some:
  "vote_of c h m = Some p \<longleftrightarrow> (\<exists>v. msg_payload m = VotePayload v \<and> round_key v = h \<and> partial_from_json c (partial_signature v) = Some p)"
  by (auto simp: vote_of_def split: network_msg_payload.splits)

lemma chunks_single: "0 < n \<Longrightarrow> chunks n [b] = [[b]]"
  by (simp add: chunks.simps)

lemma votes_make_a_signature:
  assumes "map (\<lambda>m. vote_of c h (snd m)) ms = map Some ps" and "distinct (map fst ms)" and "length ms = unat threshold" and "ms \<noteq> []"
    and "h = keccak_256 x (unsigned_batch_data x batch)" and "sign_manual_new c h offline = Inr own" and "partial_to_json c own \<noteq> None"
    and "mpc_complete c h offline ps = Inr sr" and "mpc_verify c sr (offline_public_key c offline) h" and "convert_signature sr = Some (Some sig)"
  shows "fst (new_voting x c mapping public session block_id ssid offline batch offline_i threshold (ms @ rest)) = Ok sig"
proof -
  have votes: "\<exists>p. vote_of c h (snd m) = Some p" if "m \<in> set ms" for m
  proof -
    have "vote_of c h (snd m) \<in> set (map Some ps)"
      using that by (simp flip: assms(1))
    then show ?thesis by auto
  qed
  have "\<forall>m \<in> set ms. \<exists>v. msg_payload (snd m) = VotePayload v \<and> round_key v = h \<and> partial_from_json c (partial_signature v) \<noteq> None"
    using votes by (force simp: vote_of_Some)
  from collect_votes_all [OF this assms(2) _ _ assms(4), of "{}" "[]" "unat threshold" rest] assms(3)
  have col: "collect_votes c h (unat threshold) (ms @ rest) {} [] =
      Ok (map (\<lambda>m. case msg_payload (snd m) of VotePayload v \<Rightarrow> the (partial_from_json c (partial_signature v))) ms)"
    by simp
  have "map Some (map (\<lambda>m. case msg_payload (snd m) of VotePayload v \<Rightarrow> the (partial_from_json c (partial_signature v))) ms) = map Some ps"
    unfolding assms(1) [symmetric] map_map
  proof (rule map_cong [OF refl])
    fix m assume "m \<in> set ms"
    from votes [OF this] obtain v p where "msg_payload (snd m) = VotePayload v" "partial_from_json c (partial_signature v) = Some p"
      "vote_of c h (snd m) = Some p" by (auto simp: vote_of_Some)
    then show "(Some \<circ> (\<lambda>m. case msg_payload (snd m) of VotePayload v \<Rightarrow> the (partial_from_json c (partial_signature v)))) m = vote_of c h (snd m)"
      by simp
  qed
  then have ps: "map (\<lambda>m. case msg_payload (snd m) of VotePayload v \<Rightarrow> the (partial_from_json c (partial_signature v))) ms = ps"
    by (simp only: inj_map_eq_map [OF inj_Some])
  have "length ps = unat threshold"
    using assms(3) by (simp flip: ps)
  then show ?thesis
    using assms(6-10) by (auto simp: new_voting_def unsigned_batch_hash_def col ps Let_def simp flip: assms(5))
qed

text \<open>
  C28. A batch that enough parties vote for reaches the chain. When a threshold of other parties send their partial
  signatures, the node combines them, stores the signed batch, submits it when it is its turn,
  and the handler of the chain accepts it: the batch is in the storage of signed batches. The library
  is assumed to give the signature that it completes a fitting recovery identifier.
\<close>

theorem voted_batch_reaches_the_chain:
  assumes votes: "map (\<lambda>m. vote_of c h (snd m)) ms = map Some ps" "distinct (map fst ms)" "length ms = unat threshold" "ms \<noteq> []"
    and crypto: "h = keccak_256 x (unsigned_batch_data x batch)" "sign_manual_new c h offline = Inr own" "partial_to_json c own \<noteq> None"
      "mpc_complete c h offline ps = Inr sr" "mpc_verify c sr (offline_public_key c offline) h" "sr_r sr < 256 ^ 32" "sr_s sr < 256 ^ 32" "completes_with_recid x c"
    and node: "public \<in> set (set_authorities current)" "vote_results g key = None" "bk_len key = 1" "ve_store g = Some old"
    and chain: "handler_inv cfg s" "orders_ok cfg" "dkg_of e = offline_public_key c offline" "length (dkg_of e) = 33"
      "ub_proposals batch = u # us" "decode_proposal_identifier x (up_proposal u) = Ok i"
      "contains_key (unsigned_proposal_queue s) (pi_typed_chain_id i, ub_batch_id batch)"
      "map_of (signed_proposals s) (pi_typed_chain_id i, ub_batch_id batch) = None"
      "\<forall>p e. fst (osp p e) \<noteq> Panic" "0 < max_proposals_per_batch cfg" "get_expected_signer auths b = Some account"
  shows "\<exists>sig g' stored s' e'.
    fst (new_voting x c mapping public session block_id ssid offline batch offline_i threshold (ms @ rest)) = Ok sig \<and>
    process_vote_result 512 public current True sig batch key g = (Ok (), g') \<and> ve_store g' = Some stored \<and>
    submit_signed_proposal_onchain cfg x auths (Some account) stored b s = Some (Inr [[signed_batch_of batch sig]]) \<and>
    submit_signed_proposals cfg x dkg_of osp NoOrigin [signed_batch_of batch sig] (s, e) = (Ok (), (s', e')) \<and>
    map_of (signed_proposals s') (pi_typed_chain_id i, ub_batch_id batch) = Some (signed_batch_of batch sig)"
proof -
  define sig where "sig = nat_to_be 32 (sr_r sr) @ nat_to_be 32 (sr_s sr) @ [sr_recid sr + 27]"
  have conv: "convert_signature sr = Some (Some sig)"
    unfolding sig_def by (rule convert_signature_layout [OF crypto(6,7)])
  have len: "length sig = 65" by (simp add: sig_def)
  let ?b = "signed_batch_of batch sig" and ?k = "(pi_typed_chain_id i, ub_batch_id batch)"
  let ?g = "g\<lparr>vote_results := (vote_results g)(key := None), ve_store := Some (Some [?b])\<rparr>"
  have sb: "sb_batch_id ?b = ub_batch_id batch" "sb_signature ?b = sig" by (simp_all add: signed_batch_of_def)
  obtain p' ps' where ps': "sb_proposals ?b = p' # ps'" "kind p' = kind (up_proposal u)" "data p' = data (up_proposal u)"
    by (simp add: signed_batch_of_def chain(5))
  have dec: "decode_proposal_identifier x p' = Ok i"
    using decode_identifier_cong [of p' "up_proposal u" x] ps' chain(6) by simp
  have pvr: "process_vote_result 512 public current True sig batch key g = (Ok (), ?g)"
    using save_effect [OF node(1), of "[?b]" old] node len by (simp add: process_vote_result_def)
  have "is_not_existing_proposal_batch x s ?b = Some True"
    using ps'(1) dec chain(8) by (simp add: is_not_existing_proposal_batch_def sb)
  then have sub: "submit_signed_proposal_onchain cfg x auths (Some account) (Some [?b]) b s = Some (Inr [[?b]])"
    using chain(10,11) by (simp add: submit_signed_proposal_onchain_def chunks_single)
  have sgd: "signed_by x (dkg_of e) (signed_batch_data x ?b) sig"
    using crypto(1,4,5,8) conv chain(3) len
    by (force simp: completes_with_recid_def signed_batch_of_data signed_by_def recover_ecdsa_pub_key_def SIGNATURE_LENGTH_def)
  then have ens: "ensure_signed_by_dkg x (dkg_of e) (sb_signature ?b) (signed_batch_data x ?b) = Inr ()"
    using chain(4) by (simp add: ensure_signed_by_dkg_Ok sb)
  have val: "validate_ecdsa_signature x (signed_batch_data x ?b) (sb_signature ?b)"
    using signed_by_validates [OF sgd] by (simp add: sb)
  have calls: "fst (call_signed_handlers osp qs e0) = Ok ()" for qs e0
  proof (induction qs arbitrary: e0)
    case (Cons q qs)
    obtain r e1 where "osp q e0 = (r, e1)" by fastforce
    moreover from this chain(9) have "r \<noteq> Panic" by (metis fst_conv)
    ultimately show ?case using Cons.IH [of e1] by (cases r) auto
  qed simp
  obtain r s' e' where run: "handle_signed_proposal_batch cfg x osp ?b (s, e) = (r, (s', e'))"
    by (metis prod.collapse)
  have "r = Ok ()"
    using run calls [of "sb_proposals ?b" e] ps'(1) dec chain(7,8) val by (auto simp: sb Let_def split: prod.splits)
  from chain(1,2) run have fin: "map_of (signed_proposals s') ?k = Some ?b"
  proof (cases rule: handle_signed_cases)
    case (signed p ps j)
    with ps'(1) dec show ?thesis by (simp add: sb)
  qed (use \<open>r = Ok ()\<close> in simp_all)
  have "submit_signed_proposals cfg x dkg_of osp NoOrigin [?b] (s, e) = (Ok (), (s', e'))"
    using chain(10) ens run \<open>r = Ok ()\<close> by (simp add: submit_signed_proposals_def del: handle_signed_proposal_batch.simps)
  with votes_make_a_signature [OF votes crypto(1-5) conv, of mapping public session block_id ssid offline_i rest] pvr sub fin show ?thesis
    by fastforce
qed

section \<open>What stops a stage\<close>

lemma collect_votes_prefix:
  assumes "\<forall>m \<in> set ms. vote_of c h (snd m) \<noteq> None" and "distinct (map fst ms)" and "set (map fst ms) \<inter> R = {}"
    and "length sigs + length ms < n"
  shows "\<exists>sigs'. collect_votes c h n (ms @ rest) R sigs = collect_votes c h n rest (R \<union> set (map fst ms)) sigs'"
  using assms
proof (induction ms arbitrary: R sigs)
  case (Cons m ms)
  obtain sender body where m: "m = (sender, body)" by (cases m)
  from Cons.prems(1) obtain v p where v: "msg_payload body = VotePayload v" "round_key v = h" "partial_from_json c (partial_signature v) = Some p"
    by (auto simp: m vote_of_Some)
  have "\<exists>sigs'. collect_votes c h n (ms @ rest) (insert sender R) (sigs @ [p]) = collect_votes c h n rest (insert sender R \<union> set (map fst ms)) sigs'"
    using Cons.prems by (intro Cons.IH) (auto simp: m)
  with v Cons.prems(3,4) show ?case by (auto simp: m)
qed auto

lemma incoming_stream_append:
  "\<lbrakk>incoming_stream x y sets ty session ms = Some st; incoming_stream x y sets ty session ms' = Some st'\<rbrakk> \<Longrightarrow>
   incoming_stream x y sets ty session (ms @ ms') = Some (st @ st')"
  by (induction ms arbitrary: st) (auto split: result.splits option.splits)

text \<open>
  C33. Any authority can stop a signing. A message signed by any active authority, whether it is among the signers or
  not, that claims to be from a party that has not voted yet and carries bytes that are no partial
  signature, passes the filter in front of the protocol and ends the voting stage with an error,
  when it arrives before the last vote that is needed.
\<close>

theorem any_authority_can_stop_a_signing:
  assumes pre: "incoming_stream x y (Some (active, queued)) ty session pre = Some st" "distinct (map fst st)" "length st < unat threshold"
      "\<forall>m \<in> set st. vote_of c h (snd m) \<noteq> None"
    and post: "incoming_stream x y (Some (active, queued)) ty session post = Some st'"
    and bad: "msg_payload (sd_msg m) = VotePayload v" "party_ind v \<notin> set (map fst st)" "party_ind v \<noteq> pt_i ty" "round_key v = h"
      "partial_from_json c (partial_signature v) = None" "msg_session_id (sd_msg m) = session"
      "associated_block_id_acceptable (pt_block_id ty) (msg_block_id (sd_msg m))"
    and signed: "a \<in> set active" "\<forall>b \<in> set active. length b = 33" "sd_signature m = Some sig" "signed_by x a (encode_message y (sd_msg m)) sig"
    and stage: "pt_kind ty = VotingProtocol" "h = keccak_256 x (unsigned_batch_data x batch)"
  shows "\<exists>stream er. incoming_stream x y (Some (active, queued)) ty session (pre @ m # post) = Some stream \<and>
    fst (new_voting x c mapping public session block_id ssid offline batch offline_i threshold stream) = Err er"
proof -
  have "verify_signature_against_authorities_inner x y (Some (active, queued)) m = Ok (sd_msg m)"
    using signed by (intro verify_accepts_member) auto
  then have "transform x y (Some (active, queued)) ty session m = Ok (Some (party_ind v, sd_msg m))"
    using bad stage(1) by (simp add: transform_def)
  with post have "incoming_stream x y (Some (active, queued)) ty session (m # post) = Some ((party_ind v, sd_msg m) # st')"
    by simp
  from incoming_stream_append [OF pre(1) this]
  have stream: "incoming_stream x y (Some (active, queued)) ty session (pre @ m # post) = Some (st @ (party_ind v, sd_msg m) # st')" .
  obtain sigs' where "collect_votes c h (unat threshold) (st @ (party_ind v, sd_msg m) # st') {} [] =
      collect_votes c h (unat threshold) ((party_ind v, sd_msg m) # st') ({} \<union> set (map fst st)) sigs'"
    using collect_votes_prefix [OF pre(4,2), of "{}" "[]" "unat threshold" "(party_ind v, sd_msg m) # st'"] pre(3) by auto
  then have "collect_votes c h (unat threshold) (st @ (party_ind v, sd_msg m) # st') {} [] = Err (GenericError ''partial signature'')"
    using bad(1,2,4,5) by simp
  then have "\<exists>er. fst (new_voting x c mapping public session block_id ssid offline batch offline_i threshold (st @ (party_ind v, sd_msg m) # st')) = Err er"
    using stage(2) by (auto simp: new_voting_def unsigned_batch_hash_def Let_def split: sum.split option.split)
  with stream show ?thesis by blast
qed

text \<open>
  A signed batch that is not submitted yet is lost when another one is signed. The storage for the offchain
  worker holds the result of the last protocol only: after the results for two batches, the
  first one is in no call of the offchain worker, whatever the state of the chain.
\<close>

theorem second_result_replaces_the_first:
  assumes "public \<in> set (set_authorities current)" and "ve_store g = Some old" and "length sig1 \<le> 512" and "length sig2 \<le> 512"
    and "bk_len key1 = 1" and "bk_len key2 = 1" and "vote_results g key1 = None" and "vote_results g key2 = None"
    and "ub_batch_id batch1 \<noteq> ub_batch_id batch2"
    and "process_vote_result 512 public current True sig1 batch1 key1 g = (Ok (), g1)"
    and "process_vote_result 512 public current True sig2 batch2 key2 g1 = (Ok (), g2)" and "ve_store g2 = Some st"
    and "submit_signed_proposal_onchain cfg x auths account st b s = Some (Inr calls)"
  shows "signed_batch_of batch1 sig1 \<notin> set (concat calls)"
proof -
  have g1: "g1 = g\<lparr>vote_results := (vote_results g)(key1 := None), ve_store := Some (Some [signed_batch_of batch1 sig1])\<rparr>"
    using assms(10) save_effect [OF assms(1), of "[signed_batch_of batch1 sig1]" old] assms(2,3,5,7) by (simp add: process_vote_result_def)
  have "vote_results g1 key2 = None" using assms(8) by (simp add: g1)
  then have st: "st = Some [signed_batch_of batch2 sig2]"
    using assms(11,12) save_effect [OF assms(1), of "[signed_batch_of batch2 sig2]" "Some [signed_batch_of batch1 sig1]"] assms(4,6)
    by (auto simp: process_vote_result_def g1)
  have fl: "set r \<subseteq> set bs" if "filter_not_existing x s bs = Some r" for bs r
    using filter_not_existing_spec [OF that] by auto
  have ch: "set (concat (chunks n bs)) \<subseteq> set bs" for n and bs :: "signed_proposal_batch list"
    by (induction n bs rule: chunks.induct) (subst chunks.simps, auto dest: in_set_takeD in_set_dropD)
  have "calls = [] \<or> (\<exists>r. filter_not_existing x s [signed_batch_of batch2 sig2] = Some r \<and> calls = chunks (max_proposals_per_batch cfg) r)"
    using assms(13) unfolding st
    by (simp add: submit_signed_proposal_onchain_def del: filter_not_existing.simps split: option.splits if_splits)
  then have "set (concat calls) \<subseteq> {signed_batch_of batch2 sig2}"
  proof
    assume "\<exists>r. filter_not_existing x s [signed_batch_of batch2 sig2] = Some r \<and> calls = chunks (max_proposals_per_batch cfg) r"
    then obtain r where r: "filter_not_existing x s [signed_batch_of batch2 sig2] = Some r" "calls = chunks (max_proposals_per_batch cfg) r" by blast
    from subset_trans [OF ch fl [OF r(1)], of "max_proposals_per_batch cfg"] show ?thesis by (simp only: r(2) list.set)
  qed simp
  moreover have "signed_batch_of batch1 sig1 \<noteq> signed_batch_of batch2 sig2"
    using assms(9) by (simp add: signed_batch_of_def)
  ultimately show ?thesis by blast
qed

section \<open>Concrete stages\<close>

definition sample_sr :: signature_recid where
  "sample_sr = \<lparr>sr_r = nat_of_be (replicate 32 1), sr_s = nat_of_be (replicate 32 1), sr_recid = 230\<rparr>"

lemma sample_convert: "convert_signature sample_sr = Some (Some (replicate 65 1))" "sr_r sample_sr < 256 ^ 32" "sr_s sample_sr < 256 ^ 32"
proof -
  have b: "nat_of_be (replicate 32 1) < 256 ^ 32"
    using nat_of_be_bound [of "replicate 32 1"] by simp
  then show "sr_r sample_sr < 256 ^ 32" "sr_s sample_sr < 256 ^ 32"
    by (simp_all add: sample_sr_def)
  have "replicate (32 + (32 + 1)) (1 :: u8) = replicate 32 1 @ replicate 32 1 @ [1]"
    by (simp only: replicate_add) simp
  then have r: "replicate 32 (1 :: u8) @ replicate 32 1 @ [1] = replicate 65 1" by simp
  have n: "nat_to_be 32 (nat_of_be (replicate 32 1)) = replicate 32 1"
    using nat_to_be_nat_of_be [of "replicate 32 1"] by (simp only: length_replicate)
  have f: "sr_r sample_sr = nat_of_be (replicate 32 1)" "sr_s sample_sr = nat_of_be (replicate 32 1)" "sr_recid sample_sr + 27 = 1"
    by (simp_all add: sample_sr_def)
  have "sr_r sample_sr < 256 ^ 32" "sr_s sample_sr < 256 ^ 32" by (simp_all only: f b)
  from convert_signature_layout [OF this] show "convert_signature sample_sr = Some (Some (replicate 65 1))"
    by (simp only: f n r)
qed

text \<open>The partial signatures are bytes; every decoding but that of the empty string succeeds.\<close>

definition sample_mpc :: "(unit, bytes) mpc" where
  "sample_mpc = \<lparr>offline_public_key = sample_key, sign_manual_new = (\<lambda>h o1. Inr [1]), partial_to_json = Some,
     partial_from_json = (\<lambda>bs. if bs = [] then None else Some bs), mpc_complete = (\<lambda>h o1 ps. Inr sample_sr),
     mpc_verify = (\<lambda>s pk h. s = sample_sr \<and> pk = sample_key ())\<rparr>"

lemma sample_mpc_recid: "completes_with_recid sample_ext sample_mpc"
  using sample_convert(1) by (auto simp: completes_with_recid_def sample_mpc_def sample_ext_def sample_key_def)

definition sample_hash :: hash256 where
  "sample_hash = keccak_256 sample_ext (unsigned_batch_data sample_ext sample_batch)"

definition sample_vote :: "u16 \<Rightarrow> bytes \<Rightarrow> dkg_message" where
  "sample_vote i partial = \<lparr>sender_id = [ucast i], recipient_id = None, msg_payload = vote_payload i sample_hash partial,
     msg_session_id = 3, msg_block_id = 4, msg_ssid = 0\<rparr>"

definition sample_set :: authority_set where
  "sample_set = \<lparr>set_authorities = [[11]], set_id = 0\<rparr>"

definition sample_engine :: vote_engine where
  "sample_engine = \<lparr>vote_results = Map.empty, ve_store = Some None\<rparr>"

theorem voted_batch_reaches_the_chain_witness:
  "\<exists>sig g' st s'.
    fst (new_voting sample_ext sample_mpc Map.empty [11] 3 4 0 () sample_batch 1 1 [(2, sample_vote 2 [5])]) = Ok sig \<and>
    process_vote_result 512 [11] sample_set True sig sample_batch \<lparr>bk_len = 1, bk_id = 0\<rparr> sample_engine = (Ok (), g') \<and> ve_store g' = Some st \<and>
    submit_signed_proposal_onchain sample_hcfg sample_ext [[1], [2]] (Some [2]) st 3 sample_h2 = Some (Inr [[signed_batch_of sample_batch sig]]) \<and>
    submit_signed_proposals sample_hcfg sample_ext sample_key sample_osp NoOrigin [signed_batch_of sample_batch sig] (sample_h2, ()) = (Ok (), (s', ())) \<and>
    map_of (signed_proposals s') (Evm 5, 0) = Some (signed_batch_of sample_batch sig)"
proof -
  let ?i = "\<lparr>pi_key = TokenAddProposal 7, pi_typed_chain_id = Evm 5\<rparr>"
  have v: "map (\<lambda>m. vote_of sample_mpc sample_hash (snd m)) [(2 :: u16, sample_vote 2 [5])] = map Some [[5]]"
    by (simp add: vote_of_def sample_vote_def vote_payload_def sample_mpc_def)
  have bt: "ub_proposals sample_batch = sample_up # []" "up_proposal sample_up = sample_proposal" "ub_batch_id sample_batch = 0"
    by (simp_all add: sample_batch_def sample_up_def)
  have q: "map_of (unsigned_proposal_queue sample_h2) (Evm 5, 0) = Some sample_batch" "signed_proposals sample_h2 = []"
    by (simp_all add: sample_h2_def sample_h1_def empty_handler_state_def)
  have m: "sign_manual_new sample_mpc sample_hash () = Inr [1]" "partial_to_json sample_mpc [1] \<noteq> None"
    "mpc_complete sample_mpc sample_hash () [[5]] = Inr sample_sr" "mpc_verify sample_mpc sample_sr (offline_public_key sample_mpc ()) sample_hash"
    "offline_public_key sample_mpc () = sample_key ()"
    by (simp_all add: sample_mpc_def)
  have "\<exists>sig g' st s' e'.
    fst (new_voting sample_ext sample_mpc Map.empty [11] 3 4 0 () sample_batch 1 1 ([(2, sample_vote 2 [5])] @ [])) = Ok sig \<and>
    process_vote_result 512 [11] sample_set True sig sample_batch \<lparr>bk_len = 1, bk_id = 0\<rparr> sample_engine = (Ok (), g') \<and> ve_store g' = Some st \<and>
    submit_signed_proposal_onchain sample_hcfg sample_ext [[1], [2]] (Some [2]) st 3 sample_h2 = Some (Inr [[signed_batch_of sample_batch sig]]) \<and>
    submit_signed_proposals sample_hcfg sample_ext sample_key sample_osp NoOrigin [signed_batch_of sample_batch sig] (sample_h2, ()) = (Ok (), (s', e')) \<and>
    map_of (signed_proposals s') (pi_typed_chain_id ?i, ub_batch_id sample_batch) = Some (signed_batch_of sample_batch sig)"
    by (rule voted_batch_reaches_the_chain [OF v _ _ _ sample_hash_def m(1-4) sample_convert(2,3) sample_mpc_recid _ _ _ _ sample_inv2 sample_orders_ok _ _ bt(1)])
      (simp_all add: bt q m sample_decode sample_set_def sample_engine_def sample_key_def sample_osp_def get_expected_signer_def)
  then show ?thesis by (simp add: bt(3))
qed

definition sample_wire :: wire where
  "sample_wire = \<lparr>encode_message = (\<lambda>m. sender_id m), encode_vote = (\<lambda>v. partial_signature v), encode_public_key = (\<lambda>p. pk_pub_key p),
     encode_misbehaviour = (\<lambda>b. mm_offender b), hash_of = take 32\<rparr>"

theorem any_authority_can_stop_a_signing_witness:
  "\<exists>stream er. incoming_stream sample_ext sample_wire (Some ([sample_key ()], [])) \<lparr>pt_kind = VotingProtocol, pt_i = 1, pt_block_id = 4\<rparr> 3
     [\<lparr>sd_msg = sample_vote 9 [], sd_signature = Some (replicate 65 1)\<rparr>] = Some stream \<and>
   fst (new_voting sample_ext sample_mpc Map.empty [11] 3 4 0 () sample_batch 1 1 stream) = Err er"
proof -
  let ?ty = "\<lparr>pt_kind = VotingProtocol, pt_i = 1, pt_block_id = 4\<rparr>" and ?m = "\<lparr>sd_msg = sample_vote 9 [], sd_signature = Some (replicate 65 1)\<rparr>"
  have n: "incoming_stream sample_ext sample_wire (Some ([sample_key ()], [])) ?ty 3 [] = Some []" by simp
  have "\<exists>stream er. incoming_stream sample_ext sample_wire (Some ([sample_key ()], [])) ?ty 3 ([] @ ?m # []) = Some stream \<and>
      fst (new_voting sample_ext sample_mpc Map.empty [11] 3 4 0 () sample_batch 1 1 stream) = Err er"
    by (rule any_authority_can_stop_a_signing [OF n _ _ _ n, where h = sample_hash and a = "sample_key ()" and sig = "replicate 65 1" and
          v = "\<lparr>party_ind = 9, round_key = sample_hash, partial_signature = [], vm_proposal_hash = sample_hash\<rparr>"])
      (simp_all add: sample_vote_def vote_payload_def sample_mpc_def signed_by_def sample_recover sample_hash_def associated_block_id_acceptable_def
        sample_key_def)
  then show ?thesis by simp
qed

theorem second_result_replaces_the_first_witness:
  "signed_batch_of sample_pending (replicate 65 1) \<notin> set (concat [[signed_batch_of sample_batch (replicate 65 1)]]) \<and>
   submit_signed_proposal_onchain sample_hcfg sample_ext [] (Some [2]) (Some [signed_batch_of sample_batch (replicate 65 1)]) 3 sample_h2 =
     Some (Inr [[signed_batch_of sample_batch (replicate 65 1)]])"
proof -
  let ?k = "\<lambda>n. \<lparr>bk_len = 1, bk_id = n\<rparr>" and ?sig = "replicate 65 (1 :: u8)"
  have in_set: "[11] \<in> set (set_authorities sample_set)" by (simp add: sample_set_def)
  let ?g1 = "\<lparr>vote_results = Map.empty, ve_store = Some (Some [signed_batch_of sample_pending ?sig])\<rparr>"
  let ?g2 = "\<lparr>vote_results = Map.empty, ve_store = Some (Some [signed_batch_of sample_batch ?sig])\<rparr>"
  have r1: "process_vote_result 512 [11] sample_set True ?sig sample_pending (?k 0) sample_engine = (Ok (), ?g1)"
    using save_effect [OF in_set] by (simp add: process_vote_result_def sample_engine_def)
  have r2: "process_vote_result 512 [11] sample_set True ?sig sample_batch (?k 1) ?g1 = (Ok (), ?g2)"
    using save_effect [OF in_set] by (simp add: process_vote_result_def)
  have dec: "decode_proposal_identifier sample_ext (SignedProposal TokenAdd (data sample_proposal) ?sig) = Ok \<lparr>pi_key = TokenAddProposal 7, pi_typed_chain_id = Evm 5\<rparr>"
    by (rule sample_signed_decode)
  have "kind sample_proposal = TokenAdd" by (simp add: sample_proposal_def)
  then have "is_not_existing_proposal_batch sample_ext sample_h2 (signed_batch_of sample_batch ?sig) = Some True"
    by (simp add: is_not_existing_proposal_batch_def signed_batch_of_def sample_batch_def sample_up_def dec)
      (simp add: sample_h2_def sample_h1_def empty_handler_state_def)
  then have sub: "submit_signed_proposal_onchain sample_hcfg sample_ext [] (Some [2]) (Some [signed_batch_of sample_batch ?sig]) 3 sample_h2 =
      Some (Inr [[signed_batch_of sample_batch ?sig]])"
    by (simp add: submit_signed_proposal_onchain_def get_expected_signer_def chunks_single)
  have "signed_batch_of sample_pending ?sig \<notin> set (concat [[signed_batch_of sample_batch ?sig]])"
    by (rule second_result_replaces_the_first [OF in_set _ _ _ _ _ _ _ _ r1 r2 _ sub]) (simp_all add: sample_engine_def sample_pending_def sample_batch_def)
  with sub show ?thesis by blast
qed

end
