(* ===== verification/Signing_Run.thy ===== *)
theory Signing_Run
  imports Wire_Properties Vote_Properties
begin

text \<open>
  A whole signing protocol of a node, from the share it has to the batch it stores for the chain.
\<close>

lemma convert_signature_length: "convert_signature s = Some (Some sig) \<Longrightarrow> length sig = 65"
  by (auto simp: convert_signature_def Let_def split: if_splits)

text \<open>The bytes of a signature that the library completed and accepted for the data of the signed batch.\<close>

definition checked_signature :: "ext \<Rightarrow> ('o, 'p) mpc \<Rightarrow> 'o \<Rightarrow> stored_unsigned_proposal_batch \<Rightarrow> bytes \<Rightarrow> bool" where
  "checked_signature x c offline batch sig \<longleftrightarrow>
     (\<exists>ps s. mpc_complete c (keccak_256 x (signed_batch_data x (signed_batch_of batch sig))) offline ps = Inr s \<and>
        mpc_verify c s (offline_public_key c offline) (keccak_256 x (signed_batch_data x (signed_batch_of batch sig))) \<and>
        convert_signature s = Some (Some sig))"

text \<open>The voting stage of a protocol of its own stores a checked signature, or nothing.\<close>

lemma offline_on_finish_outcome:
  assumes "vote_results g = Map.empty" and "ve_store g = Some old" and "ap_authority_public_key p \<in> set (set_authorities current)"
    and "bk_len key = 1" and "65 \<le> max_signature"
    and "offline_on_finish x y c max_signature current True p batch offline_i threshold key stream offline g w = (r, g', w')"
  shows "if r = Ok () then \<exists>sig. ve_store g' = Some (Some [signed_batch_of batch sig]) \<and> vote_results g' = Map.empty \<and>
      checked_signature x c offline batch sig
    else g' = g"
proof -
  obtain v own where v: "new_voting x c (ap_mapping p) (ap_authority_public_key p) (ap_session_id p) (ap_block_id p) (ap_ssid p) offline batch offline_i threshold stream = (v, own)"
    by fastforce
  show ?thesis
  proof (cases v)
    case (Ok sig)
    have f: "fst (new_voting x c (ap_mapping p) (ap_authority_public_key p) (ap_session_id p) (ap_block_id p) (ap_ssid p) offline batch offline_i threshold stream) = Ok sig"
      using v Ok by simp
    obtain ps s where s: "mpc_complete c (keccak_256 x (unsigned_batch_data x batch)) offline ps = Inr s"
        "mpc_verify c s (offline_public_key c offline) (keccak_256 x (unsigned_batch_data x batch))" "convert_signature s = Some (Some sig)"
      by (rule new_voting_Ok [OF f])
    then have sgn: "checked_signature x c offline batch sig"
      unfolding checked_signature_def signed_batch_of_data by blast
    have "process_vote_result max_signature (ap_authority_public_key p) current True sig batch key g =
        (Ok (), g\<lparr>vote_results := Map.empty, ve_store := Some (Some [signed_batch_of batch sig])\<rparr>)"
      using save_effect [OF assms(3), of "[signed_batch_of batch sig]" old] assms(1,2,4,5) convert_signature_length [OF s(3)]
      by (simp add: process_vote_result_def)
    with assms(6) v Ok sgn show ?thesis
      by (auto simp: offline_on_finish_def split: prod.splits result.splits)
  qed (use assms(6) v in \<open>auto simp: offline_on_finish_def split: prod.splits result.splits\<close>)
qed

text \<open>
  C34. Whatever the other parties send and however the library behaves, the signing protocol of an authority
  either succeeds, and then the batch is stored for the chain with the bytes of a signature that the library
  completed and that its check accepted for the data of this batch and for the key of an offline stage that a run
  ended with, or stores nothing at all; and unless it still runs or panicked, the protocol counts as
  completed. (The check does not cover the recovery identifier in the last byte.)
\<close>

theorem signing_stores_checked_signatures_only:
  assumes "vote_results g = Map.empty" and "ve_store g = Some old" and "ap_authority_public_key p \<in> set (set_authorities current)"
    and "65 \<le> max_signature"
    and "signing_protocol x y c max_signature current True offline_new critical error_text p threshold batch s_l started runs stream (g, w, st) = (r, g', w', st')"
  shows "(if r = Some (Ok ())
      then \<exists>sig offline. Inr offline \<in> set runs \<and> ve_store g' = Some (Some [signed_batch_of batch sig]) \<and>
        checked_signature x c offline batch sig
      else g' = g) \<and> (r \<noteq> None \<and> r \<noteq> Some Panic \<longrightarrow> is_completed st')"
proof -
  have loop: "Inr v \<in> set rs" if "protocol_loop critical error_text rs = Some (Ok v)" for rs v
    using that by (induction rs rule: protocol_loop.induct [where ?a0.0 = critical and ?a1.0 = error_text]) (auto split: option.splits)
  have stages: "if r1 = Some (Ok ())
      then \<exists>sig offline. Inr offline \<in> set runs \<and> ve_store g1 = Some (Some [signed_batch_of batch sig]) \<and>
        checked_signature x c offline batch sig
      else g1 = g"
    if st: "signing_stages x y c max_signature current True offline_new critical error_text p threshold batch s_l runs stream k g w = (r1, g1, w1)" for k r1 g1 w1
  proof (cases "\<exists>i offline. try_to_offline_party_id (ap_party_i p) s_l = Ok i \<and> offline_new i s_l k = None \<and>
      protocol_loop critical error_text runs = Some (Ok offline)")
    case True
    then obtain i offline where t: "try_to_offline_party_id (ap_party_i p) s_l = Ok i" "offline_new i s_l k = None"
      "protocol_loop critical error_text runs = Some (Ok offline)" by blast
    let ?key = "fst (get_next_batch_key (ap_batch_id_gen p))"
    obtain r2 where r2: "offline_on_finish x y c max_signature current True p batch i threshold ?key stream offline g w = (r2, g1, w1)" "r1 = Some r2"
      using st t by (auto simp: signing_stages_def Let_def split: prod.splits)
    have "bk_len ?key = 1" by (simp add: get_next_batch_key_def)
    from offline_on_finish_outcome [OF assms(1,2,3) this assms(4) r2(1)] loop [OF t(3)] show ?thesis
      unfolding r2(2) option.inject by (simp only: split: if_splits) blast+
  next
    case False
    with st show ?thesis
      by (auto simp: signing_stages_def Let_def split: result.splits option.splits)
  qed
  have fin: "is_completed (set_status Complete s)" for s
    by (simp add: is_completed_def set_status_def)
  from assms(5) fin stages show ?thesis
    by (auto simp: signing_protocol_def split: prod.splits option.splits if_splits)
qed

definition sample_signing_parameters :: "bytes async_protocol_parameters" where
  "sample_signing_parameters =
     \<lparr>ap_session_id = 3, ap_block_id = 4, ap_best_authorities = [(1, [11]), (2, [12])], ap_authority_public_key = [11], ap_party_i = 1,
      ap_batch_id_gen = 0, ap_ssid = 0, ap_mapping = Map.empty, ap_local_key = Some [9]\<rparr>"

theorem signing_stores_checked_signatures_only_witness:
  "\<exists>g' w' st' sig. signing_protocol sample_ext sample_report_net sample_mpc 512 sample_set True (\<lambda>i s_l k. None) (\<lambda>e :: bool. True) (\<lambda>e. [])
       sample_signing_parameters 1 sample_batch [1, 2] True [Inr ()] [(2, sample_vote 2 [5])] (sample_engine, worker_new None, new_protocol) =
       (Some (Ok ()), g', w', st') \<and>
     ve_store g' = Some (Some [signed_batch_of sample_batch sig]) \<and>
     checked_signature sample_ext sample_mpc () sample_batch sig"
proof -
  let ?p = sample_signing_parameters
  have v: "map (\<lambda>m. vote_of sample_mpc sample_hash (snd m)) [(2 :: u16, sample_vote 2 [5])] = map Some [[5]]"
    by (simp add: vote_of_def sample_vote_def vote_payload_def sample_mpc_def)
  have m: "sign_manual_new sample_mpc sample_hash () = Inr [1]" "partial_to_json sample_mpc [1] \<noteq> None"
    "mpc_complete sample_mpc sample_hash () [[5]] = Inr sample_sr" "mpc_verify sample_mpc sample_sr (offline_public_key sample_mpc ()) sample_hash"
    "offline_public_key sample_mpc () = sample_key ()"
    by (simp_all add: sample_mpc_def)
  have "fst (new_voting sample_ext sample_mpc Map.empty [11] 3 4 0 () sample_batch 1 1 ([(2, sample_vote 2 [5])] @ [])) = Ok (replicate 65 1)"
    by (rule votes_make_a_signature [OF v _ _ _ sample_hash_def m(1-4) sample_convert(1)]) simp_all
  then obtain own where nv: "new_voting sample_ext sample_mpc Map.empty [11] 3 4 0 () sample_batch 1 1 [(2, sample_vote 2 [5])] = (Ok (replicate 65 1), own)"
    by (metis append_Nil2 prod.collapse)
  have a: "get_authority_public_key sample_report_net = Ok (sample_auth 1)"
    using sample_sends by (simp add: sends_def)
  have inset: "[11] \<in> set (set_authorities sample_set)" by (simp add: sample_set_def)
  have off: "try_to_offline_party_id 1 [1, 2] = Ok 1"
    by (simp add: try_to_offline_party_id_def try_from_keygen_party_id_def)
  obtain g' w' st' where run: "signing_protocol sample_ext sample_report_net sample_mpc 512 sample_set True (\<lambda>i s_l k. None) (\<lambda>e :: bool. True) (\<lambda>e. [])
       ?p 1 sample_batch [1, 2] True [Inr ()] [(2, sample_vote 2 [5])] (sample_engine, worker_new None, new_protocol) = (Some (Ok ()), g', w', st')"
    using save_effect [OF inset] off
    by (auto simp: signing_protocol_def signing_stages_def offline_on_finish_def sample_signing_parameters_def nv sign_and_send_messages_def a
        process_vote_result_def get_next_batch_key_def sample_engine_def)
  have "\<exists>sig. ve_store g' = Some (Some [signed_batch_of sample_batch sig]) \<and>
      checked_signature sample_ext sample_mpc () sample_batch sig"
    using signing_stores_checked_signatures_only [OF _ _ _ _ run, of None] inset
    by (auto simp: sample_engine_def sample_signing_parameters_def)
  with run show ?thesis by blast
qed

end
