(* ===== verification/Sql_Storage.thy ===== *)
theory Sql_Storage
  imports Wire_Properties
begin

text \<open>
  The database of a node (\<open>dkg-gadget/src/db/sql_storage.rs\<close>, opened in \<open>dkg-gadget/src/lib.rs\<close>): the
  statements it sends to SQLite, the two operations of the interface, and what becomes of a
  generated share. The driver is code of another library: the record \<open>sql_driver\<close>.
\<close>

section \<open>Statements\<close>

text \<open>
  The texts of the statements by their parts. A table has its columns with their types and says
  whether a comma follows the last one; an insertion has its columns and the number of parameters
  after \<open>VALUES\<close>. Values are numbers, here those of the signed 64-bit type, and texts.
\<close>

datatype sql_statement =
    SqlBegin
  | SqlCommit
  | CreateTableIfNotExists string "(string \<times> string) list" bool
  | CreateIndexIfNotExists string string "string list"
  | InsertInto string "string list" nat
  | SelectWhere string string string

datatype sql_value = SqlInteger int | SqlText bytes

definition create_database_if_not_exists :: "sql_statement list" where
  "create_database_if_not_exists =
     [SqlBegin,
      CreateTableIfNotExists ''dkg_keys''
        [(''id'', ''INTEGER PRIMARY KEY''), (''session_id'', ''INTEGER NOT NULL''), (''local_key'', ''BLOB NOT NULL'')] True,
      SqlCommit]"

definition create_indexes_if_not_exist :: "sql_statement list" where
  "create_indexes_if_not_exist =
     [SqlBegin, CreateIndexIfNotExists ''session_id_index'' ''dkg_keys'' [''session_id''], SqlCommit]"

section \<open>The connection\<close>

record sqlite_backend_config =
  cfg_path :: string
  create_if_missing :: bool
  thread_count :: u32
  cache_size :: u64

record connect_settings =
  cs_path :: string
  cs_create :: bool
  cs_busy_seconds :: nat
  cs_pragmas :: "(string \<times> string) list"
  cs_journal_mode :: string
  cs_synchronous :: string

text \<open>
  The driver on databases \<open>'d\<close>: whether it takes a path, the pool with lazy connections, the execution
  of statements with their arguments, which may fail, the first value of the first row of a query, if
  the query does not fail, and transactions. A transaction that is dropped is rolled back.
\<close>

record 'd sql_driver =
  valid_path :: "string \<Rightarrow> bool"
  connect_lazy :: "connect_settings \<Rightarrow> u32 \<Rightarrow> 'd"
  sql_execute :: "sql_statement list \<Rightarrow> sql_value list \<Rightarrow> 'd \<Rightarrow> bool \<times> 'd"
  fetch_optional :: "sql_statement \<Rightarrow> sql_value list \<Rightarrow> 'd \<Rightarrow> sql_value option option"
  tx_begin :: "'d \<Rightarrow> bool \<times> 'd"
  tx_commit :: "'d \<Rightarrow> bool \<times> 'd"
  tx_rollback :: "'d \<Rightarrow> 'd"

fun decimal :: "nat \<Rightarrow> string" where
  "decimal n = (if n < 10 then [char_of (48 + n)] else decimal (n div 10) @ [char_of (48 + n mod 10)])"

declare decimal.simps [simp del]

definition connect_options :: "'d sql_driver \<Rightarrow> sqlite_backend_config \<Rightarrow> connect_settings option" where
  "connect_options drv config =
     (if \<not> valid_path drv (cfg_path config) then None
      else Some \<lparr>cs_path = cfg_path config, cs_create = create_if_missing config, cs_busy_seconds = 8,
        cs_pragmas = [(''cache_size'', ''-'' @ decimal (unat (cache_size config))), (''analysis_limit'', ''1000''),
          (''threads'', decimal (unat (thread_count config))), (''temp_store'', ''memory'')],
        cs_journal_mode = ''Wal'', cs_synchronous = ''Normal''\<rparr>)"

record 'd sql_backend =
  pool :: 'd
  num_ops_timeout :: u32

text \<open>\<open>None\<close> is an error of the driver. A number of operations beyond the signed 32-bit range becomes its largest number.\<close>

definition sql_backend_new ::
  "'d sql_driver \<Rightarrow> sqlite_backend_config \<Rightarrow> u32 \<Rightarrow> u32 option \<Rightarrow> 'd sql_backend option" where
  "sql_backend_new drv config pool_size timeout =
     (case connect_options drv config of
        None \<Rightarrow> None
      | Some settings \<Rightarrow>
          (case sql_execute drv create_database_if_not_exists [] (connect_lazy drv settings pool_size) of
             (False, _) \<Rightarrow> None
           | (True, d1) \<Rightarrow>
               (case sql_execute drv create_indexes_if_not_exist [] d1 of
                  (False, _) \<Rightarrow> None
                | (True, d2) \<Rightarrow>
                    Some \<lparr>pool = d2,
                      num_ops_timeout = (case timeout of None \<Rightarrow> 0 | Some n \<Rightarrow> if unat n < 2 ^ 31 then n else 2 ^ 31 - 1)\<rparr>)))"

text \<open>Joining an absolute path replaces the first one.\<close>

definition path_join :: "string \<Rightarrow> string \<Rightarrow> string" where
  "path_join a b =
     (if b \<noteq> [] \<and> hd b = CHR ''/'' then b
      else if a = [] \<or> last a = CHR ''/'' then a @ b else a @ ''/'' @ b)"

text \<open>The start of the gadget: the result is unwrapped, so \<open>None\<close> is a panic.\<close>

definition start_database :: "'d sql_driver \<Rightarrow> string \<Rightarrow> 'd sql_backend option" where
  "start_database drv db_path =
     sql_backend_new drv
       \<lparr>cfg_path = path_join (path_join ''sqlite:///'' db_path) ''frontier.db3'', create_if_missing = True,
        thread_count = 4, cache_size = 20480\<rparr> 1 None"

section \<open>The interface\<close>

text \<open>The session is cast to the signed type. A missing row is an error; a row that does not decode panics.\<close>

definition sql_get_local_key :: "'d sql_driver \<Rightarrow> 'k vault \<Rightarrow> u64 \<Rightarrow> 'd sql_backend \<Rightarrow> (dkg_error, 'k option) result" where
  "sql_get_local_key drv v session_id b =
     (case fetch_optional drv (SelectWhere ''local_key'' ''dkg_keys'' ''session_id'') [SqlInteger (sint session_id)] (pool b) of
        Some (Some (SqlText local_key_json)) \<Rightarrow>
          (case from_json v local_key_json of Some local_key \<Rightarrow> Ok (Some local_key) | None \<Rightarrow> Panic)
      | Some (Some (SqlInteger _)) \<Rightarrow> Panic
      | Some None \<Rightarrow> Err LocalKeyNotFound
      | None \<Rightarrow> Err LocalKeyNotFound)"

definition sql_store_local_key ::
  "'d sql_driver \<Rightarrow> 'k vault \<Rightarrow> u64 \<Rightarrow> 'k \<Rightarrow> 'd sql_backend \<Rightarrow> (dkg_error, unit) result \<times> 'd sql_backend" where
  "sql_store_local_key drv v session_id local_key b =
     (case tx_begin drv (pool b) of
        (False, d1) \<Rightarrow> (Err StoringLocalKeyFailed, b\<lparr>pool := d1\<rparr>)
      | (True, d1) \<Rightarrow>
          (case to_json v local_key of
             None \<Rightarrow> (Panic, b\<lparr>pool := tx_rollback drv d1\<rparr>)
           | Some local_key_json \<Rightarrow>
               (case sql_execute drv [InsertInto ''dkg_keys'' [''session_id'', ''local_key''] 1]
                       [SqlInteger (sint session_id), SqlText local_key_json] d1 of
                  (False, d2) \<Rightarrow> (Err StoringLocalKeyFailed, b\<lparr>pool := tx_rollback drv d2\<rparr>)
                | (True, d2) \<Rightarrow>
                    (case tx_commit drv d2 of
                       (False, d3) \<Rightarrow> (Err StoringLocalKeyFailed, b\<lparr>pool := d3\<rparr>)
                     | (True, d3) \<Rightarrow> (Ok (), b\<lparr>pool := d3\<rparr>)))))"

section \<open>No share is kept\<close>

text \<open>
  What SQLite documents: its grammar has no comma after the last column of a table, and an insertion
  has as many values as it names columns. Statements that break this are errors.
\<close>

definition sqlite_grammar :: "'d sql_driver \<Rightarrow> bool" where
  "sqlite_grammar drv \<longleftrightarrow>
     (\<forall>sts t cols args d. CreateTableIfNotExists t cols True \<in> set sts \<longrightarrow> \<not> fst (sql_execute drv sts args d))"

definition sqlite_arity :: "'d sql_driver \<Rightarrow> bool" where
  "sqlite_arity drv \<longleftrightarrow>
     (\<forall>sts t cols n args d. InsertInto t cols n \<in> set sts \<longrightarrow> n \<noteq> length cols \<longrightarrow> \<not> fst (sql_execute drv sts args d))"

lemma start_database_fails:
  assumes "sqlite_grammar drv"
  shows "start_database drv db_path = None"
proof -
  have "\<not> fst (sql_execute drv create_database_if_not_exists args d)" for args d
    using assms unfolding sqlite_grammar_def create_database_if_not_exists_def by (metis list.set_intros)
  then have "sql_execute drv create_database_if_not_exists args d \<noteq> (True, d1)" for args d d1
    by (metis fst_conv)
  then show ?thesis
    by (auto simp: start_database_def sql_backend_new_def split: option.split prod.split bool.split)
qed

lemma sql_store_fails:
  assumes "sqlite_arity drv" and "to_json v k \<noteq> None"
  shows "\<exists>b'. sql_store_local_key drv v session_id k b = (Err StoringLocalKeyFailed, b')"
proof -
  have "\<not> fst (sql_execute drv [InsertInto ''dkg_keys'' [''session_id'', ''local_key''] 1] args d)" for args d
    using assms(1) by (simp add: sqlite_arity_def)
  then have "sql_execute drv [InsertInto ''dkg_keys'' [''session_id'', ''local_key''] 1] args d \<noteq> (True, d1)" for args d d1
    by (metis fst_conv)
  then show ?thesis
    using assms(2) by (auto simp: sql_store_local_key_def split: prod.splits bool.splits)
qed

text \<open>
  C39. A node keeps no share. The statement that creates its table has a comma after the last column, so opening the
  database fails and the node panics when it starts the gadget. And were the database open, the statement
  that stores a share names two columns and has one value: a key generation that ends with a share fails with
  an error, is not completed, and leaves the worker as it was, so that no key is announced.
\<close>

theorem no_node_keeps_a_share:
  assumes "sqlite_grammar drv" and "sqlite_arity drv" and "to_json v k \<noteq> None"
    and "keygen_new (ap_party_i p) threshold (of_nat (length (ap_best_authorities p))) = None"
    and "\<forall>e \<in> set es. fatal_error critical error_text e = None"
  shows "start_database drv db_path = None \<and>
    (\<exists>b' st'. keygen_protocol y (sql_store_local_key drv v) share_key critical error_text keygen_new p threshold True
        (map Inl es @ Inr k # runs) (b, w, st) = (Some (Err StoringLocalKeyFailed), b', w, st') \<and> \<not> is_completed st')"
proof
  show "start_database drv db_path = None"
    by (rule start_database_fails [OF assms(1)])
  obtain b' where "sql_store_local_key drv v (ap_session_id p) k b = (Err StoringLocalKeyFailed, b')"
    using sql_store_fails [OF assms(2,3)] by blast
  moreover have "\<not> is_completed (set_status KeygenStatus st)"
    by (simp add: is_completed_def set_status_def)
  ultimately show "\<exists>b' st'. keygen_protocol y (sql_store_local_key drv v) share_key critical error_text keygen_new p threshold True
        (map Inl es @ Inr k # runs) (b, w, st) = (Some (Err StoringLocalKeyFailed), b', w, st') \<and> \<not> is_completed st'"
    by (simp add: keygen_protocol_def assms(4) protocol_loop_finishes [OF assms(5)] keygen_on_finish_def Let_def)
qed

text \<open>A driver on one table of sessions and shares, with its copy during a transaction.\<close>

fun sample_statement :: "sql_value list \<Rightarrow> sql_statement \<Rightarrow> bool" where
  "sample_statement args (CreateTableIfNotExists _ _ comma) = (\<not> comma)"
| "sample_statement args (InsertInto _ cols n) = (n = length cols \<and> length args = n)"
| "sample_statement args _ = True"

definition sample_driver :: "(sql_value list list) sql_driver" where
  "sample_driver = \<lparr>valid_path = (\<lambda>_. True), connect_lazy = (\<lambda>_ _. []),
     sql_execute = (\<lambda>sts args d. if list_all (sample_statement args) sts
       then (True, if args = [] then d else d @ [args]) else (False, d)),
     fetch_optional = (\<lambda>_ args d. Some (map_option (\<lambda>r. r ! 1) (List.find (\<lambda>r. [hd r] = args) d))),
     tx_begin = (\<lambda>d. (True, d)), tx_commit = (\<lambda>d. (True, d)), tx_rollback = (\<lambda>d. d)\<rparr>"

lemma sample_driver_ok: "sqlite_grammar sample_driver" "sqlite_arity sample_driver"
  by (auto simp: sqlite_grammar_def sqlite_arity_def sample_driver_def list_all_iff intro!: bexI)

theorem no_node_keeps_a_share_witness:
  "start_database sample_driver ''data'' = None \<and>
   (\<exists>b' st'. keygen_protocol sample_report_net (sql_store_local_key sample_driver sample_vault) (\<lambda>k. k) (\<lambda>e. e) (\<lambda>e. []) (\<lambda>i t n. None)
       sample_async_parameters 1 True [Inl (RecvError False), Inr [9]] (\<lparr>pool = [], num_ops_timeout = 0\<rparr>, worker_new None, new_protocol) =
       (Some (Err StoringLocalKeyFailed), b', worker_new None, st'))"
  using no_node_keeps_a_share [OF sample_driver_ok, where v = sample_vault and k = "[9]" and keygen_new = "\<lambda>i t n. None"
      and p = sample_async_parameters and threshold = 1 and es = "[RecvError False]" and critical = "\<lambda>e. e" and error_text = "\<lambda>e. []"
      and db_path = "''data''" and y = sample_report_net and share_key = "\<lambda>k. k" and runs = "[]" and b = "\<lparr>pool = [], num_ops_timeout = 0\<rparr>"
      and w = "worker_new None" and st = new_protocol]
  by (auto simp: sample_vault_def)

end
