(* ===== verification/Spec2Isabelle.thy ===== *)
theory Spec2Isabelle
  imports Primitives_Correct Proposals_Correct Handler_Properties Bridge_Properties Voters_Correct Runtime_Rotation
    Signing_Properties Keygen_Properties Gossip_Properties Worker_Properties Signing_Run Sql_Storage
begin

text \<open>
  A verification of the distributed key generation protocol for Substrate chains: the pallets of the
  chain, which keep the DKG keys, the votes on proposals and the queue of proposals to sign, and the
  node that takes part in key generations and signings (\<open>dkg-gadget\<close>).

  \<^bold>\<open>The parts and how they interact.\<close> Proposers vote on proposals in \<open>pallets/dkg-proposals\<close>; an approved
  proposal goes to \<open>pallets/dkg-proposal-handler\<close>, which collects proposals of one chain in batches. The
  nodes read the queued batches, sign them together and submit the signed batches; the handler checks
  the signature by the active DKG key, stores the batch and passes its proposals to
  \<open>pallets/bridge-registry\<close>, which keeps connected resources together, and to \<open>pallets/dkg-metadata\<close>,
  where a signed refresh proposal is the signature of the next key. The metadata pallet chooses the authorities
  of a key generation by reputation, takes the generated key, rotates the keys at the end of a
  session, jails authorities that misbehave, and tells the proposals pallet of the new authorities. In a node
  the worker handles finalized blocks and messages; the keygen and the signing manager start
  protocols through work managers; a protocol talks to the other nodes over the gossip engine; at its
  end a share is stored or a signed batch or key is left in the offchain storage, from which the offchain workers of the
  pallets submit it.

  \<^bold>\<open>Conventions.\<close> A struct is a record, an enum a datatype; machine integers are words of their width, with
  saturating, checked and wrapping operations as in the code. A fallible operation returns
  \<open>result\<close>, with \<open>Ok\<close>, \<open>Err\<close> and \<open>Panic\<close>; an operation on storage returns the new state too, and
  \<open>extrinsic\<close> drops the changes of a failed call (\<open>Prelude\<close>, \<open>Dispatch\<close>). A storage map that the code
  iterates over is an association list, whose order of iteration is a parameter. Code that is not in this repository is a
  parameter: the hashes, signature recovery, codecs and proposal formats (record \<open>ext\<close> of \<open>Primitives\<close>), the threshold
  signature library (record \<open>mpc\<close> of \<open>Vote_Stage\<close>, state machines in \<open>Protocol_Wire\<close>), the network and the
  keystore (records \<open>wire\<close> and \<open>net\<close>), the cipher (\<open>vault\<close>) and the SQL driver (\<open>sql_driver\<close>). What is assumed of them is
  a named hypothesis where it is used, and \<open>Sample_Ext\<close>, \<open>Sample_Data\<close> and \<open>Sample_Metadata\<close> and the samples of each theory
  give instances and runs with which the properties are applied.

  \<^bold>\<open>The theories and the code they model.\<close>
  \<^item> \<open>Prelude\<close>, \<open>Dispatch\<close>: the operations of Rust's integers and results; the errors of the pallets.
  \<^item> \<open>Primitives\<close>, \<open>Signatures\<close>, \<open>Decode_Proposals\<close>: \<open>dkg-runtime-primitives\<close> (proposals, payload keys, the codec of
    refresh proposals, signature helpers, and \<open>handlers/\<close>, which decodes the identifier of a proposal).
    Shown in \<open>Primitives_Correct\<close>: the codec is a bijection on 112 bytes, and what each proposal decodes to.
  \<^item> \<open>Dkg_Proposals\<close>: \<open>pallets/dkg-proposals\<close> (\<open>lib.rs\<close>, \<open>types.rs\<close>, \<open>utils.rs\<close>), one definition per call and helper. \<open>Voting\<close>
    has the step relation \<open>p_step\<close>, the invariant of the vote records and the locale
    \<open>unsigned_proposal_sink\<close> for the handler. Shown in \<open>Proposals_Correct\<close>: exactly when a vote is accepted and
    what it changes, stated without the operations of the pallet; nobody votes twice; decisions are final; a rejection is
    right as long as no voter was rotated out, and an example where it is not; enough votes approve.
  \<^item> \<open>Proposal_Handler\<close>: \<open>pallets/dkg-proposal-handler\<close> (\<open>lib.rs\<close>, \<open>functions.rs\<close>, \<open>impls.rs\<close>, \<open>offences.rs\<close>).
    \<open>Handler_Correct\<close> has the invariant of its maps and interprets the locale of \<open>Voting\<close> on the handler;
    \<open>Handler_Signing\<close> has the step relation \<open>h_step\<close>, whose labels carry the arguments of the removal. Shown in
    \<open>Handler_Properties\<close>: the idle hook never panics, the fate of a queued batch, batching loses nothing,
    signed batches are signed by the DKG key, and that a signed batch can be replayed.
  \<^item> \<open>Bridge_Registry\<close>: \<open>pallets/bridge-registry\<close>; \<open>Bridge_Properties\<close> shows that bridges stay disjoint.
  \<^item> \<open>Metadata_State\<close>, \<open>Reputation\<close>, \<open>Voter_Tree\<close>, \<open>Key_Submission\<close>, \<open>Misbehaviour\<close>, \<open>Rotation\<close>, \<open>Metadata_Offchain\<close>:
    \<open>pallets/dkg-metadata\<close>, by concern. \<open>Metadata_Steps\<close> has its step relation \<open>m_step\<close> and \<open>Metadata_Invariant\<close> and
    \<open>Metadata_Refresh\<close> its invariants. Shown in \<open>Rotation_Correct\<close> and \<open>Voters_Correct\<close>: the storage stays well
    typed, keys and set identifiers agree, a stored refresh signature came with the encoding of the refresh proposal of
    the next key, a stored key has a quorum, the chosen authorities are the best, and the loops of the Merkle tree end, compute the
    root of the perfect tree and bind the voters whose keys parse.
  \<^item> \<open>Runtime_Rotation\<close>: the three pallets as \<open>standalone/runtime/src/lib.rs\<close> configures them; a submitted key
    becomes the active key.
  \<^item> \<open>Dkg_Messages\<close>, \<open>Protocol_Remote\<close>, \<open>Work_Manager\<close>, \<open>Signing_Manager\<close>, \<open>Keygen_Manager\<close>: messages, party numbers, the handle of a
    protocol, and \<open>signing_manager/\<close> and \<open>keygen_manager/\<close> of the gadget. \<open>Work_Correct\<close>, \<open>Signing_Correct\<close>,
    \<open>Signing_Runs\<close> and \<open>Signing_Properties\<close> show that jobs are unique and that the signing sets take turns;
    \<open>Keygen_Properties\<close> when a key generation starts.
  \<^item> \<open>Gossip_Engine\<close>: \<open>gossip_engine/network.rs\<close>; \<open>Gossip_Correct\<close>, \<open>Gossip_Network\<close> and \<open>Gossip_Properties\<close> show that
    messages flood a network and that what a node remembers is bounded.
  \<^item> \<open>Dkg_Worker\<close>: \<open>worker.rs\<close>, \<open>gossip_messages/\<close> and \<open>storage/\<close>. \<open>Worker_Properties\<close> and \<open>Worker_Reports\<close> show how a key and
    reports reach the chain and how the worker follows the sessions, and where it does not.
  \<^item> \<open>Vote_Stage\<close>, \<open>Vote_Properties\<close>: the voting stage of a signing (\<open>async_protocols/ecdsa/sign/handler.rs\<close>), from votes
    to the accepted batch. \<open>Protocol_Wire\<close>, \<open>Wire_Properties\<close>, \<open>Signing_Run\<close>: what a protocol sends and receives
    (\<open>async_protocols/mod.rs\<close>, \<open>state_machine_wrapper.rs\<close> and the \<open>state_machine.rs\<close> files), each message arriving once; and
    two places where the numbering of a signing set is taken for that of the key generation.
  \<^item> \<open>Local_Keys\<close>, \<open>Sql_Storage\<close>: \<open>db/\<close>, with the interface of a database as the locale \<open>dkg_db_backend\<close>. The database in memory and
    the one in the offchain storage keep its contract and are interpretations of it. The node builds the
    third one, on SQLite, which does not: its table cannot be created and its insertion is refused, so no share is kept.
  \<^item> This theory: the two pallets of proposals together.

  \<^bold>\<open>Bounds and fuel.\<close> No definition has fuel. Loops are structural recursion or have a termination proof; the padding loop of the
  voter tree is a partial function, shown to return for up to \<open>2 ^ 31\<close> voters. Loops over events of the
  outside (messages, runs of a protocol, blocks) recurse over the list of these events. Where a sum of 32-bit counters could
  wrap, the bound under which it does not is a hypothesis.

  \<^bold>\<open>Not modelled.\<close> The FROST module (\<open>dkg_modules/wt_frost.rs\<close>), for which no manager makes parameters; the event loops,
  channels and tasks that call the handlers, for which sequences of steps stand; metrics, logging, weights,
  benchmarks, tests, the mock chain and the test orchestrator; the RPC interfaces; the node, its command
  line and the relayer gadget, which start services of other repositories; \<open>dkg-primitives/src/keys.rs\<close>, which nothing
  calls, and \<open>mmr.rs\<close>, which is not compiled; the cryptography of the threshold signature library.
\<close>

section \<open>Approval reaches the handler exactly once\<close>

text \<open>
  C1. The proposals pallet running on the proposal handler: from any genesis of the pallet and an
  empty handler, after any sequence of votes, evaluations, administrative calls and changes of the
  authority set, the handler holds exactly one copy of every approved proposal and nothing else.
\<close>

theorem approved_proposals_are_stored_once:
  assumes "proposals_genesis_build cfg x g = Some s0" and "0 < max_proposals_per_batch hcfg"
    and "p_steps cfg x (\<lambda>now. handle_unsigned_proposal hcfg x now) False (s0, empty_handler_state) (s, h)"
  shows "count (stored h) p = (if approved s p then 1 else 0)"
proof -
  have empty: "votes s0 = Map.empty"
    using proposals_inv_genesis [OF assms(1)] by blast
  have keys: "keys_ok x s0" and new: "\<not> approved s0 p"
    by (simp_all add: keys_ok_def approved_def empty)
  have ok: "handler_ok hcfg empty_handler_state"
    using assms(2) by (simp add: handler_ok_def handler_inv_empty)
  have "count (stored h) p = count (stored empty_handler_state) p + (if approved s p \<and> \<not> approved s0 p then 1 else 0)"
    using hs.handover_steps [OF assms(3), of p] keys ok by simp
  then show ?thesis
    using new by (simp add: stored_def empty_handler_state_def)
qed

theorem approved_proposals_are_stored_once_witness:
  "\<exists>s. p_steps sample_cfg sample_ext (\<lambda>now. handle_unsigned_proposal sample_hcfg sample_ext now) False
       (sample_s0, empty_handler_state) (s, sample_h1) \<and> approved s sample_proposal \<and>
     count (stored sample_h1) sample_proposal = 1"
proof -
  obtain s1 where s1: "p_step sample_cfg sample_ext (\<lambda>now. handle_unsigned_proposal sample_hcfg sample_ext now) False
       (sample_s0, empty_handler_state) (s1, sample_h1)"
    and v: "votes s1 (Evm 5, 7, sample_proposal) = Some sample_v1"
    using sample_first_vote [where hup = "\<lambda>now. handle_unsigned_proposal sample_hcfg sample_ext now",
        OF sample_handle_unsigned] by blast
  have "approved s1 sample_proposal"
    unfolding approved_def using v by (intro exI conjI, assumption) (simp add: sample_v1_def)
  with approved_proposals_are_stored_once [OF sample_genesis_build _ r_into_rtranclp, OF _ s1, of sample_proposal] s1
  show ?thesis by auto
qed

end
